(* ===== verification/Shyam_Prelude.thy ===== *)
theory Shyam_Prelude
  imports Main "HOL-Library.AList" "HOL-Library.Char_ord" "HOL-Library.List_Lexorder"
    "HOL-Library.Product_Lexorder"
begin

section \<open>Prelude: Python values, exceptions, strings and dictionaries\<close>

text \<open>
  What the components share. A Python dictionary is insertion ordered, so it is an
  association list: \<open>AList.update\<close> replaces a value in place or appends a new key, as
  \<open>d[k] = v\<close> does, and \<open>AList.delete\<close> is \<open>del d[k]\<close>. An exception is a class of the
  source's hierarchy with its message, and an operation that may raise returns
  \<open>exn + 'a\<close>. Strings are lists of characters and the character classes are those of
  ASCII. Time stamps are microseconds (\<open>int\<close>) and are arguments of the operations
  that read the clock, as the identifiers drawn by \<open>uuid4\<close> are.
\<close>

named_theorems dict_simps \<open>lookup, membership and order of dictionaries after an update\<close>
named_theorems exn_simps \<open>evaluation of the exception hierarchy\<close>

type_synonym time = int

subsection \<open>Exceptions\<close>

text \<open>
  The classes the source raises or catches, one enumeration for each package; the first
  constructor of a package's enumeration is its base class.
\<close>

datatype builtin_class =
    Exception | ValueError | TypeError | KeyError | RuntimeError | OSError
  | IndexError | AttributeError | AssertionError | FileNotFoundError | NotADirectoryError
  | NotImplementedError | ValidationError | JSONDecodeError | URLError | HTTPError

datatype capability_class = CapabilityError | DuplicateCapabilityError | CapabilityNotFoundError

datatype provider_class = ProviderError | DuplicateProviderError | ProviderNotFoundError

datatype composite_class = CompositeError | CompositeDefinitionError | CompositeInputError
  | CompositeBindingError | CompositeNotFoundError

datatype workflow_class = WorkflowError | WorkflowExecutionError | StepExecutionError
  | ExecutorNotFoundError | NavigationTargetNotFoundError | Composite composite_class

datatype transition_class = InvalidStateTransitionError | InvalidWorkflowStateTransitionError
  | InvalidStepStateTransitionError

datatype continuity_class = ContinuityError | InvalidContinuityTransitionError
  | TargetIneligibleError | ArtifactTransferError | ContinuationRejectedError
  | DuplicateContinuityError

datatype bootstrap_class = BootstrapError | BootstrapRejectedError | BootstrapTimeoutError
  | RecoveryError

datatype identity_class = IdentityError | IdentityCorruptionError

datatype trust_class = TrustStoreError | TrustStoreCorruptionError

datatype zarya_class = ZaryaClientError | ZaryaConnectionError | ZaryaAuthenticationError
  | ZaryaProtocolError | ZaryaToolNotAllowedError | ZaryaVerificationError
  | ZaryaBusyError | ZaryaUnavailableError

datatype flux_class = FluxClientError | FluxConnectionError | FluxProtocolError
  | FluxPeerNotFoundError | FluxTransferError | FluxUnavailableError

datatype exn_class = Builtin builtin_class | Transition transition_class
  | Capability_Exn capability_class | Provider_Exn provider_class
  | Workflow_Exn workflow_class | Continuity_Exn continuity_class
  | Bootstrap_Exn bootstrap_class | Identity_Exn identity_class | Trust_Exn trust_class
  | Zarya_Exn zarya_class | Flux_Exn flux_class

definition builtin_base :: "builtin_class \<Rightarrow> builtin_class" where
  "builtin_base c = (case c of
      FileNotFoundError \<Rightarrow> OSError | NotADirectoryError \<Rightarrow> OSError
    | NotImplementedError \<Rightarrow> RuntimeError
    | ValidationError \<Rightarrow> ValueError | JSONDecodeError \<Rightarrow> ValueError
    | URLError \<Rightarrow> OSError | HTTPError \<Rightarrow> URLError
    | _ \<Rightarrow> Exception)"

text \<open>\<open>Exception\<close> is its own base here.\<close>

definition base_class :: "exn_class \<Rightarrow> exn_class" where
  "base_class c = (case c of
      Builtin b \<Rightarrow> Builtin (builtin_base b)
    | Transition t \<Rightarrow> Builtin RuntimeError
    | Capability_Exn e \<Rightarrow>
        (if e = CapabilityError then Builtin Exception else Capability_Exn CapabilityError)
    | Provider_Exn e \<Rightarrow>
        (if e = ProviderError then Builtin Exception else Provider_Exn ProviderError)
    | Workflow_Exn e \<Rightarrow> (case e of
          WorkflowError \<Rightarrow> Builtin Exception
        | Composite CompositeError \<Rightarrow> Workflow_Exn WorkflowError
        | Composite _ \<Rightarrow> Workflow_Exn (Composite CompositeError)
        | _ \<Rightarrow> Workflow_Exn WorkflowError)
    | Continuity_Exn e \<Rightarrow>
        (if e = ContinuityError then Builtin Exception else Continuity_Exn ContinuityError)
    | Bootstrap_Exn e \<Rightarrow>
        (if e = BootstrapError then Builtin Exception else Bootstrap_Exn BootstrapError)
    | Identity_Exn e \<Rightarrow>
        (if e = IdentityError then Builtin Exception else Identity_Exn IdentityError)
    | Trust_Exn e \<Rightarrow>
        (if e = TrustStoreError then Builtin Exception else Trust_Exn TrustStoreError)
    | Zarya_Exn e \<Rightarrow>
        (if e = ZaryaClientError then Builtin Exception else Zarya_Exn ZaryaClientError)
    | Flux_Exn e \<Rightarrow>
        (if e = FluxClientError then Builtin Exception else Flux_Exn FluxClientError))"

text \<open>\<open>issubclass\<close>: the hierarchy is at most four levels deep below \<open>Exception\<close>.\<close>

definition subclass_of :: "exn_class \<Rightarrow> exn_class \<Rightarrow> bool" where
  "subclass_of c d \<longleftrightarrow> c = d \<or> base_class c = d \<or> base_class (base_class c) = d
     \<or> base_class (base_class (base_class c)) = d
     \<or> base_class (base_class (base_class (base_class c))) = d"

datatype exn = Exn (exn_class: exn_class) (exn_msg: string)

definition isinst :: "exn \<Rightarrow> exn_class \<Rightarrow> bool" where
  "isinst e c \<longleftrightarrow> subclass_of (exn_class e) c"

type_synonym 'a result = "exn + 'a"

lemmas isinst_eval [exn_simps] = isinst_def subclass_of_def base_class_def builtin_base_def

lemma base_class_closed:
  "base_class (base_class (base_class (base_class c))) = Builtin Exception"
  by (cases c)
    (simp_all add: base_class_def builtin_base_def
      split: builtin_class.split workflow_class.split composite_class.split)

lemma isinst_Exception [simp]: "isinst e (Builtin Exception)"
  by (simp add: isinst_def subclass_of_def base_class_closed)

subsection \<open>Dynamic values\<close>

text \<open>The values a field of type \<open>Any\<close> holds: what JSON carries (floats apart).\<close>

datatype pyval = PNone | PBool bool | PInt int | PStr string
  | PList "pyval list" | PDict "(string \<times> pyval) list"

fun truthy :: "pyval \<Rightarrow> bool" where
  "truthy PNone = False"
| "truthy (PBool b) = b"
| "truthy (PInt i) = (i \<noteq> 0)"
| "truthy (PStr s) = (s \<noteq> [])"
| "truthy (PList xs) = (xs \<noteq> [])"
| "truthy (PDict d) = (d \<noteq> [])"

text \<open>\<open>a or b\<close> on values, on strings and on optional strings.\<close>

definition py_or :: "pyval \<Rightarrow> pyval \<Rightarrow> pyval" where
  "py_or a b = (if truthy a then a else b)"

definition str_or :: "string \<Rightarrow> string \<Rightarrow> string" where
  "str_or a b = (if a = [] then b else a)"

definition truthy_opt :: "string option \<Rightarrow> bool" where
  "truthy_opt s \<longleftrightarrow> s \<noteq> None \<and> s \<noteq> Some []"

definition opt_or :: "string option \<Rightarrow> string option \<Rightarrow> string option" where
  "opt_or a b = (if truthy_opt a then a else b)"

subsection \<open>Dictionaries\<close>

type_synonym ('k, 'v) dict = "('k \<times> 'v) list"

abbreviation dget :: "('k, 'v) dict \<Rightarrow> 'k \<Rightarrow> 'v option" where
  "dget d k \<equiv> map_of d k"

abbreviation dset :: "'k \<Rightarrow> 'v \<Rightarrow> ('k, 'v) dict \<Rightarrow> ('k, 'v) dict" where
  "dset \<equiv> AList.update"

abbreviation ddel :: "'k \<Rightarrow> ('k, 'v) dict \<Rightarrow> ('k, 'v) dict" where
  "ddel \<equiv> AList.delete"

abbreviation dkeys :: "('k, 'v) dict \<Rightarrow> 'k list" where
  "dkeys d \<equiv> map fst d"

abbreviation dvals :: "('k, 'v) dict \<Rightarrow> 'v list" where
  "dvals d \<equiv> map snd d"

definition dmem :: "'k \<Rightarrow> ('k, 'v) dict \<Rightarrow> bool" where
  "dmem k d \<longleftrightarrow> dget d k \<noteq> None"

text \<open>\<open>d.get(k, default)\<close>, \<open>d.update(e)\<close>, and the well-formedness every operation keeps.\<close>

definition dget_or :: "('k, 'v) dict \<Rightarrow> 'k \<Rightarrow> 'v \<Rightarrow> 'v" where
  "dget_or d k x = (case dget d k of None \<Rightarrow> x | Some v \<Rightarrow> v)"

fun dupdate :: "('k, 'v) dict \<Rightarrow> ('k, 'v) dict \<Rightarrow> ('k, 'v) dict" where
  "dupdate d [] = d"
| "dupdate d ((k, v) # e) = dupdate (dset k v d) e"

definition dict_ok :: "('k, 'v) dict \<Rightarrow> bool" where
  "dict_ok d \<longleftrightarrow> distinct (dkeys d)"

lemma dget_dset [dict_simps, simp]: "dget (dset k v d) k' = (if k' = k then Some v else dget d k')"
  by (simp add: update_conv')

lemma dget_ddel [dict_simps, simp]: "dget (ddel k d) k' = (if k' = k then None else dget d k')"
  by (simp add: delete_conv')

lemma dmem_dset [dict_simps, simp]: "dmem k' (dset k v d) \<longleftrightarrow> k' = k \<or> dmem k' d"
  by (simp add: dmem_def)

lemma dmem_ddel [dict_simps, simp]: "dmem k' (ddel k d) \<longleftrightarrow> k' \<noteq> k \<and> dmem k' d"
  by (simp add: dmem_def)

lemma dmem_keys: "dmem k d \<longleftrightarrow> k \<in> set (dkeys d)"
proof -
  have "dget d k = None \<longleftrightarrow> k \<notin> fst ` set d" by (rule map_of_eq_None_iff)
  then show ?thesis by (simp add: dmem_def)
qed

lemma dict_ok_empty [simp]: "dict_ok []"
  by (simp add: dict_ok_def)

lemma dict_ok_dset [simp]: "dict_ok d \<Longrightarrow> dict_ok (dset k v d)"
  by (simp add: dict_ok_def distinct_update)

lemma dict_ok_ddel [simp]: "dict_ok d \<Longrightarrow> dict_ok (ddel k d)"
  by (simp add: dict_ok_def distinct_delete)

lemma dict_ok_dupdate [simp]: "dict_ok d \<Longrightarrow> dict_ok (dupdate d e)"
  by (induction d e rule: dupdate.induct) auto

lemma dget_dupdate:
  "dict_ok e \<Longrightarrow> dget (dupdate d e) k = (case dget e k of None \<Rightarrow> dget d k | Some v \<Rightarrow> Some v)"
proof (induction d e rule: dupdate.induct)
  case (1 d)
  then show ?case by simp
next
  case (2 d k' v e)
  then have "dict_ok e" and "map_of e k' = None"
    by (auto simp: dict_ok_def map_of_eq_None_iff)
  with 2 show ?case
    by (auto split: option.splits)
qed

text \<open>Overwriting a key keeps the order of the keys; a new key goes last.\<close>

lemma dkeys_dset [dict_simps]:
  "dkeys (dset k v d) = (if dmem k d then dkeys d else dkeys d @ [k])"
  by (induction d) (auto simp: dmem_def)

lemma dset_new: "\<not> dmem k d \<Longrightarrow> dset k v d = d @ [(k, v)]"
  by (induction d) (auto simp: dmem_def split: if_splits)

lemma length_dset: "length (dset k v d) = (if dmem k d then length d else Suc (length d))"
  by (induction d) (auto simp: dmem_def)

lemma length_ddel:
  "dict_ok d \<Longrightarrow> dmem k d \<Longrightarrow> Suc (length (ddel k d)) = length d"
proof (induction d)
  case Nil
  then show ?case by (simp add: dmem_def)
next
  case (Cons p d)
  obtain a b where p: "p = (a, b)" by force
  from Cons.prems have ok: "dict_ok d" and fresh: "a \<notin> fst ` set d"
    by (simp_all add: dict_ok_def p)
  show ?case
  proof (cases "a = k")
    case True
    with fresh have "ddel k d = d" by (simp add: delete_idem)
    with True show ?thesis by (simp add: p)
  next
    case False
    with Cons.prems have "dmem k d" by (simp add: dmem_def p)
    with ok Cons.IH have "Suc (length (ddel k d)) = length d" by simp
    with False show ?thesis by (simp add: p)
  qed
qed

lemma dict_ok_mem: "dict_ok d \<Longrightarrow> (k, v) \<in> set d \<longleftrightarrow> dget d k = Some v"
  by (simp add: dict_ok_def)

lemma dvals_mem: "dict_ok d \<Longrightarrow> v \<in> set (dvals d) \<longleftrightarrow> (\<exists>k. dget d k = Some v)"
  by (force simp: dict_ok_mem [symmetric])

lemma dict_ok_map [simp]: "dict_ok (map (\<lambda>(k, v). (k, f k v)) d) = dict_ok d"
  by (simp add: dict_ok_def comp_def case_prod_unfold)

lemma dget_map: "dget (map (\<lambda>(k, v). (k, f k v)) d) k = map_option (f k) (dget d k)"
  by (induction d) auto

subsection \<open>Strings\<close>

fun split_on :: "char \<Rightarrow> string \<Rightarrow> string list" where
  "split_on c [] = [[]]"
| "split_on c (x # xs) =
     (if x = c then [] # split_on c xs
      else (case split_on c xs of [] \<Rightarrow> [[x]] | p # ps \<Rightarrow> (x # p) # ps))"

fun join_with :: "string \<Rightarrow> string list \<Rightarrow> string" where
  "join_with sep [] = []"
| "join_with sep [p] = p"
| "join_with sep (p # q # ps) = p @ sep @ join_with sep (q # ps)"

definition char_code :: "char \<Rightarrow> nat" where
  "char_code c = of_char c"

definition is_alpha :: "char \<Rightarrow> bool" where
  "is_alpha c \<longleftrightarrow> (65 \<le> char_code c \<and> char_code c \<le> 90) \<or> (97 \<le> char_code c \<and> char_code c \<le> 122)"

definition is_digit :: "char \<Rightarrow> bool" where
  "is_digit c \<longleftrightarrow> 48 \<le> char_code c \<and> char_code c \<le> 57"

definition is_space :: "char \<Rightarrow> bool" where
  "is_space c \<longleftrightarrow> (9 \<le> char_code c \<and> char_code c \<le> 13) \<or> (28 \<le> char_code c \<and> char_code c \<le> 32)"

definition isidentifier :: "string \<Rightarrow> bool" where
  "isidentifier s = (case s of [] \<Rightarrow> False
     | c # cs \<Rightarrow> (is_alpha c \<or> c = CHR ''_'')
         \<and> list_all (\<lambda>d. is_alpha d \<or> is_digit d \<or> d = CHR ''_'') cs)"

definition isdigit :: "string \<Rightarrow> bool" where
  "isdigit s \<longleftrightarrow> s \<noteq> [] \<and> list_all is_digit s"

definition strip :: "string \<Rightarrow> string" where
  "strip s = rev (dropWhile is_space (rev (dropWhile is_space s)))"

definition lower_char :: "char \<Rightarrow> char" where
  "lower_char c =
     (if 65 \<le> char_code c \<and> char_code c \<le> 90 then char_of (char_code c + 32) else c)"

definition upper_char :: "char \<Rightarrow> char" where
  "upper_char c =
     (if 97 \<le> char_code c \<and> char_code c \<le> 122 then char_of (char_code c - 32) else c)"

definition lower :: "string \<Rightarrow> string" where
  "lower s = map lower_char s"

definition upper :: "string \<Rightarrow> string" where
  "upper s = map upper_char s"

definition starts_with :: "string \<Rightarrow> string \<Rightarrow> bool" where
  "starts_with p s \<longleftrightarrow> take (length p) s = p"

text \<open>\<open>p in s\<close> on strings.\<close>

fun substring :: "string \<Rightarrow> string \<Rightarrow> bool" where
  "substring p [] \<longleftrightarrow> p = []"
| "substring p (x # xs) \<longleftrightarrow> starts_with p (x # xs) \<or> substring p xs"

text \<open>A value between single quotes in a message.\<close>

definition quoted :: "string \<Rightarrow> string" where
  "quoted s = [CHR 0x27] @ s @ [CHR 0x27]"

text \<open>\<open>str(n)\<close> of a number.\<close>

fun nat_str :: "nat \<Rightarrow> string" where
  "nat_str n = (if n < 10 then [char_of (48 + n)]
                else nat_str (n div 10) @ [char_of (48 + n mod 10)])"

definition int_str :: "int \<Rightarrow> string" where
  "int_str i = (if i < 0 then ''-'' @ nat_str (nat (- i)) else nat_str (nat i))"

declare nat_str.simps [simp del]

lemmas str_eval = is_alpha_def is_digit_def is_space_def char_code_def isidentifier_def
  isdigit_def strip_def lower_def lower_char_def upper_def upper_char_def starts_with_def

lemma char_code_lt: "char_code c < 256"
  by (simp add: char_code_def)

lemma char_code_of: "n < 256 \<Longrightarrow> char_code (char_of n) = n"
  by (simp add: char_code_def)

lemma char_of_code [simp]: "char_of (char_code c) = (c :: char)"
  by (simp add: char_code_def)

lemma split_on_nonempty [simp]: "split_on c s \<noteq> []"
  by (induction s) (auto split: list.splits)

lemma split_on_parts: "p \<in> set (split_on c s) \<Longrightarrow> c \<notin> set p"
proof (induction s arbitrary: p)
  case Nil
  then show ?case by simp
next
  case (Cons x xs)
  then show ?case
    by (fastforce split: if_splits list.splits)
qed

text \<open>Splitting and joining are inverse: the text is recovered from its parts.\<close>

lemma join_split: "join_with [c] (split_on c s) = s"
proof (induction s)
  case Nil
  then show ?case by simp
next
  case (Cons x xs)
  obtain p ps where ps: "split_on c xs = p # ps"
    by (metis neq_Nil_conv split_on_nonempty)
  with Cons show ?case by (cases ps) auto
qed

lemma strip_idem [simp]: "strip (strip s) = strip s"
proof -
  have edge: "dropWhile P (rev (dropWhile P (rev u))) = rev (dropWhile P (rev u))"
    if "dropWhile P u = u" for P :: "char \<Rightarrow> bool" and u
  proof (cases "rev (dropWhile P (rev u))")
    case Nil
    then show ?thesis by (simp only: dropWhile.simps)
  next
    case (Cons a as)
    have "\<exists>zs. u = rev (dropWhile P (rev u)) @ zs"
      by (metis rev_append rev_rev_ident takeWhile_dropWhile_id)
    with Cons obtain zs where "u = a # as @ zs" by auto
    with that have "\<not> P a" by (metis dropWhile_eq_self_iff list.sel(1) list.discI)
    with Cons show ?thesis by simp
  qed
  have "dropWhile is_space (dropWhile is_space s) = dropWhile is_space s"
    by (simp add: dropWhile_idem)
  from edge [OF this] show ?thesis
    by (simp add: strip_def dropWhile_idem)
qed

lemma starts_with_append: "starts_with p s \<longleftrightarrow> (\<exists>t. s = p @ t)"
  by (metis append_eq_conv_conj append_take_drop_id starts_with_def)

lemma substring_append: "substring p s \<longleftrightarrow> (\<exists>u v. s = u @ p @ v)"
proof (induction s)
  case Nil
  then show ?case by auto
next
  case (Cons x xs)
  show ?case
  proof
    assume "substring p (x # xs)"
    then consider "starts_with p (x # xs)" | "substring p xs" by auto
    then show "\<exists>u v. x # xs = u @ p @ v"
    proof cases
      case 1
      then show ?thesis by (metis append_Nil starts_with_append)
    next
      case 2
      then show ?thesis by (metis Cons.IH append_Cons)
    qed
  next
    assume "\<exists>u v. x # xs = u @ p @ v"
    then obtain u v where uv: "x # xs = u @ p @ v" by blast
    show "substring p (x # xs)"
    proof (cases u)
      case Nil
      with uv have "starts_with p (x # xs)" by (auto simp: starts_with_append)
      then show ?thesis by simp
    next
      case (Cons y u')
      with uv have "xs = u' @ p @ v" by simp
      with Cons.IH show ?thesis by auto
    qed
  qed
qed

end
