(* ===== verification/Shyam_Event_Bus.thy ===== *)
theory Shyam_Event_Bus
  imports Shyam_Prelude "HOL-Library.Multiset"
begin

section \<open>The event bus\<close>

text \<open>
  \<open>events/bus.py\<close> and \<open>events/envelope.py\<close>. An event is its class name, identifier, time
  stamp and body; the class hierarchy is the argument \<open>issub\<close> (Python's \<open>issubclass\<close>) and
  \<open>ENV\<close> is the class \<open>EventEnvelope\<close>. A handler is a name with an interpretation
  \<open>run\<close> that may raise and may change a state. \<open>publish\<close> gathers the handlers under the
  lock and awaits them together; \<open>deliver\<close> runs them in the order of the task list, one
  interleaving of handlers that do not suspend.
\<close>

record 'b event =
  ev_event_id :: string
  ev_timestamp :: time
  ev_class :: string
  ev_body :: 'b

record 'b envelope =
  env_event_id :: string
  env_event_type :: string
  env_occurred_at :: time
  env_payload :: "'b event"
  env_source_node_id :: "string option"
  env_metadata :: "(string, pyval) dict"

definition wrap :: "'b event \<Rightarrow> string option \<Rightarrow> (string, pyval) dict option \<Rightarrow> 'b envelope" where
  "wrap e source metadata =
     \<lparr>env_event_id = ev_event_id e, env_event_type = ev_class e, env_occurred_at = ev_timestamp e,
      env_payload = e, env_source_node_id = source,
      env_metadata = (case metadata of None \<Rightarrow> [] | Some m \<Rightarrow> m)\<rparr>"

datatype 'b message = Direct "'b event" | Enveloped "'b envelope"

text \<open>\<open>self._subscribers\<close>: event class to handlers; a missing key reads as no handlers.\<close>

type_synonym 'h bus = "(string, 'h list) dict"

definition subscribe :: "'h bus \<Rightarrow> string \<Rightarrow> 'h \<Rightarrow> 'h bus" where
  "subscribe b ty h =
     (let hs = dget_or b ty [] in
      if h \<notin> set hs then dset ty (hs @ [h]) b else dset ty hs b)"

definition unsubscribe :: "'h bus \<Rightarrow> string \<Rightarrow> 'h \<Rightarrow> bool \<times> 'h bus" where
  "unsubscribe b ty h =
     (let hs = dget_or b ty [] in
      if h \<in> set hs then (True, dset ty (remove1 h hs) b) else (False, dset ty hs b))"

definition handlers_of ::
  "'h bus \<Rightarrow> (string \<Rightarrow> bool) \<Rightarrow> 'b message \<Rightarrow> ('h \<times> 'b message) list" where
  "handlers_of b sel m = concat (map (\<lambda>(ty, hs). if sel ty then map (\<lambda>h. (h, m)) hs else []) b)"

definition is_envelope_type :: "(string \<Rightarrow> string \<Rightarrow> bool) \<Rightarrow> string \<Rightarrow> string \<Rightarrow> bool" where
  "is_envelope_type issub ENV ty \<longleftrightarrow> ty = ENV \<or> issub ty ENV"

text \<open>The task list \<open>publish\<close> builds while it holds the lock.\<close>

fun handlers_to_invoke ::
  "(string \<Rightarrow> string \<Rightarrow> bool) \<Rightarrow> string \<Rightarrow> 'h bus \<Rightarrow> 'b message \<Rightarrow> ('h \<times> 'b message) list" where
  "handlers_to_invoke issub ENV b (Enveloped v) =
     handlers_of b (is_envelope_type issub ENV) (Enveloped v)
     @ handlers_of b (issub (ev_class (env_payload v))) (Direct (env_payload v))"
| "handlers_to_invoke issub ENV b (Direct e) =
     handlers_of b (issub (ev_class e)) (Direct e)
     @ handlers_of b (is_envelope_type issub ENV) (Enveloped (wrap e None None))"

text \<open>\<open>_safe_invoke\<close> drops what the handler raises and keeps what it did before.\<close>

definition safe_invoke ::
  "('h \<Rightarrow> 'b message \<Rightarrow> 's \<Rightarrow> exn option \<times> 's) \<Rightarrow> 'h \<Rightarrow> 'b message \<Rightarrow> 's \<Rightarrow> 's" where
  "safe_invoke run h m s = snd (run h m s)"

definition deliver ::
  "('h \<Rightarrow> 'b message \<Rightarrow> 's \<Rightarrow> exn option \<times> 's) \<Rightarrow> ('h \<times> 'b message) list \<Rightarrow> 's \<Rightarrow> 's" where
  "deliver run tasks s = fold (\<lambda>(h, m). safe_invoke run h m) tasks s"

definition publish ::
  "(string \<Rightarrow> string \<Rightarrow> bool) \<Rightarrow> string \<Rightarrow> ('h \<Rightarrow> 'b message \<Rightarrow> 's \<Rightarrow> exn option \<times> 's)
     \<Rightarrow> 'h bus \<Rightarrow> 'b message \<Rightarrow> 's \<Rightarrow> 's" where
  "publish issub ENV run b m s = deliver run (handlers_to_invoke issub ENV b m) s"

subsection \<open>No handler is subscribed twice to a class\<close>

definition bus_ok :: "'h bus \<Rightarrow> bool" where
  "bus_ok b \<longleftrightarrow> dict_ok b \<and> (\<forall>(ty, hs) \<in> set b. distinct hs)"

lemma bus_ok_empty: "bus_ok []"
  by (simp add: bus_ok_def)

lemma bus_ok_get: "bus_ok b \<Longrightarrow> distinct (dget_or b ty [])"
  by (auto simp: bus_ok_def dget_or_def split: option.split dest: map_of_SomeD)

lemma bus_ok_dset: "bus_ok b \<Longrightarrow> distinct hs \<Longrightarrow> bus_ok (dset ty hs b)"
proof -
  assume ok: "bus_ok b" and d: "distinct hs"
  have "set (dset ty hs b) \<subseteq> insert (ty, hs) (set b)" by (induction b) auto
  with ok d show ?thesis by (fastforce simp: bus_ok_def)
qed

lemma subscribe_ok: "bus_ok b \<Longrightarrow> bus_ok (subscribe b ty h)"
  using bus_ok_get [of b ty] by (auto simp: subscribe_def Let_def intro!: bus_ok_dset)

lemma unsubscribe_ok: "bus_ok b \<Longrightarrow> bus_ok (snd (unsubscribe b ty h))"
  using bus_ok_get [of b ty] by (auto simp: unsubscribe_def Let_def intro!: bus_ok_dset)

lemma subscribe_get:
  "set (dget_or (subscribe b ty h) ty' []) =
     (if ty' = ty then insert h (set (dget_or b ty [])) else set (dget_or b ty' []))"
  by (auto simp: subscribe_def Let_def dget_or_def)

lemma unsubscribe_get:
  "bus_ok b \<Longrightarrow> set (dget_or (snd (unsubscribe b ty h)) ty' []) =
     (if ty' = ty then set (dget_or b ty []) - {h} else set (dget_or b ty' []))
   \<and> (fst (unsubscribe b ty h) \<longleftrightarrow> h \<in> set (dget_or b ty []))"
  using bus_ok_get [of b ty] by (auto simp: unsubscribe_def Let_def dget_or_def)

subsection \<open>Who is told\<close>

lemma handlers_of_mem:
  "bus_ok b \<Longrightarrow> (h, m') \<in> set (handlers_of b sel m) \<longleftrightarrow>
     m' = m \<and> (\<exists>ty. sel ty \<and> h \<in> set (dget_or b ty []))"
proof -
  assume ok: "bus_ok b"
  then have get: "dget b ty = Some hs \<longleftrightarrow> (ty, hs) \<in> set b" for ty hs
    by (simp add: bus_ok_def dict_ok_mem)
  have "h \<in> set (dget_or b ty []) \<longleftrightarrow> (\<exists>hs. dget b ty = Some hs \<and> h \<in> set hs)" for ty
    by (cases "dget b ty") (simp_all add: dget_or_def)
  then have "h \<in> set (dget_or b ty []) \<longleftrightarrow> (\<exists>hs. (ty, hs) \<in> set b \<and> h \<in> set hs)" for ty
    by (simp only: get)
  then show ?thesis by (fastforce simp: handlers_of_def split: if_splits)
qed

lemma deliver_append: "deliver run (xs @ ys) s = deliver run ys (deliver run xs s)"
  by (simp add: deliver_def)

lemma deliver_drop_inert:
  "(\<And>h m s. bad h \<Longrightarrow> snd (run h m s) = s) \<Longrightarrow>
     deliver run (filter (\<lambda>(h, m). \<not> bad h) tasks) s = deliver run tasks s"
  by (induction tasks arbitrary: s) (auto simp: deliver_def safe_invoke_def)

lemma count_mset_map_pair: "distinct hs \<Longrightarrow> count (mset (map (\<lambda>h. (h, m)) hs)) (h, m') = (if m' = m \<and> h \<in> set hs then 1 else 0)"
  by (induction hs) auto

text \<open>How often a task is in the list: once for each of the selected classes its handler is subscribed to.\<close>

lemma count_handlers_of:
  assumes ok: "bus_ok b"
  shows "count (mset (handlers_of b sel m)) (h, m') = (if m' = m then card {ty. sel ty \<and> h \<in> set (dget_or b ty [])} else 0)"
  using ok
proof (induction b)
  case Nil
  then show ?case by (simp add: handlers_of_def dget_or_def)
next
  case (Cons p b)
  obtain ty0 hs where p: "p = (ty0, hs)" by (cases p)
  have ok: "bus_ok b" "distinct hs" "ty0 \<notin> set (dkeys b)" using Cons.prems by (auto simp: bus_ok_def dict_ok_def p)
  have absent: "dget_or b ty0 [] = []"
    using ok(3) map_of_eq_None_iff [of b ty0] by (simp add: dget_or_def)
  let ?S = "{ty. sel ty \<and> h \<in> set (dget_or b ty [])}"
  have "?S \<subseteq> set (dkeys b)"
    using dmem_keys by (fastforce simp: dget_or_def dmem_def split: option.splits)
  then have fin: "finite ?S" by (rule finite_subset) simp
  have split: "{ty. sel ty \<and> h \<in> set (dget_or (p # b) ty [])} = (if sel ty0 \<and> h \<in> set hs then insert ty0 ?S else ?S)"
    using absent by (auto simp: dget_or_def p split: option.splits if_splits)
  have new: "ty0 \<notin> ?S" using absent by simp
  have "count (mset (handlers_of (p # b) sel m)) (h, m')
      = (if m' = m \<and> sel ty0 \<and> h \<in> set hs then 1 else 0) + count (mset (handlers_of b sel m)) (h, m')"
    using ok(2) by (auto simp: handlers_of_def p count_mset_map_pair simp del: mset_map)
  then show ?case using Cons.IH [OF ok(1)] fin new unfolding split by simp
qed

text \<open>The event and the envelope that a publication comes to.\<close>

definition told_event :: "'b message \<Rightarrow> 'b event" where
  "told_event msg = (case msg of Direct e \<Rightarrow> e | Enveloped v \<Rightarrow> env_payload v)"

definition told_envelope :: "'b message \<Rightarrow> 'b envelope" where
  "told_envelope msg = (case msg of Direct e \<Rightarrow> wrap e None None | Enveloped v \<Rightarrow> v)"

lemma publish_count:
  assumes ok: "bus_ok b"
  shows "count (mset (handlers_to_invoke issub ENV b msg)) (h, m) =
    (if m = Direct (told_event msg) then card {ty. issub (ev_class (told_event msg)) ty \<and> h \<in> set (dget_or b ty [])}
     else if m = Enveloped (told_envelope msg) then card {ty. (ty = ENV \<or> issub ty ENV) \<and> h \<in> set (dget_or b ty [])}
     else 0)"
  by (cases msg) (auto simp: count_handlers_of [OF ok] told_event_def told_envelope_def is_envelope_type_def)

text \<open>
  C15. Publishing an event, or an envelope with any source and metadata, calls each handler once for
  every class it is subscribed to that the event is an instance of, with the event, and once for every envelope class it is
  subscribed to, with the envelope or with the event wrapped in one; there are no other calls. So a handler that is
  subscribed to the event's class and to a base class of it hears the event twice. A handler that raises and changes
  nothing affects no other handler: the state after publishing is the same without it.
\<close>

theorem publish_dispatch:
  assumes ok: "bus_ok b"
  shows "(\<forall>h m. count (mset (handlers_to_invoke issub ENV b msg)) (h, m) =
            (if m = Direct (told_event msg)
             then card {ty. issub (ev_class (told_event msg)) ty \<and> h \<in> set (dget_or b ty [])}
             else if m = Enveloped (told_envelope msg)
             then card {ty. (ty = ENV \<or> issub ty ENV) \<and> h \<in> set (dget_or b ty [])}
             else 0))
       \<and> mset (handlers_to_invoke issub ENV b (Enveloped (wrap e None None)))
           = mset (handlers_to_invoke issub ENV b (Direct e))
       \<and> (\<forall>bad. (\<forall>h m s. bad h \<longrightarrow> snd (run h m s) = s) \<longrightarrow>
            publish issub ENV run b msg s =
            deliver run (filter (\<lambda>(h, m). \<not> bad h) (handlers_to_invoke issub ENV b msg)) s)"
proof (intro conjI allI impI)
  show "mset (handlers_to_invoke issub ENV b (Enveloped (wrap e None None)))
           = mset (handlers_to_invoke issub ENV b (Direct e))"
    by (simp add: wrap_def)
  show "publish issub ENV run b msg s =
     deliver run (filter (\<lambda>(h, m). \<not> bad h) (handlers_to_invoke issub ENV b msg)) s"
    if "\<forall>h m s. bad h \<longrightarrow> snd (run h m s) = s" for bad
    unfolding publish_def using that deliver_drop_inert [of bad run] by metis
qed (rule publish_count [OF ok])

text \<open>A handler of the class and of its base class hears the event twice; one of the envelopes hears it once.\<close>

theorem publish_dispatch_witness:
  "let v = \<lparr>env_event_id = ''1'', env_event_type = ''PeerLostEvent'', env_occurred_at = 0,
         env_payload = \<lparr>ev_event_id = ''1'', ev_timestamp = 0, ev_class = ''PeerLostEvent'', ev_body = ()\<rparr>,
         env_source_node_id = Some ''b'', env_metadata = [(''hops'', PInt 1)]\<rparr>;
       b = subscribe (subscribe (subscribe [] ''Event'' (0::nat)) ''PeerLostEvent'' 0) ''EventEnvelope'' 1;
       sub = (\<lambda>c d. c = d \<or> (c, d) = (''PeerLostEvent'', ''Event''))
   in bus_ok b
      \<and> count (mset (handlers_to_invoke sub ''EventEnvelope'' b (Enveloped v))) (0, Direct (env_payload v)) = 2
      \<and> count (mset (handlers_to_invoke sub ''EventEnvelope'' b (Enveloped v))) (1, Enveloped v) = 1"
proof -
  let ?b = "subscribe (subscribe (subscribe [] ''Event'' (0::nat)) ''PeerLostEvent'' 0) ''EventEnvelope'' 1"
  have ok: "bus_ok ?b" by (intro subscribe_ok bus_ok_empty)
  have subs: "set (dget_or ?b ty []) = (if ty = ''Event'' \<or> ty = ''PeerLostEvent'' then {0}
      else if ty = ''EventEnvelope'' then {1} else {})" for ty
    by (simp add: subscribe_get) (simp add: dget_or_def)
  let ?v = "\<lparr>env_event_id = ''1'', env_event_type = ''PeerLostEvent'', env_occurred_at = 0,
         env_payload = \<lparr>ev_event_id = ''1'', ev_timestamp = 0, ev_class = ''PeerLostEvent'', ev_body = ()\<rparr>,
         env_source_node_id = Some ''b'', env_metadata = [(''hops'', PInt 1)]\<rparr> :: unit envelope"
  let ?sub = "\<lambda>c d. c = d \<or> (c, d) = (''PeerLostEvent'', ''Event'')"
  have zero: "{ty. ?sub ''PeerLostEvent'' ty \<and> 0 \<in> set (dget_or ?b ty [])} = {''Event'', ''PeerLostEvent''}"
    and one: "{ty. (ty = ''EventEnvelope'' \<or> ?sub ty ''EventEnvelope'') \<and> 1 \<in> set (dget_or ?b ty [])} = {''EventEnvelope''}"
    unfolding subs by auto
  note told = publish_dispatch [OF ok, where msg = "Enveloped ?v" and issub = ?sub and ENV = "''EventEnvelope''",
      THEN conjunct1, rule_format]
  have "count (mset (handlers_to_invoke ?sub ''EventEnvelope'' ?b (Enveloped ?v))) (0, Direct (env_payload ?v)) = 2"
    unfolding told told_event_def message.case envelope.simps event.simps zero by simp
  moreover have "count (mset (handlers_to_invoke ?sub ''EventEnvelope'' ?b (Enveloped ?v))) (1, Enveloped ?v) = 1"
    unfolding told told_event_def told_envelope_def message.case envelope.simps event.simps one by simp
  ultimately show ?thesis using ok unfolding Let_def by blast
qed

end
