(* ===== verification/Shyam_Store.thy ===== *)
theory Shyam_Store
  imports Shyam_Prelude
begin

section \<open>The interface of the in-memory registries\<close>

text \<open>
  The capability, provider, composite and ecosystem registries, the trust records and the
  continuity sessions are all dictionaries whose values carry their own key. The locale
  \<open>keyed_store\<close> states what a client relies on: what a lookup returns after an insertion
  or a removal, and that every operation keeps the store well formed. Its clients are the
  operations that query a registry; each registry interprets it on its own operations.
\<close>

locale keyed_store =
  fixes inv :: "'s \<Rightarrow> bool"
    and lookup :: "'s \<Rightarrow> 'k \<Rightarrow> 'v option"
    and insert :: "'v \<Rightarrow> 's \<Rightarrow> 's"
    and remove :: "'k \<Rightarrow> 's \<Rightarrow> 's"
    and elems :: "'s \<Rightarrow> 'v list"
    and key :: "'v \<Rightarrow> 'k"
  assumes lookup_insert: "inv s \<Longrightarrow> lookup (insert v s) k = (if k = key v then Some v else lookup s k)"
    and lookup_remove: "inv s \<Longrightarrow> lookup (remove k s) k' = (if k' = k then None else lookup s k')"
    and elems_lookup: "inv s \<Longrightarrow> v \<in> set (elems s) \<longleftrightarrow> lookup s (key v) = Some v"
    and elems_distinct: "inv s \<Longrightarrow> distinct (map key (elems s))"
    and inv_insert: "inv s \<Longrightarrow> inv (insert v s)"
    and inv_remove: "inv s \<Longrightarrow> inv (remove k s)"
begin

lemmas store_laws = lookup_insert lookup_remove inv_insert inv_remove

lemma lookup_key: "inv s \<Longrightarrow> v \<in> set (elems s) \<Longrightarrow> lookup s (key v) = Some v"
  by (simp add: elems_lookup)

lemma insert_idem: "inv s \<Longrightarrow> lookup (insert v (insert v s)) = lookup (insert v s)"
  by (rule ext) (simp add: store_laws)

lemma insert_overwrites:
  "inv s \<Longrightarrow> key v = key w \<Longrightarrow> lookup (insert v (insert w s)) = lookup (insert v s)"
  by (rule ext) (simp add: store_laws)

lemma insert_commute:
  "inv s \<Longrightarrow> key v \<noteq> key w \<Longrightarrow> lookup (insert v (insert w s)) = lookup (insert w (insert v s))"
  by (rule ext) (simp add: store_laws)

lemma remove_insert:
  "inv s \<Longrightarrow> lookup s (key v) = None \<Longrightarrow> lookup (remove (key v) (insert v s)) = lookup s"
  by (rule ext) (simp add: store_laws)

lemma elems_insert:
  assumes "inv s"
  shows "set (elems (insert v s)) = {w \<in> set (elems s). key w \<noteq> key v} \<union> {v}"
  using assms by (auto simp: elems_lookup store_laws split: if_splits)

lemma elems_remove:
  assumes "inv s"
  shows "set (elems (remove k s)) = {w \<in> set (elems s). key w \<noteq> k}"
  using assms by (auto simp: elems_lookup store_laws split: if_splits)

text \<open>A query by a predicate returns each matching element once.\<close>

lemma query_mem:
  "inv s \<Longrightarrow> v \<in> set (filter P (elems s)) \<longleftrightarrow> lookup s (key v) = Some v \<and> P v"
  by (auto simp: elems_lookup)

lemma query_distinct: "inv s \<Longrightarrow> distinct (map key (filter P (elems s)))"
  using elems_distinct [of s] by (simp add: distinct_map inj_on_def)

end

subsection \<open>Dictionaries whose values carry their key\<close>

definition keyed :: "('v \<Rightarrow> 'k) \<Rightarrow> ('k, 'v) dict \<Rightarrow> bool" where
  "keyed key d \<longleftrightarrow> dict_ok d \<and> (\<forall>(k, v) \<in> set d. k = key v)"

lemma keyed_empty [simp]: "keyed key []"
  by (simp add: keyed_def)

lemma keyed_ok [simp]: "keyed key d \<Longrightarrow> dict_ok d"
  by (simp add: keyed_def)

lemma keyed_get: "keyed key d \<Longrightarrow> dget d k = Some v \<Longrightarrow> key v = k"
  by (auto simp: keyed_def dest: map_of_SomeD)

lemma keyed_dset:
  assumes "keyed key d" and "k = key v"
  shows "keyed key (dset k v d)"
proof -
  have "set (dset k v d) \<subseteq> Set.insert (k, v) (set d)"
    by (induction d) auto
  with assms show ?thesis
    by (fastforce simp: keyed_def)
qed

lemma keyed_ddel: "keyed key d \<Longrightarrow> keyed key (ddel k d)"
  using dict_ok_ddel [of d k] by (auto simp: keyed_def AList.delete_eq)

lemma keyed_dkeys: "keyed key d \<Longrightarrow> dkeys d = map key (dvals d)"
  by (auto simp: keyed_def)

lemma keyed_dvals: "keyed key d \<Longrightarrow> v \<in> set (dvals d) \<longleftrightarrow> dget d (key v) = Some v"
  by (metis dvals_mem keyed_get keyed_ok)

lemma keyed_distinct: "keyed key d \<Longrightarrow> distinct (map key (dvals d))"
  by (metis dict_ok_def keyed_dkeys keyed_ok)

lemma keyed_vals_image: "keyed key d \<Longrightarrow> v \<in> snd ` set d \<longleftrightarrow> dget d (key v) = Some v"
  using keyed_dvals [of key d v] by simp

lemma keyed_distinct_comp: "keyed key d \<Longrightarrow> distinct (map (key \<circ> snd) d)"
  using keyed_distinct [of key d] by simp

lemmas keyed_laws = keyed_vals_image keyed_distinct_comp keyed_dset keyed_ddel keyed_dvals keyed_distinct

end
