(* ===== verification/Shyam_Capabilities.thy ===== *)
theory Shyam_Capabilities
  imports Shyam_Store
begin

section \<open>Capabilities: model and registry\<close>

text \<open>
  \<open>capabilities/model.py\<close> and \<open>capabilities/registry.py\<close>. A capability is built through
  its field validators; the registry is a dictionary by capability id and reports what it
  did to the event bus, if it has one, so every operation returns the events it published.
\<close>

subsection \<open>capabilities/model.py\<close>

datatype availability = REGISTERED | AVAILABLE | UNAVAILABLE

fun availability_value :: "availability \<Rightarrow> string" where
  "availability_value REGISTERED = ''registered''"
| "availability_value AVAILABLE = ''available''"
| "availability_value UNAVAILABLE = ''unavailable''"

record capability =
  cap_id :: string
  cap_name :: string
  cap_version :: string
  cap_description :: string
  cap_metadata :: "(string, pyval) dict"
  cap_availability :: availability

definition value_error :: "string \<Rightarrow> exn" where
  "value_error m = Exn (Builtin ValidationError) m"

text \<open>
  The validator of namespaced ids; \<open>what\<close> and \<open>example\<close> are the words of the message
  (the provider model has the same validator with its own words).
\<close>

definition validate_namespaced :: "string \<Rightarrow> string \<Rightarrow> string \<Rightarrow> string result" where
  "validate_namespaced what example v =
     (if v = [] \<or> CHR ''.'' \<notin> set v
      then Inl (value_error (what @ '' must be namespaced (e.g. '' @ quoted example @ ''), got: '' @ quoted v))
      else if list_ex (\<lambda>part. \<not> isidentifier part) (split_on (CHR ''.'') v)
      then Inl (value_error (what @ '' parts must be valid identifiers, got: '' @ quoted v))
      else Inr v)"

definition validate_capability_id :: "string \<Rightarrow> string result" where
  "validate_capability_id v = validate_namespaced ''Capability ID'' ''file.read'' v"

definition validate_version :: "string \<Rightarrow> string result" where
  "validate_version v =
     (let parts = split_on (CHR ''.'') v in
      if length parts < 1 \<or> length parts > 3
      then Inl (value_error (''Version must be 1-3 dot-separated integers, got: '' @ quoted v))
      else if list_ex (\<lambda>part. \<not> isdigit part) parts
      then Inl (value_error (''Version parts must be non-negative integers, got: '' @ quoted v))
      else Inr v)"

text \<open>The constructor \<open>Capability(...)\<close>: the validators run in the order of the fields.\<close>

definition mk_capability ::
  "string \<Rightarrow> string \<Rightarrow> string \<Rightarrow> string \<Rightarrow> (string, pyval) dict \<Rightarrow> availability \<Rightarrow> capability result" where
  "mk_capability i n v d m a =
     (case validate_capability_id i of Inl e \<Rightarrow> Inl e
      | Inr i' \<Rightarrow> (case validate_version v of Inl e \<Rightarrow> Inl e
        | Inr v' \<Rightarrow> Inr \<lparr>cap_id = i', cap_name = n, cap_version = v', cap_description = d,
                        cap_metadata = m, cap_availability = a\<rparr>))"

text \<open>Well-formed identifiers and versions, stated on the text itself.\<close>

definition namespaced :: "string \<Rightarrow> bool" where
  "namespaced v \<longleftrightarrow> (\<exists>parts. 2 \<le> length parts \<and> v = join_with ''.'' parts \<and> list_all isidentifier parts)"

definition version_ok :: "string \<Rightarrow> bool" where
  "version_ok v \<longleftrightarrow> (\<exists>parts. 1 \<le> length parts \<and> length parts \<le> 3 \<and> v = join_with ''.'' parts
     \<and> list_all isdigit parts)"

lemma split_on_join:
  "parts \<noteq> [] \<Longrightarrow> list_all (\<lambda>p. c \<notin> set p) parts \<Longrightarrow> split_on c (join_with [c] parts) = parts"
proof (induction "[c]" parts rule: join_with.induct)
  case 1
  then show ?case by simp
next
  case (2 p)
  then show ?case by (induction p) auto
next
  case (3 p q ps)
  then have IH: "split_on c (join_with [c] (q # ps)) = q # ps" and p: "c \<notin> set p" by auto
  have "split_on c (p @ c # r) = p # split_on c r" if "c \<notin> set p" for p r
    using that by (induction p) auto
  with IH p show ?case by simp
qed

lemma isidentifier_no_dot: "isidentifier p \<Longrightarrow> CHR ''.'' \<notin> set p"
  by (cases p) (auto simp: isidentifier_def list_all_iff is_alpha_def is_digit_def char_code_def)

lemma isdigit_no_dot: "isdigit p \<Longrightarrow> CHR ''.'' \<notin> set p"
  by (auto simp: isdigit_def list_all_iff is_digit_def char_code_def)

lemma split_on_two: "CHR ''.'' \<in> set v \<Longrightarrow> 2 \<le> length (split_on (CHR ''.'') v)"
proof (induction v)
  case Nil
  then show ?case by simp
next
  case (Cons x xs)
  then show ?case
    by (cases "split_on (CHR ''.'') xs") (auto simp: Suc_le_eq split: if_splits)
qed

lemma validate_namespaced_iff:
  "validate_namespaced what ex v = Inr w \<longleftrightarrow> w = v \<and> namespaced v"
proof
  assume ok: "validate_namespaced what ex v = Inr w"
  then have dot: "CHR ''.'' \<in> set v" and w: "w = v"
    and ids: "list_all isidentifier (split_on (CHR ''.'') v)"
    by (auto simp: validate_namespaced_def list_all_iff list_ex_iff split: if_splits)
  have "v = join_with ''.'' (split_on (CHR ''.'') v)" by (simp add: join_split)
  with split_on_two [OF dot] ids w show "w = v \<and> namespaced v"
    unfolding namespaced_def by blast
next
  assume "w = v \<and> namespaced v"
  then obtain parts where parts: "2 \<le> length parts" "v = join_with ''.'' parts"
    "list_all isidentifier parts" and w: "w = v"
    by (auto simp: namespaced_def)
  have nodot: "list_all (\<lambda>p. CHR ''.'' \<notin> set p) parts"
    using parts(3) isidentifier_no_dot by (auto simp: list_all_iff)
  from parts(1) obtain p q ps where pq: "parts = p # q # ps"
    by (cases parts; cases "tl parts") auto
  have "split_on (CHR ''.'') v = parts"
    using split_on_join [OF _ nodot] parts(2) pq by simp
  moreover have "v \<noteq> []" "CHR ''.'' \<in> set v" using parts(2) pq by auto
  ultimately show "validate_namespaced what ex v = Inr w"
    using parts(3) w by (auto simp: validate_namespaced_def list_ex_iff list_all_iff)
qed

lemma validate_version_iff: "validate_version v = Inr w \<longleftrightarrow> w = v \<and> version_ok v"
proof
  assume "validate_version v = Inr w"
  then have "w = v" "length (split_on (CHR ''.'') v) \<le> 3" "list_all isdigit (split_on (CHR ''.'') v)"
    by (auto simp: validate_version_def Let_def list_all_iff list_ex_iff split: if_splits)
  moreover have "1 \<le> length (split_on (CHR ''.'') v)"
    by (simp add: Suc_le_eq)
  moreover have "v = join_with ''.'' (split_on (CHR ''.'') v)" by (simp add: join_split)
  ultimately show "w = v \<and> version_ok v" unfolding version_ok_def by blast
next
  assume "w = v \<and> version_ok v"
  then obtain parts where parts: "1 \<le> length parts" "length parts \<le> 3" "v = join_with ''.'' parts"
    "list_all isdigit parts" and w: "w = v"
    by (auto simp: version_ok_def)
  have "list_all (\<lambda>p. CHR ''.'' \<notin> set p) parts"
    using parts(4) isdigit_no_dot by (auto simp: list_all_iff)
  moreover have "parts \<noteq> []" using parts(1) by auto
  ultimately have "split_on (CHR ''.'') v = parts"
    using split_on_join parts(3) by blast
  with parts w show "validate_version v = Inr w"
    by (auto simp: validate_version_def list_ex_iff list_all_iff)
qed

lemma mk_capability_iff:
  "mk_capability i n v d m a = Inr c \<longleftrightarrow>
     namespaced i \<and> version_ok v
   \<and> c = \<lparr>cap_id = i, cap_name = n, cap_version = v, cap_description = d,
          cap_metadata = m, cap_availability = a\<rparr>"
proof (cases "namespaced i \<and> version_ok v")
  case True
  then have "validate_capability_id i = Inr i" and "validate_version v = Inr v"
    by (simp_all add: validate_capability_id_def validate_namespaced_iff validate_version_iff)
  with True show ?thesis by (auto simp: mk_capability_def)
next
  case False
  then show ?thesis
    by (auto simp: mk_capability_def validate_capability_id_def validate_namespaced_iff
        validate_version_iff split: sum.splits)
qed

subsection \<open>capabilities/events.py and capabilities/registry.py\<close>

datatype capability_event =
    CapabilityRegisteredEvent string capability
  | CapabilityUpdatedEvent string capability "string option"
  | CapabilityUnregisteredEvent string

record capability_registry =
  cr_capabilities :: "(string, capability) dict"
  cr_event_bus :: bool

definition new_capability_registry :: "bool \<Rightarrow> capability_registry" where
  "new_capability_registry bus = \<lparr>cr_capabilities = [], cr_event_bus = bus\<rparr>"

definition cr_count :: "capability_registry \<Rightarrow> nat" where
  "cr_count r = length (cr_capabilities r)"

definition cr_contains :: "capability_registry \<Rightarrow> string \<Rightarrow> bool" where
  "cr_contains r cid = dmem cid (cr_capabilities r)"

definition cr_get :: "capability_registry \<Rightarrow> string \<Rightarrow> capability option" where
  "cr_get r cid = dget (cr_capabilities r) cid"

definition cr_list_all :: "capability_registry \<Rightarrow> capability list" where
  "cr_list_all r = dvals (cr_capabilities r)"

definition cr_store :: "capability \<Rightarrow> capability_registry \<Rightarrow> capability_registry" where
  "cr_store c r = r\<lparr>cr_capabilities := dset (cap_id c) c (cr_capabilities r)\<rparr>"

definition cr_drop :: "string \<Rightarrow> capability_registry \<Rightarrow> capability_registry" where
  "cr_drop cid r = r\<lparr>cr_capabilities := ddel cid (cr_capabilities r)\<rparr>"

definition cr_register ::
  "capability_registry \<Rightarrow> capability \<Rightarrow> bool \<Rightarrow> (capability_registry \<times> capability_event list) result" where
  "cr_register r c overwrite =
     (let cid = cap_id c; is_update = cr_contains r cid in
      if is_update \<and> \<not> overwrite
      then Inl (Exn (Capability_Exn DuplicateCapabilityError)
             (''Capability '' @ quoted cid @ '' is already registered. Set overwrite=True to update.''))
      else
        let prev = cr_get r cid; r' = cr_store c r in
        Inr (r', if cr_event_bus r
                 then if is_update
                      then [CapabilityUpdatedEvent cid c
                              (map_option (availability_value \<circ> cap_availability) prev)]
                      else [CapabilityRegisteredEvent cid c]
                 else []))"

definition cr_unregister ::
  "capability_registry \<Rightarrow> string
     \<Rightarrow> (capability_registry \<times> capability_event list \<times> capability) result" where
  "cr_unregister r cid =
     (case cr_get r cid of
        None \<Rightarrow> Inl (Exn (Capability_Exn CapabilityNotFoundError)
                  (''Cannot unregister non-existent capability '' @ quoted cid @ ''.''))
      | Some c \<Rightarrow> Inr (cr_drop cid r,
                  if cr_event_bus r then [CapabilityUnregisteredEvent cid] else [], c))"

text \<open>\<open>find\<close>: the two optional filters, in the order of the loop body.\<close>

definition cr_matches :: "string option \<Rightarrow> availability option \<Rightarrow> capability \<Rightarrow> bool" where
  "cr_matches ns av c =
     (if truthy_opt ns \<and> \<not> starts_with (the ns @ ''.'') (cap_id c) then False
      else if av \<noteq> None \<and> cap_availability c \<noteq> the av then False
      else True)"

definition cr_find :: "capability_registry \<Rightarrow> string option \<Rightarrow> availability option \<Rightarrow> capability list" where
  "cr_find r ns av = filter (cr_matches ns av) (cr_list_all r)"

definition cr_ok :: "capability_registry \<Rightarrow> bool" where
  "cr_ok r \<longleftrightarrow> keyed cap_id (cr_capabilities r)"

lemmas cr_defs = cr_get_def cr_contains_def cr_store_def cr_drop_def cr_list_all_def cr_ok_def
  cr_count_def

interpretation cr: keyed_store cr_ok cr_get cr_store cr_drop cr_list_all cap_id
  by unfold_locales (auto simp: cr_defs keyed_laws)

lemma cr_register_ok: "cr_ok r \<Longrightarrow> cr_register r c ow = Inr (r', evs) \<Longrightarrow> cr_ok r'"
  by (auto simp: cr_register_def Let_def cr.inv_insert split: if_splits)

lemma cr_unregister_ok: "cr_ok r \<Longrightarrow> cr_unregister r cid = Inr (r', evs, c) \<Longrightarrow> cr_ok r'"
  by (auto simp: cr_unregister_def cr.inv_remove split: option.splits)

text \<open>
  The registry is a map by capability id. \<open>register\<close> fails exactly when the id is taken
  and \<open>overwrite\<close> is not set; otherwise it binds the id to the capability, leaves every
  other id as it was and publishes one event, which tells an update, with the availability
  it replaced, from a first registration. \<open>find\<close> then returns exactly the registered
  capabilities that pass both filters, each id once.
\<close>

theorem capability_registry_spec:
  assumes ok: "cr_ok r" and bus: "cr_event_bus r"
  shows "(cr_contains r (cap_id c) \<and> \<not> ow \<longrightarrow>
            (\<exists>m. cr_register r c ow = Inl (Exn (Capability_Exn DuplicateCapabilityError) m)))
       \<and> (\<not> cr_contains r (cap_id c) \<or> ow \<longrightarrow>
            (\<exists>r' ev. cr_register r c ow = Inr (r', [ev]) \<and> cr_ok r'
               \<and> (\<forall>k. cr_get r' k = (if k = cap_id c then Some c else cr_get r k))
               \<and> ev = (case cr_get r (cap_id c) of
                        None \<Rightarrow> CapabilityRegisteredEvent (cap_id c) c
                      | Some old \<Rightarrow> CapabilityUpdatedEvent (cap_id c) c
                                      (Some (availability_value (cap_availability old))))))
       \<and> (\<forall>ns av x. x \<in> set (cr_find r ns av) \<longleftrightarrow>
            cr_get r (cap_id x) = Some x \<and> cr_matches ns av x)
       \<and> (\<forall>ns av. distinct (map cap_id (cr_find r ns av)))"
proof -
  have found: "x \<in> set (cr_find r ns av) \<longleftrightarrow> cr_get r (cap_id x) = Some x \<and> cr_matches ns av x"
    and once: "distinct (map cap_id (cr_find r ns av))" for ns av x
    unfolding cr_find_def using cr.query_mem [OF ok] cr.query_distinct [OF ok] by blast+
  have "cr_contains r (cap_id c) \<longleftrightarrow> cr_get r (cap_id c) \<noteq> None"
    by (simp add: cr_contains_def cr_get_def dmem_def)
  then show ?thesis
    using bus found once cr.store_laws [OF ok] cr.inv_insert [OF ok]
    by (auto simp: cr_register_def Let_def split: option.splits)
qed

theorem capability_registry_spec_witness:
  "\<exists>c r' ev. mk_capability ''file.read'' ''File Read'' ''1.0.0'' [] [] AVAILABLE = Inr c
     \<and> cr_register (new_capability_registry True) c False = Inr (r', [ev])
     \<and> cr_get r' ''file.read'' = Some c"
proof -
  obtain c where c: "mk_capability ''file.read'' ''File Read'' ''1.0.0'' [] [] AVAILABLE = Inr c"
    and i: "cap_id c = ''file.read''"
    by (simp add: mk_capability_def validate_capability_id_def validate_namespaced_def
        validate_version_def str_eval)
  let ?r = "new_capability_registry True"
  have ok: "cr_ok ?r" and bus: "cr_event_bus ?r" and free: "\<not> cr_contains ?r (cap_id c)"
    by (simp_all add: new_capability_registry_def cr_defs dmem_def)
  have "\<exists>r' ev. cr_register ?r c False = Inr (r', [ev]) \<and> cr_get r' (cap_id c) = Some c"
    using capability_registry_spec [OF ok bus, of c False] free by auto
  with c i show ?thesis by metis
qed

text \<open>
  A \<open>Capability\<close> is constructed exactly when its id is two or more identifiers joined by
  dots and its version is one to three digit strings joined by dots; its fields are then
  the arguments.
\<close>

theorem capability_construction:
  "mk_capability i n v d m a = Inr c \<longleftrightarrow>
     namespaced i \<and> version_ok v
   \<and> c = \<lparr>cap_id = i, cap_name = n, cap_version = v, cap_description = d,
          cap_metadata = m, cap_availability = a\<rparr>"
  by (rule mk_capability_iff)

end
