(* ===== verification/Shyam_Providers.thy ===== *)
theory Shyam_Providers
  imports Shyam_Capabilities
begin

section \<open>Providers: model, registry and the local provider fabric\<close>

text \<open>
  \<open>providers/model.py\<close>, \<open>providers/registry.py\<close>, \<open>providers/base.py\<close>,
  \<open>providers/local/filesystem.py\<close> and \<open>providers/fabric.py\<close>. The fabric owns no registry:
  it writes to the capability and provider registries it is given, so its operations take
  and return both. A concrete local provider is what the fabric sees of it: its descriptor,
  its declared capabilities and whether its two hooks raise.
\<close>

subsection \<open>providers/model.py\<close>

record provider =
  prov_id :: string
  prov_name :: string
  prov_version :: string
  prov_description :: string
  prov_capabilities :: "string list"
  prov_metadata :: "(string, pyval) dict"
  prov_availability :: availability

definition validate_provider_id :: "string \<Rightarrow> string result" where
  "validate_provider_id v = validate_namespaced ''Provider ID'' ''local.filesystem'' v"

definition mk_provider ::
  "string \<Rightarrow> string \<Rightarrow> string \<Rightarrow> string \<Rightarrow> string list \<Rightarrow> (string, pyval) dict \<Rightarrow> availability
     \<Rightarrow> provider result" where
  "mk_provider i n v d cs m a =
     (case validate_provider_id i of Inl e \<Rightarrow> Inl e
      | Inr i' \<Rightarrow> (case validate_version v of Inl e \<Rightarrow> Inl e
        | Inr v' \<Rightarrow> Inr \<lparr>prov_id = i', prov_name = n, prov_version = v', prov_description = d,
                        prov_capabilities = cs, prov_metadata = m, prov_availability = a\<rparr>))"

lemma mk_provider_Inr:
  "mk_provider i n v d cs m a = Inr p \<Longrightarrow>
     namespaced i \<and> version_ok v \<and> prov_id p = i \<and> prov_capabilities p = cs \<and> prov_availability p = a"
  by (auto simp: mk_provider_def validate_provider_id_def validate_namespaced_iff
      validate_version_iff split: sum.splits)

subsection \<open>providers/events.py and providers/registry.py\<close>

datatype provider_event =
    ProviderRegisteredEvent string provider
  | ProviderUpdatedEvent string provider "string option"
  | ProviderUnregisteredEvent string

record provider_registry =
  pr_providers :: "(string, provider) dict"
  pr_event_bus :: bool

definition new_provider_registry :: "bool \<Rightarrow> provider_registry" where
  "new_provider_registry bus = \<lparr>pr_providers = [], pr_event_bus = bus\<rparr>"

definition pr_count :: "provider_registry \<Rightarrow> nat" where
  "pr_count r = length (pr_providers r)"

definition pr_contains :: "provider_registry \<Rightarrow> string \<Rightarrow> bool" where
  "pr_contains r pid = dmem pid (pr_providers r)"

definition pr_get :: "provider_registry \<Rightarrow> string \<Rightarrow> provider option" where
  "pr_get r pid = dget (pr_providers r) pid"

definition pr_list_all :: "provider_registry \<Rightarrow> provider list" where
  "pr_list_all r = dvals (pr_providers r)"

definition pr_store :: "provider \<Rightarrow> provider_registry \<Rightarrow> provider_registry" where
  "pr_store p r = r\<lparr>pr_providers := dset (prov_id p) p (pr_providers r)\<rparr>"

definition pr_drop :: "string \<Rightarrow> provider_registry \<Rightarrow> provider_registry" where
  "pr_drop pid r = r\<lparr>pr_providers := ddel pid (pr_providers r)\<rparr>"

definition pr_register ::
  "provider_registry \<Rightarrow> provider \<Rightarrow> bool \<Rightarrow> (provider_registry \<times> provider_event list) result" where
  "pr_register r p overwrite =
     (let pid = prov_id p; is_update = pr_contains r pid in
      if is_update \<and> \<not> overwrite
      then Inl (Exn (Provider_Exn DuplicateProviderError)
             (''Provider '' @ quoted pid @ '' is already registered. Set overwrite=True to update.''))
      else
        let prev = pr_get r pid; r' = pr_store p r in
        Inr (r', if pr_event_bus r
                 then if is_update
                      then [ProviderUpdatedEvent pid p
                              (map_option (availability_value \<circ> prov_availability) prev)]
                      else [ProviderRegisteredEvent pid p]
                 else []))"

definition pr_unregister ::
  "provider_registry \<Rightarrow> string \<Rightarrow> (provider_registry \<times> provider_event list \<times> provider) result" where
  "pr_unregister r pid =
     (case pr_get r pid of
        None \<Rightarrow> Inl (Exn (Provider_Exn ProviderNotFoundError)
                  (''Cannot unregister non-existent provider '' @ quoted pid @ ''.''))
      | Some p \<Rightarrow> Inr (pr_drop pid r,
                  if pr_event_bus r then [ProviderUnregisteredEvent pid] else [], p))"

definition pr_matches :: "string option \<Rightarrow> availability option \<Rightarrow> provider \<Rightarrow> bool" where
  "pr_matches ns av p =
     (if truthy_opt ns \<and> \<not> starts_with (the ns @ ''.'') (prov_id p) then False
      else if av \<noteq> None \<and> prov_availability p \<noteq> the av then False
      else True)"

definition pr_find :: "provider_registry \<Rightarrow> string option \<Rightarrow> availability option \<Rightarrow> provider list" where
  "pr_find r ns av = filter (pr_matches ns av) (pr_list_all r)"

definition pr_find_by_capability :: "provider_registry \<Rightarrow> string \<Rightarrow> provider list" where
  "pr_find_by_capability r cid = filter (\<lambda>p. cid \<in> set (prov_capabilities p)) (pr_list_all r)"

definition pr_ok :: "provider_registry \<Rightarrow> bool" where
  "pr_ok r \<longleftrightarrow> keyed prov_id (pr_providers r)"

lemmas pr_defs = pr_get_def pr_contains_def pr_store_def pr_drop_def pr_list_all_def pr_ok_def
  pr_count_def

interpretation pr: keyed_store pr_ok pr_get pr_store pr_drop pr_list_all prov_id
  by unfold_locales (auto simp: pr_defs keyed_laws)

lemma pr_bus_store [simp]: "pr_event_bus (pr_store p r) = pr_event_bus r"
  by (simp add: pr_store_def)

text \<open>With \<open>overwrite\<close>, registration always succeeds; its effect on the registry alone.\<close>

lemma pr_register_overwrite: "\<exists>evs. pr_register r p True = Inr (pr_store p r, evs)"
  by (simp add: pr_register_def Let_def)

lemma pr_find_by_capability_mem:
  "pr_ok r \<Longrightarrow> p \<in> set (pr_find_by_capability r cid) \<longleftrightarrow>
     pr_get r (prov_id p) = Some p \<and> cid \<in> set (prov_capabilities p)"
  unfolding pr_find_by_capability_def by (rule pr.query_mem)

subsection \<open>providers/base.py and providers/local/filesystem.py\<close>

record local_provider =
  lp_descriptor :: provider
  lp_capability_definitions :: "capability list"
  lp_initialize :: "exn option"
  lp_shutdown :: "exn option"

definition FILESYSTEM_CAPABILITY_DEFINITIONS :: "capability list" where
  "FILESYSTEM_CAPABILITY_DEFINITIONS =
     [\<lparr>cap_id = ''file.read'', cap_name = ''File Read'', cap_version = ''1.0.0'',
       cap_description = ''Read content from the local machine filesystem'',
       cap_metadata = [], cap_availability = AVAILABLE\<rparr>,
      \<lparr>cap_id = ''file.write'', cap_name = ''File Write'', cap_version = ''1.0.0'',
       cap_description = ''Write content to the local machine filesystem'',
       cap_metadata = [], cap_availability = AVAILABLE\<rparr>,
      \<lparr>cap_id = ''file.list'', cap_name = ''File List'', cap_version = ''1.0.0'',
       cap_description = ''List directory contents on the local machine filesystem'',
       cap_metadata = [], cap_availability = AVAILABLE\<rparr>]"

definition LocalFilesystemProvider :: local_provider where
  "LocalFilesystemProvider =
     \<lparr>lp_descriptor =
        \<lparr>prov_id = ''local.filesystem'', prov_name = ''Local Filesystem'', prov_version = ''1.0.0'',
         prov_description = ''Provides access to the local machine filesystem'',
         prov_capabilities = map cap_id FILESYSTEM_CAPABILITY_DEFINITIONS,
         prov_metadata = [(''scope'', PStr ''local''), (''type'', PStr ''filesystem'')],
         prov_availability = REGISTERED\<rparr>,
      lp_capability_definitions = FILESYSTEM_CAPABILITY_DEFINITIONS,
      lp_initialize = None, lp_shutdown = None\<rparr>"

subsection \<open>providers/fabric.py\<close>

datatype registry_event = CapEv capability_event | ProvEv provider_event

record fabric =
  fab_capabilities :: capability_registry
  fab_providers :: provider_registry
  fab_instances :: "(string, local_provider) dict"
  fab_sources :: "local_provider list option"

definition build_provider_list :: "fabric \<Rightarrow> local_provider list" where
  "build_provider_list f =
     (case fab_sources f of Some ps \<Rightarrow> ps | None \<Rightarrow> [LocalFilesystemProvider])"

text \<open>
  A step that may raise returns \<open>fabric \<times> registry_event list\<close> in a result; the two
  registrations of \<open>start\<close> are wrapped to thread the fabric and its events.
\<close>

definition fab_reg_provider ::
  "provider \<Rightarrow> fabric \<times> registry_event list \<Rightarrow> (fabric \<times> registry_event list) result" where
  "fab_reg_provider p fe = (case fe of (f, evs) \<Rightarrow>
     (case pr_register (fab_providers f) p True of
        Inl e \<Rightarrow> Inl e
      | Inr (r, es) \<Rightarrow> Inr (f\<lparr>fab_providers := r\<rparr>, evs @ map ProvEv es)))"

fun ensure_capabilities ::
  "capability list \<Rightarrow> fabric \<times> registry_event list \<Rightarrow> (fabric \<times> registry_event list) result" where
  "ensure_capabilities [] fe = Inr fe"
| "ensure_capabilities (c # cs) (f, evs) =
     (if \<not> cr_contains (fab_capabilities f) (cap_id c)
      then (case cr_register (fab_capabilities f) c False of
              Inl e \<Rightarrow> Inl e
            | Inr (r, es) \<Rightarrow>
                ensure_capabilities cs (f\<lparr>fab_capabilities := r\<rparr>, evs @ map CapEv es))
      else ensure_capabilities cs (f, evs))"

definition start_provider ::
  "local_provider \<Rightarrow> fabric \<times> registry_event list \<Rightarrow> (fabric \<times> registry_event list) result" where
  "start_provider prov fe = (case fe of (f, evs) \<Rightarrow>
     let desc = lp_descriptor prov;
         f1 = f\<lparr>fab_instances := dset (prov_id desc) prov (fab_instances f)\<rparr> in
     (case ensure_capabilities (lp_capability_definitions prov) (f1, evs) of
        Inl e \<Rightarrow> Inl e
      | Inr fe1 \<Rightarrow> (case fab_reg_provider desc fe1 of
          Inl e \<Rightarrow> Inl e
        | Inr fe2 \<Rightarrow> (case lp_initialize prov of
            None \<Rightarrow> (case fab_reg_provider (desc\<lparr>prov_availability := AVAILABLE\<rparr>) fe2 of
                Inr fe3 \<Rightarrow> Inr fe3
              | Inl _ \<Rightarrow> fab_reg_provider (desc\<lparr>prov_availability := UNAVAILABLE\<rparr>) fe2)
          | Some _ \<Rightarrow> fab_reg_provider (desc\<lparr>prov_availability := UNAVAILABLE\<rparr>) fe2))))"

fun start_providers ::
  "local_provider list \<Rightarrow> fabric \<times> registry_event list \<Rightarrow> (fabric \<times> registry_event list) result" where
  "start_providers [] fe = Inr fe"
| "start_providers (p # ps) fe =
     (case start_provider p fe of Inl e \<Rightarrow> Inl e | Inr fe' \<Rightarrow> start_providers ps fe')"

definition fabric_start :: "fabric \<Rightarrow> (fabric \<times> registry_event list) result" where
  "fabric_start f = start_providers (build_provider_list f) (f, [])"

text \<open>\<open>stop\<close>: every \<open>shutdown\<close> is awaited, what one raises is logged and dropped.\<close>

definition fabric_stop :: "fabric \<Rightarrow> fabric" where
  "fabric_stop f = f\<lparr>fab_instances := []\<rparr>"

definition started_desc :: "local_provider \<Rightarrow> provider" where
  "started_desc p = (lp_descriptor p)\<lparr>prov_availability :=
     (if lp_initialize p = None then AVAILABLE else UNAVAILABLE)\<rparr>"

lemma prov_id_started [simp]: "prov_id (started_desc p) = prov_id (lp_descriptor p)"
  by (simp add: started_desc_def)

lemma fab_reg_provider_eq:
  "\<exists>es. fab_reg_provider p (f, evs) = Inr (f\<lparr>fab_providers := pr_store p (fab_providers f)\<rparr>, evs @ es)"
  using pr_register_overwrite [of "fab_providers f" p] by (auto simp: fab_reg_provider_def)

text \<open>The capabilities a list of declarations adds: the ids that were free, first come.\<close>

fun add_missing :: "capability list \<Rightarrow> capability_registry \<Rightarrow> capability_registry" where
  "add_missing [] r = r"
| "add_missing (c # cs) r =
     add_missing cs (if cr_contains r (cap_id c) then r else cr_store c r)"

lemma ensure_capabilities_eq:
  "\<exists>es. ensure_capabilities cs (f, evs) =
     Inr (f\<lparr>fab_capabilities := add_missing cs (fab_capabilities f)\<rparr>, evs @ es)"
proof (induction cs arbitrary: f evs)
  case Nil
  then show ?case by simp
next
  case (Cons c cs)
  show ?case
  proof (cases "cr_contains (fab_capabilities f) (cap_id c)")
    case True
    then show ?thesis using Cons [of f evs] by simp
  next
    case False
    then obtain es where "cr_register (fab_capabilities f) c False =
        Inr (cr_store c (fab_capabilities f), es)"
      by (simp add: cr_register_def Let_def)
    with False Cons [of "f\<lparr>fab_capabilities := cr_store c (fab_capabilities f)\<rparr>" "evs @ map CapEv es"]
    show ?thesis by auto
  qed
qed

lemma start_provider_eq:
  "\<exists>es. start_provider p (f, evs) =
     Inr (f\<lparr>fab_capabilities := add_missing (lp_capability_definitions p) (fab_capabilities f),
            fab_providers := pr_store (started_desc p) (pr_store (lp_descriptor p) (fab_providers f)),
            fab_instances := dset (prov_id (lp_descriptor p)) p (fab_instances f)\<rparr>, evs @ es)"
proof -
  let ?f1 = "f\<lparr>fab_instances := dset (prov_id (lp_descriptor p)) p (fab_instances f)\<rparr>"
  obtain es1 where 1: "ensure_capabilities (lp_capability_definitions p) (?f1, evs) =
      Inr (?f1\<lparr>fab_capabilities := add_missing (lp_capability_definitions p) (fab_capabilities f)\<rparr>,
           evs @ es1)"
    using ensure_capabilities_eq [of "lp_capability_definitions p" ?f1 evs] by auto
  let ?f2 = "?f1\<lparr>fab_capabilities := add_missing (lp_capability_definitions p) (fab_capabilities f)\<rparr>"
  obtain es2 where 2: "fab_reg_provider (lp_descriptor p) (?f2, evs @ es1) =
      Inr (?f2\<lparr>fab_providers := pr_store (lp_descriptor p) (fab_providers f)\<rparr>, (evs @ es1) @ es2)"
    using fab_reg_provider_eq [of "lp_descriptor p" ?f2 "evs @ es1"] by auto
  let ?f3 = "?f2\<lparr>fab_providers := pr_store (lp_descriptor p) (fab_providers f)\<rparr>"
  obtain es3 where 3: "fab_reg_provider (started_desc p) (?f3, (evs @ es1) @ es2) =
      Inr (?f3\<lparr>fab_providers := pr_store (started_desc p)
             (pr_store (lp_descriptor p) (fab_providers f))\<rparr>, ((evs @ es1) @ es2) @ es3)"
    using fab_reg_provider_eq [of "started_desc p" ?f3 "(evs @ es1) @ es2"] by auto
  from 1 2 3 show ?thesis
    by (cases "lp_initialize p") (auto simp: start_provider_def Let_def started_desc_def)
qed

lemma add_missing_get:
  "cr_get (add_missing cs r) k =
     (if cr_contains r k then cr_get r k else find (\<lambda>c. cap_id c = k) cs)"
proof (induction cs r rule: add_missing.induct)
  case (1 r)
  then show ?case by (simp add: cr_defs dmem_def)
next
  case (2 c cs r)
  then show ?case by (auto simp: cr_defs dmem_def)
qed

text \<open>What \<open>start\<close> leaves in the two registries, as functions of the list of providers.\<close>

definition latest :: "local_provider list \<Rightarrow> string \<Rightarrow> local_provider option" where
  "latest ps k = find (\<lambda>p. prov_id (lp_descriptor p) = k) (rev ps)"

definition declared :: "local_provider list \<Rightarrow> string \<Rightarrow> capability option" where
  "declared ps k = find (\<lambda>c. cap_id c = k) (concat (map lp_capability_definitions ps))"

lemma find_append:
  "find P (xs @ ys) = (case find P xs of None \<Rightarrow> find P ys | Some x \<Rightarrow> Some x)"
  by (induction xs) auto

lemma latest_Cons:
  "latest (p # ps) k = (case latest ps k of Some q \<Rightarrow> Some q
     | None \<Rightarrow> if prov_id (lp_descriptor p) = k then Some p else None)"
  by (simp add: latest_def find_append split: option.split)

lemma declared_Cons:
  "declared (p # ps) k = (case find (\<lambda>c. cap_id c = k) (lp_capability_definitions p) of
     Some c \<Rightarrow> Some c | None \<Rightarrow> declared ps k)"
  by (simp add: declared_def find_append split: option.split)

lemma cr_contains_get: "cr_contains r k \<longleftrightarrow> cr_get r k \<noteq> None"
  by (simp add: cr_defs dmem_def)

lemma start_providers_total:
  "\<exists>f' es. start_providers ps (f, evs) = Inr (f', es)
     \<and> (\<forall>k. pr_get (fab_providers f') k =
          (case latest ps k of Some p \<Rightarrow> Some (started_desc p) | None \<Rightarrow> pr_get (fab_providers f) k))
     \<and> (\<forall>k. cr_get (fab_capabilities f') k =
          (case cr_get (fab_capabilities f) k of Some c \<Rightarrow> Some c | None \<Rightarrow> declared ps k))
     \<and> (\<forall>k. dget (fab_instances f') k =
          (case latest ps k of Some p \<Rightarrow> Some p | None \<Rightarrow> dget (fab_instances f) k))"
proof (induction ps arbitrary: f evs)
  case Nil
  then show ?case by (auto simp: latest_def declared_def split: option.split)
next
  case (Cons p ps)
  obtain es1 where step: "start_provider p (f, evs) =
     Inr (f\<lparr>fab_capabilities := add_missing (lp_capability_definitions p) (fab_capabilities f),
            fab_providers := pr_store (started_desc p) (pr_store (lp_descriptor p) (fab_providers f)),
            fab_instances := dset (prov_id (lp_descriptor p)) p (fab_instances f)\<rparr>, evs @ es1)"
    (is "_ = Inr (?f1, _)")
    using start_provider_eq [of p f evs] by blast
  from Cons [of ?f1 "evs @ es1"] obtain f' es where run: "start_providers ps (?f1, evs @ es1) = Inr (f', es)"
    and prov: "\<And>k. pr_get (fab_providers f') k =
       (case latest ps k of Some p \<Rightarrow> Some (started_desc p) | None \<Rightarrow> pr_get (fab_providers ?f1) k)"
    and caps: "\<And>k. cr_get (fab_capabilities f') k =
       (case cr_get (fab_capabilities ?f1) k of Some c \<Rightarrow> Some c | None \<Rightarrow> declared ps k)"
    and insts: "\<And>k. dget (fab_instances f') k =
       (case latest ps k of Some p \<Rightarrow> Some p | None \<Rightarrow> dget (fab_instances ?f1) k)"
    by blast
  have prov1: "pr_get (fab_providers ?f1) k =
      (if prov_id (lp_descriptor p) = k then Some (started_desc p) else pr_get (fab_providers f) k)"
    for k by (simp add: pr_defs)
  have caps1: "cr_get (fab_capabilities ?f1) k =
     (case cr_get (fab_capabilities f) k of Some c \<Rightarrow> Some c
      | None \<Rightarrow> find (\<lambda>c. cap_id c = k) (lp_capability_definitions p))" for k
    by (simp add: add_missing_get cr_contains_get split: option.split)
  show ?case
  proof (intro exI conjI allI)
    show "start_providers (p # ps) (f, evs) = Inr (f', es)" using step run by simp
    show "pr_get (fab_providers f') k = (case latest (p # ps) k of
        Some p \<Rightarrow> Some (started_desc p) | None \<Rightarrow> pr_get (fab_providers f) k)" for k
      by (simp only: prov prov1 latest_Cons) (simp split: option.split)
    show "cr_get (fab_capabilities f') k = (case cr_get (fab_capabilities f) k of
        Some c \<Rightarrow> Some c | None \<Rightarrow> declared (p # ps) k)" for k
      by (simp only: caps caps1 declared_Cons) (simp split: option.split)
    show "dget (fab_instances f') k = (case latest (p # ps) k of
        Some p \<Rightarrow> Some p | None \<Rightarrow> dget (fab_instances f) k)" for k
      by (simp only: insts latest_Cons) (simp split: option.split)
  qed
qed

text \<open>
  Starting the local provider fabric never raises, whatever the providers' hooks do. Every
  provider of the list ends registered under its id with availability AVAILABLE when its
  \<open>initialize\<close> returned and UNAVAILABLE when it raised (the last one, where two share an
  id); every declared capability is then registered, and a capability registered before is
  left exactly as it was.
\<close>

theorem fabric_start_registers:
  "\<exists>f' evs. fabric_start f = Inr (f', evs)
     \<and> (\<forall>k. pr_get (fab_providers f') k =
          (case latest (build_provider_list f) k of
             Some p \<Rightarrow> Some ((lp_descriptor p)\<lparr>prov_availability :=
                          if lp_initialize p = None then AVAILABLE else UNAVAILABLE\<rparr>)
           | None \<Rightarrow> pr_get (fab_providers f) k))
     \<and> (\<forall>k. cr_get (fab_capabilities f') k =
          (case cr_get (fab_capabilities f) k of
             Some c \<Rightarrow> Some c | None \<Rightarrow> declared (build_provider_list f) k))"
  using start_providers_total [of "build_provider_list f" f "[]"]
  unfolding fabric_start_def started_desc_def by blast

end
