(* ===== verification/Shyam_Gateway.thy ===== *)
theory Shyam_Gateway
  imports Shyam_Providers
begin

section \<open>Gateways: HTTP replies and the contract of a remote provider\<close>

text \<open>
  Zarya and Flux are separate processes reached over HTTP. A server is an argument of the
  model: a function from a request to a reply, where a body is absent, JSON, or text
  that \<open>json.loads\<close> refuses. \<open>str()\<close> of a JSON value appears in messages. The locale
  \<open>gateway\<close> is the contract that the discovery service, the executors and the readiness
  tracker rely on; the two provider theories interpret it.
\<close>

subsection \<open>\<open>str\<close> and \<open>repr\<close> of JSON values\<close>

definition hex_digit :: "nat \<Rightarrow> char" where
  "hex_digit n = (if n < 10 then char_of (48 + n) else char_of (87 + n))"

definition repr_char :: "char \<Rightarrow> char \<Rightarrow> string" where
  "repr_char q c =
     (if c = q \<or> c = CHR 0x5C then [CHR 0x5C, c]
      else if c = CHR 0x0A then [CHR 0x5C, CHR ''n'']
      else if c = CHR 0x0D then [CHR 0x5C, CHR ''r'']
      else if c = CHR 0x09 then [CHR 0x5C, CHR ''t'']
      else if char_code c < 32 \<or> char_code c = 127
      then [CHR 0x5C, CHR ''x'', hex_digit (char_code c div 16), hex_digit (char_code c mod 16)]
      else [c])"

definition repr_str :: "string \<Rightarrow> string" where
  "repr_str s =
     (let q = (if CHR 0x27 \<in> set s \<and> CHR 0x22 \<notin> set s then CHR 0x22 else CHR 0x27) in
      [q] @ concat (map (repr_char q) s) @ [q])"

fun py_repr :: "pyval \<Rightarrow> string" where
  "py_repr PNone = ''None''"
| "py_repr (PBool b) = (if b then ''True'' else ''False'')"
| "py_repr (PInt i) = int_str i"
| "py_repr (PStr s) = repr_str s"
| "py_repr (PList xs) = ''['' @ join_with '', '' (map py_repr xs) @ '']''"
| "py_repr (PDict d) =
     CHR 0x7B # join_with '', '' (map (\<lambda>(k, v). repr_str k @ '': '' @ py_repr v) d) @ [CHR 0x7D]"

definition py_str :: "pyval \<Rightarrow> string" where
  "py_str v = (case v of PStr s \<Rightarrow> s | _ \<Rightarrow> py_repr v)"

text \<open>\<open>str.replace('.', ' ')\<close> and \<open>str.title\<close>: a letter is upper case after a non-letter.\<close>

definition dots_to_spaces :: "string \<Rightarrow> string" where
  "dots_to_spaces s = map (\<lambda>c. if c = CHR ''.'' then CHR '' '' else c) s"

fun title_from :: "bool \<Rightarrow> string \<Rightarrow> string" where
  "title_from in_word [] = []"
| "title_from in_word (c # cs) =
     (if is_alpha c then (if in_word then lower_char c else upper_char c) else c)
     # title_from (is_alpha c) cs"

subsection \<open>HTTP\<close>

text \<open>
  \<open>Http_Error code reason text body\<close>: \<open>text\<close> is \<open>str(e)\<close> and \<open>body\<close> the error body, if
  it reads as JSON.
\<close>

datatype http_reply =
    Empty_Body
  | Json_Body pyval
  | Http_Error nat string string "pyval option"
  | Url_Error string
  | Other_Failure string

type_synonym http_server =
  "string \<Rightarrow> string \<Rightarrow> (string \<times> string) list \<Rightarrow> pyval option \<Rightarrow> http_reply"

text \<open>
  \<open>urllib.request.Request\<close> raises \<open>ValueError\<close> for a URL without a scheme. The URL is stripped, freed of angle
  brackets and the prefix \<open>URL:\<close>, and cut at its last \<open>#\<close>; the scheme is what stands before the first colon, if it is not
  empty and holds no slash.
\<close>

definition unwrap_url :: "string \<Rightarrow> string" where
  "unwrap_url url =
     (let u = strip url;
          v = (if u \<noteq> [] \<and> hd u = CHR ''<'' \<and> last u = CHR ''>'' then strip (butlast (tl u)) else u) in
      if take 4 v = ''URL:'' then strip (drop 4 v) else v)"

definition without_fragment :: "string \<Rightarrow> string" where
  "without_fragment u =
     (if CHR ''#'' \<in> set u then rev (tl (dropWhile (\<lambda>c. c \<noteq> CHR ''#'') (rev u))) else u)"

definition has_scheme :: "string \<Rightarrow> bool" where
  "has_scheme u = (case dropWhile (\<lambda>c. c \<noteq> CHR ''/'' \<and> c \<noteq> CHR '':'') u of
      [] \<Rightarrow> False | c # _ \<Rightarrow> c = CHR '':'' \<and> hd u \<noteq> CHR '':'')"

definition url_error :: "string \<Rightarrow> exn option" where
  "url_error url =
     (let u = unwrap_url url; v = without_fragment u in
      if has_scheme v then None
      else Some (Exn (Builtin ValueError)
        (''unknown url type: '' @ repr_str (if u = v @ ''#'' then v else u))))"

subsection \<open>The contract of a gateway provider\<close>

locale gateway =
  fixes connected :: "'s \<Rightarrow> bool"
    and descriptor :: "'s \<Rightarrow> provider result"
    and definitions :: "'s \<Rightarrow> capability list"
    and connect :: "'c \<Rightarrow> 's \<Rightarrow> bool result \<times> 's"
    and refresh :: "'c \<Rightarrow> 's \<Rightarrow> availability \<times> 's"
    and pid :: string
  assumes connect_result: "connect c s = (Inr b, s') \<Longrightarrow> connected s' = b"
    and refresh_off: "\<not> connected s \<Longrightarrow> refresh c s = (UNAVAILABLE, s)"
    and refresh_lost: "refresh c s = (a, s') \<Longrightarrow> \<not> connected s' \<Longrightarrow> a = UNAVAILABLE"
    and descriptor_id: "descriptor s = Inr p \<Longrightarrow> prov_id p = pid"
    and descriptor_off: "\<not> connected s \<Longrightarrow>
          \<exists>p. descriptor s = Inr p \<and> prov_capabilities p = [] \<and> prov_availability p = UNAVAILABLE"
begin

text \<open>Polling the status never connects: a lost gateway stays lost until \<open>connect\<close>.\<close>

fun polls :: "'c list \<Rightarrow> 's \<Rightarrow> 's" where
  "polls [] s = s"
| "polls (c # cs) s = polls cs (snd (refresh c s))"

lemma refresh_off_snd: "\<not> connected s \<Longrightarrow> snd (refresh c s) = s"
  by (simp add: refresh_off)

lemma polls_stay_off: "\<not> connected s \<Longrightarrow> polls cs s = s"
  by (induction cs) (simp_all add: refresh_off_snd)

lemma refresh_antitone: "connected (snd (refresh c s)) \<Longrightarrow> connected s"
  using refresh_off_snd by fastforce

lemma lost_is_unavailable:
  assumes "refresh c s = (a, s')" and "\<not> connected s'"
  shows "a = UNAVAILABLE \<and> fst (refresh c' s') = UNAVAILABLE
    \<and> (\<exists>p. descriptor s' = Inr p \<and> prov_availability p = UNAVAILABLE)"
  using refresh_lost [OF assms] refresh_off [OF assms(2)] descriptor_off [OF assms(2)] by auto

end

end
