(* ===== verification/Shyam_Flux.thy ===== *)
theory Shyam_Flux
  imports Shyam_Gateway
begin

section \<open>The Flux connectivity provider\<close>

text \<open>
  \<open>providers/flux/\<close>: the contract models, the mapper, the HTTP client and the provider.
  The class validators of the wire models (\<open>model_validate\<close>) are arguments gathered in
  \<open>flux_parsers\<close>; the provider sees its client as the answers it gives, so each operation
  takes a \<open>flux_client\<close>, and \<open>flux_http_client\<close> builds one over a server.
\<close>

subsection \<open>providers/flux/models.py\<close>

datatype flux_node_state =
  FLUX_INITIALIZING | FLUX_RUNNING | FLUX_LISTENING | FLUX_DEGRADED | FLUX_STOPPED

datatype flux_path_state = PATH_AVAILABLE | PATH_DEGRADED | PATH_UNAVAILABLE | PATH_STALE

datatype flux_transport_kind = TCP_LAN | TCP_WIFI | TCP_DIRECT | RELAY | BLUETOOTH

datatype flux_transfer_status =
  TRANSFER_CREATED | TRANSFER_RUNNING | TRANSFER_COMPLETED | TRANSFER_FAILED | TRANSFER_CANCELLED

record flux_identity =
  fi_peer_id :: string
  fi_version :: string
  fi_protocol_version :: string

record flux_status =
  fst_state :: flux_node_state
  fst_peer_id :: string
  fst_discovered_peer_count :: int
  fst_active_path_count :: int
  fst_active_transfer_count :: int

record flux_path_info =
  fpath_id :: string
  fpath_transport :: flux_transport_kind
  fpath_remote_addr :: string
  fpath_state :: flux_path_state
  fpath_rtt_ms :: "int option"
  fpath_last_seen :: "string option"

record flux_peer_info =
  fpeer_id :: string
  fpeer_address :: "string option"
  fpeer_last_seen :: "string option"
  fpeer_last_seen_secs_ago :: "int option"
  fpeer_paths :: "flux_path_info list"
  fpeer_connectivity :: string

record flux_connect_response =
  fcr_peer_id :: string
  fcr_success :: bool
  fcr_connected_address :: "string option"
  fcr_message :: "string option"
  fcr_connected :: "bool option"
  fcr_active_path_count :: int

definition fcr_is_connected :: "flux_connect_response \<Rightarrow> bool" where
  "fcr_is_connected r = (case fcr_connected r of Some b \<Rightarrow> b | None \<Rightarrow> fcr_success r)"

record flux_transfer_response =
  ftr_transfer_id :: string
  ftr_status :: flux_transfer_status

record flux_transfer_info =
  fti_transfer_id :: string
  fti_peer_id :: string
  fti_status :: flux_transfer_status
  fti_bytes_transferred :: int
  fti_total_bytes :: int
  fti_files_transferred :: int
  fti_total_files :: int
  fti_error_message :: "string option"

record flux_cancel_response =
  fca_transfer_id :: string
  fca_cancelled :: bool

subsection \<open>providers/flux/exceptions.py and providers/flux/client.py\<close>

definition flux_exn :: "flux_class \<Rightarrow> string \<Rightarrow> exn" where
  "flux_exn c m = Exn (Flux_Exn c) m"

definition flux_peer_not_found :: "string \<Rightarrow> exn" where
  "flux_peer_not_found peer = flux_exn FluxPeerNotFoundError (''Peer not found: '' @ peer)"

text \<open>
  The body of an HTTP error as \<open>code\<close>, \<open>message\<close> and \<open>detail\<close>; \<open>None\<close> where reading it
  raises (no JSON, or an \<open>error\<close> that is no object).
\<close>

definition flux_error_fields ::
  "string \<Rightarrow> pyval option \<Rightarrow> (string \<times> string \<times> pyval) option" where
  "flux_error_fields text body =
     (case body of None \<Rightarrow> None
      | Some j \<Rightarrow>
          let inner = (case j of PDict d \<Rightarrow> dget_or d ''error'' j | _ \<Rightarrow> PDict []) in
          (case inner of
             PDict d \<Rightarrow>
               Some (lower (py_str (dget_or d ''code'' (PStr ''unknown''))),
                     py_str (dget_or d ''message'' (PStr text)),
                     py_or (dget_or d ''detail'' PNone) (PDict []))
           | _ \<Rightarrow> None))"

definition flux_handle_http_error ::
  "nat \<Rightarrow> string \<Rightarrow> string \<Rightarrow> pyval option \<Rightarrow> exn" where
  "flux_handle_http_error status reason text body =
     (let (code, message, detail) =
        (case flux_error_fields text body of
           Some f \<Rightarrow> f
         | None \<Rightarrow> (''unknown'', ''HTTP '' @ nat_str status @ '': '' @ reason, PDict [])) in
      if status = 404 \<and> substring ''peer'' code then
        flux_peer_not_found
          (case detail of PDict d \<Rightarrow> py_str (dget_or d ''peer_id'' (PStr ''unknown'')) | _ \<Rightarrow> ''unknown'')
      else if status = 409 \<and> substring ''protocol'' code then flux_exn FluxProtocolError message
      else if status = 503 \<or> (status = 500 \<and> substring ''not_ready'' code)
      then flux_exn FluxUnavailableError message
      else if substring ''transfer'' code then flux_exn FluxTransferError message
      else flux_exn FluxClientError message)"

definition flux_request ::
  "http_server \<Rightarrow> string \<Rightarrow> string \<Rightarrow> string \<Rightarrow> pyval option \<Rightarrow> pyval result" where
  "flux_request srv base method path data =
     (case url_error (base @ path) of Some e \<Rightarrow> Inl e | None \<Rightarrow>
     (case srv method (base @ path)
             [(''Content-Type'', ''application/json''), (''Accept'', ''application/json'')] data of
        Empty_Body \<Rightarrow> Inr (PDict [])
      | Json_Body j \<Rightarrow> Inr j
      | Http_Error status reason text body \<Rightarrow> Inl (flux_handle_http_error status reason text body)
      | Url_Error reason \<Rightarrow> Inl (flux_exn FluxConnectionError
          (''Cannot reach Flux Gateway at '' @ base @ ''. Is Flux running? Details: '' @ reason))
      | Other_Failure m \<Rightarrow> Inl (flux_exn FluxClientError (''Unexpected transport failure: '' @ m))))"

record flux_parsers =
  fv_identity :: "pyval \<Rightarrow> flux_identity result"
  fv_status :: "pyval \<Rightarrow> flux_status result"
  fv_peers :: "pyval \<Rightarrow> flux_peer_info list result"
  fv_peer :: "pyval \<Rightarrow> flux_peer_info result"
  fv_connect :: "pyval \<Rightarrow> flux_connect_response result"
  fv_transfer :: "pyval \<Rightarrow> flux_transfer_response result"
  fv_transfer_info :: "pyval \<Rightarrow> flux_transfer_info result"
  fv_cancel :: "pyval \<Rightarrow> flux_cancel_response result"

record flux_client =
  fc_get_identity :: "flux_identity result"
  fc_get_status :: "flux_status result"
  fc_get_peers :: "flux_peer_info list result"
  fc_get_peer :: "string \<Rightarrow> flux_peer_info result"
  fc_connect_peer :: "string \<Rightarrow> flux_connect_response result"
  fc_initiate_transfer ::
    "string \<Rightarrow> string \<Rightarrow> string option \<Rightarrow> bool \<Rightarrow> flux_transfer_response result"
  fc_get_transfer_status :: "string \<Rightarrow> flux_transfer_info result"
  fc_cancel_transfer :: "string \<Rightarrow> flux_cancel_response result"

definition then_validate :: "('a \<Rightarrow> 'b result) \<Rightarrow> 'a result \<Rightarrow> 'b result" where
  "then_validate parse r = (case r of Inl e \<Rightarrow> Inl e | Inr j \<Rightarrow> parse j)"

text \<open>The request of a transfer has neither the artifact's name nor its kind.\<close>

definition flux_http_client :: "http_server \<Rightarrow> flux_parsers \<Rightarrow> string \<Rightarrow> flux_client" where
  "flux_http_client srv v base =
     \<lparr>fc_get_identity = then_validate (fv_identity v) (flux_request srv base ''GET'' ''/identity'' None),
      fc_get_status = then_validate (fv_status v) (flux_request srv base ''GET'' ''/status'' None),
      fc_get_peers = then_validate (fv_peers v) (flux_request srv base ''GET'' ''/peers'' None),
      fc_get_peer = (\<lambda>peer.
        then_validate (fv_peer v) (flux_request srv base ''GET'' (''/peers/'' @ peer) None)),
      fc_connect_peer = (\<lambda>peer. then_validate (fv_connect v)
        (flux_request srv base ''POST'' ''/connect'' (Some (PDict [(''peer_id'', PStr peer)])))),
      fc_initiate_transfer = (\<lambda>peer artifact name is_dir. then_validate (fv_transfer v)
        (flux_request srv base ''POST'' ''/transfer''
           (Some (PDict [(''peer_id'', PStr peer), (''file_paths'', PList [PStr artifact])])))),
      fc_get_transfer_status = (\<lambda>t. then_validate (fv_transfer_info v)
        (flux_request srv base ''GET'' (''/transfer/'' @ t) None)),
      fc_cancel_transfer = (\<lambda>t. then_validate (fv_cancel v)
        (flux_request srv base ''POST'' (''/transfer/'' @ t @ ''/cancel'') None))\<rparr>"

lemma flux_exn_isinst: "isinst (flux_exn c m) (Flux_Exn FluxClientError)"
  by (cases c) (simp_all add: flux_exn_def exn_simps)

lemma flux_handle_http_error_isinst:
  "isinst (flux_handle_http_error status reason text body) (Flux_Exn FluxClientError)"
  by (simp add: flux_handle_http_error_def flux_peer_not_found_def flux_exn_isinst Let_def
      split: prod.split)

lemma flux_request_isinst:
  "flux_request srv base method path data = Inl e \<Longrightarrow> url_error (base @ path) = None \<Longrightarrow>
     isinst e (Flux_Exn FluxClientError)"
  by (auto simp: flux_request_def flux_exn_isinst flux_handle_http_error_isinst
      split: http_reply.splits)

lemma flux_bad_url: "url_error (base @ path) = Some e \<Longrightarrow> flux_request srv base method path data = Inl e"
  by (simp add: flux_request_def)

subsection \<open>providers/flux/mapper.py\<close>

definition PROVIDER_ID_FLUX :: string where
  "PROVIDER_ID_FLUX = ''flux.connectivity''"

definition EXPECTED_PROTOCOL_VERSION :: string where
  "EXPECTED_PROTOCOL_VERSION = ''1.0''"

definition FLUX_CAPABILITY_DEFINITIONS :: "capability list" where
  "FLUX_CAPABILITY_DEFINITIONS =
     [\<lparr>cap_id = ''connectivity.peer_discovery'', cap_name = ''Peer Discovery'',
       cap_version = ''1.0.0'', cap_description = ''Discover Flux peers on the local network.'',
       cap_metadata = [], cap_availability = AVAILABLE\<rparr>,
      \<lparr>cap_id = ''connectivity.peer_resolution'', cap_name = ''Peer Resolution'',
       cap_version = ''1.0.0'',
       cap_description = ''Resolve a Flux peer by PeerId to connectivity details.'',
       cap_metadata = [], cap_availability = AVAILABLE\<rparr>,
      \<lparr>cap_id = ''connectivity.session'', cap_name = ''Connectivity Session'',
       cap_version = ''1.0.0'',
       cap_description = ''Establish a connectivity session to a Flux peer.'',
       cap_metadata = [], cap_availability = AVAILABLE\<rparr>,
      \<lparr>cap_id = ''connectivity.transfer'', cap_name = ''Artifact Transfer'',
       cap_version = ''1.0.0'', cap_description = ''Transfer an artifact to a Flux peer.'',
       cap_metadata = [], cap_availability = AVAILABLE\<rparr>,
      \<lparr>cap_id = ''connectivity.transfer_resume'', cap_name = ''Resumable Transfer'',
       cap_version = ''1.0.0'', cap_description = ''Resume an interrupted artifact transfer.'',
       cap_metadata = [], cap_availability = AVAILABLE\<rparr>]"

fun map_flux_state_to_availability :: "flux_node_state \<Rightarrow> availability" where
  "map_flux_state_to_availability FLUX_RUNNING = AVAILABLE"
| "map_flux_state_to_availability FLUX_LISTENING = AVAILABLE"
| "map_flux_state_to_availability FLUX_DEGRADED = UNAVAILABLE"
| "map_flux_state_to_availability FLUX_INITIALIZING = UNAVAILABLE"
| "map_flux_state_to_availability FLUX_STOPPED = UNAVAILABLE"

text \<open>The description's dash is written \<open>--\<close> (strings are ASCII here).\<close>

definition flux_map_to_shyam_provider :: "flux_identity \<Rightarrow> flux_status \<Rightarrow> provider result" where
  "flux_map_to_shyam_provider identity status =
     mk_provider PROVIDER_ID_FLUX ''Flux Connectivity'' (fi_version identity)
       (''Aryntra Flux v'' @ fi_version identity
        @ '' -- adaptive multi-path P2P connectivity and transfer.'')
       (map cap_id FLUX_CAPABILITY_DEFINITIONS)
       [(''flux_peer_id'', PStr (fi_peer_id identity)),
        (''flux_protocol_version'', PStr (fi_protocol_version identity)),
        (''flux_discovered_peers'', PInt (fst_discovered_peer_count status)),
        (''flux_active_paths'', PInt (fst_active_path_count status))]
       (map_flux_state_to_availability (fst_state status))"

subsection \<open>providers/flux/provider.py\<close>

record flux_provider =
  fp_identity :: "flux_identity option"
  fp_status_resp :: "flux_status option"
  fp_is_connected :: bool

definition new_flux_provider :: flux_provider where
  "new_flux_provider = \<lparr>fp_identity = None, fp_status_resp = None, fp_is_connected = False\<rparr>"

definition fp_peer_id :: "flux_provider \<Rightarrow> string option" where
  "fp_peer_id s = (if fp_is_connected s then map_option fi_peer_id (fp_identity s) else None)"

definition flux_disconnected_descriptor :: "provider result" where
  "flux_disconnected_descriptor =
     mk_provider PROVIDER_ID_FLUX ''Flux Connectivity (Disconnected)'' ''0.0.0''
       ''Aryntra Flux provider (not connected)'' [] [] UNAVAILABLE"

definition fp_descriptor :: "flux_provider \<Rightarrow> provider result" where
  "fp_descriptor s =
     (if \<not> fp_is_connected s then flux_disconnected_descriptor
      else case (fp_identity s, fp_status_resp s) of
             (Some i, Some st) \<Rightarrow> flux_map_to_shyam_provider i st
           | _ \<Rightarrow> flux_disconnected_descriptor)"

definition fp_capability_definitions :: "flux_provider \<Rightarrow> capability list" where
  "fp_capability_definitions s = (if \<not> fp_is_connected s then [] else FLUX_CAPABILITY_DEFINITIONS)"

definition flux_protocol_ok :: "string \<Rightarrow> bool" where
  "flux_protocol_ok proto_ver \<longleftrightarrow>
     starts_with (hd (split_on (CHR ''.'') EXPECTED_PROTOCOL_VERSION)) proto_ver"

text \<open>
  \<open>connect\<close> may raise after it has changed the object, so it returns the state beside its
  result. A raised \<open>FluxClientError\<close> that is no protocol error becomes \<open>False\<close>.
\<close>

definition fp_connect_failed :: "exn \<Rightarrow> flux_provider \<Rightarrow> bool result \<times> flux_provider" where
  "fp_connect_failed e s =
     (if isinst e (Flux_Exn FluxProtocolError) then (Inl e, s)
      else if isinst e (Flux_Exn FluxClientError) then (Inr False, s\<lparr>fp_is_connected := False\<rparr>)
      else (Inl e, s))"

definition fp_connect :: "flux_client \<Rightarrow> flux_provider \<Rightarrow> bool result \<times> flux_provider" where
  "fp_connect c s =
     (case fc_get_identity c of
        Inl e \<Rightarrow> fp_connect_failed e s
      | Inr i \<Rightarrow>
          let s1 = s\<lparr>fp_identity := Some i\<rparr>; proto_ver = fi_protocol_version i in
          if \<not> flux_protocol_ok proto_ver
          then fp_connect_failed (flux_exn FluxProtocolError
                 (''Incompatible Flux protocol. Expected major '' @ quoted EXPECTED_PROTOCOL_VERSION
                  @ '', got '' @ quoted proto_ver)) s1
          else (case fc_get_status c of
                  Inl e \<Rightarrow> fp_connect_failed e s1
                | Inr st \<Rightarrow> (Inr True, s1\<lparr>fp_status_resp := Some st, fp_is_connected := True\<rparr>)))"

definition fp_refresh_status :: "flux_client \<Rightarrow> flux_provider \<Rightarrow> availability \<times> flux_provider" where
  "fp_refresh_status c s =
     (if \<not> fp_is_connected s then (UNAVAILABLE, s)
      else case fc_get_status c of
             Inr st \<Rightarrow> (map_flux_state_to_availability (fst_state st), s\<lparr>fp_status_resp := Some st\<rparr>)
           | Inl _ \<Rightarrow> (UNAVAILABLE, s\<lparr>fp_is_connected := False\<rparr>))"

text \<open>The guard of the six operations.\<close>

definition fp_guard :: "flux_provider \<Rightarrow> 'a result \<Rightarrow> 'a result" where
  "fp_guard s r = (if \<not> fp_is_connected s
                   then Inl (flux_exn FluxConnectionError ''FluxProvider is not connected.'') else r)"

definition fp_discover_peers :: "flux_client \<Rightarrow> flux_provider \<Rightarrow> flux_peer_info list result" where
  "fp_discover_peers c s = fp_guard s (fc_get_peers c)"

definition fp_resolve_peer :: "flux_client \<Rightarrow> flux_provider \<Rightarrow> string \<Rightarrow> flux_peer_info result" where
  "fp_resolve_peer c s peer = fp_guard s (fc_get_peer c peer)"

definition fp_connect_peer ::
  "flux_client \<Rightarrow> flux_provider \<Rightarrow> string \<Rightarrow> flux_connect_response result" where
  "fp_connect_peer c s peer = fp_guard s (fc_connect_peer c peer)"

definition fp_transfer ::
  "flux_client \<Rightarrow> flux_provider \<Rightarrow> string \<Rightarrow> string \<Rightarrow> string option \<Rightarrow> bool
     \<Rightarrow> flux_transfer_response result" where
  "fp_transfer c s peer artifact name is_dir = fp_guard s (fc_initiate_transfer c peer artifact name is_dir)"

definition fp_get_transfer_status ::
  "flux_client \<Rightarrow> flux_provider \<Rightarrow> string \<Rightarrow> flux_transfer_info result" where
  "fp_get_transfer_status c s t = fp_guard s (fc_get_transfer_status c t)"

definition fp_cancel_transfer ::
  "flux_client \<Rightarrow> flux_provider \<Rightarrow> string \<Rightarrow> flux_cancel_response result" where
  "fp_cancel_transfer c s t = fp_guard s (fc_cancel_transfer c t)"

lemma flux_disconnected_ok:
  "\<exists>p. flux_disconnected_descriptor = Inr p \<and> prov_id p = PROVIDER_ID_FLUX
     \<and> prov_capabilities p = [] \<and> prov_availability p = UNAVAILABLE"
  by (simp add: flux_disconnected_descriptor_def mk_provider_def validate_provider_id_def
      validate_namespaced_def validate_version_def PROVIDER_ID_FLUX_def str_eval)

lemma fp_connect_failed_Inr:
  "fp_connect_failed e s = (Inr b, s') \<Longrightarrow> b = False \<and> \<not> fp_is_connected s'"
  by (auto simp: fp_connect_failed_def split: if_splits)

lemma fp_connect_True:
  "fp_connect c s = (Inr True, s') \<longleftrightarrow>
     (\<exists>i st. fc_get_identity c = Inr i \<and> flux_protocol_ok (fi_protocol_version i)
        \<and> fc_get_status c = Inr st
        \<and> s' = s\<lparr>fp_identity := Some i, fp_status_resp := Some st, fp_is_connected := True\<rparr>)"
  by (auto simp: fp_connect_def Let_def dest: fp_connect_failed_Inr split: sum.splits if_splits)

lemma flux_disconnected_id:
  "flux_disconnected_descriptor = Inr p \<Longrightarrow> prov_id p = PROVIDER_ID_FLUX"
  by (auto simp: flux_disconnected_descriptor_def dest: mk_provider_Inr)

lemma fp_connect_iff:
  assumes "fp_connect c s = (r, s')"
  shows "r = Inr True \<longleftrightarrow> (\<exists>i st. fc_get_identity c = Inr i
      \<and> flux_protocol_ok (fi_protocol_version i) \<and> fc_get_status c = Inr st)"
  using fp_connect_True [of c s s'] assms
  by (cases "fc_get_identity c"; cases "fc_get_status c")
    (auto simp: fp_connect_def Let_def dest: fp_connect_failed_Inr split: if_splits)

lemma fp_connect_state:
  assumes "fp_connect c s = (Inr True, s')"
  shows "fp_is_connected s' \<and> fp_identity s' \<noteq> None \<and> fp_status_resp s' \<noteq> None"
proof -
  from assms [unfolded fp_connect_True] obtain i st where
    "s' = s\<lparr>fp_identity := Some i, fp_status_resp := Some st, fp_is_connected := True\<rparr>" by blast
  then show ?thesis by simp
qed

lemma fp_connect_error:
  "fp_connect c s = (r, s') \<Longrightarrow> fc_get_identity c = Inl e \<Longrightarrow> isinst e (Flux_Exn FluxClientError) \<Longrightarrow>
     (if isinst e (Flux_Exn FluxProtocolError) then r = Inl e else r = Inr False \<and> \<not> fp_is_connected s')"
  by (auto simp: fp_connect_def fp_connect_failed_def)

lemma fp_connect_raises:
  "fp_connect c s = (Inl e, s') \<Longrightarrow> fp_is_connected s' = fp_is_connected s"
  by (auto simp: fp_connect_def Let_def fp_connect_failed_def split: sum.splits if_splits)

interpretation flux: gateway fp_is_connected fp_descriptor fp_capability_definitions fp_connect
  fp_refresh_status PROVIDER_ID_FLUX
proof
  fix c s b s' a p
  show "fp_connect c s = (Inr b, s') \<Longrightarrow> fp_is_connected s' = b"
    by (auto simp: fp_connect_def Let_def dest: fp_connect_failed_Inr split: sum.splits if_splits)
  show "\<not> fp_is_connected s \<Longrightarrow> fp_refresh_status c s = (UNAVAILABLE, s)"
    by (simp add: fp_refresh_status_def)
  show "fp_refresh_status c s = (a, s') \<Longrightarrow> \<not> fp_is_connected s' \<Longrightarrow> a = UNAVAILABLE"
    by (auto simp: fp_refresh_status_def split: if_splits sum.splits)
  show "fp_descriptor s = Inr p \<Longrightarrow> prov_id p = PROVIDER_ID_FLUX"
    by (auto simp: fp_descriptor_def flux_map_to_shyam_provider_def
        dest: mk_provider_Inr flux_disconnected_id
        split: if_splits option.splits)
  show "\<not> fp_is_connected s \<Longrightarrow>
      \<exists>p. fp_descriptor s = Inr p \<and> prov_capabilities p = [] \<and> prov_availability p = UNAVAILABLE"
    using flux_disconnected_ok by (auto simp: fp_descriptor_def)
qed

text \<open>
  Connecting to a Flux gateway over HTTP returns \<open>True\<close> exactly when the identity is
  answered with a protocol version that starts with 1 and the status is answered; the provider
  is then connected and holds both answers. It returns \<open>False\<close> and leaves the
  provider disconnected when the identity request fails with any error that is no protocol
  error, unless the URL has no scheme: then the \<open>ValueError\<close> is raised. A call that raises leaves the connected flag as it was: a provider that was
  disconnected stays so, and one that was connected stays connected although the gateway now
  speaks another protocol.
\<close>

theorem flux_connect_outcome:
  assumes "fp_connect (flux_http_client srv v base) s = (r, s')"
  shows "(r = Inr True \<longleftrightarrow>
            (\<exists>i st. fc_get_identity (flux_http_client srv v base) = Inr i
               \<and> starts_with ''1'' (fi_protocol_version i)
               \<and> fc_get_status (flux_http_client srv v base) = Inr st))
       \<and> (r = Inr True \<longrightarrow> fp_is_connected s' \<and> fp_identity s' \<noteq> None \<and> fp_status_resp s' \<noteq> None)
       \<and> (\<forall>e. flux_request srv base ''GET'' ''/identity'' None = Inl e \<longrightarrow>
            (if isinst e (Flux_Exn FluxProtocolError) \<or> url_error (base @ ''/identity'') \<noteq> None then r = Inl e
             else r = Inr False \<and> \<not> fp_is_connected s'))
       \<and> (\<forall>e. r = Inl e \<longrightarrow> fp_is_connected s' = fp_is_connected s)"
proof -
  let ?c = "flux_http_client srv v base"
  have proto: "flux_protocol_ok x \<longleftrightarrow> starts_with ''1'' x" for x
    by (simp add: flux_protocol_ok_def EXPECTED_PROTOCOL_VERSION_def)
  have iff: "r = Inr True \<longleftrightarrow> (\<exists>i st. fc_get_identity ?c = Inr i
      \<and> starts_with ''1'' (fi_protocol_version i) \<and> fc_get_status ?c = Inr st)"
    using fp_connect_iff [OF assms] by (simp only: proto)
  have conn: "r = Inr True \<longrightarrow> fp_is_connected s' \<and> fp_identity s' \<noteq> None \<and> fp_status_resp s' \<noteq> None"
    using fp_connect_state assms by blast
  have err: "if isinst e (Flux_Exn FluxProtocolError) \<or> url_error (base @ ''/identity'') \<noteq> None then r = Inl e
             else r = Inr False \<and> \<not> fp_is_connected s'"
    if "flux_request srv base ''GET'' ''/identity'' None = Inl e" for e
  proof -
    have "fc_get_identity ?c = Inl e"
      using that by (simp add: flux_http_client_def then_validate_def)
    note fails = this
    show ?thesis
    proof (cases "url_error (base @ ''/identity'')")
      case None
      with fp_connect_error [OF assms fails flux_request_isinst [OF that None]] show ?thesis by simp
    next
      case (Some e')
      with that have "e = e'" by (simp add: flux_bad_url)
      with Some obtain m where "e = Exn (Builtin ValueError) m" by (auto simp: url_error_def Let_def split: if_splits)
      with fails Some assms show ?thesis by (auto simp: fp_connect_def fp_connect_failed_def exn_simps)
    qed
  qed
  have off: "fp_is_connected s' = fp_is_connected s" if "r = Inl e" for e
    using fp_connect_raises assms that by blast
  from iff conn err off show ?thesis by blast
qed

definition not_parsed :: "pyval \<Rightarrow> 'a result" where
  "not_parsed j = Inl (value_error ''not parsed'')"

definition no_flux_parsers :: flux_parsers where
  "no_flux_parsers =
     \<lparr>fv_identity = not_parsed, fv_status = not_parsed, fv_peers = not_parsed, fv_peer = not_parsed,
      fv_connect = not_parsed, fv_transfer = not_parsed, fv_transfer_info = not_parsed,
      fv_cancel = not_parsed\<rparr>"

theorem flux_connect_outcome_witness:
  "fst (fp_connect (flux_http_client (\<lambda>_ _ _ _. Url_Error ''refused'') no_flux_parsers ''http://f'')
     new_flux_provider) = Inr False"
proof -
  let ?srv = "\<lambda>_ _ _ _. Url_Error ''refused''"
  have ok: "url_error ''http://f/identity'' = None" by code_simp
  obtain r s' where run: "fp_connect (flux_http_client ?srv no_flux_parsers ''http://f'')
      new_flux_provider = (r, s')" by force
  obtain e where e: "flux_request ?srv ''http://f'' ''GET'' ''/identity'' None = Inl e"
    and c: "\<not> isinst e (Flux_Exn FluxProtocolError)"
    by (cases "url_error ''http://f/identity''") (simp_all add: flux_request_def flux_exn_def exn_simps ok)
  from flux_connect_outcome [OF run, THEN conjunct2, THEN conjunct2, THEN conjunct1, rule_format, OF e] c ok
  show ?thesis by (simp add: run)
qed

end
