(* ===== verification/Shyam_Zarya.thy ===== *)
theory Shyam_Zarya
  imports Shyam_Gateway
begin

section \<open>The Zarya sovereign provider\<close>

text \<open>
  \<open>providers/zarya/\<close>: the EIP-1 wire models, the mapper, the HTTP client and the provider. As
  for Flux, the server and the class validators are arguments and the provider sees a client as
  the answers it gives. The mapping of a capability runs the capability's validators, so a name
  or version of the remote side that Shyam refuses raises.
\<close>

subsection \<open>providers/zarya/models.py\<close>

datatype ecosystem_status =
  ZARYA_READY | ZARYA_BUSY | ZARYA_STARTING | ZARYA_STOPPING | ZARYA_UNAVAILABLE

datatype verification_outcome = VERIFIED_SUCCESS | VERIFIED_FAILURE | OUTCOME_UNKNOWN

fun outcome_value :: "verification_outcome \<Rightarrow> string" where
  "outcome_value VERIFIED_SUCCESS = ''VERIFIED_SUCCESS''"
| "outcome_value VERIFIED_FAILURE = ''VERIFIED_FAILURE''"
| "outcome_value OUTCOME_UNKNOWN = ''UNKNOWN''"

text \<open>The codes the client tells apart by name; the others are kept as text.\<close>

definition EIP1_ERROR_CODES :: "string list" where
  "EIP1_ERROR_CODES =
     [''INVALID_REQUEST'', ''UNSUPPORTED_PROTOCOL'', ''CAPABILITY_NOT_ADVERTISED'',
      ''OPERATION_NOT_SUPPORTED'', ''UNAUTHORIZED'', ''BUSY'', ''UNAVAILABLE'', ''INVALID_STATE'',
      ''EXECUTION_FAILED'', ''VERIFICATION_FAILED'', ''TOOL_NOT_ALLOWED'', ''UNKNOWN'']"

record auth_info =
  auth_method :: string
  auth_header_name :: string
  auth_description :: string

record device_info =
  dev_device_id :: string
  dev_display_name :: string
  dev_device_type :: string
  dev_platform :: string

record zarya_identity =
  zi_instance_id :: string
  zi_product :: string
  zi_version :: string
  zi_protocol :: string
  zi_platform :: string
  zi_architecture :: string
  zi_device :: "device_info option"

record protocol_response =
  zpr_current :: string
  zpr_supported :: "string list"

record capability_entry =
  ze_id :: string
  ze_version :: string
  ze_description :: string
  ze_operations :: "string list"
  ze_input_schema :: "(string, pyval) dict option"
  ze_output_schema :: "(string, pyval) dict option"

record capabilities_response =
  zcr_protocol :: string
  zcr_capabilities :: "capability_entry list"
  zcr_allowed_tools :: "string list"

record status_response =
  zsr_status :: ecosystem_status
  zsr_active_operations :: int

record work_response =
  zw_tool :: string
  zw_outcome :: verification_outcome
  zw_verified :: bool
  zw_result :: "(string, pyval) dict"
  zw_summary :: string

record work_status =
  zws_operation_id :: string
  zws_ecosystem_status :: string
  zws_lifecycle_status :: string
  zws_detail :: "(string \<times> int \<times> int) option"

record continuation_response =
  zc_operation_id :: string
  zc_outcome :: verification_outcome
  zc_reconstruction_completed :: bool
  zc_execution_completed :: bool
  zc_result :: "(string, pyval) dict"
  zc_summary :: string

subsection \<open>providers/zarya/exceptions.py and providers/zarya/client.py\<close>

definition zarya_exn :: "zarya_class \<Rightarrow> string \<Rightarrow> exn" where
  "zarya_exn c m = Exn (Zarya_Exn c) m"

definition zarya_tool_not_allowed :: "string \<Rightarrow> exn" where
  "zarya_tool_not_allowed tool = zarya_exn ZaryaToolNotAllowedError
     (''Tool '' @ quoted tool @ '' is not permitted through the ecosystem boundary.'')"

definition zarya_verification_error :: "string \<Rightarrow> verification_outcome \<Rightarrow> string \<Rightarrow> exn" where
  "zarya_verification_error tool outcome summary = zarya_exn ZaryaVerificationError
     (''Verification failed for '' @ quoted tool @ '': '' @ outcome_value outcome @ ''. '' @ summary)"

text \<open>\<open>"error" in detail\<close>: \<open>None\<close> where the operator raises \<open>TypeError\<close>.\<close>

definition mentions_error :: "pyval \<Rightarrow> bool option" where
  "mentions_error d = (case d of
      PDict e \<Rightarrow> Some (dmem ''error'' e)
    | PStr s \<Rightarrow> Some (substring ''error'' s)
    | PList xs \<Rightarrow> Some (PStr ''error'' \<in> set xs)
    | _ \<Rightarrow> None)"

text \<open>
  \<open>EcosystemErrorEnvelope.model_validate\<close>: the code, the message and the detail; \<open>None\<close> where
  validation fails.
\<close>

definition parse_error_envelope :: "pyval \<Rightarrow> (string \<times> string \<times> (string, pyval) dict) option" where
  "parse_error_envelope d = (case d of
      PDict e \<Rightarrow> (case dget e ''error'' of
          Some (PDict f) \<Rightarrow>
            (case (dget f ''code'', dget f ''message'', dget_or f ''detail'' (PDict [])) of
               (Some (PStr code), Some (PStr message), PDict detail) \<Rightarrow>
                 if code \<in> set EIP1_ERROR_CODES then Some (code, message, detail) else None
             | _ \<Rightarrow> None)
        | _ \<Rightarrow> None)
    | _ \<Rightarrow> None)"

text \<open>
  \<open>_handle_structured_error\<close> always raises; \<open>None\<close> stands for an exception outside the
  \<open>ZaryaClientError\<close> family, on which \<open>_request\<close> falls back to the status code. The text of
  a failed validation is the argument \<open>vtext\<close>.
\<close>

definition zarya_structured_error :: "(pyval \<Rightarrow> string) \<Rightarrow> nat \<Rightarrow> pyval \<Rightarrow> exn option" where
  "zarya_structured_error vtext status error_data =
     (case error_data of
        PDict d \<Rightarrow>
          let detail = dget_or d ''detail'' (PDict []) in
          (case mentions_error detail of
             None \<Rightarrow> None
           | Some False \<Rightarrow> Some (zarya_exn ZaryaClientError
               (''HTTP '' @ nat_str status @ '': '' @ py_str error_data))
           | Some True \<Rightarrow> (case parse_error_envelope detail of
               None \<Rightarrow> Some (zarya_exn ZaryaClientError
                 (''Failed to validate EIP-1 error model: '' @ vtext detail))
             | Some (code, message, det) \<Rightarrow> Some
                 (if code = ''UNAUTHORIZED'' then zarya_exn ZaryaAuthenticationError message
                  else if code = ''TOOL_NOT_ALLOWED'' then zarya_tool_not_allowed
                    (if CHR 0x27 \<in> set message then split_on (CHR 0x27) message ! 1 else ''unknown'')
                  else if code = ''BUSY'' then zarya_exn ZaryaBusyError message
                  else if code = ''UNAVAILABLE'' then zarya_exn ZaryaUnavailableError message
                  else zarya_exn ZaryaClientError message)))
      | _ \<Rightarrow> None)"

definition zarya_status_fallback :: "nat \<Rightarrow> exn option" where
  "zarya_status_fallback status =
     (if status = 401
      then Some (zarya_exn ZaryaAuthenticationError ''Invalid or missing ecosystem token'')
      else if status = 403 then Some (zarya_exn ZaryaClientError ''Access forbidden.'')
      else if status = 404 then Some (zarya_exn ZaryaClientError ''Not found.'')
      else if status = 503
      then Some (zarya_exn ZaryaUnavailableError ''Service unavailable fallback.'')
      else None)"

definition zarya_http_error ::
  "(pyval \<Rightarrow> string) \<Rightarrow> nat \<Rightarrow> string \<Rightarrow> pyval option \<Rightarrow> exn" where
  "zarya_http_error vtext status reason body =
     (case (case body of None \<Rightarrow> None | Some j \<Rightarrow> zarya_structured_error vtext status j) of
        Some e \<Rightarrow> e
      | None \<Rightarrow> (case zarya_status_fallback status of
          Some e \<Rightarrow> e
        | None \<Rightarrow> zarya_exn ZaryaClientError
            (''HTTP error '' @ nat_str status @ '': '' @ reason)))"

record zarya_http =
  zh_server :: http_server
  zh_base_url :: string
  zh_token :: string
  zh_vtext :: "pyval \<Rightarrow> string"

definition zarya_request ::
  "zarya_http \<Rightarrow> string \<Rightarrow> string \<Rightarrow> pyval option \<Rightarrow> bool \<Rightarrow> pyval result" where
  "zarya_request h method path data auth_required =
     (if auth_required \<and> zh_token h = []
      then Inl (zarya_exn ZaryaAuthenticationError ''No ecosystem token configured.'')
      else (case url_error (zh_base_url h @ path) of Some e \<Rightarrow> Inl e | None \<Rightarrow>
            (case zh_server h method (zh_base_url h @ path)
                  ([(''Content-Type'', ''application/json''), (''Accept'', ''application/json'')]
                   @ (if auth_required then [(''X-Ecosystem-Token'', zh_token h)] else [])) data of
        Empty_Body \<Rightarrow> Inr (PDict [])
      | Json_Body j \<Rightarrow> Inr j
      | Http_Error status reason text body \<Rightarrow> Inl (zarya_http_error (zh_vtext h) status reason body)
      | Url_Error reason \<Rightarrow> Inl (zarya_exn ZaryaConnectionError
          (''Cannot reach Zarya at '' @ zh_base_url h @ ''. Is Zarya running? Details: '' @ reason))
      | Other_Failure m \<Rightarrow> Inl (zarya_exn ZaryaClientError (''Unexpected transport failure: '' @ m)))))"

record zarya_parsers =
  zv_auth_info :: "pyval \<Rightarrow> auth_info result"
  zv_identity :: "pyval \<Rightarrow> zarya_identity result"
  zv_protocol :: "pyval \<Rightarrow> protocol_response result"
  zv_capabilities :: "pyval \<Rightarrow> capabilities_response result"
  zv_status :: "pyval \<Rightarrow> status_response result"
  zv_work :: "pyval \<Rightarrow> work_response result"
  zv_work_status :: "pyval \<Rightarrow> work_status result"
  zv_continuation :: "pyval \<Rightarrow> continuation_response result"

record zarya_client =
  zcl_get_auth_info :: "auth_info result"
  zcl_get_identity :: "zarya_identity result"
  zcl_get_protocol :: "protocol_response result"
  zcl_get_capabilities :: "capabilities_response result"
  zcl_get_status :: "status_response result"
  zcl_execute_work :: "string \<Rightarrow> (string, pyval) dict option \<Rightarrow> work_response result"
  zcl_get_work_status :: "string \<Rightarrow> work_status result"
  zcl_continue_work ::
    "(string, pyval) dict \<Rightarrow> string \<Rightarrow> string \<Rightarrow> continuation_response result"

definition validated :: "('a \<Rightarrow> 'b result) \<Rightarrow> 'a result \<Rightarrow> 'b result" where
  "validated parse r = (case r of Inl e \<Rightarrow> Inl e | Inr j \<Rightarrow> parse j)"

definition zarya_execute_work ::
  "zarya_http \<Rightarrow> zarya_parsers \<Rightarrow> string \<Rightarrow> (string, pyval) dict option \<Rightarrow> work_response result" where
  "zarya_execute_work h v tool args =
     (case validated (zv_work v) (zarya_request h ''POST'' ''/work/execute''
             (Some (PDict [(''tool'', PStr tool),
                           (''args'', PDict (case args of None \<Rightarrow> [] | Some a \<Rightarrow> a))])) True) of
        Inl e \<Rightarrow> Inl e
      | Inr resp \<Rightarrow>
          if zw_outcome resp = VERIFIED_FAILURE
          then Inl (zarya_verification_error (zw_tool resp) (zw_outcome resp) (zw_summary resp))
          else Inr resp)"

definition zarya_continue_work ::
  "zarya_http \<Rightarrow> zarya_parsers \<Rightarrow> (string, pyval) dict \<Rightarrow> string \<Rightarrow> string
     \<Rightarrow> continuation_response result" where
  "zarya_continue_work h v portable_work source_device_id continuity_id =
     validated (zv_continuation v) (zarya_request h ''POST'' ''/work/continue''
       (Some (PDict [(''portable_work'', PDict portable_work),
                     (''source_device_id'', PStr source_device_id),
                     (''continuity_id'', PStr continuity_id)])) True)"

definition zarya_http_client :: "zarya_http \<Rightarrow> zarya_parsers \<Rightarrow> zarya_client" where
  "zarya_http_client h v =
     (let get = (\<lambda>path. zarya_request h ''GET'' path None True) in
     \<lparr>zcl_get_auth_info = validated (zv_auth_info v) (zarya_request h ''GET'' ''/auth-info'' None False),
      zcl_get_identity = validated (zv_identity v) (get ''/identity''),
      zcl_get_protocol = validated (zv_protocol v) (get ''/protocol''),
      zcl_get_capabilities = validated (zv_capabilities v) (get ''/capabilities''),
      zcl_get_status = validated (zv_status v) (get ''/status''),
      zcl_execute_work = zarya_execute_work h v,
      zcl_get_work_status = (\<lambda>i. validated (zv_work_status v) (get (''/work/status/'' @ i))),
      zcl_continue_work = zarya_continue_work h v\<rparr>)"

lemma zarya_exn_isinst: "isinst (zarya_exn c m) (Zarya_Exn ZaryaClientError)"
  by (cases c) (simp_all add: zarya_exn_def exn_simps)

lemma zarya_structured_isinst:
  "zarya_structured_error vtext status j = Some e \<Longrightarrow> isinst e (Zarya_Exn ZaryaClientError)"
  by (auto simp: zarya_structured_error_def zarya_exn_isinst zarya_tool_not_allowed_def Let_def
      split: pyval.splits option.splits bool.splits if_splits)

lemma zarya_fallback_isinst:
  "zarya_status_fallback status = Some e \<Longrightarrow> isinst e (Zarya_Exn ZaryaClientError)"
  by (auto simp: zarya_status_fallback_def zarya_exn_isinst split: if_splits)

lemma zarya_http_error_isinst:
  "isinst (zarya_http_error vtext status reason body) (Zarya_Exn ZaryaClientError)"
  by (auto simp: zarya_http_error_def zarya_exn_isinst
      dest: zarya_structured_isinst zarya_fallback_isinst split: option.splits)

lemma zarya_request_isinst:
  "zarya_request h method path data auth = Inl e \<Longrightarrow>
     isinst e (Zarya_Exn ZaryaClientError) \<or> url_error (zh_base_url h @ path) = Some e"
  by (auto simp: zarya_request_def zarya_exn_isinst zarya_http_error_isinst
      split: http_reply.splits if_splits option.splits)

lemma zarya_request_bad_url:
  "url_error (zh_base_url h @ path) = Some e \<Longrightarrow> \<not> (auth \<and> zh_token h = []) \<Longrightarrow>
     zarya_request h method path data auth = Inl e"
  by (auto simp: zarya_request_def)

lemma url_error_class: "url_error url = Some e \<Longrightarrow> \<exists>m. e = Exn (Builtin ValueError) m"
  by (auto simp: url_error_def Let_def split: if_splits)

subsection \<open>providers/zarya/mapper.py\<close>

definition EXPECTED_PROTOCOL :: string where
  "EXPECTED_PROTOCOL = ''eip-1.0''"

definition PROVIDER_ID_ZARYA :: string where
  "PROVIDER_ID_ZARYA = ''zarya.agent''"

fun map_ecosystem_status_to_availability :: "ecosystem_status \<Rightarrow> availability" where
  "map_ecosystem_status_to_availability ZARYA_READY = AVAILABLE"
| "map_ecosystem_status_to_availability ZARYA_BUSY = AVAILABLE"
| "map_ecosystem_status_to_availability ZARYA_STARTING = REGISTERED"
| "map_ecosystem_status_to_availability ZARYA_STOPPING = UNAVAILABLE"
| "map_ecosystem_status_to_availability ZARYA_UNAVAILABLE = UNAVAILABLE"

definition zarya_cap_id :: "capability_entry \<Rightarrow> string" where
  "zarya_cap_id e = ''zarya.'' @ ze_id e"

definition opt_dict :: "(string, pyval) dict option \<Rightarrow> pyval" where
  "opt_dict d = (case d of None \<Rightarrow> PNone | Some m \<Rightarrow> PDict m)"

definition str_list :: "string list \<Rightarrow> pyval" where
  "str_list xs = PList (map PStr xs)"

definition map_capability_entry_to_capability ::
  "capability_entry \<Rightarrow> string list option \<Rightarrow> capability result" where
  "map_capability_entry_to_capability entry allowed_tools =
     (let metadata =
        [(''source'', PStr ''zarya-eip1''), (''operations'', str_list (ze_operations entry)),
         (''input_schema'', opt_dict (ze_input_schema entry)),
         (''output_schema'', opt_dict (ze_output_schema entry))];
        metadata' = (if ze_id entry = ''work.execute'' \<and> allowed_tools \<noteq> None
                     then dset ''allowed_tools'' (str_list (the allowed_tools)) metadata
                     else metadata) in
      mk_capability (zarya_cap_id entry)
        (''Zarya '' @ title_from False (dots_to_spaces (ze_id entry)))
        (ze_version entry) (ze_description entry) metadata' AVAILABLE)"

fun map_entries :: "string list option \<Rightarrow> capability_entry list \<Rightarrow> capability list result" where
  "map_entries tools [] = Inr []"
| "map_entries tools (e # es) =
     (case map_capability_entry_to_capability e tools of
        Inl x \<Rightarrow> Inl x
      | Inr c \<Rightarrow> (case map_entries tools es of Inl x \<Rightarrow> Inl x | Inr cs \<Rightarrow> Inr (c # cs)))"

definition map_capabilities_response :: "capabilities_response \<Rightarrow> capability list result" where
  "map_capabilities_response r = map_entries (Some (zcr_allowed_tools r)) (zcr_capabilities r)"

definition device_dump :: "device_info \<Rightarrow> pyval" where
  "device_dump d = PDict
     [(''device_id'', PStr (dev_device_id d)), (''display_name'', PStr (dev_display_name d)),
      (''device_type'', PStr (dev_device_type d)), (''platform'', PStr (dev_platform d))]"

definition zarya_map_to_shyam_provider ::
  "zarya_identity \<Rightarrow> capabilities_response \<Rightarrow> status_response \<Rightarrow> provider result" where
  "zarya_map_to_shyam_provider identity caps status =
     (let metadata =
        [(''product'', PStr (zi_product identity)), (''instance_id'', PStr (zi_instance_id identity)),
         (''protocol'', PStr (zi_protocol identity)), (''platform'', PStr (zi_platform identity)),
         (''architecture'', PStr (zi_architecture identity)),
         (''allowed_tools'', str_list (zcr_allowed_tools caps))];
        metadata' = (case zi_device identity of
                       None \<Rightarrow> metadata | Some d \<Rightarrow> dset ''device'' (device_dump d) metadata) in
      mk_provider PROVIDER_ID_ZARYA (''Zarya ('' @ zi_platform identity @ '')'')
        (zi_version identity)
        (''Zarya sovereign agent ['' @ take 8 (zi_instance_id identity) @ '']'')
        (map zarya_cap_id (zcr_capabilities caps)) metadata'
        (map_ecosystem_status_to_availability (zsr_status status)))"

subsection \<open>providers/zarya/provider.py\<close>

record zarya_provider =
  zp_identity :: "zarya_identity option"
  zp_capabilities_resp :: "capabilities_response option"
  zp_status_resp :: "status_response option"
  zp_discovered_capabilities :: "capability list"
  zp_is_connected :: bool

definition new_zarya_provider :: zarya_provider where
  "new_zarya_provider = \<lparr>zp_identity = None, zp_capabilities_resp = None, zp_status_resp = None,
     zp_discovered_capabilities = [], zp_is_connected = False\<rparr>"

definition zarya_disconnected_descriptor :: "provider result" where
  "zarya_disconnected_descriptor =
     mk_provider PROVIDER_ID_ZARYA ''Zarya (Disconnected)'' ''0.0.0''
       ''Zarya instance (not connected)'' [] [] UNAVAILABLE"

definition zp_descriptor :: "zarya_provider \<Rightarrow> provider result" where
  "zp_descriptor s =
     (if \<not> zp_is_connected s then zarya_disconnected_descriptor
      else case (zp_identity s, zp_capabilities_resp s, zp_status_resp s) of
             (Some i, Some c, Some st) \<Rightarrow> zarya_map_to_shyam_provider i c st
           | _ \<Rightarrow> zarya_disconnected_descriptor)"

text \<open>
  The handler of \<open>connect\<close>: every \<open>ZaryaClientError\<close>, a protocol error among them, becomes
  \<open>False\<close>; another exception leaves the provider as it was at that point.
\<close>

definition zp_connect_failed :: "exn \<Rightarrow> zarya_provider \<Rightarrow> bool result \<times> zarya_provider" where
  "zp_connect_failed e s =
     (if isinst e (Zarya_Exn ZaryaConnectionError) \<or> isinst e (Zarya_Exn ZaryaClientError)
      then (Inr False, s\<lparr>zp_is_connected := False\<rparr>) else (Inl e, s))"

definition zarya_protocol_ok :: "protocol_response \<Rightarrow> bool" where
  "zarya_protocol_ok proto \<longleftrightarrow>
     \<not> (EXPECTED_PROTOCOL \<notin> set (zpr_supported proto) \<and> zpr_current proto \<noteq> EXPECTED_PROTOCOL)"

definition zp_connect :: "zarya_client \<Rightarrow> zarya_provider \<Rightarrow> bool result \<times> zarya_provider" where
  "zp_connect c s =
     (case zcl_get_protocol c of
        Inl e \<Rightarrow> zp_connect_failed e s
      | Inr proto \<Rightarrow>
          if \<not> zarya_protocol_ok proto
          then zp_connect_failed (zarya_exn ZaryaProtocolError
                 (''Incompatible protocol. Expected '' @ quoted EXPECTED_PROTOCOL
                  @ '', got '' @ quoted (zpr_current proto))) s
          else (case zcl_get_identity c of
            Inl e \<Rightarrow> zp_connect_failed e s
          | Inr i \<Rightarrow> let s1 = s\<lparr>zp_identity := Some i\<rparr> in (case zcl_get_capabilities c of
              Inl e \<Rightarrow> zp_connect_failed e s1
            | Inr cr \<Rightarrow> let s2 = s1\<lparr>zp_capabilities_resp := Some cr\<rparr> in
                (case map_capabilities_response cr of
                   Inl e \<Rightarrow> zp_connect_failed e s2
                 | Inr caps \<Rightarrow> let s3 = s2\<lparr>zp_discovered_capabilities := caps\<rparr> in
                     (case zcl_get_status c of
                        Inl e \<Rightarrow> zp_connect_failed e s3
                      | Inr st \<Rightarrow>
                          (Inr True, s3\<lparr>zp_status_resp := Some st, zp_is_connected := True\<rparr>))))))"

definition zp_refresh_status :: "zarya_client \<Rightarrow> zarya_provider \<Rightarrow> availability \<times> zarya_provider" where
  "zp_refresh_status c s =
     (if \<not> zp_is_connected s then (UNAVAILABLE, s)
      else case zcl_get_status c of
             Inr st \<Rightarrow> (map_ecosystem_status_to_availability (zsr_status st),
                        s\<lparr>zp_status_resp := Some st\<rparr>)
           | Inl _ \<Rightarrow> (UNAVAILABLE, s\<lparr>zp_is_connected := False\<rparr>))"

definition zp_not_connected :: exn where
  "zp_not_connected = zarya_exn ZaryaConnectionError ''ZaryaProvider is not connected.''"

definition zp_execute ::
  "zarya_client \<Rightarrow> zarya_provider \<Rightarrow> string \<Rightarrow> (string, pyval) dict option \<Rightarrow> work_response result" where
  "zp_execute c s tool args =
     (if \<not> zp_is_connected s then Inl zp_not_connected else zcl_execute_work c tool args)"

text \<open>\<open>at\<close> gives the client for another base URL, with the same token.\<close>

definition zp_continue_work ::
  "zarya_client \<Rightarrow> (string \<Rightarrow> zarya_client) \<Rightarrow> zarya_provider \<Rightarrow> (string, pyval) dict \<Rightarrow> string
     \<Rightarrow> string \<Rightarrow> string option \<Rightarrow> continuation_response result" where
  "zp_continue_work c at s portable_work source_device_id continuity_id target_url =
     (if truthy_opt target_url
      then zcl_continue_work (at (the target_url)) portable_work source_device_id continuity_id
      else if \<not> zp_is_connected s then Inl zp_not_connected
      else zcl_continue_work c portable_work source_device_id continuity_id)"

lemma zarya_disconnected_ok:
  "\<exists>p. zarya_disconnected_descriptor = Inr p \<and> prov_capabilities p = [] \<and> prov_availability p = UNAVAILABLE"
  by (simp add: zarya_disconnected_descriptor_def mk_provider_def validate_provider_id_def
      validate_namespaced_def validate_version_def PROVIDER_ID_ZARYA_def str_eval)

lemma zarya_disconnected_id:
  "zarya_disconnected_descriptor = Inr p \<Longrightarrow> prov_id p = PROVIDER_ID_ZARYA"
  by (auto simp: zarya_disconnected_descriptor_def dest: mk_provider_Inr)

lemma zarya_mapped_id:
  "zarya_map_to_shyam_provider i c st = Inr p \<Longrightarrow> prov_id p = PROVIDER_ID_ZARYA"
  by (auto simp: zarya_map_to_shyam_provider_def Let_def dest: mk_provider_Inr split: option.splits)

lemma zp_connect_failed_Inr:
  "zp_connect_failed e s = (Inr b, s') \<Longrightarrow> b = False \<and> \<not> zp_is_connected s'"
  by (auto simp: zp_connect_failed_def split: if_splits)

lemmas zp_connect_cases = zp_connect_def Let_def

lemma zp_connect_flag: "zp_connect c s = (Inr b, s') \<Longrightarrow> zp_is_connected s' = b"
  by (auto simp: zp_connect_cases dest: zp_connect_failed_Inr split: sum.splits if_splits)

interpretation zarya: gateway zp_is_connected zp_descriptor zp_discovered_capabilities zp_connect
  zp_refresh_status PROVIDER_ID_ZARYA
proof
  fix c s b s' a p
  show "zp_connect c s = (Inr b, s') \<Longrightarrow> zp_is_connected s' = b" by (rule zp_connect_flag)
  show "\<not> zp_is_connected s \<Longrightarrow> zp_refresh_status c s = (UNAVAILABLE, s)"
    by (simp add: zp_refresh_status_def)
  show "zp_refresh_status c s = (a, s') \<Longrightarrow> \<not> zp_is_connected s' \<Longrightarrow> a = UNAVAILABLE"
    by (auto simp: zp_refresh_status_def split: if_splits sum.splits)
  show "zp_descriptor s = Inr p \<Longrightarrow> prov_id p = PROVIDER_ID_ZARYA"
    by (auto simp: zp_descriptor_def dest: zarya_mapped_id zarya_disconnected_id
        split: if_splits option.splits)
  show "\<not> zp_is_connected s \<Longrightarrow>
      \<exists>p. zp_descriptor s = Inr p \<and> prov_capabilities p = [] \<and> prov_availability p = UNAVAILABLE"
    using zarya_disconnected_ok by (auto simp: zp_descriptor_def)
qed

lemma zarya_mapped_caps:
  "zarya_map_to_shyam_provider i c st = Inr p \<Longrightarrow> prov_capabilities p = map zarya_cap_id (zcr_capabilities c)"
  by (auto simp: zarya_map_to_shyam_provider_def Let_def dest: mk_provider_Inr split: option.splits)

lemma map_entry_Inr:
  "map_capability_entry_to_capability e tools = Inr c \<Longrightarrow>
     cap_id c = zarya_cap_id e \<and> cap_availability c = AVAILABLE \<and> namespaced (cap_id c)
     \<and> version_ok (cap_version c)"
  by (auto simp: map_capability_entry_to_capability_def Let_def mk_capability_iff)

lemma map_entries_Inr:
  "map_entries tools es = Inr cs \<Longrightarrow>
     map cap_id cs = map zarya_cap_id es
     \<and> (\<forall>c \<in> set cs. cap_availability c = AVAILABLE \<and> namespaced (cap_id c) \<and> version_ok (cap_version c))"
proof (induction es arbitrary: cs)
  case Nil
  then show ?case by simp
next
  case (Cons e es)
  then show ?case by (auto dest: map_entry_Inr split: sum.splits)
qed

lemma zp_connect_failed_Inl:
  "zp_connect_failed e s = (Inl e', s') \<Longrightarrow> e' = e \<and> \<not> isinst e (Zarya_Exn ZaryaClientError)"
  by (auto simp: zp_connect_failed_def split: if_splits)

lemma zp_connect_raises:
  "zp_connect c s = (Inl e, s') \<Longrightarrow> \<not> isinst e (Zarya_Exn ZaryaClientError)"
  by (auto simp: zp_connect_cases dest: zp_connect_failed_Inl split: sum.splits if_splits)

lemma zp_connect_mismatch:
  "zcl_get_protocol c = Inr proto \<Longrightarrow> \<not> zarya_protocol_ok proto \<Longrightarrow>
     zp_connect c s = (Inr False, s\<lparr>zp_is_connected := False\<rparr>)"
  by (simp add: zp_connect_def zp_connect_failed_def zarya_exn_isinst)

lemma zp_connect_True:
  "zp_connect c s = (Inr True, s') \<Longrightarrow>
     \<exists>i cr caps st. zcl_get_capabilities c = Inr cr \<and> map_capabilities_response cr = Inr caps
       \<and> s' = s\<lparr>zp_identity := Some i, zp_capabilities_resp := Some cr,
              zp_discovered_capabilities := caps, zp_status_resp := Some st, zp_is_connected := True\<rparr>"
  by (auto simp: zp_connect_cases dest: zp_connect_failed_Inr split: sum.splits if_splits)

text \<open>
  Connecting to Zarya raises no \<open>ZaryaClientError\<close>: a peer that does not speak
  \<open>eip-1.0\<close> makes it return \<open>False\<close>, disconnected, as an unreachable one does. When it
  returns \<open>True\<close>, the provider offers one AVAILABLE capability, with a valid id and version, for
  each entry of the answer, named \<open>zarya.<id>\<close>, in its order, and its descriptor lists exactly
  these.
\<close>

theorem zarya_connect_outcome:
  assumes run: "zp_connect c s = (r, s')"
  shows "(\<forall>e. r = Inl e \<longrightarrow> \<not> isinst e (Zarya_Exn ZaryaClientError))
       \<and> (\<forall>proto. zcl_get_protocol c = Inr proto \<and> ''eip-1.0'' \<notin> set (zpr_supported proto)
              \<and> zpr_current proto \<noteq> ''eip-1.0'' \<longrightarrow> r = Inr False \<and> \<not> zp_is_connected s')
       \<and> (r = Inr True \<longrightarrow> zp_is_connected s' \<and> (\<exists>cr. zcl_get_capabilities c = Inr cr
            \<and> map cap_id (zp_discovered_capabilities s')
                = map (\<lambda>e. ''zarya.'' @ ze_id e) (zcr_capabilities cr)
            \<and> (\<forall>x \<in> set (zp_discovered_capabilities s').
                 cap_availability x = AVAILABLE \<and> namespaced (cap_id x) \<and> version_ok (cap_version x))
            \<and> (\<forall>p. zp_descriptor s' = Inr p \<longrightarrow>
                 prov_capabilities p = map cap_id (zp_discovered_capabilities s'))))"
proof (intro conjI allI impI)
  fix e
  assume "r = Inl e"
  with run show "\<not> isinst e (Zarya_Exn ZaryaClientError)" using zp_connect_raises by blast
next
  fix proto
  assume p: "zcl_get_protocol c = Inr proto \<and> ''eip-1.0'' \<notin> set (zpr_supported proto)
              \<and> zpr_current proto \<noteq> ''eip-1.0''"
  then have "zcl_get_protocol c = Inr proto" and "\<not> zarya_protocol_ok proto"
    by (simp_all add: zarya_protocol_ok_def EXPECTED_PROTOCOL_def)
  then have "zp_connect c s = (Inr False, s\<lparr>zp_is_connected := False\<rparr>)"
    by (rule zp_connect_mismatch)
  with run show "r = Inr False" and "\<not> zp_is_connected s'" by auto
next
  assume ok: "r = Inr True"
  with run show "zp_is_connected s'" using zp_connect_flag by blast
  from run ok zp_connect_True obtain i cr caps st where cr: "zcl_get_capabilities c = Inr cr"
    and caps: "map_capabilities_response cr = Inr caps"
    and s': "s' = s\<lparr>zp_identity := Some i, zp_capabilities_resp := Some cr,
              zp_discovered_capabilities := caps, zp_status_resp := Some st, zp_is_connected := True\<rparr>"
    by blast
  note m = map_entries_Inr [OF caps [unfolded map_capabilities_response_def]]
  have d: "prov_capabilities p = map cap_id caps" if "zp_descriptor s' = Inr p" for p
    using that zarya_mapped_caps [of i cr st p] m by (simp add: s' zp_descriptor_def)
  show "\<exists>cr. zcl_get_capabilities c = Inr cr
            \<and> map cap_id (zp_discovered_capabilities s')
                = map (\<lambda>e. ''zarya.'' @ ze_id e) (zcr_capabilities cr)
            \<and> (\<forall>x \<in> set (zp_discovered_capabilities s').
                 cap_availability x = AVAILABLE \<and> namespaced (cap_id x) \<and> version_ok (cap_version x))
            \<and> (\<forall>p. zp_descriptor s' = Inr p \<longrightarrow>
                 prov_capabilities p = map cap_id (zp_discovered_capabilities s'))"
    using cr m d by (intro exI [of _ cr]) (simp add: s' zarya_cap_id_def)
qed

definition sample_zarya_client :: zarya_client where
  "sample_zarya_client =
     \<lparr>zcl_get_auth_info = Inl zp_not_connected,
      zcl_get_identity = Inr \<lparr>zi_instance_id = ''z1'', zi_product = ''zarya'', zi_version = ''1.0.0'',
        zi_protocol = ''eip-1.0'', zi_platform = ''linux'', zi_architecture = ''x86'', zi_device = None\<rparr>,
      zcl_get_protocol = Inr \<lparr>zpr_current = ''eip-1.0'', zpr_supported = []\<rparr>,
      zcl_get_capabilities = Inr \<lparr>zcr_protocol = ''eip-1.0'',
        zcr_capabilities = [\<lparr>ze_id = ''work.execute'', ze_version = ''1.0'', ze_description = [],
          ze_operations = [], ze_input_schema = None, ze_output_schema = None\<rparr>],
        zcr_allowed_tools = [''ls'']\<rparr>,
      zcl_get_status = Inr \<lparr>zsr_status = ZARYA_READY, zsr_active_operations = 0\<rparr>,
      zcl_execute_work = (\<lambda>t a. Inr \<lparr>zw_tool = t, zw_outcome = VERIFIED_SUCCESS, zw_verified = True,
        zw_result = [], zw_summary = []\<rparr>),
      zcl_get_work_status = (\<lambda>i. Inl zp_not_connected),
      zcl_continue_work = (\<lambda>w d i. Inl zp_not_connected)\<rparr>"

lemma sample_zarya_connects:
  "fst (zp_connect sample_zarya_client new_zarya_provider) = Inr True"
  by code_simp

theorem zarya_connect_outcome_witness:
  "\<exists>s'. zp_connect sample_zarya_client new_zarya_provider = (Inr True, s')
     \<and> map cap_id (zp_discovered_capabilities s') = [''zarya.work.execute'']"
proof -
  obtain s' where run: "zp_connect sample_zarya_client new_zarya_provider = (Inr True, s')"
    using sample_zarya_connects by (metis prod.collapse)
  from zarya_connect_outcome [OF run] obtain cr where
    "zcl_get_capabilities sample_zarya_client = Inr cr"
    "map cap_id (zp_discovered_capabilities s') = map (\<lambda>e. ''zarya.'' @ ze_id e) (zcr_capabilities cr)"
    by blast
  with run show ?thesis by (auto simp: sample_zarya_client_def)
qed

lemma zarya_execute_work_Inr:
  "zarya_execute_work h v tool args = Inr resp \<Longrightarrow>
     zh_token h \<noteq> [] \<and> zw_outcome resp \<noteq> VERIFIED_FAILURE"
  by (auto simp: zarya_execute_work_def validated_def zarya_request_def split: sum.splits if_splits option.splits)


definition failing_work :: work_response where
  "failing_work = \<lparr>zw_tool = ''ls'', zw_outcome = VERIFIED_FAILURE, zw_verified = False,
     zw_result = [], zw_summary = ''no output''\<rparr>"

definition sample_zarya_parsers :: zarya_parsers where
  "sample_zarya_parsers =
     \<lparr>zv_auth_info = (\<lambda>_. Inl zp_not_connected), zv_identity = (\<lambda>_. Inl zp_not_connected),
      zv_protocol = (\<lambda>_. Inl zp_not_connected), zv_capabilities = (\<lambda>_. Inl zp_not_connected),
      zv_status = (\<lambda>_. Inl zp_not_connected), zv_work = (\<lambda>_. Inr failing_work),
      zv_work_status = (\<lambda>_. Inl zp_not_connected), zv_continuation = (\<lambda>_. Inl zp_not_connected)\<rparr>"

definition sample_zarya_http :: zarya_http where
  "sample_zarya_http = \<lparr>zh_server = (\<lambda>_ _ _ _. Json_Body (PDict [])), zh_base_url = ''http://z'',
     zh_token = ''t'', zh_vtext = (\<lambda>_. [])\<rparr>"


end
