(* ===== verification/Shyam_Ecosystem.thy ===== *)
theory Shyam_Ecosystem
  imports Shyam_Flux Shyam_Zarya
begin

section \<open>Ecosystem discovery: models, registry and service\<close>

text \<open>
  \<open>discovery/ecosystem_models.py\<close>, \<open>discovery/ecosystem_registry.py\<close> and
  \<open>discovery/ecosystem_service.py\<close>, with \<open>Peer\<close> of \<open>discovery/model.py\<close>. A node carries its
  providers by id and a provider its capabilities; the registry maps node ids to nodes. Every
  operation that publishes returns its events. Node identifiers are text (a UUID is its
  canonical text).
\<close>

subsection \<open>discovery/model.py\<close>

text \<open>The port is any value: refreshing a known peer does not validate it.\<close>

record peer =
  peer_node_id :: string
  peer_node_name :: string
  peer_address :: string
  peer_port :: pyval
  peer_protocol_version :: string
  peer_discovered_at :: time
  peer_last_seen :: time
  peer_metadata :: "(string, pyval) dict"

definition peer_touch :: "time \<Rightarrow> time option \<Rightarrow> peer \<Rightarrow> peer" where
  "peer_touch now seen_at p =
     p\<lparr>peer_last_seen := (case seen_at of None \<Rightarrow> now | Some t \<Rightarrow> t)\<rparr>"

subsection \<open>discovery/ecosystem\_models.py\<close>

datatype node_state = NODE_KNOWN | NODE_AVAILABLE | NODE_UNAVAILABLE | NODE_STALE

fun node_state_value :: "node_state \<Rightarrow> string" where
  "node_state_value NODE_KNOWN = ''known''"
| "node_state_value NODE_AVAILABLE = ''available''"
| "node_state_value NODE_UNAVAILABLE = ''unavailable''"
| "node_state_value NODE_STALE = ''stale''"

record disc_capability =
  dc_capability_id :: string
  dc_name :: string
  dc_version :: string
  dc_description :: string
  dc_availability :: availability

definition dc_simple :: "string \<Rightarrow> string \<Rightarrow> availability \<Rightarrow> disc_capability" where
  "dc_simple cid name a =
     \<lparr>dc_capability_id = cid, dc_name = name, dc_version = ''1.0.0'', dc_description = [],
      dc_availability = a\<rparr>"

definition from_capability :: "capability \<Rightarrow> disc_capability" where
  "from_capability c =
     \<lparr>dc_capability_id = cap_id c, dc_name = cap_name c, dc_version = cap_version c,
      dc_description = cap_description c, dc_availability = cap_availability c\<rparr>"

record disc_provider =
  dp_provider_id :: string
  dp_name :: string
  dp_version :: string
  dp_description :: string
  dp_capabilities :: "disc_capability list"
  dp_status :: availability
  dp_metadata :: "(string, pyval) dict"
  dp_last_seen :: time

definition dp_capability_ids :: "disc_provider \<Rightarrow> string list" where
  "dp_capability_ids p = map dc_capability_id (dp_capabilities p)"

definition from_provider :: "provider \<Rightarrow> capability list \<Rightarrow> time \<Rightarrow> disc_provider" where
  "from_provider p models last_seen =
     (let caps = (if models \<noteq> [] then map from_capability models
                  else map (\<lambda>cid. dc_simple cid cid AVAILABLE) (prov_capabilities p)) in
      \<lparr>dp_provider_id = prov_id p, dp_name = prov_name p, dp_version = prov_version p,
       dp_description = prov_description p, dp_capabilities = caps,
       dp_status = prov_availability p, dp_metadata = prov_metadata p, dp_last_seen = last_seen\<rparr>)"

record disc_node =
  dn_node_id :: string
  dn_node_name :: string
  dn_state :: node_state
  dn_is_local :: bool
  dn_protocol_version :: string
  dn_providers :: "(string, disc_provider) dict"
  dn_metadata :: "(string, pyval) dict"
  dn_first_seen :: time
  dn_last_seen :: time

definition with_touch :: "time \<Rightarrow> time option \<Rightarrow> disc_node \<Rightarrow> disc_node" where
  "with_touch now seen_at n =
     n\<lparr>dn_last_seen := (case seen_at of None \<Rightarrow> now | Some t \<Rightarrow> t)\<rparr>"

definition with_state :: "node_state \<Rightarrow> disc_node \<Rightarrow> disc_node" where
  "with_state st n = n\<lparr>dn_state := st\<rparr>"

definition with_provider :: "disc_provider \<Rightarrow> disc_node \<Rightarrow> disc_node" where
  "with_provider p n = n\<lparr>dn_providers := dset (dp_provider_id p) p (dn_providers n)\<rparr>"

definition without_provider :: "string \<Rightarrow> disc_node \<Rightarrow> disc_node" where
  "without_provider pid n = n\<lparr>dn_providers := filter (\<lambda>(k, v). k \<noteq> pid) (dn_providers n)\<rparr>"

definition dn_capability_ids :: "disc_node \<Rightarrow> string set" where
  "dn_capability_ids n = (\<Union>p \<in> set (dvals (dn_providers n)). set (dp_capability_ids p))"

record snapshot =
  snap_timestamp :: time
  snap_local_node_id :: string
  snap_nodes :: "(string, disc_node) dict"

definition total_nodes :: "snapshot \<Rightarrow> nat" where
  "total_nodes s = length (snap_nodes s)"

definition active_nodes :: "snapshot \<Rightarrow> disc_node list" where
  "active_nodes s = filter (\<lambda>n. dn_state n = NODE_AVAILABLE) (dvals (snap_nodes s))"

definition total_providers :: "snapshot \<Rightarrow> nat" where
  "total_providers s = sum_list (map (\<lambda>n. length (dn_providers n)) (dvals (snap_nodes s)))"

definition all_capabilities :: "snapshot \<Rightarrow> string set" where
  "all_capabilities s = (\<Union>n \<in> set (dvals (snap_nodes s)). dn_capability_ids n)"

datatype ecosystem_event =
    EcosystemNodeDiscoveredEvent disc_node
  | EcosystemNodeUpdatedEvent disc_node "node_state option"
  | EcosystemNodeStaleEvent string string time
  | EcosystemNodeLostEvent string string time

lemmas node_updates = with_touch_def with_state_def with_provider_def without_provider_def

lemma node_id_kept [simp]:
  "dn_node_id (with_touch now t n) = dn_node_id n" "dn_node_id (with_state st n) = dn_node_id n"
  "dn_node_id (with_provider p n) = dn_node_id n" "dn_node_id (without_provider pid n) = dn_node_id n"
  by (simp_all add: node_updates)

subsection \<open>discovery/ecosystem\_registry.py\<close>

record ecosystem_registry =
  er_nodes :: "(string, disc_node) dict"
  er_event_bus :: bool

definition new_ecosystem_registry :: "bool \<Rightarrow> ecosystem_registry" where
  "new_ecosystem_registry bus = \<lparr>er_nodes = [], er_event_bus = bus\<rparr>"

definition er_count :: "ecosystem_registry \<Rightarrow> nat" where
  "er_count r = length (er_nodes r)"

definition er_contains :: "ecosystem_registry \<Rightarrow> string \<Rightarrow> bool" where
  "er_contains r i = dmem i (er_nodes r)"

definition er_get_node :: "ecosystem_registry \<Rightarrow> string \<Rightarrow> disc_node option" where
  "er_get_node r i = dget (er_nodes r) i"

definition er_store :: "disc_node \<Rightarrow> ecosystem_registry \<Rightarrow> ecosystem_registry" where
  "er_store n r = r\<lparr>er_nodes := dset (dn_node_id n) n (er_nodes r)\<rparr>"

definition er_drop :: "string \<Rightarrow> ecosystem_registry \<Rightarrow> ecosystem_registry" where
  "er_drop i r = r\<lparr>er_nodes := ddel i (er_nodes r)\<rparr>"

definition er_emit :: "ecosystem_registry \<Rightarrow> ecosystem_event list \<Rightarrow> ecosystem_event list" where
  "er_emit r evs = (if er_event_bus r then evs else [])"

text \<open>The updates write under the argument \<open>i\<close>, which is the node's own id.\<close>

definition er_write :: "string \<Rightarrow> disc_node \<Rightarrow> ecosystem_registry \<Rightarrow> ecosystem_registry" where
  "er_write i n r = r\<lparr>er_nodes := dset i n (er_nodes r)\<rparr>"

definition register_node ::
  "ecosystem_registry \<Rightarrow> disc_node \<Rightarrow> bool \<Rightarrow> ecosystem_registry \<times> ecosystem_event list \<times> disc_node" where
  "register_node r n overwrite =
     (let existing = er_get_node r (dn_node_id n) in
      if existing \<noteq> None \<and> \<not> overwrite then (r, [], the existing)
      else (er_store n r,
            er_emit r (case existing of
                None \<Rightarrow> [EcosystemNodeDiscoveredEvent n]
              | Some old \<Rightarrow> [EcosystemNodeUpdatedEvent n (Some (dn_state old))]), n))"

definition touch_node ::
  "ecosystem_registry \<Rightarrow> time \<Rightarrow> string \<Rightarrow> time option \<Rightarrow> ecosystem_registry \<times> disc_node option" where
  "touch_node r now i seen_at =
     (case er_get_node r i of
        None \<Rightarrow> (r, None)
      | Some existing \<Rightarrow>
          let u = with_touch now seen_at existing;
              u' = (if dn_state u = NODE_STALE then with_state NODE_AVAILABLE u else u) in
          (er_write i u' r, Some u'))"

definition update_node_state ::
  "ecosystem_registry \<Rightarrow> string \<Rightarrow> node_state
     \<Rightarrow> ecosystem_registry \<times> ecosystem_event list \<times> disc_node option" where
  "update_node_state r i st =
     (case er_get_node r i of
        None \<Rightarrow> (r, [], None)
      | Some existing \<Rightarrow>
          if dn_state existing = st then (r, [], Some existing)
          else let u = with_state st existing in
               (er_write i u r,
                er_emit r [EcosystemNodeUpdatedEvent u (Some (dn_state existing))], Some u))"

definition add_provider ::
  "ecosystem_registry \<Rightarrow> string \<Rightarrow> disc_provider
     \<Rightarrow> ecosystem_registry \<times> ecosystem_event list \<times> disc_node option" where
  "add_provider r i p =
     (case er_get_node r i of
        None \<Rightarrow> (r, [], None)
      | Some existing \<Rightarrow>
          let u = with_provider p existing in
          (er_write i u r,
           er_emit r [EcosystemNodeUpdatedEvent u (Some (dn_state existing))], Some u))"

definition remove_provider ::
  "ecosystem_registry \<Rightarrow> string \<Rightarrow> string
     \<Rightarrow> ecosystem_registry \<times> ecosystem_event list \<times> disc_node option" where
  "remove_provider r i pid =
     (case er_get_node r i of
        None \<Rightarrow> (r, [], None)
      | Some existing \<Rightarrow>
          if \<not> dmem pid (dn_providers existing) then (r, [], Some existing)
          else let u = without_provider pid existing in
               (er_write i u r,
                er_emit r [EcosystemNodeUpdatedEvent u (Some (dn_state existing))], Some u))"

definition remove_node ::
  "ecosystem_registry \<Rightarrow> string \<Rightarrow> ecosystem_registry \<times> ecosystem_event list \<times> disc_node option" where
  "remove_node r i =
     (let removed = er_get_node r i in
      (er_drop i r,
       (case removed of None \<Rightarrow> []
        | Some n \<Rightarrow> er_emit r [EcosystemNodeLostEvent (dn_node_id n) (dn_node_name n) (dn_last_seen n)]),
       removed))"

definition get_local_node :: "ecosystem_registry \<Rightarrow> disc_node option" where
  "get_local_node r = find dn_is_local (dvals (er_nodes r))"

definition er_all :: "ecosystem_registry \<Rightarrow> disc_node list" where
  "er_all r = dvals (er_nodes r)"

definition list_nodes :: "ecosystem_registry \<Rightarrow> node_state option \<Rightarrow> disc_node list" where
  "list_nodes r st =
     (case st of None \<Rightarrow> er_all r | Some s \<Rightarrow> filter (\<lambda>n. dn_state n = s) (er_all r))"

definition find_nodes_by_capability :: "ecosystem_registry \<Rightarrow> string \<Rightarrow> disc_node list" where
  "find_nodes_by_capability r cid = filter (\<lambda>n. cid \<in> dn_capability_ids n) (er_all r)"

definition find_nodes_by_provider :: "ecosystem_registry \<Rightarrow> string \<Rightarrow> disc_node list" where
  "find_nodes_by_provider r pid = filter (\<lambda>n. dmem pid (dn_providers n)) (er_all r)"

text \<open>
  \<open>reconcile_stale\<close>: the loop replaces values of existing keys only, so it visits the nodes
  that were there at its start, each once.
\<close>

definition goes_stale :: "int \<Rightarrow> time \<Rightarrow> disc_node \<Rightarrow> bool" where
  "goes_stale threshold now n \<longleftrightarrow>
     \<not> dn_is_local n \<and> dn_state n \<in> {NODE_AVAILABLE, NODE_KNOWN} \<and> now - dn_last_seen n > threshold"

fun reconcile_loop ::
  "int \<Rightarrow> time \<Rightarrow> (string, disc_node) dict \<Rightarrow> (string, disc_node) dict \<times> string list \<times> ecosystem_event list
     \<Rightarrow> (string, disc_node) dict \<times> string list \<times> ecosystem_event list" where
  "reconcile_loop threshold now [] acc = acc"
| "reconcile_loop threshold now ((i, n) # rest) (nodes, stale, evs) =
     (if goes_stale threshold now n
      then reconcile_loop threshold now rest
             (dset i (with_state NODE_STALE n) nodes, stale @ [i],
              evs @ [EcosystemNodeStaleEvent (dn_node_id n) (dn_node_name n) (dn_last_seen n)])
      else reconcile_loop threshold now rest (nodes, stale, evs))"

definition reconcile_stale ::
  "ecosystem_registry \<Rightarrow> int \<Rightarrow> time \<Rightarrow> ecosystem_registry \<times> ecosystem_event list \<times> string list" where
  "reconcile_stale r threshold now =
     (case reconcile_loop threshold now (er_nodes r) (er_nodes r, [], []) of
        (nodes, stale, evs) \<Rightarrow> (r\<lparr>er_nodes := nodes\<rparr>, er_emit r evs, stale))"

definition create_snapshot :: "ecosystem_registry \<Rightarrow> time \<Rightarrow> string \<Rightarrow> snapshot" where
  "create_snapshot r now local_node_id =
     \<lparr>snap_timestamp = now,
      snap_local_node_id =
        (if local_node_id \<noteq> [] then local_node_id
         else (case get_local_node r of Some n \<Rightarrow> dn_node_id n | None \<Rightarrow> ''unknown'')),
      snap_nodes = er_nodes r\<rparr>"

definition er_ok :: "ecosystem_registry \<Rightarrow> bool" where
  "er_ok r \<longleftrightarrow> keyed dn_node_id (er_nodes r)"

lemmas er_defs = er_get_node_def er_contains_def er_store_def er_drop_def er_all_def er_ok_def er_count_def

interpretation eco: keyed_store er_ok er_get_node er_store er_drop er_all dn_node_id
  by unfold_locales (auto simp: er_defs keyed_laws)

lemma er_get_id: "er_ok r \<Longrightarrow> er_get_node r i = Some n \<Longrightarrow> dn_node_id n = i"
  unfolding er_defs by (rule keyed_get)

text \<open>An update writes a node under its own id, so it is a store.\<close>

lemma er_write_store: "dn_node_id n = i \<Longrightarrow> er_write i n r = er_store n r"
  by (simp add: er_write_def er_store_def)

lemmas er_updates = touch_node_def update_node_state_def add_provider_def remove_provider_def

lemma register_node_ok: "er_ok r \<Longrightarrow> er_ok (fst (register_node r n ow))"
  by (simp add: register_node_def Let_def eco.inv_insert)

lemma touch_node_ok: "er_ok r \<Longrightarrow> er_ok (fst (touch_node r now i t))"
  by (auto simp: er_updates Let_def er_get_id er_write_store eco.inv_insert split: option.split)

lemma update_node_state_ok: "er_ok r \<Longrightarrow> er_ok (fst (update_node_state r i st))"
  by (auto simp: er_updates Let_def er_get_id er_write_store eco.inv_insert split: option.split)

lemma add_provider_ok: "er_ok r \<Longrightarrow> er_ok (fst (add_provider r i p))"
  by (auto simp: er_updates Let_def er_get_id er_write_store eco.inv_insert split: option.split)

lemma remove_provider_ok: "er_ok r \<Longrightarrow> er_ok (fst (remove_provider r i pid))"
  by (auto simp: er_updates Let_def er_get_id er_write_store eco.inv_insert split: option.split)

lemma remove_node_ok: "er_ok r \<Longrightarrow> er_ok (fst (remove_node r i))"
  by (simp add: remove_node_def Let_def eco.inv_remove)

lemma register_node_get:
  "er_ok r \<Longrightarrow> er_get_node (fst (register_node r n True)) k =
     (if k = dn_node_id n then Some n else er_get_node r k)"
  by (simp add: register_node_def Let_def eco.lookup_insert)

lemma find_nodes_by_capability_mem:
  "er_ok r \<Longrightarrow> n \<in> set (find_nodes_by_capability r cid) \<longleftrightarrow>
     er_get_node r (dn_node_id n) = Some n \<and> cid \<in> dn_capability_ids n"
  unfolding find_nodes_by_capability_def by (rule eco.query_mem)

definition stale_view :: "int \<Rightarrow> time \<Rightarrow> disc_node \<Rightarrow> disc_node" where
  "stale_view threshold now n = (if goes_stale threshold now n then with_state NODE_STALE n else n)"

lemma dset_middle: "i \<notin> fst ` set pre \<Longrightarrow> dset i v (pre @ (i, w) # rest) = pre @ (i, v) # rest"
  by (induction pre) auto

lemma reconcile_loop_eq:
  "dict_ok (pre @ rest) \<Longrightarrow> reconcile_loop threshold now rest (pre @ rest, stale, evs) =
     (pre @ map (\<lambda>(i, n). (i, stale_view threshold now n)) rest,
      stale @ map fst (filter (\<lambda>(i, n). goes_stale threshold now n) rest),
      evs @ map (\<lambda>(i, n). EcosystemNodeStaleEvent (dn_node_id n) (dn_node_name n) (dn_last_seen n))
              (filter (\<lambda>(i, n). goes_stale threshold now n) rest))"
proof (induction rest arbitrary: pre stale evs)
  case Nil
  then show ?case by simp
next
  case (Cons x rest)
  obtain i n where x: "x = (i, n)" by force
  from Cons.prems have fresh: "i \<notin> fst ` set pre"
    by (auto simp: dict_ok_def x)
  have ok: "dict_ok ((pre @ [(i, v)]) @ rest)" for v
    using Cons.prems by (simp add: dict_ok_def x)
  have IH: "reconcile_loop threshold now rest (pre @ (i, v) # rest, st, ev) =
     (pre @ (i, v) # map (\<lambda>(i, n). (i, stale_view threshold now n)) rest,
      st @ map fst (filter (\<lambda>(i, n). goes_stale threshold now n) rest),
      ev @ map (\<lambda>(i, n). EcosystemNodeStaleEvent (dn_node_id n) (dn_node_name n) (dn_last_seen n))
              (filter (\<lambda>(i, n). goes_stale threshold now n) rest))" for v st ev
    using Cons.IH [OF ok [of v], of st ev] by simp
  show ?case
    by (simp add: x dset_middle [OF fresh] IH) (simp add: stale_view_def)
qed

lemma reconcile_stale_eq:
  assumes "er_ok r"
  shows "reconcile_stale r threshold now =
     (r\<lparr>er_nodes := map (\<lambda>(i, n). (i, stale_view threshold now n)) (er_nodes r)\<rparr>,
      er_emit r (map (\<lambda>(i, n). EcosystemNodeStaleEvent (dn_node_id n) (dn_node_name n) (dn_last_seen n))
              (filter (\<lambda>(i, n). goes_stale threshold now n) (er_nodes r))),
      map fst (filter (\<lambda>(i, n). goes_stale threshold now n) (er_nodes r)))"
proof -
  have "dict_ok (er_nodes r)" using assms by (simp add: er_ok_def)
  with reconcile_loop_eq [of "[]" "er_nodes r" threshold now "[]" "[]"] show ?thesis
    by (simp add: reconcile_stale_def)
qed

lemma stale_view_id [simp]: "dn_node_id (stale_view threshold now n) = dn_node_id n"
  by (simp add: stale_view_def)

lemma stale_view_settled: "\<not> goes_stale threshold now (stale_view threshold now n)"
  by (auto simp: stale_view_def goes_stale_def with_state_def)

lemma reconcile_stale_ok: "er_ok r \<Longrightarrow> er_ok (fst (reconcile_stale r threshold now))"
  by (auto simp: reconcile_stale_eq er_ok_def keyed_def dict_ok_map)

text \<open>
  Reconciling marks STALE exactly the remote nodes that are AVAILABLE or KNOWN and were
  last seen longer ago than the threshold, returns their ids and changes no other node, the
  local one least of all. Doing it again at the same time finds nothing.
\<close>

theorem reconcile_marks_silent_nodes:
  assumes "er_ok r"
  shows "(case reconcile_stale r threshold now of (r', evs, stale) \<Rightarrow>
      er_ok r'
      \<and> (\<forall>i. i \<in> set stale \<longleftrightarrow> (\<exists>n. er_get_node r i = Some n \<and> \<not> dn_is_local n
             \<and> (dn_state n = NODE_AVAILABLE \<or> dn_state n = NODE_KNOWN)
             \<and> now - dn_last_seen n > threshold))
      \<and> (\<forall>i. er_get_node r' i = map_option
             (\<lambda>n. if i \<in> set stale then n\<lparr>dn_state := NODE_STALE\<rparr> else n) (er_get_node r i))
      \<and> (er_event_bus r \<longrightarrow> length evs = length stale)
      \<and> (case reconcile_stale r' threshold now of (r'', evs', stale') \<Rightarrow>
            r'' = r' \<and> evs' = [] \<and> stale' = []))"
proof -
  define stale where "stale = map fst (filter (\<lambda>(i, n). goes_stale threshold now n) (er_nodes r))"
  define r' where "r' = r\<lparr>er_nodes := map (\<lambda>(i, n). (i, stale_view threshold now n)) (er_nodes r)\<rparr>"
  obtain evs where eq: "reconcile_stale r threshold now = (r', evs, stale)"
    and len: "er_event_bus r \<Longrightarrow> length evs = length stale"
    by (simp add: reconcile_stale_eq [OF assms] r'_def stale_def er_emit_def)
  have ok: "dict_ok (er_nodes r)" using assms by (simp add: er_ok_def)
  have mem: "i \<in> set stale \<longleftrightarrow> (\<exists>n. er_get_node r i = Some n \<and> goes_stale threshold now n)" for i
    by (force simp: stale_def er_get_node_def dict_ok_mem [OF ok, symmetric])
  have get: "er_get_node r' i = map_option
      (\<lambda>n. if i \<in> set stale then n\<lparr>dn_state := NODE_STALE\<rparr> else n) (er_get_node r i)" for i
    unfolding mem
    by (cases "er_get_node r i")
      (auto simp: r'_def er_get_node_def dget_map stale_view_def with_state_def)
  have ok': "er_ok r'" using reconcile_stale_ok [OF assms, of threshold now] by (simp add: eq)
  have none: "filter (\<lambda>(i, n). goes_stale threshold now n) (er_nodes r') = []"
    by (auto simp: r'_def filter_empty_conv stale_view_settled)
  have same: "map (\<lambda>(i, n). (i, stale_view threshold now n)) (er_nodes r') = er_nodes r'"
    by (auto simp: r'_def stale_view_def with_state_def goes_stale_def)
  have again: "reconcile_stale r' threshold now = (r', [], [])"
    by (simp add: reconcile_stale_eq [OF ok'] none same er_emit_def)
  show ?thesis
    unfolding eq split_conv again
    using ok' mem [unfolded goes_stale_def] get len by simp
qed

definition sample_remote_node :: disc_node where
  "sample_remote_node = \<lparr>dn_node_id = ''flux:1'', dn_node_name = ''flux-peer-1'',
     dn_state = NODE_AVAILABLE, dn_is_local = False, dn_protocol_version = ''1.0.0'',
     dn_providers = [], dn_metadata = [], dn_first_seen = 0, dn_last_seen = 0\<rparr>"

theorem reconcile_marks_silent_nodes_witness:
  "\<exists>r' evs stale. reconcile_stale (er_store sample_remote_node (new_ecosystem_registry True)) 30 31
      = (r', evs, stale) \<and> ''flux:1'' \<in> set stale \<and> length evs = length stale"
proof -
  let ?r = "er_store sample_remote_node (new_ecosystem_registry True)"
  have ok: "er_ok ?r"
    by (intro eco.inv_insert) (simp add: er_ok_def new_ecosystem_registry_def)
  have get: "er_get_node ?r ''flux:1'' = Some sample_remote_node" and bus: "er_event_bus ?r"
    by (simp_all add: er_defs sample_remote_node_def new_ecosystem_registry_def)
  obtain r' evs stale where eq: "reconcile_stale ?r 30 31 = (r', evs, stale)"
    by (metis prod_cases3)
  note spec = reconcile_marks_silent_nodes [OF ok, of 30 31, unfolded eq split_conv]
  have "''flux:1'' \<in> set stale"
    using spec get by (auto simp: sample_remote_node_def)
  with eq spec bus show ?thesis by blast
qed

subsection \<open>discovery/ecosystem\_service.py\<close>

text \<open>
  The service reads the two shared registries and the two gateway providers and owns the
  ecosystem registry.
\<close>

record ecosystem_service =
  es_local_node_id :: string
  es_local_node_name :: string
  es_local_protocol_version :: string
  es_providers :: provider_registry
  es_capabilities :: capability_registry
  es_registry :: ecosystem_registry
  es_zarya :: "zarya_provider option"
  es_flux :: "flux_provider option"
  es_stale_threshold :: int

text \<open>The capability models of one registered provider; an unknown id is built on the spot.\<close>

fun capability_models :: "capability_registry \<Rightarrow> availability \<Rightarrow> string list \<Rightarrow> capability list result" where
  "capability_models r av [] = Inr []"
| "capability_models r av (cid # cids) =
     (case (case cr_get r cid of Some c \<Rightarrow> Inr c
            | None \<Rightarrow> mk_capability cid cid ''1.0.0'' [] [] av) of
        Inl e \<Rightarrow> Inl e
      | Inr c \<Rightarrow> (case capability_models r av cids of Inl e \<Rightarrow> Inl e | Inr cs \<Rightarrow> Inr (c # cs)))"

fun registered_providers ::
  "capability_registry \<Rightarrow> time \<Rightarrow> provider list \<Rightarrow> (string, disc_provider) dict
     \<Rightarrow> (string, disc_provider) dict result" where
  "registered_providers r now [] d = Inr d"
| "registered_providers r now (p # ps) d =
     (case capability_models r (prov_availability p) (prov_capabilities p) of
        Inl e \<Rightarrow> Inl e
      | Inr models \<Rightarrow>
          registered_providers r now ps (dset (prov_id p) (from_provider p models now) d))"

text \<open>A connected gateway whose descriptor is not registered yet is added at the end.\<close>

definition add_gateway ::
  "bool \<Rightarrow> provider result \<Rightarrow> capability list \<Rightarrow> time \<Rightarrow> (string, disc_provider) dict
     \<Rightarrow> (string, disc_provider) dict result" where
  "add_gateway is_connected desc caps now d =
     (if \<not> is_connected then Inr d
      else (case desc of
              Inl e \<Rightarrow> Inl e
            | Inr p \<Rightarrow> if \<not> dmem (prov_id p) d then Inr (dset (prov_id p) (from_provider p caps now) d)
                       else Inr d))"

definition local_providers :: "ecosystem_service \<Rightarrow> time \<Rightarrow> (string, disc_provider) dict result" where
  "local_providers s now =
     (case registered_providers (es_capabilities s) now (pr_list_all (es_providers s)) [] of
        Inl e \<Rightarrow> Inl e
      | Inr d1 \<Rightarrow>
          (case (case es_zarya s of None \<Rightarrow> Inr d1
                 | Some z \<Rightarrow> add_gateway (zp_is_connected z) (zp_descriptor z)
                              (zp_discovered_capabilities z) now d1) of
             Inl e \<Rightarrow> Inl e
           | Inr d2 \<Rightarrow>
               (case es_flux s of None \<Rightarrow> Inr d2
                | Some f \<Rightarrow> add_gateway (fp_is_connected f) (fp_descriptor f)
                             (fp_capability_definitions f) now d2)))"

definition seen_since :: "ecosystem_service \<Rightarrow> string \<Rightarrow> time \<Rightarrow> time" where
  "seen_since s i t = (case er_get_node (es_registry s) i of None \<Rightarrow> t | Some n \<Rightarrow> dn_first_seen n)"

definition register_in ::
  "ecosystem_service \<Rightarrow> disc_node \<Rightarrow> ecosystem_service \<times> ecosystem_event list" where
  "register_in s n =
     (case register_node (es_registry s) n True of (r, evs, _) \<Rightarrow> (s\<lparr>es_registry := r\<rparr>, evs))"

definition discover_local_node ::
  "ecosystem_service \<Rightarrow> time \<Rightarrow> (ecosystem_service \<times> ecosystem_event list \<times> disc_node) result" where
  "discover_local_node s now =
     (case local_providers s now of
        Inl e \<Rightarrow> Inl e
      | Inr provs \<Rightarrow>
          let n = \<lparr>dn_node_id = es_local_node_id s, dn_node_name = es_local_node_name s,
                   dn_state = NODE_AVAILABLE, dn_is_local = True,
                   dn_protocol_version = es_local_protocol_version s, dn_providers = provs,
                   dn_metadata = [(''environment'', PStr ''local'')],
                   dn_first_seen = seen_since s (es_local_node_id s) now, dn_last_seen = now\<rparr>;
              (s', evs) = register_in s n in
          Inr (s', evs, n))"

definition connectivity_state :: "string \<Rightarrow> node_state" where
  "connectivity_state c =
     (if c = ''reachable'' then NODE_AVAILABLE
      else if c = ''unreachable'' then NODE_UNAVAILABLE else NODE_KNOWN)"

definition flux_peer_node :: "ecosystem_service \<Rightarrow> time \<Rightarrow> flux_peer_info \<Rightarrow> disc_node" where
  "flux_peer_node s now p =
     (let i = ''flux:'' @ fpeer_id p;
          st = connectivity_state (fpeer_connectivity p);
          av = (if st = NODE_AVAILABLE then AVAILABLE else UNAVAILABLE);
          prov = \<lparr>dp_provider_id = ''flux.peer'', dp_name = ''Flux Peer Connectivity'',
                  dp_version = ''1.0.0'', dp_description = [],
                  dp_capabilities = [dc_simple ''flux.transfer'' ''Flux Data Transfer'' av],
                  dp_status = av,
                  dp_metadata = [(''paths_count'', PInt (int (length (fpeer_paths p)))),
                                 (''connectivity'', PStr (fpeer_connectivity p))],
                  dp_last_seen = now\<rparr> in
      \<lparr>dn_node_id = i, dn_node_name = ''flux-peer-'' @ take 8 (fpeer_id p), dn_state = st,
       dn_is_local = False, dn_protocol_version = ''1.0.0'',
       dn_providers = [(''flux.peer'', prov)],
       dn_metadata =
         [(''origin'', PStr ''flux_gateway''), (''flux_peer_id'', PStr (fpeer_id p)),
          (''address'', (case fpeer_address p of None \<Rightarrow> PNone | Some a \<Rightarrow> PStr a)),
          (''connectivity'', PStr (fpeer_connectivity p))],
       dn_first_seen = seen_since s i now, dn_last_seen = now\<rparr>)"

fun ingest_peers ::
  "ecosystem_service \<Rightarrow> time \<Rightarrow> flux_peer_info list
     \<Rightarrow> ecosystem_service \<times> ecosystem_event list \<times> disc_node list" where
  "ingest_peers s now [] = (s, [], [])"
| "ingest_peers s now (p # ps) =
     (let n = flux_peer_node s now p;
          (s1, evs1) = register_in s n;
          (s2, evs2, ns) = ingest_peers s1 now ps in
      (s2, evs1 @ evs2, n # ns))"

definition ingest_flux_peers ::
  "flux_client \<Rightarrow> ecosystem_service \<Rightarrow> time \<Rightarrow> ecosystem_service \<times> ecosystem_event list \<times> disc_node list" where
  "ingest_flux_peers c s now =
     (case es_flux s of
        None \<Rightarrow> (s, [], [])
      | Some f \<Rightarrow>
          if \<not> fp_is_connected f then (s, [], [])
          else (case fp_discover_peers c f of
                  Inl _ \<Rightarrow> (s, [], [])
                | Inr peers \<Rightarrow> ingest_peers s now peers))"

definition announces_zarya :: "(string, pyval) dict \<Rightarrow> bool" where
  "announces_zarya m \<longleftrightarrow>
     truthy (dget_or m ''zarya_url'' PNone) \<or> truthy (dget_or m ''has_zarya'' PNone)"

definition udp_peer_node :: "ecosystem_service \<Rightarrow> peer \<Rightarrow> disc_node" where
  "udp_peer_node s p =
     (let zarya =
        (if announces_zarya (peer_metadata p)
         then [(''zarya.agent'',
                \<lparr>dp_provider_id = ''zarya.agent'', dp_name = ''Zarya Agent Provider'',
                 dp_version = ''1.0.0'', dp_description = [],
                 dp_capabilities = [dc_simple ''zarya.work.continue'' ''Zarya Work Continuation'' AVAILABLE],
                 dp_status = AVAILABLE,
                 dp_metadata = [(''zarya_url'', dget_or (peer_metadata p) ''zarya_url'' PNone)],
                 dp_last_seen = peer_last_seen p\<rparr>)]
         else []);
          shyam =
        \<lparr>dp_provider_id = ''shyam.peer'', dp_name = ''Remote Shyam Node'',
         dp_version = peer_protocol_version p, dp_description = [],
         dp_capabilities = [dc_simple ''shyam.runtime.inspect'' ''Runtime Introspection'' AVAILABLE],
         dp_status = AVAILABLE,
         dp_metadata = [(''address'', PStr (peer_address p)), (''port'', peer_port p)],
         dp_last_seen = peer_last_seen p\<rparr> in
      \<lparr>dn_node_id = peer_node_id p, dn_node_name = peer_node_name p, dn_state = NODE_AVAILABLE,
       dn_is_local = False, dn_protocol_version = peer_protocol_version p,
       dn_providers = dset ''shyam.peer'' shyam zarya,
       dn_metadata = dupdate
         [(''origin'', PStr ''udp_broadcast''), (''address'', PStr (peer_address p)),
          (''port'', peer_port p)] (peer_metadata p),
       dn_first_seen = seen_since s (peer_node_id p) (peer_discovered_at p),
       dn_last_seen = peer_last_seen p\<rparr>)"

definition ingest_udp_peer ::
  "ecosystem_service \<Rightarrow> peer \<Rightarrow> ecosystem_service \<times> ecosystem_event list \<times> disc_node" where
  "ingest_udp_peer s p =
     (let n = udp_peer_node s p; (s', evs) = register_in s n in (s', evs, n))"

definition handle_udp_peer_lost ::
  "ecosystem_service \<Rightarrow> string \<Rightarrow> ecosystem_service \<times> ecosystem_event list" where
  "handle_udp_peer_lost s i =
     (case er_get_node (es_registry s) i of
        None \<Rightarrow> (s, [])
      | Some n \<Rightarrow> if \<not> dn_is_local n then register_in s (with_state NODE_UNAVAILABLE n) else (s, []))"

text \<open>\<open>discover\<close>; \<open>now\<close> and \<open>now'\<close> are the two readings of the clock.\<close>

definition discover ::
  "flux_client \<Rightarrow> ecosystem_service \<Rightarrow> time \<Rightarrow> time
     \<Rightarrow> (ecosystem_service \<times> ecosystem_event list \<times> snapshot) result" where
  "discover c s now now' =
     (case discover_local_node s now of
        Inl e \<Rightarrow> Inl e
      | Inr (s1, evs1, _) \<Rightarrow>
          let (s2, evs2, _) =
            (case es_flux s1 of
               None \<Rightarrow> (s1, [], [])
             | Some f \<Rightarrow> if fp_is_connected f then ingest_flux_peers c s1 now' else (s1, [], [])) in
          Inr (s2, evs1 @ evs2, create_snapshot (es_registry s2) now' (es_local_node_id s2)))"

lemma register_in_get:
  "er_ok (es_registry s) \<Longrightarrow> register_in s n = (s', evs) \<Longrightarrow>
     er_ok (es_registry s')
     \<and> (\<forall>k. er_get_node (es_registry s') k =
            (if k = dn_node_id n then Some n else er_get_node (es_registry s) k))"
  using register_node_get [of "es_registry s" n] register_node_ok [of "es_registry s" n True]
  by (auto simp: register_in_def split: prod.splits)

lemma udp_peer_node_fields:
  "dn_node_id (udp_peer_node s p) = peer_node_id p" "dn_state (udp_peer_node s p) = NODE_AVAILABLE"
  "\<not> dn_is_local (udp_peer_node s p)" "dn_last_seen (udp_peer_node s p) = peer_last_seen p"
  by (simp_all add: udp_peer_node_def Let_def)

lemma udp_peer_node_continues:
  "''zarya.work.continue'' \<in> dn_capability_ids (udp_peer_node s p) \<longleftrightarrow> announces_zarya (peer_metadata p)"
  by (simp add: udp_peer_node_def Let_def dn_capability_ids_def dp_capability_ids_def dc_simple_def)

lemma udp_peer_node_metadata:
  "dict_ok (peer_metadata p) \<Longrightarrow> dget (peer_metadata p) k = Some v \<Longrightarrow>
     dget (dn_metadata (udp_peer_node s p)) k = Some v"
  by (simp add: udp_peer_node_def Let_def dget_dupdate)

lemma handle_lost_get:
  assumes "er_ok (es_registry s)" and "er_get_node (es_registry s) i = Some n"
    and "\<not> dn_is_local n" and "handle_udp_peer_lost s i = (s', evs)"
  shows "er_get_node (es_registry s') i = Some (n\<lparr>dn_state := NODE_UNAVAILABLE\<rparr>)"
proof -
  have "register_in s (with_state NODE_UNAVAILABLE n) = (s', evs)"
    using assms by (simp add: handle_udp_peer_lost_def)
  from register_in_get [OF assms(1) this] er_get_id [OF assms(1,2)] show ?thesis
    by (simp add: with_state_def)
qed

text \<open>
  Ingesting an announced UDP peer registers an AVAILABLE remote node under the peer's id
  and touches no other node; it offers work continuation exactly when the announced metadata
  carries a \<open>zarya_url\<close> or \<open>has_zarya\<close>, and every key of the announced metadata, the
  address among them, is the node's metadata. When the peer is lost the node stays, as
  UNAVAILABLE.
\<close>

theorem udp_peer_lifecycle:
  assumes ok: "er_ok (es_registry s)" and meta: "dict_ok (peer_metadata p)"
    and ing: "ingest_udp_peer s p = (s', evs, n)"
  shows "er_ok (es_registry s')
    \<and> (\<forall>k. er_get_node (es_registry s') k =
           (if k = peer_node_id p then Some n else er_get_node (es_registry s) k))
    \<and> dn_state n = NODE_AVAILABLE \<and> \<not> dn_is_local n
    \<and> (''zarya.work.continue'' \<in> dn_capability_ids n \<longleftrightarrow> announces_zarya (peer_metadata p))
    \<and> (\<forall>k v. dget (peer_metadata p) k = Some v \<longrightarrow> dget (dn_metadata n) k = Some v)
    \<and> er_get_node (es_registry (fst (handle_udp_peer_lost s' (peer_node_id p)))) (peer_node_id p)
        = Some (n\<lparr>dn_state := NODE_UNAVAILABLE\<rparr>)"
proof -
  have n: "n = udp_peer_node s p" and reg: "register_in s n = (s', evs)"
    using ing by (auto simp: ingest_udp_peer_def Let_def split: prod.splits)
  have id: "dn_node_id n = peer_node_id p" and loc: "\<not> dn_is_local n"
    by (simp_all add: n udp_peer_node_fields)
  note get = register_in_get [OF ok reg]
  have here: "er_get_node (es_registry s') (peer_node_id p) = Some n"
    using get id by simp
  have lost: "er_get_node (es_registry (fst (handle_udp_peer_lost s' (peer_node_id p)))) (peer_node_id p)
        = Some (n\<lparr>dn_state := NODE_UNAVAILABLE\<rparr>)"
    using handle_lost_get [OF _ here loc] get by (metis prod.collapse)
  have m: "\<forall>k v. dget (peer_metadata p) k = Some v \<longrightarrow> dget (dn_metadata n) k = Some v"
    unfolding n using udp_peer_node_metadata [OF meta] by blast
  have z: "''zarya.work.continue'' \<in> dn_capability_ids n \<longleftrightarrow> announces_zarya (peer_metadata p)"
    unfolding n by (rule udp_peer_node_continues)
  show ?thesis
    using get id loc lost m z by (simp add: n udp_peer_node_fields)
qed

definition sample_service :: ecosystem_service where
  "sample_service = \<lparr>es_local_node_id = ''me'', es_local_node_name = ''local'',
     es_local_protocol_version = ''0.2.0'', es_providers = new_provider_registry True,
     es_capabilities = new_capability_registry True, es_registry = new_ecosystem_registry True,
     es_zarya = None, es_flux = None, es_stale_threshold = 30\<rparr>"

definition sample_peer :: peer where
  "sample_peer = \<lparr>peer_node_id = ''peer'', peer_node_name = ''other'', peer_address = ''10.0.0.2'',
     peer_port = PInt 54321, peer_protocol_version = ''0.2.0'', peer_discovered_at = 1, peer_last_seen = 1,
     peer_metadata = [(''zarya_url'', PStr ''http://z''), (''address'', PStr ''6.6.6.6'')]\<rparr>"

theorem udp_peer_lifecycle_witness:
  "\<exists>s' evs n. ingest_udp_peer sample_service sample_peer = (s', evs, n)
     \<and> ''zarya.work.continue'' \<in> dn_capability_ids n
     \<and> dget (dn_metadata n) ''address'' = Some (PStr ''6.6.6.6'')"
proof -
  obtain s' evs n where ing: "ingest_udp_peer sample_service sample_peer = (s', evs, n)"
    by (metis prod_cases3)
  have "er_ok (es_registry sample_service)" "dict_ok (peer_metadata sample_peer)"
    by (simp_all add: sample_service_def sample_peer_def new_ecosystem_registry_def er_ok_def dict_ok_def)
  note spec = udp_peer_lifecycle [OF this ing]
  have "announces_zarya (peer_metadata sample_peer)"
    and "dget (peer_metadata sample_peer) ''address'' = Some (PStr ''6.6.6.6'')"
    by (simp_all add: sample_peer_def announces_zarya_def dget_or_def)
  with spec ing show ?thesis by blast
qed

subsection \<open>The local node\<close>

lemma capability_models_ids:
  "cr_ok r \<Longrightarrow> capability_models r av cids = Inr models \<Longrightarrow> map cap_id models = cids"
proof (induction cids arbitrary: models)
  case Nil
  then show ?case by simp
next
  case (Cons cid cids)
  have "cap_id c = cid" if "cr_get r cid = Some c" for c
    using keyed_get Cons.prems(1) that unfolding cr_defs by fastforce
  with Cons show ?case
    by (auto simp: mk_capability_iff split: sum.splits option.splits)
qed

lemma from_provider_ids:
  "map cap_id models = prov_capabilities p \<Longrightarrow>
     dp_capability_ids (from_provider p models now) = prov_capabilities p
     \<and> dp_status (from_provider p models now) = prov_availability p"
  by (auto simp: from_provider_def Let_def dp_capability_ids_def from_capability_def comp_def)

text \<open>A discovered provider mirrors a registered one.\<close>

definition mirrors :: "disc_provider \<Rightarrow> provider \<Rightarrow> bool" where
  "mirrors dp p \<longleftrightarrow> dp_capability_ids dp = prov_capabilities p \<and> dp_status dp = prov_availability p"

lemma registered_providers_get:
  "cr_ok r \<Longrightarrow> distinct (map prov_id ps) \<Longrightarrow> registered_providers r now ps d = Inr d' \<Longrightarrow>
     (\<forall>p \<in> set ps. \<exists>dp. dget d' (prov_id p) = Some dp \<and> mirrors dp p)
     \<and> (\<forall>k. k \<notin> prov_id ` set ps \<longrightarrow> dget d' k = dget d k)"
proof (induction ps arbitrary: d)
  case Nil
  then show ?case by simp
next
  case (Cons p ps)
  then obtain models where m: "capability_models r (prov_availability p) (prov_capabilities p) = Inr models"
    and rest: "registered_providers r now ps (dset (prov_id p) (from_provider p models now) d) = Inr d'"
    by (auto split: sum.splits)
  have "mirrors (from_provider p models now) p"
    using from_provider_ids [OF capability_models_ids [OF Cons.prems(1) m]] by (simp add: mirrors_def)
  with Cons.IH [OF Cons.prems(1) _ rest] Cons.prems(2) show ?case by auto
qed

lemma add_gateway_get:
  assumes "add_gateway conn desc caps now d = Inr d'"
  shows "(\<forall>k. dmem k d \<longrightarrow> dget d' k = dget d k)
     \<and> (\<forall>k. dmem k d' \<longrightarrow> dmem k d \<or> (conn \<and> (\<exists>p. desc = Inr p \<and> k = prov_id p)))"
  using assms by (auto simp: add_gateway_def split: if_splits sum.splits)

text \<open>A gateway that is not registered is there exactly when it is connected, as its descriptor and its capabilities say.\<close>

definition shows_gateway ::
  "bool \<Rightarrow> provider result \<Rightarrow> capability list \<Rightarrow> time \<Rightarrow> string \<Rightarrow> (string, disc_provider) dict \<Rightarrow> bool" where
  "shows_gateway conn desc caps now k d \<longleftrightarrow>
     (if conn then \<exists>p. desc = Inr p \<and> dget d k = Some (from_provider p caps now) else \<not> dmem k d)"

lemma add_gateway_shows:
  assumes "add_gateway conn desc caps now d = Inr d'" and "\<And>p. desc = Inr p \<Longrightarrow> prov_id p = k"
  shows "(\<not> dmem k d \<longrightarrow> shows_gateway conn desc caps now k d') \<and> (\<forall>k'. k' \<noteq> k \<longrightarrow> dget d' k' = dget d k')"
  using assms by (auto simp: add_gateway_def shows_gateway_def split: if_splits sum.splits)

lemma local_providers_get:
  assumes cr: "cr_ok (es_capabilities s)" and pr: "pr_ok (es_providers s)"
    and run: "local_providers s now = Inr provs"
  shows "(\<forall>pid p. pr_get (es_providers s) pid = Some p \<longrightarrow>
            (\<exists>dp. dget provs pid = Some dp \<and> mirrors dp p))
       \<and> (\<forall>pid. dmem pid provs \<longrightarrow>
            pr_contains (es_providers s) pid \<or> pid = PROVIDER_ID_ZARYA \<or> pid = PROVIDER_ID_FLUX)
       \<and> (\<not> pr_contains (es_providers s) PROVIDER_ID_ZARYA \<longrightarrow> (case es_zarya s of
            None \<Rightarrow> \<not> dmem PROVIDER_ID_ZARYA provs
          | Some z \<Rightarrow> shows_gateway (zp_is_connected z) (zp_descriptor z) (zp_discovered_capabilities z) now
              PROVIDER_ID_ZARYA provs))
       \<and> (\<not> pr_contains (es_providers s) PROVIDER_ID_FLUX \<longrightarrow> (case es_flux s of
            None \<Rightarrow> \<not> dmem PROVIDER_ID_FLUX provs
          | Some f \<Rightarrow> shows_gateway (fp_is_connected f) (fp_descriptor f) (fp_capability_definitions f) now
              PROVIDER_ID_FLUX provs))"
proof -
  let ?ps = "pr_list_all (es_providers s)"
  obtain d1 d2 where d1: "registered_providers (es_capabilities s) now ?ps [] = Inr d1"
    and d2: "(case es_zarya s of None \<Rightarrow> Inr d1
        | Some z \<Rightarrow> add_gateway (zp_is_connected z) (zp_descriptor z) (zp_discovered_capabilities z) now d1)
        = Inr d2"
    and d3: "(case es_flux s of None \<Rightarrow> Inr d2
        | Some f \<Rightarrow> add_gateway (fp_is_connected f) (fp_descriptor f) (fp_capability_definitions f) now d2)
        = Inr provs"
    using run by (auto simp: local_providers_def split: sum.splits)
  note reg = registered_providers_get [OF cr pr.elems_distinct [OF pr] d1]
  have z: "(\<forall>k. dmem k d1 \<longrightarrow> dget d2 k = dget d1 k) \<and> (\<forall>k. dmem k d2 \<longrightarrow> dmem k d1 \<or> k = PROVIDER_ID_ZARYA)"
    using d2 by (auto dest!: add_gateway_get zarya.descriptor_id split: option.splits)
  have f: "(\<forall>k. dmem k d2 \<longrightarrow> dget provs k = dget d2 k)
      \<and> (\<forall>k. dmem k provs \<longrightarrow> dmem k d2 \<or> k = PROVIDER_ID_FLUX)"
    using d3 by (auto dest!: add_gateway_get flux.descriptor_id split: option.splits)
  have listed: "pr_get (es_providers s) pid = Some p \<longleftrightarrow> p \<in> set ?ps \<and> prov_id p = pid" for pid p
    using pr.elems_lookup [OF pr] keyed_get pr unfolding pr_defs by fastforce
  have d1_mem: "dmem k d1 \<longleftrightarrow> pr_contains (es_providers s) k" for k
  proof
    assume "dmem k d1"
    then have "dget d1 k \<noteq> dget [] k" by (simp add: dmem_def)
    with reg have "k \<in> prov_id ` set ?ps" by metis
    then obtain p where "p \<in> set ?ps" "prov_id p = k" by blast
    then show "pr_contains (es_providers s) k"
      using listed [of k p] by (simp add: pr_contains_def pr_get_def dmem_def)
  next
    assume "pr_contains (es_providers s) k"
    then obtain p where "pr_get (es_providers s) k = Some p"
      by (auto simp: pr_contains_def pr_get_def dmem_def)
    with listed reg show "dmem k d1" by (auto simp: dmem_def)
  qed
  have "\<exists>dp. dget provs pid = Some dp \<and> mirrors dp p" if p: "pr_get (es_providers s) pid = Some p" for pid p
  proof -
    from p have "p \<in> set ?ps" and pid: "prov_id p = pid" by (simp_all only: listed)
    with reg have "\<exists>dp. dget d1 (prov_id p) = Some dp \<and> mirrors dp p" by (elim conjE bspec)
    then obtain dp where dp: "dget d1 pid = Some dp" "mirrors dp p" unfolding pid by (elim exE conjE)
    then have "dmem pid d1" by (simp add: dmem_def)
    with z have same: "dget d2 pid = dget d1 pid" by blast
    with \<open>dmem pid d1\<close> have "dmem pid d2" by (simp add: dmem_def)
    with f have "dget provs pid = dget d2 pid" by blast
    with same dp show ?thesis by simp
  qed
  note registered = this
  have zf: "PROVIDER_ID_ZARYA \<noteq> PROVIDER_ID_FLUX" by (simp add: PROVIDER_ID_ZARYA_def PROVIDER_ID_FLUX_def)
  have flux_keeps: "dget provs k = dget d2 k" if "k \<noteq> PROVIDER_ID_FLUX" for k
    using d3 that by (auto dest!: add_gateway_shows [OF _ flux.descriptor_id] split: option.splits)
  have zarya_keeps: "dget d2 k = dget d1 k" if "k \<noteq> PROVIDER_ID_ZARYA" for k
    using d2 that by (auto dest!: add_gateway_shows [OF _ zarya.descriptor_id] split: option.splits)
  have "case es_zarya s of None \<Rightarrow> \<not> dmem PROVIDER_ID_ZARYA provs
      | Some z \<Rightarrow> shows_gateway (zp_is_connected z) (zp_descriptor z) (zp_discovered_capabilities z) now PROVIDER_ID_ZARYA provs"
    if "\<not> pr_contains (es_providers s) PROVIDER_ID_ZARYA"
    using d2 that d1_mem [of PROVIDER_ID_ZARYA] flux_keeps [OF zf]
    by (auto simp: shows_gateway_def dmem_def dest!: add_gateway_shows [OF _ zarya.descriptor_id] split: option.splits if_splits)
  moreover have "case es_flux s of None \<Rightarrow> \<not> dmem PROVIDER_ID_FLUX provs
      | Some f \<Rightarrow> shows_gateway (fp_is_connected f) (fp_descriptor f) (fp_capability_definitions f) now PROVIDER_ID_FLUX provs"
    if "\<not> pr_contains (es_providers s) PROVIDER_ID_FLUX"
    using d3 that d1_mem [of PROVIDER_ID_FLUX] zarya_keeps [OF zf [symmetric]]
    by (auto simp: shows_gateway_def dmem_def dest!: add_gateway_shows [OF _ flux.descriptor_id] split: option.splits if_splits)
  ultimately show ?thesis using z f d1_mem registered by blast
qed

text \<open>
  C14. Discovering the local node registers it as AVAILABLE and local. Every provider of the
  provider registry appears on it under its id with exactly its capabilities and its
  availability. A gateway that is not registered appears exactly when it is connected, with what its descriptor and its
  capabilities say; nothing else appears.
\<close>

theorem local_node_mirrors_registry:
  assumes cr: "cr_ok (es_capabilities s)" and pr: "pr_ok (es_providers s)"
    and er: "er_ok (es_registry s)"
    and run: "discover_local_node s now = Inr (s', evs, n)"
  shows "er_get_node (es_registry s') (es_local_node_id s) = Some n
    \<and> dn_state n = NODE_AVAILABLE \<and> dn_is_local n
    \<and> (\<forall>pid p. pr_get (es_providers s) pid = Some p \<longrightarrow>
          (\<exists>dp. dget (dn_providers n) pid = Some dp
             \<and> dp_capability_ids dp = prov_capabilities p \<and> dp_status dp = prov_availability p))
    \<and> (\<forall>pid. dmem pid (dn_providers n) \<longrightarrow>
          pr_contains (es_providers s) pid \<or> pid = ''zarya.agent'' \<or> pid = ''flux.connectivity'')
    \<and> (\<not> pr_contains (es_providers s) ''zarya.agent'' \<longrightarrow> (case es_zarya s of
          None \<Rightarrow> \<not> dmem ''zarya.agent'' (dn_providers n)
        | Some z \<Rightarrow> if zp_is_connected z
            then \<exists>p. zp_descriptor z = Inr p
              \<and> dget (dn_providers n) ''zarya.agent'' = Some (from_provider p (zp_discovered_capabilities z) now)
            else \<not> dmem ''zarya.agent'' (dn_providers n)))
    \<and> (\<not> pr_contains (es_providers s) ''flux.connectivity'' \<longrightarrow> (case es_flux s of
          None \<Rightarrow> \<not> dmem ''flux.connectivity'' (dn_providers n)
        | Some f \<Rightarrow> if fp_is_connected f
            then \<exists>p. fp_descriptor f = Inr p
              \<and> dget (dn_providers n) ''flux.connectivity'' = Some (from_provider p (fp_capability_definitions f) now)
            else \<not> dmem ''flux.connectivity'' (dn_providers n)))"
proof -
  obtain provs where provs: "local_providers s now = Inr provs"
    and n: "dn_node_id n = es_local_node_id s" "dn_state n = NODE_AVAILABLE" "dn_is_local n"
      "dn_providers n = provs"
    and reg: "register_in s n = (s', evs)"
    using run by (auto simp: discover_local_node_def Let_def split: sum.splits prod.splits)
  show ?thesis
    unfolding n
    using local_providers_get [OF cr pr provs, unfolded mirrors_def shows_gateway_def PROVIDER_ID_ZARYA_def PROVIDER_ID_FLUX_def]
      register_in_get [OF er reg] n(1-3)
    by simp
qed

text \<open>A registered local provider, a connected Flux gateway and a Zarya gateway that is not connected.\<close>

definition online_flux :: flux_provider where
  "online_flux = \<lparr>fp_identity = Some \<lparr>fi_peer_id = ''f1'', fi_version = ''1.0'', fi_protocol_version = ''1''\<rparr>,
     fp_status_resp = Some \<lparr>fst_state = FLUX_RUNNING, fst_peer_id = ''f1'', fst_discovered_peer_count = 0,
       fst_active_path_count = 0, fst_active_transfer_count = 0\<rparr>, fp_is_connected = True\<rparr>"

definition fabric_service :: ecosystem_service where
  "fabric_service = sample_service\<lparr>es_providers :=
     pr_store (started_desc LocalFilesystemProvider) (new_provider_registry True),
     es_zarya := Some new_zarya_provider, es_flux := Some online_flux\<rparr>"

theorem local_node_mirrors_registry_witness:
  "\<exists>s' evs n dp gp. discover_local_node fabric_service 5 = Inr (s', evs, n)
     \<and> dget (dn_providers n) ''local.filesystem'' = Some dp
     \<and> dp_capability_ids dp = [''file.read'', ''file.write'', ''file.list''] \<and> dp_status dp = AVAILABLE
     \<and> dget (dn_providers n) ''flux.connectivity'' = Some gp \<and> dp_capability_ids gp = map cap_id FLUX_CAPABILITY_DEFINITIONS
     \<and> \<not> dmem ''zarya.agent'' (dn_providers n)"
proof -
  have ok: "cr_ok (es_capabilities fabric_service)" "er_ok (es_registry fabric_service)"
    "pr_ok (es_providers fabric_service)"
    by (simp_all add: fabric_service_def sample_service_def new_ecosystem_registry_def er_ok_def
        new_capability_registry_def cr_ok_def new_provider_registry_def pr_defs keyed_def dict_ok_def)
  have "\<not> isl (discover_local_node fabric_service 5)" by code_simp
  then obtain s' evs n where run: "discover_local_node fabric_service 5 = Inr (s', evs, n)"
    by (cases "discover_local_node fabric_service 5") auto
  have p: "pr_get (es_providers fabric_service) ''local.filesystem'' = Some (started_desc LocalFilesystemProvider)"
    by (simp add: fabric_service_def pr_defs LocalFilesystemProvider_def started_desc_def)
  have caps: "prov_capabilities (started_desc LocalFilesystemProvider) = [''file.read'', ''file.write'', ''file.list'']"
    "prov_availability (started_desc LocalFilesystemProvider) = AVAILABLE"
    by (simp_all add: started_desc_def LocalFilesystemProvider_def FILESYSTEM_CAPABILITY_DEFINITIONS_def)
  have new: "\<not> pr_contains (es_providers fabric_service) ''zarya.agent''" "\<not> pr_contains (es_providers fabric_service) ''flux.connectivity''"
    by code_simp+
  have gateways: "es_zarya fabric_service = Some new_zarya_provider" "es_flux fabric_service = Some online_flux"
    "\<not> zp_is_connected new_zarya_provider" "fp_is_connected online_flux"
    by (simp_all add: fabric_service_def new_zarya_provider_def online_flux_def)
  have shown: "dp_capability_ids (from_provider x (fp_capability_definitions online_flux) 5) = map cap_id FLUX_CAPABILITY_DEFINITIONS" for x
    by (simp add: from_provider_def fp_capability_definitions_def online_flux_def FLUX_CAPABILITY_DEFINITIONS_def dp_capability_ids_def
        from_capability_def)
  note spec = local_node_mirrors_registry [OF ok(1) ok(3) ok(2) run]
  have "\<exists>dp. dget (dn_providers n) ''local.filesystem'' = Some dp
      \<and> dp_capability_ids dp = prov_capabilities (started_desc LocalFilesystemProvider)
      \<and> dp_status dp = prov_availability (started_desc LocalFilesystemProvider)"
    using spec p by blast
  with caps obtain dp where "dget (dn_providers n) ''local.filesystem'' = Some dp"
    "dp_capability_ids dp = [''file.read'', ''file.write'', ''file.list'']" "dp_status dp = AVAILABLE" by auto
  moreover from spec new gateways obtain x where "dget (dn_providers n) ''flux.connectivity''
      = Some (from_provider x (fp_capability_definitions online_flux) 5)" "\<not> dmem ''zarya.agent'' (dn_providers n)"
    by (simp only: option.case if_True if_False not_False_eq_True simp_thms) blast
  ultimately show ?thesis using run shown by blast
qed

end
