(* ===== verification/Shyam_Navigation.thy ===== *)
theory Shyam_Navigation
  imports Shyam_Ecosystem "HOL-Library.Multiset"
begin

section \<open>Hybrid navigation: candidates, policy and navigator\<close>

text \<open>
  \<open>navigation/\<close>. The navigator extracts every (node, provider, capability) triple of a
  snapshot that offers the requested capability, filters the triples by state and constraints
  and ranks the rest by a key, lower first, with Python's stable sort. The abstract
  specification is \<open>eligible\<close> and \<open>ranking_key\<close>: the selection is a minimum of the eligible
  candidates, and the locale \<open>navigator\<close> is what a client may rely on.
\<close>

subsection \<open>navigation/models.py\<close>

record nav_constraints =
  nk_preferred_node :: "string option"
  nk_preferred_provider :: "string option"
  nk_local_only :: bool
  nk_remote_allowed :: bool
  nk_required_node_state :: "node_state option"
  nk_required_provider_status :: "availability option"

definition default_constraints :: nav_constraints where
  "default_constraints = \<lparr>nk_preferred_node = None, nk_preferred_provider = None,
     nk_local_only = False, nk_remote_allowed = True, nk_required_node_state = None,
     nk_required_provider_status = None\<rparr>"

record nav_request =
  nq_capability :: string
  nq_constraints :: nav_constraints

definition mk_nav_request :: "string \<Rightarrow> nav_constraints \<Rightarrow> nav_request result" where
  "mk_nav_request v k =
     (if v = [] \<or> CHR ''.'' \<notin> set v
      then Inl (value_error (''Navigation capability must be namespaced (e.g. ''
             @ quoted ''file.read'' @ ''), got: '' @ quoted v))
      else Inr \<lparr>nq_capability = v, nq_constraints = k\<rparr>)"

record nav_candidate =
  nc_node_id :: string
  nc_node_name :: string
  nc_provider_id :: string
  nc_provider_name :: string
  nc_capability_id :: string
  nc_is_local :: bool
  nc_node_state :: node_state
  nc_provider_status :: availability
  nc_capability_availability :: availability
  nc_metadata :: "(string, pyval) dict"

record nav_result =
  nr_capability :: string
  nr_selected :: "nav_candidate option"
  nr_reason :: string
  nr_alternatives :: "nav_candidate list"
  nr_rejected :: "(nav_candidate \<times> string) list"

definition has_selection :: "nav_result \<Rightarrow> bool" where
  "has_selection r \<longleftrightarrow> nr_selected r \<noteq> None"

subsection \<open>navigation/candidates.py\<close>

definition mk_candidate :: "disc_node \<Rightarrow> disc_provider \<Rightarrow> disc_capability \<Rightarrow> nav_candidate" where
  "mk_candidate n p c =
     \<lparr>nc_node_id = dn_node_id n, nc_node_name = dn_node_name n, nc_provider_id = dp_provider_id p,
      nc_provider_name = dp_name p, nc_capability_id = dc_capability_id c,
      nc_is_local = dn_is_local n, nc_node_state = dn_state n, nc_provider_status = dp_status p,
      nc_capability_availability = dc_availability c,
      nc_metadata = [(''node'', PDict (dn_metadata n)), (''provider'', PDict (dp_metadata p))]\<rparr>"

definition discover_candidates :: "snapshot \<Rightarrow> string \<Rightarrow> nav_candidate list" where
  "discover_candidates snap cid =
     concat (map (\<lambda>(i, n).
       concat (map (\<lambda>(pid, p).
         map (mk_candidate n p) (filter (\<lambda>c. dc_capability_id c = cid) (dp_capabilities p)))
         (dn_providers n)))
       (snap_nodes snap))"

lemma discover_candidates_mem:
  "c \<in> set (discover_candidates snap cid) \<longleftrightarrow>
     (\<exists>n \<in> set (dvals (snap_nodes snap)). \<exists>p \<in> set (dvals (dn_providers n)).
        \<exists>dc \<in> set (dp_capabilities p). dc_capability_id dc = cid \<and> c = mk_candidate n p dc)"
proof -
  have prov: "c \<in> set (concat (map (\<lambda>(pid, p).
         map (mk_candidate n p) (filter (\<lambda>c. dc_capability_id c = cid) (dp_capabilities p)))
         (dn_providers n))) \<longleftrightarrow> (\<exists>p \<in> set (dvals (dn_providers n)).
        \<exists>dc \<in> set (dp_capabilities p). dc_capability_id dc = cid \<and> c = mk_candidate n p dc)" for n
    by (simp add: case_prod_beta image_iff) blast
  have "c \<in> set (discover_candidates snap cid) \<longleftrightarrow>
     (\<exists>n \<in> set (dvals (snap_nodes snap)). c \<in> set (concat (map (\<lambda>(pid, p).
         map (mk_candidate n p) (filter (\<lambda>c. dc_capability_id c = cid) (dp_capabilities p)))
         (dn_providers n))))"
    unfolding discover_candidates_def set_concat set_map by (simp add: case_prod_beta)
  then show ?thesis by (simp only: prov)
qed

subsection \<open>navigation/policy.py\<close>

text \<open>The reason a candidate is rejected for, in the order of the checks; \<open>None\<close>: eligible.\<close>

definition rejection :: "nav_constraints \<Rightarrow> nav_candidate \<Rightarrow> string option" where
  "rejection k c =
     (if nc_node_state c = NODE_UNAVAILABLE then Some ''Node is unavailable''
      else if nc_node_state c = NODE_STALE then Some ''Node state is stale''
      else if nc_provider_status c = UNAVAILABLE then Some ''Provider status is unavailable''
      else if nc_capability_availability c = UNAVAILABLE
      then Some ''Capability availability is unavailable''
      else if nk_local_only k \<and> \<not> nc_is_local c then Some ''Violates constraint: local_only=True''
      else if \<not> nk_remote_allowed k \<and> \<not> nc_is_local c
      then Some ''Violates constraint: remote_allowed=False''
      else if nk_required_node_state k \<noteq> None
            \<and> nc_node_state c \<noteq> the (nk_required_node_state k)
      then Some (''Violates constraint: required_node_state=''
             @ node_state_value (the (nk_required_node_state k)))
      else if nk_required_provider_status k \<noteq> None
            \<and> nc_provider_status c \<noteq> the (nk_required_provider_status k)
      then Some (''Violates constraint: required_provider_status=''
             @ availability_value (the (nk_required_provider_status k)))
      else None)"

fun partition_candidates ::
  "nav_constraints \<Rightarrow> nav_candidate list \<Rightarrow> nav_candidate list \<times> (nav_candidate \<times> string) list" where
  "partition_candidates k [] = ([], [])"
| "partition_candidates k (c # cs) =
     (let (el, rej) = partition_candidates k cs in
      (case rejection k c of Some why \<Rightarrow> (el, (c, why) # rej) | None \<Rightarrow> (c # el, rej)))"

type_synonym rank_key = "nat \<times> nat \<times> nat \<times> string \<times> string"

definition ranking_key :: "nav_constraints \<Rightarrow> nav_candidate \<Rightarrow> rank_key" where
  "ranking_key k c =
     (if nk_preferred_node k = Some (nc_node_id c) then 0 else 1,
      if nk_preferred_provider k = Some (nc_provider_id c) then 0 else 1,
      if nc_is_local c then 0 else 1, nc_node_id c, nc_provider_id c)"

definition selection_reason :: "nav_constraints \<Rightarrow> nav_candidate \<Rightarrow> string" where
  "selection_reason k c = join_with '' ''
     ([''Selected candidate on node '' @ quoted (nc_node_id c) @ '' via provider ''
       @ quoted (nc_provider_id c) @ ''.'']
      @ (if nk_preferred_node k = Some (nc_node_id c) then [''Matched preferred node constraint.''] else [])
      @ (if nk_preferred_provider k = Some (nc_provider_id c)
         then [''Matched preferred provider constraint.''] else [])
      @ [if nc_is_local c then ''Preferred local execution.'' else ''Resolved to remote execution.''])"

definition evaluate :: "string \<Rightarrow> nav_candidate list \<Rightarrow> nav_constraints \<Rightarrow> nav_result" where
  "evaluate capability candidates k =
     (let (el, rej) = partition_candidates k candidates in
      if el = []
      then \<lparr>nr_capability = capability, nr_selected = None,
            nr_reason = ''No eligible candidates found matching requirements.'',
            nr_alternatives = [], nr_rejected = rej\<rparr>
      else let ranked = sort_key (ranking_key k) el in
           \<lparr>nr_capability = capability, nr_selected = Some (hd ranked),
            nr_reason = selection_reason k (hd ranked),
            nr_alternatives = tl ranked, nr_rejected = rej\<rparr>)"

subsection \<open>navigation/navigator.py\<close>

definition navigate :: "nav_request \<Rightarrow> snapshot \<Rightarrow> nav_result" where
  "navigate q snap =
     evaluate (nq_capability q) (discover_candidates snap (nq_capability q)) (nq_constraints q)"

subsection \<open>The specification\<close>

definition eligible :: "nav_constraints \<Rightarrow> nav_candidate \<Rightarrow> bool" where
  "eligible k c \<longleftrightarrow>
     nc_node_state c \<notin> {NODE_UNAVAILABLE, NODE_STALE}
   \<and> nc_provider_status c \<noteq> UNAVAILABLE \<and> nc_capability_availability c \<noteq> UNAVAILABLE
   \<and> (nk_local_only k \<or> \<not> nk_remote_allowed k \<longrightarrow> nc_is_local c)
   \<and> nk_required_node_state k \<in> {None, Some (nc_node_state c)}
   \<and> nk_required_provider_status k \<in> {None, Some (nc_provider_status c)}"

lemma rejection_None: "rejection k c = None \<longleftrightarrow> eligible k c"
  by (cases "nk_required_node_state k"; cases "nk_required_provider_status k")
    (auto simp: rejection_def eligible_def)

lemma partition_eligible: "fst (partition_candidates k cs) = filter (eligible k) cs"
  by (induction cs)
    (auto simp: rejection_None [symmetric] Let_def split: prod.splits option.splits)

lemma partition_rejected:
  "map fst (snd (partition_candidates k cs)) = filter (\<lambda>c. \<not> eligible k c) cs
   \<and> (\<forall>(c, why) \<in> set (snd (partition_candidates k cs)). rejection k c = Some why)"
  by (induction cs)
    (auto simp: rejection_None [symmetric] Let_def split: prod.splits option.splits)

lemma evaluate_fields:
  "nr_capability (evaluate cid cs k) = cid"
  "nr_rejected (evaluate cid cs k) = snd (partition_candidates k cs)"
  "nr_selected (evaluate cid cs k) =
     (case sort_key (ranking_key k) (filter (eligible k) cs) of [] \<Rightarrow> None | c # _ \<Rightarrow> Some c)"
  "nr_alternatives (evaluate cid cs k) = tl (sort_key (ranking_key k) (filter (eligible k) cs))"
proof -
  obtain el rej where part: "partition_candidates k cs = (el, rej)" by force
  then have el: "filter (eligible k) cs = el" using partition_eligible [of k cs] by simp
  have "sort_key (ranking_key k) el \<noteq> []" if "el \<noteq> []"
    using that by (metis length_0_conv length_sort)
  then show "nr_capability (evaluate cid cs k) = cid"
    "nr_rejected (evaluate cid cs k) = snd (partition_candidates k cs)"
    "nr_selected (evaluate cid cs k) =
     (case sort_key (ranking_key k) (filter (eligible k) cs) of [] \<Rightarrow> None | c # _ \<Rightarrow> Some c)"
    "nr_alternatives (evaluate cid cs k) = tl (sort_key (ranking_key k) (filter (eligible k) cs))"
    by (cases "el = []"; simp add: evaluate_def part el Let_def hd_conv_nth split: list.split)+
qed

lemma sorted_selection:
  assumes "sort_key f xs = y # ys"
  shows "mset (y # ys) = mset xs \<and> (\<forall>z \<in> set xs. f y \<le> f z) \<and> sorted (map f ys)"
proof -
  have perm: "mset (y # ys) = mset xs" using assms by (metis mset_sort)
  have "sorted (map f (y # ys))" using assms by (metis sorted_sort_key)
  moreover have "set (y # ys) = set xs" using perm by (metis mset_eq_setD)
  ultimately show ?thesis using perm by auto
qed

lemma evaluate_selected:
  assumes "nr_selected (evaluate cid cs k) = Some c"
  shows "c \<in> set cs \<and> eligible k c
    \<and> (\<forall>d \<in> set cs. eligible k d \<longrightarrow> ranking_key k c \<le> ranking_key k d)
    \<and> mset (c # nr_alternatives (evaluate cid cs k)) = mset (filter (eligible k) cs)"
proof -
  from assms obtain ys where s: "sort_key (ranking_key k) (filter (eligible k) cs) = c # ys"
    by (auto simp: evaluate_fields split: list.splits)
  note sel = sorted_selection [OF s]
  then have "set (c # ys) = set (filter (eligible k) cs)" by (metis mset_eq_setD)
  then have "c \<in> set cs \<and> eligible k c" by auto
  with sel s show ?thesis by (auto simp: evaluate_fields)
qed

lemma evaluate_none: "nr_selected (evaluate cid cs k) = None \<longleftrightarrow> (\<forall>c \<in> set cs. \<not> eligible k c)"
proof -
  have "sort_key (ranking_key k) (filter (eligible k) cs) = [] \<longleftrightarrow> filter (eligible k) cs = []"
    by (metis length_0_conv length_sort)
  then show ?thesis by (auto simp: evaluate_fields filter_empty_conv split: list.split)
qed

text \<open>What a client of the navigator relies on.\<close>

locale navigator =
  fixes nav :: "nav_request \<Rightarrow> snapshot \<Rightarrow> nav_result"
  assumes nav_candidate: "nr_selected (nav q snap) = Some c \<Longrightarrow>
        c \<in> set (discover_candidates snap (nq_capability q))"
    and nav_eligible: "nr_selected (nav q snap) = Some c \<Longrightarrow> eligible (nq_constraints q) c"
    and nav_complete: "nr_selected (nav q snap) = None \<Longrightarrow>
        c \<in> set (discover_candidates snap (nq_capability q)) \<Longrightarrow> \<not> eligible (nq_constraints q) c"
begin

lemma target_capability: "nr_selected (nav q snap) = Some c \<Longrightarrow> nc_capability_id c = nq_capability q"
  using nav_candidate by (fastforce simp: discover_candidates_mem mk_candidate_def)

lemma target_provider:
  assumes "nr_selected (nav q snap) = Some c"
  shows "\<exists>n \<in> set (dvals (snap_nodes snap)). \<exists>p \<in> set (dvals (dn_providers n)).
     dn_node_id n = nc_node_id c \<and> dn_is_local n = nc_is_local c \<and> dn_state n = nc_node_state c
     \<and> dp_provider_id p = nc_provider_id c \<and> dp_status p = nc_provider_status c
     \<and> nq_capability q \<in> set (dp_capability_ids p)"
proof -
  from nav_candidate [OF assms, unfolded discover_candidates_mem] obtain n p dc
    where n: "n \<in> set (dvals (snap_nodes snap))" and p: "p \<in> set (dvals (dn_providers n))"
      and dc: "dc \<in> set (dp_capabilities p)" "dc_capability_id dc = nq_capability q"
      and c: "c = mk_candidate n p dc" by (elim bexE conjE)
  from dc have "nq_capability q \<in> set (dp_capability_ids p)" by (force simp: dp_capability_ids_def)
  then show ?thesis by (intro bexI [OF _ n] bexI [OF _ p]) (simp add: c mk_candidate_def)
qed

lemma local_target:
  "nr_selected (nav q snap) = Some c \<Longrightarrow>
     nk_local_only (nq_constraints q) \<or> \<not> nk_remote_allowed (nq_constraints q) \<Longrightarrow> nc_is_local c"
  using nav_eligible by (fastforce simp: eligible_def)

lemma usable_target:
  "nr_selected (nav q snap) = Some c \<Longrightarrow>
     nc_node_state c \<in> {NODE_KNOWN, NODE_AVAILABLE} \<and> nc_provider_status c \<noteq> UNAVAILABLE
     \<and> nc_capability_availability c \<noteq> UNAVAILABLE"
  using nav_eligible by (cases "nc_node_state c") (fastforce simp: eligible_def)+

end

interpretation hybrid: navigator navigate
proof
  fix q snap c
  show "nr_selected (navigate q snap) = Some c \<Longrightarrow>
      c \<in> set (discover_candidates snap (nq_capability q))"
    by (simp add: navigate_def evaluate_selected)
  show "nr_selected (navigate q snap) = Some c \<Longrightarrow> eligible (nq_constraints q) c"
    by (simp add: navigate_def evaluate_selected)
  show "nr_selected (navigate q snap) = None \<Longrightarrow>
        c \<in> set (discover_candidates snap (nq_capability q)) \<Longrightarrow> \<not> eligible (nq_constraints q) c"
    by (simp add: navigate_def evaluate_none)
qed

text \<open>
  C13. Navigation selects a target exactly when some candidate is eligible. The selected one is
  eligible and no eligible candidate ranks lower; it and the alternatives are the eligible
  candidates, each as often as it was found, and the alternatives are in rank order. Every
  other candidate is reported as rejected, with the first check it fails.
\<close>

theorem navigation_selects_best:
  "(let cs = discover_candidates snap (nq_capability q); k = nq_constraints q; r = navigate q snap in
    (nr_selected r = None \<longleftrightarrow> filter (eligible k) cs = [])
    \<and> (\<forall>c. nr_selected r = Some c \<longrightarrow>
          eligible k c \<and> (\<forall>d \<in> set cs. eligible k d \<longrightarrow> ranking_key k c \<le> ranking_key k d)
          \<and> mset (c # nr_alternatives r) = mset (filter (eligible k) cs))
    \<and> sorted (map (ranking_key k) (nr_alternatives r))
    \<and> map fst (nr_rejected r) = filter (\<lambda>c. \<not> eligible k c) cs
    \<and> (\<forall>(c, why) \<in> set (nr_rejected r). rejection k c = Some why))"
proof -
  define cs where "cs = discover_candidates snap (nq_capability q)"
  define k where "k = nq_constraints q"
  have r: "navigate q snap = evaluate (nq_capability q) cs k"
    by (simp add: navigate_def cs_def k_def)
  have "sorted (map (ranking_key k) (tl (sort_key (ranking_key k) (filter (eligible k) cs))))"
    using sorted_sort_key [of "ranking_key k" "filter (eligible k) cs"] by (simp add: map_tl sorted_tl)
  then show ?thesis
    unfolding Let_def r cs_def [symmetric] k_def [symmetric]
    using evaluate_selected [of "nq_capability q" cs k] evaluate_none [of "nq_capability q" cs k]
      partition_rejected [of k cs]
    by (simp add: evaluate_fields(2,4) filter_empty_conv)
qed

definition two_node_snapshot :: snapshot where
  "two_node_snapshot =
     (let prov = (\<lambda>i. \<lparr>dp_provider_id = i, dp_name = i, dp_version = ''1.0.0'', dp_description = [],
        dp_capabilities = [dc_simple ''file.read'' ''File Read'' AVAILABLE], dp_status = AVAILABLE,
        dp_metadata = [], dp_last_seen = 0\<rparr>);
          node = (\<lambda>i l. \<lparr>dn_node_id = i, dn_node_name = i, dn_state = NODE_AVAILABLE, dn_is_local = l,
        dn_protocol_version = ''1.0.0'', dn_providers = [(''local.filesystem'', prov ''local.filesystem'')],
        dn_metadata = [], dn_first_seen = 0, dn_last_seen = 0\<rparr>) in
      \<lparr>snap_timestamp = 0, snap_local_node_id = ''me'',
       snap_nodes = [(''a'', node ''a'' False), (''me'', node ''me'' True)]\<rparr>)"

definition read_request :: "nav_constraints \<Rightarrow> nav_request" where
  "read_request k = \<lparr>nq_capability = ''file.read'', nq_constraints = k\<rparr>"

lemma two_node_local:
  "map_option nc_node_id (nr_selected (navigate (read_request default_constraints) two_node_snapshot))
     = Some ''me''"
  by code_simp

theorem navigation_selects_best_witness:
  "\<exists>c. nr_selected (navigate (read_request default_constraints) two_node_snapshot) = Some c
     \<and> nc_node_id c = ''me'' \<and> eligible default_constraints c"
proof -
  obtain c where c: "nr_selected (navigate (read_request default_constraints) two_node_snapshot) = Some c"
    and me: "nc_node_id c = ''me''"
    using two_node_local by auto
  have "eligible (nq_constraints (read_request default_constraints)) c"
    using navigation_selects_best [of two_node_snapshot "read_request default_constraints"] c
    unfolding Let_def by blast
  with c me show ?thesis by (simp add: read_request_def)
qed

text \<open>
  A selected target is a provider of the snapshot that offers the requested capability, on
  a node that is KNOWN or AVAILABLE; the provider and the capability are not UNAVAILABLE. It
  is on the local node when the request is local only or does not allow remote targets, has
  the required node state and provider status, and is on the preferred node whenever an
  eligible candidate is.
\<close>

theorem navigation_respects_constraints:
  assumes sel: "nr_selected (navigate q snap) = Some c"
  shows "nc_capability_id c = nq_capability q
    \<and> (\<exists>n \<in> set (dvals (snap_nodes snap)). \<exists>p \<in> set (dvals (dn_providers n)).
         dn_node_id n = nc_node_id c \<and> dn_is_local n = nc_is_local c \<and> dn_state n = nc_node_state c
         \<and> dp_provider_id p = nc_provider_id c \<and> dp_status p = nc_provider_status c
         \<and> nq_capability q \<in> set (dp_capability_ids p))
    \<and> nc_node_state c \<in> {NODE_KNOWN, NODE_AVAILABLE} \<and> nc_provider_status c \<noteq> UNAVAILABLE
    \<and> nc_capability_availability c \<noteq> UNAVAILABLE
    \<and> (nk_local_only (nq_constraints q) \<or> \<not> nk_remote_allowed (nq_constraints q) \<longrightarrow> nc_is_local c)
    \<and> (\<forall>st. nk_required_node_state (nq_constraints q) = Some st \<longrightarrow> nc_node_state c = st)
    \<and> (\<forall>st. nk_required_provider_status (nq_constraints q) = Some st \<longrightarrow> nc_provider_status c = st)
    \<and> (\<forall>d \<in> set (discover_candidates snap (nq_capability q)).
         eligible (nq_constraints q) d \<and> nk_preferred_node (nq_constraints q) = Some (nc_node_id d)
         \<longrightarrow> nc_node_id c = nc_node_id d)"
proof -
  let ?k = "nq_constraints q"
  have el: "eligible ?k c" by (rule hybrid.nav_eligible [OF sel])
  have best: "ranking_key ?k c \<le> ranking_key ?k d"
    if "d \<in> set (discover_candidates snap (nq_capability q))" "eligible ?k d" for d
    using evaluate_selected sel that unfolding navigate_def by blast
  have pref: "nc_node_id c = nc_node_id d"
    if "d \<in> set (discover_candidates snap (nq_capability q))"
      "eligible ?k d \<and> nk_preferred_node ?k = Some (nc_node_id d)" for d
    using best [OF that(1)] that(2) by (auto simp: ranking_key_def split: if_splits)
  show ?thesis
    using hybrid.target_capability [OF sel] hybrid.target_provider [OF sel]
      hybrid.usable_target [OF sel] hybrid.local_target [OF sel] el pref
    by (auto simp: eligible_def)
qed

theorem navigation_respects_constraints_witness:
  "\<exists>c. nr_selected (navigate (read_request (default_constraints\<lparr>nk_local_only := True\<rparr>))
        two_node_snapshot) = Some c \<and> nc_is_local c \<and> nc_capability_id c = ''file.read''"
proof -
  let ?q = "read_request (default_constraints\<lparr>nk_local_only := True\<rparr>)"
  have "nr_selected (navigate ?q two_node_snapshot) \<noteq> None" by code_simp
  then obtain c where sel: "nr_selected (navigate ?q two_node_snapshot) = Some c" by auto
  have "nk_local_only (nq_constraints ?q)" "nq_capability ?q = ''file.read''"
    by (simp_all add: read_request_def)
  with sel navigation_respects_constraints [OF sel] show ?thesis by metis
qed

end
