(* ===== verification/Shyam_Lifecycle.thy ===== *)
theory Shyam_Lifecycle
  imports Shyam_Prelude
begin

section \<open>Lifecycles: transition maps and the runtime state\<close>

text \<open>
  The runtime, a workflow, a workflow step, a bootstrap session and a continuity session
  each have a lifecycle given by a map from a state to its allowed successors. The locale
  \<open>lifecycle_map\<close> states what such a map promises and proves once that a lifecycle never
  revisits a state, ends within a bounded number of transitions and can always reach a
  terminal state; each component interprets it on its own map. The rest of the theory is
  \<open>core/lifecycle.py\<close> and \<open>core/state.py\<close>.
\<close>

subsection \<open>The contract of a transition map\<close>

fun path :: "('s \<Rightarrow> 's set) \<Rightarrow> 's \<Rightarrow> 's list \<Rightarrow> bool" where
  "path al s [] \<longleftrightarrow> True"
| "path al s (t # ts) \<longleftrightarrow> t \<in> al s \<and> path al t ts"

lemma path_append: "path al s (ts @ us) \<longleftrightarrow> path al s ts \<and> path al (last (s # ts)) us"
  by (induction ts arbitrary: s) auto

locale lifecycle_map =
  fixes allowed :: "'s \<Rightarrow> 's set"
    and terminal :: "'s \<Rightarrow> bool"
    and rank :: "'s \<Rightarrow> nat"
    and bound :: nat
  assumes rank_mono: "t \<in> allowed s \<Longrightarrow> rank s < rank t"
    and rank_bound: "rank s \<le> bound"
    and terminal_iff: "terminal s \<longleftrightarrow> allowed s = {}"
begin

lemma path_ranks: "path allowed s ts \<Longrightarrow> sorted_wrt (<) (map rank (s # ts))"
proof (induction ts arbitrary: s)
  case Nil
  then show ?case by simp
next
  case (Cons t ts)
  then have lt: "rank s < rank t" and IH: "sorted_wrt (<) (map rank (t # ts))"
    by (auto intro: rank_mono)
  then show ?case by force
qed

lemma path_no_revisit:
  assumes "path allowed s ts"
  shows "distinct (s # ts)"
proof -
  from path_ranks [OF assms] have "distinct (map rank (s # ts))"
    by (simp only: strict_sorted_iff)
  then show ?thesis by (simp only: distinct_map)
qed

lemma path_rank_length: "path allowed s ts \<Longrightarrow> rank s + length ts \<le> rank (last (s # ts))"
proof (induction ts arbitrary: s)
  case Nil
  then show ?case by simp
next
  case (Cons t ts)
  then have "rank s < rank t" and "rank t + length ts \<le> rank (last (t # ts))"
    by (auto intro: rank_mono)
  then show ?case by simp
qed

lemma path_length: "path allowed s ts \<Longrightarrow> length ts \<le> bound"
  using path_rank_length [of s ts] rank_bound [of "last (s # ts)"] by simp

lemma terminal_stuck: "terminal s \<Longrightarrow> path allowed s ts \<Longrightarrow> ts = []"
  by (cases ts) (auto simp: terminal_iff)

lemma no_self_loop: "s \<notin> allowed s"
  using rank_mono by blast

lemma reaches_terminal: "\<exists>ts. path allowed s ts \<and> terminal (last (s # ts))"
proof (induction "bound - rank s" arbitrary: s rule: less_induct)
  case less
  show ?case
  proof (cases "terminal s")
    case True
    then show ?thesis by (intro exI [of _ "[]"]) simp
  next
    case False
    then obtain t where t: "t \<in> allowed s" by (auto simp: terminal_iff)
    with rank_mono rank_bound [of t] have "bound - rank t < bound - rank s"
      by (meson diff_less_mono2 less_le_trans)
    with less obtain ts where "path allowed t ts" "terminal (last (t # ts))" by blast
    with t show ?thesis by (intro exI [of _ "t # ts"]) simp
  qed
qed

end

subsection \<open>core/lifecycle.py\<close>

datatype lifecycle_state = CREATED | INITIALIZING | RUNNING | STOPPING | STOPPED | ERROR

fun lifecycle_value :: "lifecycle_state \<Rightarrow> string" where
  "lifecycle_value CREATED = ''CREATED''"
| "lifecycle_value INITIALIZING = ''INITIALIZING''"
| "lifecycle_value RUNNING = ''RUNNING''"
| "lifecycle_value STOPPING = ''STOPPING''"
| "lifecycle_value STOPPED = ''STOPPED''"
| "lifecycle_value ERROR = ''ERROR''"

fun VALID_TRANSITIONS :: "lifecycle_state \<Rightarrow> lifecycle_state set" where
  "VALID_TRANSITIONS CREATED = {INITIALIZING, ERROR}"
| "VALID_TRANSITIONS INITIALIZING = {RUNNING, ERROR, STOPPING}"
| "VALID_TRANSITIONS RUNNING = {STOPPING, ERROR}"
| "VALID_TRANSITIONS STOPPING = {STOPPED, ERROR}"
| "VALID_TRANSITIONS STOPPED = {}"
| "VALID_TRANSITIONS ERROR = {STOPPED}"

definition invalid_state_transition :: "lifecycle_state \<Rightarrow> lifecycle_state \<Rightarrow> exn" where
  "invalid_state_transition current target =
     Exn (Transition InvalidStateTransitionError)
       (''Illegal lifecycle state transition attempted: '' @ lifecycle_value current
        @ '' -> '' @ lifecycle_value target)"

definition validate_transition :: "lifecycle_state \<Rightarrow> lifecycle_state \<Rightarrow> unit result" where
  "validate_transition current target =
     (if target \<notin> VALID_TRANSITIONS current then Inl (invalid_state_transition current target)
      else Inr ())"

fun lifecycle_rank :: "lifecycle_state \<Rightarrow> nat" where
  "lifecycle_rank CREATED = 0"
| "lifecycle_rank INITIALIZING = 1"
| "lifecycle_rank RUNNING = 2"
| "lifecycle_rank STOPPING = 3"
| "lifecycle_rank ERROR = 4"
| "lifecycle_rank STOPPED = 5"

interpretation runtime_lc: lifecycle_map VALID_TRANSITIONS "\<lambda>s. s = STOPPED" lifecycle_rank 5
proof
  fix s t
  show "t \<in> VALID_TRANSITIONS s \<Longrightarrow> lifecycle_rank s < lifecycle_rank t"
    by (cases s) auto
  show "lifecycle_rank s \<le> 5" by (cases s) auto
  show "(s = STOPPED) = (VALID_TRANSITIONS s = {})" by (cases s) auto
qed

subsection \<open>core/state.py\<close>

record runtime_state =
  rs_runtime_id :: string
  rs_status :: lifecycle_state
  rs_created_at :: time
  rs_started_at :: "time option"
  rs_stopped_at :: "time option"
  rs_error_detail :: "string option"

definition new_runtime_state :: "string \<Rightarrow> time \<Rightarrow> runtime_state" where
  "new_runtime_state rid now =
     \<lparr>rs_runtime_id = rid, rs_status = CREATED, rs_created_at = now, rs_started_at = None,
      rs_stopped_at = None, rs_error_detail = None\<rparr>"

text \<open>\<open>transition_to\<close> of \<open>RuntimeState\<close>: \<open>now\<close> is what the clock reads.\<close>

definition transition_to ::
  "time \<Rightarrow> runtime_state \<Rightarrow> lifecycle_state \<Rightarrow> string option \<Rightarrow> runtime_state result" where
  "transition_to now st next_state error_detail =
     (case validate_transition (rs_status st) next_state of
        Inl e \<Rightarrow> Inl e
      | Inr _ \<Rightarrow>
          let st1 = st\<lparr>rs_status := next_state\<rparr> in
          Inr (if next_state = RUNNING then st1\<lparr>rs_started_at := Some now\<rparr>
               else if next_state = STOPPED then st1\<lparr>rs_stopped_at := Some now\<rparr>
               else if next_state = ERROR then st1\<lparr>rs_error_detail := error_detail\<rparr>
               else st1))"

text \<open>A run of transitions, each with its clock reading and error detail.\<close>

fun run_transitions ::
  "runtime_state \<Rightarrow> (time \<times> lifecycle_state \<times> string option) list \<Rightarrow> runtime_state result" where
  "run_transitions st [] = Inr st"
| "run_transitions st ((now, s, err) # ts) =
     (case transition_to now st s err of Inl e \<Rightarrow> Inl e | Inr st' \<Rightarrow> run_transitions st' ts)"

lemma transition_to_ok:
  "transition_to now st s err = Inr st' \<Longrightarrow> s \<in> VALID_TRANSITIONS (rs_status st) \<and> rs_status st' = s"
  by (auto simp: transition_to_def validate_transition_def Let_def split: if_splits)

lemma transition_to_iff:
  "(\<exists>st'. transition_to now st s err = Inr st') \<longleftrightarrow> s \<in> VALID_TRANSITIONS (rs_status st)"
  by (auto simp: transition_to_def validate_transition_def Let_def)

lemma run_transitions_path:
  "run_transitions st ts = Inr st' \<Longrightarrow>
     path VALID_TRANSITIONS (rs_status st) (map (fst \<circ> snd) ts)
     \<and> rs_status st' = last (rs_status st # map (fst \<circ> snd) ts)"
proof (induction st ts rule: run_transitions.induct)
  case (1 st)
  then show ?case by simp
next
  case (2 st now s err ts)
  then obtain st1 where st1: "transition_to now st s err = Inr st1"
    and rest: "run_transitions st1 ts = Inr st'"
    by (auto split: sum.splits)
  with 2 transition_to_ok [OF st1] show ?case by auto
qed

text \<open>
  The fields agree with the lifecycle: a start time exactly when the runtime has reached
  RUNNING, a stop time exactly in STOPPED, an error detail only after ERROR.
\<close>

definition runtime_state_ok :: "runtime_state \<Rightarrow> bool" where
  "runtime_state_ok st \<longleftrightarrow>
     (rs_status st = RUNNING \<longrightarrow> rs_started_at st \<noteq> None)
   \<and> (rs_status st \<in> {CREATED, INITIALIZING} \<longrightarrow> rs_started_at st = None)
   \<and> (rs_stopped_at st \<noteq> None \<longleftrightarrow> rs_status st = STOPPED)
   \<and> (rs_error_detail st \<noteq> None \<longrightarrow> rs_status st \<in> {ERROR, STOPPED})"

lemma new_runtime_state_ok: "runtime_state_ok (new_runtime_state rid now)"
  by (simp add: runtime_state_ok_def new_runtime_state_def)

lemma transition_to_keeps_ok:
  assumes "runtime_state_ok st" and "transition_to now st s err = Inr st'"
  shows "runtime_state_ok st'"
  using assms transition_to_ok [OF assms(2)]
  by (cases "rs_status st"; cases s)
    (auto simp: runtime_state_ok_def transition_to_def validate_transition_def)

lemma run_transitions_keeps_ok:
  "runtime_state_ok st \<Longrightarrow> run_transitions st ts = Inr st' \<Longrightarrow> runtime_state_ok st'"
proof (induction st ts rule: run_transitions.induct)
  case (1 st)
  then show ?case by simp
next
  case (2 st now s err ts)
  then show ?case by (auto split: sum.splits dest: transition_to_keeps_ok)
qed

text \<open>
  C17. From a new runtime state, every sequence of transitions that \<open>RuntimeState\<close> accepts
  visits no state twice, has at most five transitions, and leaves a state whose time stamps
  and error detail agree with its status; after STOPPED no transition is accepted.
\<close>

theorem runtime_lifecycle:
  assumes "run_transitions (new_runtime_state rid t0) ts = Inr st"
  shows "distinct (CREATED # map (fst \<circ> snd) ts) \<and> length ts \<le> 5 \<and> runtime_state_ok st
    \<and> (rs_status st = STOPPED \<longrightarrow> (\<forall>now s err. \<exists>e. transition_to now st s err = Inl e))"
proof -
  have path: "path VALID_TRANSITIONS CREATED (map (fst \<circ> snd) ts)"
    using run_transitions_path [OF assms] by (simp add: new_runtime_state_def)
  have stuck: "\<exists>e. transition_to now st s err = Inl e" if "rs_status st = STOPPED" for now s err
    using that transition_to_iff [of now st s err]
    by (cases "transition_to now st s err") auto
  show ?thesis
    using runtime_lc.path_no_revisit [OF path] runtime_lc.path_length [OF path]
      run_transitions_keeps_ok [OF new_runtime_state_ok assms] stuck by simp
qed

theorem runtime_lifecycle_witness:
  "\<exists>st. run_transitions (new_runtime_state ''r'' 1)
          [(2, INITIALIZING, None), (3, RUNNING, None), (4, STOPPING, None), (5, STOPPED, None)]
        = Inr st \<and> rs_status st = STOPPED \<and> runtime_state_ok st
        \<and> (\<exists>e. transition_to 6 st RUNNING None = Inl e)"
proof -
  let ?ts = "[(2, INITIALIZING, None), (3, RUNNING, None), (4, STOPPING, None), (5, STOPPED, None)]"
  obtain st where run: "run_transitions (new_runtime_state ''r'' 1) ?ts = Inr st"
    and stopped: "rs_status st = STOPPED"
    by (simp add: transition_to_def validate_transition_def new_runtime_state_def)
  show ?thesis
    using run stopped runtime_lifecycle [OF run] by blast
qed

end
