(* ===== verification/Shyam_Workflow.thy ===== *)
theory Shyam_Workflow
  imports Shyam_Navigation Shyam_Lifecycle
begin

section \<open>Workflows: lifecycle, models, executor registry and engine\<close>

text \<open>
  \<open>workflow/state.py\<close>, \<open>workflow/models.py\<close>, \<open>workflow/executor.py\<close>, \<open>workflow/errors.py\<close>,
  \<open>workflow/events.py\<close> and \<open>workflow/engine.py\<close>. The engine runs in a world of type \<open>'w\<close>:
  the navigator, an executor and a handler of a published event may change it, and the
  cancellation token and the clock are read from it, so a handler or an executor can cancel the
  run in progress. The events of a run are kept in a log beside the world.
\<close>

subsection \<open>workflow/state.py\<close>

datatype workflow_state = WF_PENDING | WF_RUNNING | WF_COMPLETED | WF_FAILED | WF_CANCELLED

datatype step_state =
  STEP_PENDING | STEP_RUNNING | STEP_COMPLETED | STEP_FAILED | STEP_SKIPPED | STEP_CANCELLED

fun workflow_state_value :: "workflow_state \<Rightarrow> string" where
  "workflow_state_value WF_PENDING = ''PENDING''"
| "workflow_state_value WF_RUNNING = ''RUNNING''"
| "workflow_state_value WF_COMPLETED = ''COMPLETED''"
| "workflow_state_value WF_FAILED = ''FAILED''"
| "workflow_state_value WF_CANCELLED = ''CANCELLED''"

fun step_state_value :: "step_state \<Rightarrow> string" where
  "step_state_value STEP_PENDING = ''PENDING''"
| "step_state_value STEP_RUNNING = ''RUNNING''"
| "step_state_value STEP_COMPLETED = ''COMPLETED''"
| "step_state_value STEP_FAILED = ''FAILED''"
| "step_state_value STEP_SKIPPED = ''SKIPPED''"
| "step_state_value STEP_CANCELLED = ''CANCELLED''"

fun VALID_WORKFLOW_TRANSITIONS :: "workflow_state \<Rightarrow> workflow_state set" where
  "VALID_WORKFLOW_TRANSITIONS WF_PENDING = {WF_RUNNING, WF_CANCELLED}"
| "VALID_WORKFLOW_TRANSITIONS WF_RUNNING = {WF_COMPLETED, WF_FAILED, WF_CANCELLED}"
| "VALID_WORKFLOW_TRANSITIONS WF_COMPLETED = {}"
| "VALID_WORKFLOW_TRANSITIONS WF_FAILED = {}"
| "VALID_WORKFLOW_TRANSITIONS WF_CANCELLED = {}"

fun VALID_STEP_TRANSITIONS :: "step_state \<Rightarrow> step_state set" where
  "VALID_STEP_TRANSITIONS STEP_PENDING = {STEP_RUNNING, STEP_SKIPPED, STEP_CANCELLED}"
| "VALID_STEP_TRANSITIONS STEP_RUNNING = {STEP_COMPLETED, STEP_FAILED, STEP_CANCELLED}"
| "VALID_STEP_TRANSITIONS STEP_COMPLETED = {}"
| "VALID_STEP_TRANSITIONS STEP_FAILED = {}"
| "VALID_STEP_TRANSITIONS STEP_SKIPPED = {}"
| "VALID_STEP_TRANSITIONS STEP_CANCELLED = {}"

definition validate_workflow_transition :: "workflow_state \<Rightarrow> workflow_state \<Rightarrow> unit result" where
  "validate_workflow_transition current target =
     (if target \<notin> VALID_WORKFLOW_TRANSITIONS current
      then Inl (Exn (Transition InvalidWorkflowStateTransitionError)
             (''Illegal workflow state transition attempted: '' @ workflow_state_value current
              @ '' -> '' @ workflow_state_value target))
      else Inr ())"

definition validate_step_transition :: "step_state \<Rightarrow> step_state \<Rightarrow> unit result" where
  "validate_step_transition current target =
     (if target \<notin> VALID_STEP_TRANSITIONS current
      then Inl (Exn (Transition InvalidStepStateTransitionError)
             (''Illegal step state transition attempted: '' @ step_state_value current
              @ '' -> '' @ step_state_value target))
      else Inr ())"

definition workflow_terminal :: "workflow_state \<Rightarrow> bool" where
  "workflow_terminal s \<longleftrightarrow> s \<in> {WF_COMPLETED, WF_FAILED, WF_CANCELLED}"

definition step_terminal :: "step_state \<Rightarrow> bool" where
  "step_terminal s \<longleftrightarrow> s \<in> {STEP_COMPLETED, STEP_FAILED, STEP_SKIPPED, STEP_CANCELLED}"

definition workflow_rank :: "workflow_state \<Rightarrow> nat" where
  "workflow_rank s = (case s of WF_PENDING \<Rightarrow> 0 | WF_RUNNING \<Rightarrow> 1 | _ \<Rightarrow> 2)"

definition step_rank :: "step_state \<Rightarrow> nat" where
  "step_rank s = (case s of STEP_PENDING \<Rightarrow> 0 | STEP_RUNNING \<Rightarrow> 1 | _ \<Rightarrow> 2)"

interpretation workflow_lc: lifecycle_map VALID_WORKFLOW_TRANSITIONS workflow_terminal workflow_rank 2
proof
  fix s t
  show "t \<in> VALID_WORKFLOW_TRANSITIONS s \<Longrightarrow> workflow_rank s < workflow_rank t"
    by (cases s; cases t) (simp_all add: workflow_rank_def)
  show "workflow_rank s \<le> 2" by (cases s) (simp_all add: workflow_rank_def)
  show "workflow_terminal s = (VALID_WORKFLOW_TRANSITIONS s = {})"
    by (cases s) (simp_all add: workflow_terminal_def)
qed

interpretation step_lc: lifecycle_map VALID_STEP_TRANSITIONS step_terminal step_rank 2
proof
  fix s t
  show "t \<in> VALID_STEP_TRANSITIONS s \<Longrightarrow> step_rank s < step_rank t"
    by (cases s; cases t) (simp_all add: step_rank_def)
  show "step_rank s \<le> 2" by (cases s) (simp_all add: step_rank_def)
  show "step_terminal s = (VALID_STEP_TRANSITIONS s = {})"
    by (cases s) (simp_all add: step_terminal_def)
qed

subsection \<open>workflow/models.py\<close>

record wf_step =
  ws_step_id :: string
  ws_capability :: string
  ws_constraints :: nav_constraints
  ws_input_data :: "(string, pyval) dict"
  ws_description :: string

definition mk_wf_step ::
  "string \<Rightarrow> string \<Rightarrow> nav_constraints \<Rightarrow> (string, pyval) dict \<Rightarrow> string \<Rightarrow> wf_step result" where
  "mk_wf_step i cap k d desc =
     (if i = [] \<or> strip i = [] then Inl (value_error ''step_id must be a non-empty string'')
      else if cap = [] \<or> CHR ''.'' \<notin> set cap
      then Inl (value_error (''Workflow step capability must be namespaced (e.g. ''
             @ quoted ''file.read'' @ ''), got: '' @ quoted cap))
      else Inr \<lparr>ws_step_id = strip i, ws_capability = cap, ws_constraints = k,
                ws_input_data = d, ws_description = desc\<rparr>)"

record step_result =
  sr_step_id :: string
  sr_capability :: string
  sr_state :: step_state
  sr_target :: "nav_candidate option"
  sr_output :: "pyval option"
  sr_error :: "string option"
  sr_started_at :: "time option"
  sr_completed_at :: "time option"

definition sr_is_success :: "step_result \<Rightarrow> bool" where
  "sr_is_success r \<longleftrightarrow> sr_state r = STEP_COMPLETED"

record workflow =
  wf_workflow_id :: string
  wf_name :: string
  wf_description :: string
  wf_steps :: "wf_step list"
  wf_metadata :: "(string, pyval) dict"

text \<open>The loop of \<open>validate_unique_steps\<close>: the first id seen before is reported.\<close>

fun first_duplicate :: "string list \<Rightarrow> string set \<Rightarrow> string option" where
  "first_duplicate [] seen = None"
| "first_duplicate (i # is) seen =
     (if i \<in> seen then Some i else first_duplicate is (insert i seen))"

definition mk_workflow ::
  "string \<Rightarrow> string \<Rightarrow> string \<Rightarrow> wf_step list \<Rightarrow> (string, pyval) dict \<Rightarrow> workflow result" where
  "mk_workflow i name desc steps meta =
     (if name = [] \<or> strip name = [] then Inl (value_error ''Workflow name cannot be empty'')
      else case first_duplicate (map ws_step_id steps) {} of
             Some d \<Rightarrow> Inl (value_error (''Duplicate step_id found in workflow: '' @ quoted d))
           | None \<Rightarrow> Inr \<lparr>wf_workflow_id = i, wf_name = strip name, wf_description = desc,
                          wf_steps = steps, wf_metadata = meta\<rparr>)"

record wf_result =
  wr_workflow_id :: string
  wr_name :: string
  wr_state :: workflow_state
  wr_step_results :: "step_result list"
  wr_error_detail :: "string option"
  wr_started_at :: "time option"
  wr_completed_at :: "time option"

definition wr_is_success :: "wf_result \<Rightarrow> bool" where
  "wr_is_success r \<longleftrightarrow> wr_state r = WF_COMPLETED"

definition count_steps :: "step_state \<Rightarrow> wf_result \<Rightarrow> nat" where
  "count_steps st r = length (filter (\<lambda>s. sr_state s = st) (wr_step_results r))"

definition step_ok :: "wf_step \<Rightarrow> bool" where
  "step_ok s \<longleftrightarrow> strip (ws_step_id s) = ws_step_id s \<and> ws_step_id s \<noteq> []
     \<and> CHR ''.'' \<in> set (ws_capability s)"

definition workflow_ok :: "workflow \<Rightarrow> bool" where
  "workflow_ok w \<longleftrightarrow> strip (wf_name w) = wf_name w \<and> wf_name w \<noteq> []
     \<and> distinct (map ws_step_id (wf_steps w)) \<and> list_all step_ok (wf_steps w)"

lemma mk_wf_step_ok: "mk_wf_step i cap k d desc = Inr s \<Longrightarrow> step_ok s"
  by (auto simp: mk_wf_step_def step_ok_def split: if_splits)

lemma first_duplicate_None: "first_duplicate is seen = None \<longleftrightarrow> distinct is \<and> set is \<inter> seen = {}"
  by (induction "is" arbitrary: seen) auto

lemma mk_workflow_ok:
  "mk_workflow i name desc steps meta = Inr w \<Longrightarrow> list_all step_ok steps \<Longrightarrow> workflow_ok w"
  by (auto simp: mk_workflow_def workflow_ok_def first_duplicate_None split: if_splits option.splits)

subsection \<open>workflow/errors.py and workflow/executor.py\<close>

definition step_execution_error :: "string \<Rightarrow> string \<Rightarrow> string \<Rightarrow> exn" where
  "step_execution_error i cap why = Exn (Workflow_Exn StepExecutionError)
     (''Step '' @ quoted i @ '' ('' @ cap @ '') execution failed: '' @ why)"

definition executor_not_found :: "string \<Rightarrow> exn" where
  "executor_not_found pid = Exn (Workflow_Exn ExecutorNotFoundError)
     (''No CapabilityExecutor registered for provider '' @ quoted pid @ ''.'')"

type_synonym 'w executor =
  "nav_candidate \<Rightarrow> (string, pyval) dict \<Rightarrow> 'w \<Rightarrow> pyval result \<times> 'w"

type_synonym 'w executor_registry = "(string, 'w executor) dict"

definition ex_register :: "'w executor_registry \<Rightarrow> string \<Rightarrow> 'w executor \<Rightarrow> 'w executor_registry" where
  "ex_register r pid ex = dset pid ex r"

definition ex_unregister ::
  "'w executor_registry \<Rightarrow> string \<Rightarrow> 'w executor option \<times> 'w executor_registry" where
  "ex_unregister r pid = (dget r pid, ddel pid r)"

definition ex_get :: "'w executor_registry \<Rightarrow> string \<Rightarrow> 'w executor result" where
  "ex_get r pid = (case dget r pid of None \<Rightarrow> Inl (executor_not_found pid) | Some ex \<Rightarrow> Inr ex)"

definition ex_contains :: "'w executor_registry \<Rightarrow> string \<Rightarrow> bool" where
  "ex_contains r pid = dmem pid r"

subsection \<open>workflow/events.py\<close>

text \<open>Each event carries the id and the name of its workflow first.\<close>

datatype workflow_event =
    WorkflowStartedEvent string string nat
  | WorkflowCompletedEvent string string nat
  | WorkflowFailedEvent string string string string
  | WorkflowCancelledEvent string string string
  | WorkflowStepStartedEvent string string string string "nav_candidate option"
  | WorkflowStepCompletedEvent string string string string nav_candidate pyval
  | WorkflowStepFailedEvent string string string string string
  | WorkflowStepSkippedEvent string string string string string

subsection \<open>workflow/engine.py\<close>

record cancel_token =
  ct_cancelled :: bool
  ct_reason :: string

definition new_token :: cancel_token where
  "new_token = \<lparr>ct_cancelled = False, ct_reason = []\<rparr>"

definition cancel :: "string \<Rightarrow> cancel_token \<Rightarrow> cancel_token" where
  "cancel reason t = t\<lparr>ct_cancelled := True, ct_reason := reason\<rparr>"

text \<open>
  The engine: its navigator, executors and bus; \<open>we_token\<close> reads the caller's token and
  \<open>we_now\<close> the clock from the world.
\<close>

record 'w engine =
  we_navigator :: "nav_request \<Rightarrow> 'w \<Rightarrow> nav_result result \<times> 'w"
  we_executors :: "'w executor_registry"
  we_bus :: bool
  we_deliver :: "workflow_event \<Rightarrow> 'w \<Rightarrow> 'w"
  we_token :: "'w \<Rightarrow> cancel_token"
  we_now :: "'w \<Rightarrow> time"

type_synonym 'w run_state = "'w \<times> workflow_event list"

definition wf_publish :: "'w engine \<Rightarrow> workflow_event \<Rightarrow> 'w run_state \<Rightarrow> 'w run_state" where
  "wf_publish eng e st = (case st of (w, log) \<Rightarrow>
     if we_bus eng then (we_deliver eng e w, log @ [e]) else (w, log))"

text \<open>
  A failed step: its end is read before the event is published when its executor raised
  (\<open>completed\<close>), and after it otherwise.
\<close>

definition failed_step ::
  "'w engine \<Rightarrow> string \<Rightarrow> string \<Rightarrow> wf_step \<Rightarrow> time \<Rightarrow> time option \<Rightarrow> nav_candidate option \<Rightarrow> string
     \<Rightarrow> 'w run_state \<Rightarrow> step_result result \<times> 'w run_state" where
  "failed_step eng wid wname step started completed target err st =
     (let st' = wf_publish eng
        (WorkflowStepFailedEvent wid wname (ws_step_id step) (ws_capability step) err) st in
      (Inr \<lparr>sr_step_id = ws_step_id step, sr_capability = ws_capability step, sr_state = STEP_FAILED,
            sr_target = target, sr_output = None, sr_error = Some err,
            sr_started_at = Some started, sr_completed_at =
              Some (case completed of Some t \<Rightarrow> t | None \<Rightarrow> we_now eng (fst st'))\<rparr>, st'))"

definition execute_step ::
  "'w engine \<Rightarrow> string \<Rightarrow> string \<Rightarrow> wf_step \<Rightarrow> 'w run_state \<Rightarrow> step_result result \<times> 'w run_state" where
  "execute_step eng wid wname step st0 =
     (let started = we_now eng (fst st0);
          sid = ws_step_id step; cap = ws_capability step;
          (w1, log) = wf_publish eng (WorkflowStepStartedEvent wid wname sid cap None) st0 in
      case mk_nav_request cap (ws_constraints step) of
        Inl e \<Rightarrow> (Inl e, (w1, log))
      | Inr q \<Rightarrow>
          (case we_navigator eng q w1 of
             (Inl e, w2) \<Rightarrow> failed_step eng wid wname step started None None
                              (''Navigator invocation error: '' @ exn_msg e) (w2, log)
           | (Inr nav, w2) \<Rightarrow>
               (case nr_selected nav of
                  None \<Rightarrow> failed_step eng wid wname step started None None
                    (''Navigation failed to resolve target: ''
                     @ str_or (nr_reason nav) ''No eligible candidate available'') (w2, log)
                | Some target \<Rightarrow>
                    (case ex_get (we_executors eng) (nc_provider_id target) of
                       Inl e \<Rightarrow> failed_step eng wid wname step started None (Some target)
                         (''No executor available for provider '' @ quoted (nc_provider_id target)) (w2, log)
                     | Inr ex \<Rightarrow>
                         (case ex target (ws_input_data step) w2 of
                            (Inl e, w3) \<Rightarrow>
                              failed_step eng wid wname step started (Some (we_now eng w3))
                                (Some target) (exn_msg e) (w3, log)
                          | (Inr out, w3) \<Rightarrow>
                              (Inr \<lparr>sr_step_id = sid, sr_capability = cap, sr_state = STEP_COMPLETED,
                                    sr_target = Some target, sr_output = Some out, sr_error = None,
                                    sr_started_at = Some started,
                                    sr_completed_at = Some (we_now eng w3)\<rparr>,
                               wf_publish eng
                                 (WorkflowStepCompletedEvent wid wname sid cap target out)
                                 (w3, log)))))))"

definition unexecuted :: "wf_step \<Rightarrow> step_state \<Rightarrow> string \<Rightarrow> step_result" where
  "unexecuted step state err =
     \<lparr>sr_step_id = ws_step_id step, sr_capability = ws_capability step, sr_state = state,
      sr_target = None, sr_output = None, sr_error = Some err, sr_started_at = None,
      sr_completed_at = None\<rparr>"

text \<open>The inner loop of a cancelled run; the reason is read again for every step.\<close>

fun cancel_remaining ::
  "'w engine \<Rightarrow> string \<Rightarrow> string \<Rightarrow> wf_step list \<Rightarrow> 'w run_state \<Rightarrow> step_result list \<times> 'w run_state" where
  "cancel_remaining eng wid wname [] st = ([], st)"
| "cancel_remaining eng wid wname (step # steps) st =
     (let reason = ct_reason (we_token eng (fst st));
          st' = wf_publish eng (WorkflowStepSkippedEvent wid wname (ws_step_id step)
                  (ws_capability step) (''Workflow cancelled: '' @ reason)) st;
          (rs, st'') = cancel_remaining eng wid wname steps st' in
      (unexecuted step STEP_CANCELLED reason # rs, st''))"

record loop_vars =
  lv_results :: "step_result list"
  lv_failed :: bool
  lv_error :: "string option"
  lv_cancelled :: bool

fun run_steps ::
  "'w engine \<Rightarrow> string \<Rightarrow> string \<Rightarrow> wf_step list \<Rightarrow> loop_vars \<Rightarrow> 'w run_state
     \<Rightarrow> loop_vars result \<times> 'w run_state" where
  "run_steps eng wid wname [] v st = (Inr v, st)"
| "run_steps eng wid wname (step # steps) v st =
     (let token = we_token eng (fst st) in
      if ct_cancelled token then
        let (rs, st') = cancel_remaining eng wid wname (step # steps) st in
        (Inr (v\<lparr>lv_results := lv_results v @ rs, lv_error := Some (ct_reason token),
               lv_cancelled := True\<rparr>), st')
      else if lv_failed v then
        run_steps eng wid wname steps
          (v\<lparr>lv_results := lv_results v
               @ [unexecuted step STEP_SKIPPED ''Skipped due to earlier step failure'']\<rparr>)
          (wf_publish eng (WorkflowStepSkippedEvent wid wname (ws_step_id step)
             (ws_capability step) ''Prior step failed'') st)
      else
        (case execute_step eng wid wname step st of
           (Inl e, st') \<Rightarrow> (Inl e, st')
         | (Inr r, st') \<Rightarrow>
             let v' = v\<lparr>lv_results := lv_results v @ [r]\<rparr> in
             if \<not> sr_is_success r then
               let err = str_or (case sr_error r of None \<Rightarrow> [] | Some m \<Rightarrow> m)
                           (''Step '' @ quoted (ws_step_id step) @ '' failed'') in
               run_steps eng wid wname steps (v'\<lparr>lv_failed := True, lv_error := Some err\<rparr>)
                 (wf_publish eng (WorkflowFailedEvent wid wname (ws_step_id step) err) st')
             else run_steps eng wid wname steps v' st'))"

definition wf_finish ::
  "workflow \<Rightarrow> time \<Rightarrow> workflow_state \<Rightarrow> step_result list \<Rightarrow> string option \<Rightarrow> time \<Rightarrow> wf_result" where
  "wf_finish wfl started state rs err completed =
     \<lparr>wr_workflow_id = wf_workflow_id wfl, wr_name = wf_name wfl, wr_state = state,
      wr_step_results = rs, wr_error_detail = err, wr_started_at = Some started,
      wr_completed_at = Some completed\<rparr>"

definition run_workflow ::
  "'w engine \<Rightarrow> workflow \<Rightarrow> 'w run_state \<Rightarrow> wf_result result \<times> 'w run_state" where
  "run_workflow eng wfl st =
     (let token = we_token eng (fst st); wid = wf_workflow_id wfl; wname = wf_name wfl;
          started = we_now eng (fst st);
          finish = wf_finish wfl started in
      if wf_steps wfl = [] then
        (Inr (finish WF_COMPLETED [] None (we_now eng (fst st))),
         wf_publish eng (WorkflowCompletedEvent wid wname 0)
           (wf_publish eng (WorkflowStartedEvent wid wname 0) st))
      else if ct_cancelled token then
        let st' = wf_publish eng (WorkflowCancelledEvent wid wname (ct_reason token)) st in
        (Inr (finish WF_CANCELLED
                (map (\<lambda>step. unexecuted step STEP_CANCELLED (ct_reason token)) (wf_steps wfl))
                (Some (ct_reason (we_token eng (fst st')))) (we_now eng (fst st'))), st')
      else
        (case validate_workflow_transition WF_PENDING WF_RUNNING of
           Inl e \<Rightarrow> (Inl e, st)
         | Inr _ \<Rightarrow>
             (case run_steps eng wid wname (wf_steps wfl)
                     \<lparr>lv_results = [], lv_failed = False, lv_error = None, lv_cancelled = False\<rparr>
                     (wf_publish eng (WorkflowStartedEvent wid wname (length (wf_steps wfl))) st) of
                (Inl e, st') \<Rightarrow> (Inl e, st')
              | (Inr v, st') \<Rightarrow>
                  let completed = we_now eng (fst st');
                      (final, st'') =
                        (if lv_cancelled v then
                           (WF_CANCELLED, wf_publish eng (WorkflowCancelledEvent wid wname
                                            (ct_reason (we_token eng (fst st')))) st')
                         else if lv_failed v then (WF_FAILED, st')
                         else (WF_COMPLETED, wf_publish eng
                                 (WorkflowCompletedEvent wid wname (length (wf_steps wfl))) st')) in
                  (Inr (finish final (lv_results v) (lv_error v) completed), st''))))"

subsection \<open>What a run does\<close>

text \<open>
  The specification. \<open>run_shape\<close> is the form of the step states of a run (\<open>failed\<close>: a step
  has failed before): completed steps, then at most one failure followed by skipped steps, then
  only cancelled ones. \<open>events_of\<close> are the events that belong to a result, so that the log of a
  run is a function of its results.
\<close>

fun run_shape :: "bool \<Rightarrow> step_state list \<Rightarrow> bool" where
  "run_shape failed [] \<longleftrightarrow> True"
| "run_shape failed (s # ss) \<longleftrightarrow>
     (if s = STEP_CANCELLED then list_all (\<lambda>x. x = STEP_CANCELLED) ss
      else if failed then s = STEP_SKIPPED \<and> run_shape True ss
      else if s = STEP_COMPLETED then run_shape False ss
      else s = STEP_FAILED \<and> run_shape True ss)"

definition failure_text :: "step_result \<Rightarrow> string" where
  "failure_text r = str_or (case sr_error r of None \<Rightarrow> [] | Some m \<Rightarrow> m)
     (''Step '' @ quoted (sr_step_id r) @ '' failed'')"

definition step_events :: "string \<Rightarrow> string \<Rightarrow> step_result \<Rightarrow> workflow_event list" where
  "step_events wid wname r =
     [WorkflowStepStartedEvent wid wname (sr_step_id r) (sr_capability r) None,
      if sr_state r = STEP_COMPLETED
      then WorkflowStepCompletedEvent wid wname (sr_step_id r) (sr_capability r)
             (the (sr_target r)) (the (sr_output r))
      else WorkflowStepFailedEvent wid wname (sr_step_id r) (sr_capability r) (the (sr_error r))]"

definition events_of :: "string \<Rightarrow> string \<Rightarrow> step_result \<Rightarrow> workflow_event list" where
  "events_of wid wname r =
     (case sr_state r of
        STEP_COMPLETED \<Rightarrow> step_events wid wname r
      | STEP_FAILED \<Rightarrow> step_events wid wname r
          @ [WorkflowFailedEvent wid wname (sr_step_id r) (failure_text r)]
      | STEP_SKIPPED \<Rightarrow>
          [WorkflowStepSkippedEvent wid wname (sr_step_id r) (sr_capability r) ''Prior step failed'']
      | STEP_CANCELLED \<Rightarrow>
          [WorkflowStepSkippedEvent wid wname (sr_step_id r) (sr_capability r)
             (''Workflow cancelled: '' @ the (sr_error r))]
      | _ \<Rightarrow> [])"

definition emitted :: "'w engine \<Rightarrow> workflow_event list \<Rightarrow> workflow_event list" where
  "emitted eng evs = (if we_bus eng then evs else [])"

lemma emitted_append [simp]: "emitted eng (xs @ ys) = emitted eng xs @ emitted eng ys"
  by (simp add: emitted_def)

lemma emitted_Nil [simp]: "emitted eng [] = []"
  by (simp add: emitted_def)

lemma publish_log [simp]: "snd (wf_publish eng e st) = snd st @ emitted eng [e]"
  by (simp add: wf_publish_def emitted_def split: prod.split)

lemma emitted_Cons: "emitted eng (e # e' # es) = emitted eng [e] @ emitted eng (e' # es)"
  by (simp add: emitted_def)

text \<open>An outcome of \<open>execute_step\<close>: a result for that step, and its two events.\<close>

definition step_outcome :: "'w engine \<Rightarrow> string \<Rightarrow> string \<Rightarrow> wf_step \<Rightarrow> workflow_event list
    \<Rightarrow> step_result result \<times> 'w run_state \<Rightarrow> bool" where
  "step_outcome eng wid wname step log out \<longleftrightarrow>
     (\<exists>r. fst out = Inr r \<and> sr_step_id r = ws_step_id step \<and> sr_capability r = ws_capability step
        \<and> snd (snd out) = log @ emitted eng (step_events wid wname r)
        \<and> (sr_state r = STEP_COMPLETED \<and> sr_target r \<noteq> None \<and> sr_output r \<noteq> None
           \<or> sr_state r = STEP_FAILED \<and> sr_output r = None \<and> sr_error r \<noteq> None))"

lemma failed_step_outcome:
  "snd st = log @ emitted eng
      [WorkflowStepStartedEvent wid wname (ws_step_id step) (ws_capability step) None] \<Longrightarrow>
   step_outcome eng wid wname step log (failed_step eng wid wname step started fin target err st)"
  by (simp add: failed_step_def step_outcome_def step_events_def Let_def emitted_Cons)

lemma nav_request_valid: "step_ok step \<Longrightarrow>
    mk_nav_request (ws_capability step) k = Inr \<lparr>nq_capability = ws_capability step, nq_constraints = k\<rparr>"
  by (auto simp: step_ok_def mk_nav_request_def)

lemma execute_step_outcome:
  assumes ok: "step_ok step"
  shows "step_outcome eng wid wname step (snd st) (execute_step eng wid wname step st)"
proof -
  let ?started = "WorkflowStepStartedEvent wid wname (ws_step_id step) (ws_capability step) None"
  obtain w1 log where p: "wf_publish eng ?started st = (w1, log)" by force
  have log: "log = snd st @ emitted eng [?started]" using publish_log [of eng ?started st] p by simp
  have fail: "step_outcome eng wid wname step (snd st)
      (failed_step eng wid wname step started fin target err (w, log))" for started fin target err w
    by (rule failed_step_outcome) (simp add: log)
  show ?thesis
    using fail
    by (auto simp: execute_step_def Let_def p nav_request_valid [OF ok] split: prod.split sum.split option.split)
      (auto simp: step_outcome_def step_events_def log emitted_Cons)
qed

lemma cancel_remaining_spec:
  "cancel_remaining eng wid wname steps st = (rs, st') \<Longrightarrow>
     map sr_step_id rs = map ws_step_id steps \<and> map sr_capability rs = map ws_capability steps
     \<and> list_all (\<lambda>x. x = STEP_CANCELLED) (map sr_state rs)
     \<and> snd st' = snd st @ emitted eng (concat (map (events_of wid wname) rs))"
proof (induction steps arbitrary: st rs)
  case Nil
  then show ?case by simp
next
  case (Cons step steps)
  let ?reason = "ct_reason (we_token eng (fst st))"
  let ?st = "wf_publish eng (WorkflowStepSkippedEvent wid wname (ws_step_id step)
                  (ws_capability step) (''Workflow cancelled: '' @ ?reason)) st"
  obtain rs1 st1 where rest: "cancel_remaining eng wid wname steps ?st = (rs1, st1)"
    by (meson surj_pair)
  with Cons.prems have rs: "rs = unexecuted step STEP_CANCELLED ?reason # rs1" and st': "st' = st1"
    by (simp_all add: Let_def)
  show ?case
    using Cons.IH [OF rest [folded st']]
    by (simp add: rs unexecuted_def events_of_def emitted_def)
qed

definition steps_outcome :: "'w engine \<Rightarrow> string \<Rightarrow> string \<Rightarrow> wf_step list \<Rightarrow> loop_vars
    \<Rightarrow> workflow_event list \<Rightarrow> loop_vars result \<times> 'w run_state \<Rightarrow> bool" where
  "steps_outcome eng wid wname steps v log out \<longleftrightarrow>
     (\<exists>rs v'. fst out = Inr v' \<and> lv_results v' = lv_results v @ rs
        \<and> map sr_step_id rs = map ws_step_id steps \<and> map sr_capability rs = map ws_capability steps
        \<and> run_shape (lv_failed v) (map sr_state rs)
        \<and> snd (snd out) = log @ emitted eng (concat (map (events_of wid wname) rs))
        \<and> (lv_cancelled v' \<longleftrightarrow> lv_cancelled v \<or> STEP_CANCELLED \<in> sr_state ` set rs)
        \<and> (lv_failed v' \<longleftrightarrow> lv_failed v \<or> STEP_FAILED \<in> sr_state ` set rs))"

text \<open>One more result in front of an outcome.\<close>

lemma steps_outcome_Cons:
  assumes "steps_outcome eng wid wname steps v' log' out"
    and "lv_results v' = lv_results v @ [r]" "lv_cancelled v' = lv_cancelled v"
    and "lv_failed v' \<longleftrightarrow> lv_failed v \<or> sr_state r = STEP_FAILED"
    and "sr_step_id r = ws_step_id step" "sr_capability r = ws_capability step"
    and "log' = log @ emitted eng (events_of wid wname r)"
    and "sr_state r = (if lv_failed v then STEP_SKIPPED else STEP_COMPLETED)
      \<or> (\<not> lv_failed v \<and> sr_state r = STEP_FAILED)"
  shows "steps_outcome eng wid wname (step # steps) v log out"
proof -
  from assms(1) obtain rs v'' where
    rs: "fst out = Inr v''" "lv_results v'' = lv_results v' @ rs"
      "map sr_step_id rs = map ws_step_id steps" "map sr_capability rs = map ws_capability steps"
      "run_shape (lv_failed v') (map sr_state rs)"
      "snd (snd out) = log' @ emitted eng (concat (map (events_of wid wname) rs))"
      "lv_cancelled v'' \<longleftrightarrow> lv_cancelled v' \<or> STEP_CANCELLED \<in> sr_state ` set rs"
      "lv_failed v'' \<longleftrightarrow> lv_failed v' \<or> STEP_FAILED \<in> sr_state ` set rs"
    unfolding steps_outcome_def by blast
  have "run_shape (lv_failed v) (map sr_state (r # rs))"
    using rs(5) assms(4,8) by auto
  moreover have "lv_cancelled v'' \<longleftrightarrow> lv_cancelled v \<or> STEP_CANCELLED \<in> sr_state ` set (r # rs)"
    using rs(7) assms(3,8) by (auto split: if_splits)
  ultimately show ?thesis
    unfolding steps_outcome_def
    using rs assms by (intro exI [of _ "r # rs"] exI [of _ v'']) auto
qed

lemma steps_outcome_cancelled:
  assumes cancelled: "ct_cancelled (we_token eng (fst st))"
  shows "steps_outcome eng wid wname (step # steps) v (snd st) (run_steps eng wid wname (step # steps) v st)"
proof -
  obtain rs st' where rem: "cancel_remaining eng wid wname (step # steps) st = (rs, st')"
    by (meson surj_pair)
  note c = cancel_remaining_spec [OF rem]
  then have "rs \<noteq> []" by auto
  with c have "run_shape f (map sr_state rs)" "STEP_CANCELLED \<in> sr_state ` set rs"
    "STEP_FAILED \<notin> sr_state ` set rs" for f
    by (cases rs; auto simp: list_all_iff)+
  with c cancelled rem show ?thesis
    unfolding steps_outcome_def by (intro exI [of _ rs]) (simp del: cancel_remaining.simps)
qed

lemma run_steps_outcome:
  "list_all step_ok steps \<Longrightarrow>
     steps_outcome eng wid wname steps v (snd st) (run_steps eng wid wname steps v st)"
proof (induction steps arbitrary: v st)
  case Nil
  then show ?case by (auto simp: steps_outcome_def)
next
  case (Cons step steps)
  then have ok: "step_ok step" and oks: "list_all step_ok steps" by simp_all
  let ?token = "we_token eng (fst st)"
  consider (cancelled) "ct_cancelled ?token" | (failed) "\<not> ct_cancelled ?token" "lv_failed v"
    | (live) "\<not> ct_cancelled ?token" "\<not> lv_failed v" by blast
  then show ?case
  proof cases
    case cancelled
    then show ?thesis by (rule steps_outcome_cancelled)
  next
    case failed
    let ?r = "unexecuted step STEP_SKIPPED ''Skipped due to earlier step failure''"
    let ?v = "v\<lparr>lv_results := lv_results v @ [?r]\<rparr>"
    let ?st = "wf_publish eng (WorkflowStepSkippedEvent wid wname (ws_step_id step)
             (ws_capability step) ''Prior step failed'') st"
    from failed have run: "run_steps eng wid wname (step # steps) v st = run_steps eng wid wname steps ?v ?st"
      by simp
    show ?thesis
      unfolding run
      by (rule steps_outcome_Cons [OF Cons.IH [OF oks], where r = ?r])
        (simp_all add: failed unexecuted_def events_of_def)
  next
    case live
    obtain out st' where ex: "execute_step eng wid wname step st = (out, st')"
      by (meson surj_pair)
    from execute_step_outcome [OF ok, of eng wid wname st, unfolded ex step_outcome_def] obtain r where
      r: "out = Inr r" "sr_step_id r = ws_step_id step" "sr_capability r = ws_capability step"
        "snd st' = snd st @ emitted eng (step_events wid wname r)"
        "sr_state r = STEP_COMPLETED \<or> sr_state r = STEP_FAILED"
      by auto
    let ?v = "v\<lparr>lv_results := lv_results v @ [r]\<rparr>"
    let ?err = "failure_text r"
    let ?st = "wf_publish eng (WorkflowFailedEvent wid wname (ws_step_id step) ?err) st'"
    have run: "run_steps eng wid wname (step # steps) v st =
        (if sr_state r = STEP_FAILED
         then run_steps eng wid wname steps (?v\<lparr>lv_failed := True, lv_error := Some ?err\<rparr>) ?st
         else run_steps eng wid wname steps ?v st')"
      using live r(1,2,5) by (auto simp: ex Let_def sr_is_success_def failure_text_def)
    show ?thesis
    proof (cases "sr_state r = STEP_FAILED")
      case True
      show ?thesis
        unfolding run if_P [OF True]
        by (rule steps_outcome_Cons [OF Cons.IH [OF oks], where r = r])
          (simp_all add: True r live events_of_def failure_text_def)
    next
      case False
      with r have c: "sr_state r = STEP_COMPLETED" by blast
      show ?thesis
        unfolding run if_not_P [OF False]
        by (rule steps_outcome_Cons [OF Cons.IH [OF oks], where r = r])
          (simp_all add: c r live events_of_def)
    qed
  qed
qed

text \<open>The log of a whole run, as a function of its result.\<close>

definition run_log :: "cancel_token \<Rightarrow> workflow \<Rightarrow> wf_result \<Rightarrow> workflow_event list \<Rightarrow> bool" where
  "run_log token w r evs \<longleftrightarrow>
     (if wf_steps w \<noteq> [] \<and> ct_cancelled token
      then evs = [WorkflowCancelledEvent (wf_workflow_id w) (wf_name w) (ct_reason token)]
      else \<exists>end. evs = WorkflowStartedEvent (wf_workflow_id w) (wf_name w) (length (wf_steps w))
               # concat (map (events_of (wf_workflow_id w) (wf_name w)) (wr_step_results r)) @ end
           \<and> (wr_state r = WF_COMPLETED \<longrightarrow>
                end = [WorkflowCompletedEvent (wf_workflow_id w) (wf_name w) (length (wf_steps w))])
           \<and> (wr_state r = WF_FAILED \<longrightarrow> end = [])
           \<and> (wr_state r = WF_CANCELLED \<longrightarrow>
                (\<exists>why. end = [WorkflowCancelledEvent (wf_workflow_id w) (wf_name w) why])))"

definition final_state :: "step_state list \<Rightarrow> workflow_state" where
  "final_state ss = (if STEP_CANCELLED \<in> set ss then WF_CANCELLED
     else if STEP_FAILED \<in> set ss then WF_FAILED else WF_COMPLETED)"

definition run_outcome :: "'w engine \<Rightarrow> workflow \<Rightarrow> 'w run_state \<Rightarrow> wf_result result \<times> 'w run_state \<Rightarrow> bool" where
  "run_outcome eng w st out \<longleftrightarrow>
     (\<exists>r evs. fst out = Inr r
        \<and> map sr_step_id (wr_step_results r) = map ws_step_id (wf_steps w)
        \<and> map sr_capability (wr_step_results r) = map ws_capability (wf_steps w)
        \<and> run_shape False (map sr_state (wr_step_results r))
        \<and> wr_state r = final_state (map sr_state (wr_step_results r))
        \<and> snd (snd out) = snd st @ emitted eng evs \<and> run_log (we_token eng (fst st)) w r evs)"

lemma wf_finish_sel [simp]:
  "wr_state (wf_finish w t state rs err t') = state"
  "wr_step_results (wf_finish w t state rs err t') = rs"
  by (simp_all add: wf_finish_def)

lemma run_outcomeI:
  assumes "out = (Inr r, st')"
    and "map sr_step_id (wr_step_results r) = map ws_step_id (wf_steps w)"
    and "map sr_capability (wr_step_results r) = map ws_capability (wf_steps w)"
    and "run_shape False (map sr_state (wr_step_results r))"
    and "wr_state r = final_state (map sr_state (wr_step_results r))"
    and "snd st' = snd st @ emitted eng evs" and "run_log (we_token eng (fst st)) w r evs"
  shows "run_outcome eng w st out"
  using assms unfolding run_outcome_def by auto

lemma run_workflow_empty:
  assumes empty: "wf_steps w = []"
  shows "run_outcome eng w st (run_workflow eng w st)"
proof -
  let ?wid = "wf_workflow_id w" and ?wname = "wf_name w"
  let ?r = "wf_finish w (we_now eng (fst st)) WF_COMPLETED [] None (we_now eng (fst st))"
  have run: "run_workflow eng w st = (Inr ?r, wf_publish eng (WorkflowCompletedEvent ?wid ?wname 0)
         (wf_publish eng (WorkflowStartedEvent ?wid ?wname 0) st))"
    by (simp add: run_workflow_def Let_def empty)
  show ?thesis
    by (rule run_outcomeI [OF run, where evs = "[WorkflowStartedEvent ?wid ?wname 0,
          WorkflowCompletedEvent ?wid ?wname 0]"])
      (simp_all add: empty run_log_def final_state_def emitted_Cons)
qed

lemma run_workflow_before:
  assumes before: "wf_steps w \<noteq> []" "ct_cancelled (we_token eng (fst st))"
  shows "run_outcome eng w st (run_workflow eng w st)"
proof -
  let ?token = "we_token eng (fst st)"
  let ?wid = "wf_workflow_id w" and ?wname = "wf_name w"
  let ?rs = "map (\<lambda>s. unexecuted s STEP_CANCELLED (ct_reason ?token)) (wf_steps w)"
  let ?e = "WorkflowCancelledEvent ?wid ?wname (ct_reason ?token)"
  let ?st = "wf_publish eng ?e st"
  let ?r = "wf_finish w (we_now eng (fst st)) WF_CANCELLED ?rs
    (Some (ct_reason (we_token eng (fst ?st)))) (we_now eng (fst ?st))"
  have run: "run_workflow eng w st = (Inr ?r, ?st)"
    by (simp add: run_workflow_def Let_def before)
  have shape: "run_shape False (map sr_state ?rs)" "final_state (map sr_state ?rs) = WF_CANCELLED"
    using before(1) by (cases "wf_steps w"; simp add: unexecuted_def list_all_iff final_state_def)+
  show ?thesis
    by (rule run_outcomeI [OF run, where evs = "[?e]"])
      (use shape before in \<open>simp_all add: run_log_def unexecuted_def comp_def\<close>)
qed

lemma run_workflow_live:
  assumes ok: "list_all step_ok (wf_steps w)" and live: "wf_steps w \<noteq> []" "\<not> ct_cancelled (we_token eng (fst st))"
  shows "run_outcome eng w st (run_workflow eng w st)"
proof -
  let ?wid = "wf_workflow_id w" and ?wname = "wf_name w"
  let ?v = "\<lparr>lv_results = [], lv_failed = False, lv_error = None, lv_cancelled = False\<rparr>"
  let ?started = "WorkflowStartedEvent ?wid ?wname (length (wf_steps w))"
  obtain out st' where run: "run_steps eng ?wid ?wname (wf_steps w) ?v (wf_publish eng ?started st) = (out, st')"
    by (meson surj_pair)
  from run_steps_outcome [OF ok, of eng ?wid ?wname ?v "wf_publish eng ?started st",
      unfolded run steps_outcome_def] obtain rs v' where
    out: "out = Inr v'" "lv_results v' = rs" and ids: "map sr_step_id rs = map ws_step_id (wf_steps w)"
      "map sr_capability rs = map ws_capability (wf_steps w)" "run_shape False (map sr_state rs)"
    and log: "snd st' = snd st @ emitted eng [?started] @ emitted eng (concat (map (events_of ?wid ?wname) rs))"
    and flags: "lv_cancelled v' \<longleftrightarrow> STEP_CANCELLED \<in> sr_state ` set rs"
      "lv_failed v' \<longleftrightarrow> STEP_FAILED \<in> sr_state ` set rs"
    by auto
  define fin where "fin = (if lv_cancelled v'
    then [WorkflowCancelledEvent ?wid ?wname (ct_reason (we_token eng (fst st')))]
    else if lv_failed v' then [] else [WorkflowCompletedEvent ?wid ?wname (length (wf_steps w))])"
  define final where "final = final_state (map sr_state rs)"
  obtain st'' where whole: "run_workflow eng w st = (Inr (wf_finish w (we_now eng (fst st)) final rs
        (lv_error v') (we_now eng (fst st'))), st'')"
    and log': "snd st'' = snd st' @ emitted eng fin"
    using live flags
    by (cases "lv_cancelled v'"; cases "lv_failed v'")
      (auto simp: run_workflow_def Let_def validate_workflow_transition_def run out final_def
        final_state_def fin_def)
  let ?evs = "?started # concat (map (events_of ?wid ?wname) rs) @ fin"
  have emit: "snd st'' = snd st @ emitted eng ?evs"
    by (simp add: log' log emitted_def)
  show ?thesis
    by (rule run_outcomeI [OF whole _ _ _ _ emit])
      (use ids live flags in \<open>simp_all add: final_def run_log_def final_state_def fin_def\<close>)
qed

lemma run_workflow_outcome:
  "list_all step_ok (wf_steps w) \<Longrightarrow> run_outcome eng w st (run_workflow eng w st)"
  using run_workflow_empty run_workflow_before run_workflow_live by blast

text \<open>
  C1. Running a well-formed workflow never raises, whatever the navigator, the executors and the
  event handlers do. The result has one step result for each step, in order; the states are
  completed steps, then at most one failure followed by skipped steps, then cancelled ones; and
  the workflow's state is CANCELLED when a step was cancelled, otherwise FAILED when one
  failed, otherwise COMPLETED. The events published are a function of these results, started
  by \<open>WorkflowStarted\<close> and ended by the event of the final state.
\<close>

theorem workflow_run_outcome:
  assumes "workflow_ok w"
  shows "\<exists>r w' evs. run_workflow eng w (world, log) = (Inr r, (w', log @ (if we_bus eng then evs else [])))
    \<and> map sr_step_id (wr_step_results r) = map ws_step_id (wf_steps w)
    \<and> run_shape False (map sr_state (wr_step_results r))
    \<and> wr_state r = (if STEP_CANCELLED \<in> set (map sr_state (wr_step_results r)) then WF_CANCELLED
                   else if STEP_FAILED \<in> set (map sr_state (wr_step_results r)) then WF_FAILED
                   else WF_COMPLETED)
    \<and> run_log (we_token eng world) w r evs"
proof -
  have "list_all step_ok (wf_steps w)" using assms by (simp add: workflow_ok_def)
  from run_workflow_outcome [OF this, of eng "(world, log)", unfolded run_outcome_def] obtain r evs where
    "fst (run_workflow eng w (world, log)) = Inr r"
    "map sr_step_id (wr_step_results r) = map ws_step_id (wf_steps w)"
    "run_shape False (map sr_state (wr_step_results r))"
    "wr_state r = final_state (map sr_state (wr_step_results r))"
    "snd (snd (run_workflow eng w (world, log))) = log @ emitted eng evs"
    "run_log (we_token eng world) w r evs" by auto
  then show ?thesis
    by (intro exI [of _ r] exI [of _ "fst (snd (run_workflow eng w (world, log)))"] exI [of _ evs])
      (auto simp: final_state_def emitted_def prod_eq_iff)
qed

text \<open>A world with nothing in it: the navigator answers, one executor echoes its input.\<close>

definition echo_engine :: "bool \<Rightarrow> unit engine" where
  "echo_engine cancelled =
     \<lparr>we_navigator = (\<lambda>q w. (Inr (navigate q two_node_snapshot), w)),
      we_executors = ex_register [] ''local.filesystem'' (\<lambda>c d w. (Inr (PDict d), w)),
      we_bus = True, we_deliver = (\<lambda>e w. w),
      we_token = (\<lambda>w. if cancelled then cancel ''stop'' new_token else new_token), we_now = (\<lambda>w. 0)\<rparr>"

definition two_steps :: workflow where
  "two_steps =
     \<lparr>wf_workflow_id = ''w1'', wf_name = ''two'', wf_description = [],
      wf_steps =
        [\<lparr>ws_step_id = ''a'', ws_capability = ''file.read'',
          ws_constraints = default_constraints\<lparr>nk_local_only := True\<rparr>, ws_input_data = [],
          ws_description = []\<rparr>,
         \<lparr>ws_step_id = ''b'', ws_capability = ''no.such'', ws_constraints = default_constraints,
          ws_input_data = [], ws_description = []\<rparr>],
      wf_metadata = []\<rparr>"

lemma two_steps_ok: "workflow_ok two_steps"
  by (simp add: two_steps_def workflow_ok_def step_ok_def str_eval)

lemma two_steps_run:
  "(case fst (run_workflow (echo_engine False) two_steps ((), [])) of
      Inr r \<Rightarrow> map sr_state (wr_step_results r) = [STEP_COMPLETED, STEP_FAILED] \<and> wr_state r = WF_FAILED
        \<and> map (map_option nc_node_id \<circ> sr_target) (wr_step_results r) = [Some ''me'', None]
    | Inl _ \<Rightarrow> False)"
  by code_simp

theorem workflow_run_outcome_witness:
  "\<exists>r w' evs. run_workflow (echo_engine False) two_steps ((), []) = (Inr r, (w', evs))
     \<and> map sr_step_id (wr_step_results r) = [''a'', ''b'']
     \<and> run_log new_token two_steps r evs"
proof -
  have eng: "we_bus (echo_engine False)" "we_token (echo_engine False) () = new_token"
    by (simp_all add: echo_engine_def)
  obtain r w' evs where
    run: "run_workflow (echo_engine False) two_steps ((), [])
       = (Inr r, (w', [] @ (if we_bus (echo_engine False) then evs else [])))"
    and ids: "map sr_step_id (wr_step_results r) = map ws_step_id (wf_steps two_steps)"
    and log: "run_log (we_token (echo_engine False) ()) two_steps r evs"
    using workflow_run_outcome [OF two_steps_ok, of "echo_engine False" "()" "[]"] by blast
  from ids have "map sr_step_id (wr_step_results r) = [''a'', ''b'']" by (simp add: two_steps_def)
  moreover have "run_workflow (echo_engine False) two_steps ((), []) = (Inr r, (w', evs))"
    using run eng(1) by simp
  moreover have "run_log new_token two_steps r evs" using log by (simp only: eng(2))
  ultimately show ?thesis by (intro exI conjI)
qed

subsection \<open>Targets\<close>

text \<open>A relation between steps and results that holds for every step holds along a run.\<close>

definition step_rel :: "'w engine \<Rightarrow> (wf_step \<Rightarrow> step_result \<Rightarrow> bool) \<Rightarrow> bool" where
  "step_rel eng P \<longleftrightarrow>
     (\<forall>wid wname step st r st'. execute_step eng wid wname step st = (Inr r, st') \<longrightarrow> P step r)
   \<and> (\<forall>step state err. P step (unexecuted step state err))"

lemma step_rel_execute:
  "step_rel eng P \<Longrightarrow> execute_step eng wid wname step st = (Inr r, st') \<Longrightarrow> P step r"
  unfolding step_rel_def by blast

lemma step_rel_unexecuted: "step_rel eng P \<Longrightarrow> P step (unexecuted step state err)"
  unfolding step_rel_def by blast

lemma cancel_remaining_rel:
  "step_rel eng P \<Longrightarrow> cancel_remaining eng wid wname steps st = (rs, st') \<Longrightarrow> list_all2 P steps rs"
proof (induction steps arbitrary: st rs)
  case Nil
  then show ?case by simp
next
  case (Cons step steps)
  let ?reason = "ct_reason (we_token eng (fst st))"
  let ?st = "wf_publish eng (WorkflowStepSkippedEvent wid wname (ws_step_id step)
                  (ws_capability step) (''Workflow cancelled: '' @ ?reason)) st"
  obtain rs1 st1 where rest: "cancel_remaining eng wid wname steps ?st = (rs1, st1)"
    by (meson surj_pair)
  with Cons.prems(2) have rs: "rs = unexecuted step STEP_CANCELLED ?reason # rs1" and st': "st' = st1"
    by (simp_all add: Let_def)
  show ?case
    using Cons.IH [OF Cons.prems(1) rest [folded st']] step_rel_unexecuted [OF Cons.prems(1)]
    by (simp add: rs)
qed

lemma run_steps_rel:
  assumes P: "step_rel eng P"
  shows "run_steps eng wid wname steps v st = (Inr v', st') \<Longrightarrow>
    \<exists>rs. lv_results v' = lv_results v @ rs \<and> list_all2 P steps rs"
proof (induction steps arbitrary: v st)
  case Nil
  then show ?case by simp
next
  case (Cons step steps)
  note un = step_rel_unexecuted [OF P, of step]
  note ex = step_rel_execute [OF P, of wid wname step st]
  have more: "\<exists>rs. lv_results v' = lv_results v @ rs \<and> list_all2 P (step # steps) rs"
    if "run_steps eng wid wname steps u st1 = (Inr v', st')" "lv_results u = lv_results v @ [r]" "P step r"
    for u st1 r
    using Cons.IH [OF that(1)] that(2,3) by auto
  show ?case
  proof (cases "ct_cancelled (we_token eng (fst st))")
    case True
    obtain rs st1 where rem: "cancel_remaining eng wid wname (step # steps) st = (rs, st1)"
      by (meson surj_pair)
    with Cons.prems True cancel_remaining_rel [OF P rem] show ?thesis
      by (auto simp del: cancel_remaining.simps)
  next
    case False
    with Cons.prems show ?thesis
      by (auto simp: Let_def intro: more un ex split: if_splits prod.splits sum.splits)
  qed
qed

lemma run_workflow_rel:
  assumes P: "step_rel eng P" and run: "run_workflow eng w st = (Inr r, st')"
  shows "list_all2 P (wf_steps w) (wr_step_results r)"
proof -
  have un: "list_all2 P (wf_steps w) (map (\<lambda>step. unexecuted step state err) (wf_steps w))" for state err
    by (simp add: list_all2_map2 list.rel_refl_strong step_rel_unexecuted [OF P])
  show ?thesis
    using run un
    by (auto simp: run_workflow_def Let_def dest!: run_steps_rel [OF P]
        split: if_splits sum.splits prod.splits)
qed

lemma failed_step_target:
  "failed_step eng wid wname step started fin target err st = (Inr r, st') \<Longrightarrow>
     sr_target r = target \<and> sr_state r = STEP_FAILED"
  by (auto simp: failed_step_def Let_def)

lemma execute_step_target:
  assumes "execute_step eng wid wname step st = (Inr r, st')" and "sr_target r = Some c"
  shows "\<exists>q v nav v'. mk_nav_request (ws_capability step) (ws_constraints step) = Inr q
    \<and> we_navigator eng q v = (Inr nav, v') \<and> nr_selected nav = Some c
    \<and> (sr_state r = STEP_COMPLETED \<longrightarrow> ex_contains (we_executors eng) (nc_provider_id c))"
  using assms
  by (fastforce simp: execute_step_def Let_def ex_get_def ex_contains_def dmem_def
      dest!: failed_step_target split: prod.splits sum.splits option.splits)

definition target_fits :: "'w engine \<Rightarrow> wf_step \<Rightarrow> step_result \<Rightarrow> bool" where
  "target_fits eng step r \<longleftrightarrow>
     (\<forall>c. sr_target r = Some c \<longrightarrow>
        nc_capability_id c = ws_capability step \<and> eligible (ws_constraints step) c
        \<and> (sr_state r = STEP_COMPLETED \<longrightarrow> ex_contains (we_executors eng) (nc_provider_id c)))"

text \<open>The engine as a client of the navigator's contract.\<close>

context navigator
begin

lemma engine_targets:
  assumes answers: "\<forall>q v a v'. we_navigator eng q v = (Inr a, v') \<longrightarrow> (\<exists>snap. a = nav q snap)"
    and run: "run_workflow eng w st = (Inr r, st')"
  shows "list_all2 (target_fits eng) (wf_steps w) (wr_step_results r)"
proof (rule run_workflow_rel [OF _ run])
  have fits: "target_fits eng step r"
    if ex: "execute_step eng wid wname step st = (Inr r, st')" for wid wname step st r st'
    unfolding target_fits_def
  proof (intro allI impI)
    fix c
    assume "sr_target r = Some c"
    from execute_step_target [OF ex this] obtain q v a v' where
      q: "mk_nav_request (ws_capability step) (ws_constraints step) = Inr q"
      and a: "we_navigator eng q v = (Inr a, v')" "nr_selected a = Some c"
      and reg: "sr_state r = STEP_COMPLETED \<longrightarrow> ex_contains (we_executors eng) (nc_provider_id c)"
      by blast
    from answers a obtain snap where "nr_selected (nav q snap) = Some c" by blast
    moreover have "nq_capability q = ws_capability step" "nq_constraints q = ws_constraints step"
      using q by (auto simp: mk_nav_request_def split: if_splits)
    ultimately show "nc_capability_id c = ws_capability step \<and> eligible (ws_constraints step) c
        \<and> (sr_state r = STEP_COMPLETED \<longrightarrow> ex_contains (we_executors eng) (nc_provider_id c))"
      using target_capability nav_eligible reg by metis
  qed
  show "step_rel eng (target_fits eng)"
    unfolding step_rel_def using fits by (auto simp: target_fits_def unexecuted_def)
qed

end

text \<open>
  C2. When the engine's navigator answers with hybrid navigation over some snapshot of the moment,
  every target recorded for a step offers the capability the step asks for and satisfies the
  step's constraints, so that a step restricted to the local node never runs elsewhere; and a
  step completes only on a provider that has a registered executor.
\<close>

theorem workflow_targets_respect_constraints:
  assumes answers: "\<forall>q v a v'. we_navigator eng q v = (Inr a, v') \<longrightarrow> (\<exists>snap. a = navigate q snap)"
    and run: "run_workflow eng w st = (Inr r, st')"
    and i: "i < length (wf_steps w)" and c: "sr_target (wr_step_results r ! i) = Some c"
  shows "nc_capability_id c = ws_capability (wf_steps w ! i)
    \<and> eligible (ws_constraints (wf_steps w ! i)) c
    \<and> (nk_local_only (ws_constraints (wf_steps w ! i)) \<longrightarrow> nc_is_local c)
    \<and> nc_node_state c \<noteq> NODE_UNAVAILABLE \<and> nc_node_state c \<noteq> NODE_STALE
    \<and> (sr_state (wr_step_results r ! i) = STEP_COMPLETED \<longrightarrow>
         ex_contains (we_executors eng) (nc_provider_id c))"
  using list_all2_nthD [OF hybrid.engine_targets [OF answers run] i] c
  by (simp add: target_fits_def eligible_def)

theorem workflow_targets_respect_constraints_witness:
  "\<exists>r st' c. run_workflow (echo_engine False) two_steps ((), []) = (Inr r, st')
     \<and> sr_target (wr_step_results r ! 0) = Some c \<and> nc_is_local c
     \<and> nc_capability_id c = ''file.read''"
proof -
  obtain r st' where run: "run_workflow (echo_engine False) two_steps ((), []) = (Inr r, st')"
    using two_steps_run
    by (cases "run_workflow (echo_engine False) two_steps ((), [])"; cases "fst (run_workflow (echo_engine False) two_steps ((), []))")
      simp_all
  with two_steps_run have "map (map_option nc_node_id \<circ> sr_target) (wr_step_results r) = [Some ''me'', None]"
    by simp
  then obtain c where c: "sr_target (wr_step_results r ! 0) = Some c"
    by (cases "wr_step_results r") auto
  have "\<forall>q v a v'. we_navigator (echo_engine False) q v = (Inr a, v') \<longrightarrow> (\<exists>snap. a = navigate q snap)"
    by (auto simp: echo_engine_def)
  from workflow_targets_respect_constraints [OF this run _ c] run c show ?thesis
    by (cases st') (simp add: two_steps_def)
qed

end
