(* ===== verification/Shyam_Executors.thy ===== *)
theory Shyam_Executors
  imports Shyam_Workflow
begin

section \<open>Execution adapters\<close>

text \<open>
  \<open>workflow/executors/\<close>: what the engine calls for the local file system, Zarya and Flux. The
  operating system's files are an argument: a record of the \<open>pathlib\<close> operations the adapter
  uses over a world \<open>'w\<close>. Every exception of an adapter reaches the engine as
  \<open>StepExecutionError\<close>.
\<close>

definition as_step_error :: "string \<Rightarrow> 'a result \<Rightarrow> 'a result" where
  "as_step_error cap r = (case r of
      Inr x \<Rightarrow> Inr x
    | Inl e \<Rightarrow> if isinst e (Workflow_Exn StepExecutionError) then Inl e
              else Inl (step_execution_error ''unknown'' cap (exn_msg e)))"

definition unsupported :: "string \<Rightarrow> string \<Rightarrow> exn" where
  "unsupported what cap = step_execution_error ''unknown'' cap
     (''Unsupported '' @ what @ '' capability: '' @ quoted cap)"

definition plain_value_error :: "string \<Rightarrow> exn" where
  "plain_value_error m = Exn (Builtin ValueError) m"

definition type_error :: exn where
  "type_error = Exn (Builtin TypeError) ''argument of the wrong type''"

lemma step_execution_error_isinst:
  "isinst (step_execution_error i cap why) (Workflow_Exn StepExecutionError)"
  by (simp add: step_execution_error_def exn_simps)

lemma as_step_error_isinst: "as_step_error cap r = Inl e \<Longrightarrow> isinst e (Workflow_Exn StepExecutionError)"
  by (auto simp: as_step_error_def step_execution_error_isinst split: sum.splits if_splits)

lemma as_step_error_Inr [simp]: "as_step_error cap r = Inr x \<longleftrightarrow> r = Inr x"
  by (simp add: as_step_error_def split: sum.split)

lemma as_step_error_unsupported [simp]:
  "as_step_error cap (Inl (unsupported what cap)) = Inl (unsupported what cap)"
  by (simp add: as_step_error_def unsupported_def step_execution_error_isinst)

subsection \<open>workflow/executors/local\_fs.py\<close>

record 'w file_system =
  fs_is_file :: "'w \<Rightarrow> string \<Rightarrow> bool"
  fs_is_dir :: "'w \<Rightarrow> string \<Rightarrow> bool"
  fs_read_text :: "'w \<Rightarrow> string \<Rightarrow> string option \<Rightarrow> string result"
  fs_mkdir_parent :: "string \<Rightarrow> 'w \<Rightarrow> unit result \<times> 'w"
  fs_write_text :: "string \<Rightarrow> string \<Rightarrow> string option \<Rightarrow> 'w \<Rightarrow> unit result \<times> 'w"
  fs_entries :: "'w \<Rightarrow> string \<Rightarrow> string list result"
  fs_resolve :: "'w \<Rightarrow> string \<Rightarrow> string"

text \<open>\<open>len(content.encode("utf-8"))\<close>, for characters of one byte.\<close>

definition utf8_length :: "string \<Rightarrow> nat" where
  "utf8_length s = sum_list (map (\<lambda>c. if char_code c < 128 then 1 else 2) s)"

definition encoding_arg :: "(string, pyval) dict \<Rightarrow> string option result" where
  "encoding_arg d = (case dget_or d ''encoding'' (PStr ''utf-8'') of
      PStr s \<Rightarrow> Inr (Some s) | PNone \<Rightarrow> Inr None | _ \<Rightarrow> Inl type_error)"

definition missing_path :: exn where
  "missing_path = plain_value_error
     (''Missing required '' @ quoted ''path'' @ '' parameter in input_data'')"

definition read_file :: "'w file_system \<Rightarrow> (string, pyval) dict \<Rightarrow> 'w \<Rightarrow> pyval result" where
  "read_file fs d w =
     (let path = dget_or d ''path'' PNone in
      if \<not> truthy path then Inl missing_path
      else (case path of
        PStr p \<Rightarrow>
          if \<not> fs_is_file fs w p
          then Inl (Exn (Builtin FileNotFoundError) (''File not found: '' @ p))
          else (case encoding_arg d of
                  Inl e \<Rightarrow> Inl e
                | Inr enc \<Rightarrow> (case fs_read_text fs w p enc of
                    Inl e \<Rightarrow> Inl e
                  | Inr content \<Rightarrow> Inr (PDict
                      [(''path'', PStr (fs_resolve fs w p)), (''content'', PStr content),
                       (''size_bytes'', PInt (int (utf8_length content)))])))
      | _ \<Rightarrow> Inl type_error))"

definition write_file :: "'w file_system \<Rightarrow> (string, pyval) dict \<Rightarrow> 'w \<Rightarrow> pyval result \<times> 'w" where
  "write_file fs d w =
     (let path = dget_or d ''path'' PNone; content = dget_or d ''content'' (PStr []) in
      if \<not> truthy path then (Inl missing_path, w)
      else (case path of
        PStr p \<Rightarrow>
          (case fs_mkdir_parent fs p w of
             (Inl e, w1) \<Rightarrow> (Inl e, w1)
           | (Inr _, w1) \<Rightarrow>
               (case (content, encoding_arg d) of
                  (PStr text, Inr enc) \<Rightarrow>
                    (case fs_write_text fs p text enc w1 of
                       (Inl e, w2) \<Rightarrow> (Inl e, w2)
                     | (Inr _, w2) \<Rightarrow> (Inr (PDict
                         [(''path'', PStr (fs_resolve fs w2 p)),
                          (''written_bytes'', PInt (int (utf8_length text)))]), w2))
                | _ \<Rightarrow> (Inl type_error, w1)))
      | _ \<Rightarrow> (Inl type_error, w)))"

definition list_dir :: "'w file_system \<Rightarrow> (string, pyval) dict \<Rightarrow> 'w \<Rightarrow> pyval result" where
  "list_dir fs d w =
     (case dget_or d ''path'' (PStr ''.'') of
        PStr p \<Rightarrow>
          if \<not> fs_is_dir fs w p
          then Inl (Exn (Builtin NotADirectoryError) (''Directory not found: '' @ p))
          else (case fs_entries fs w p of
                  Inl e \<Rightarrow> Inl e
                | Inr entries \<Rightarrow> Inr (PDict
                    [(''path'', PStr (fs_resolve fs w p)), (''entries'', PList (map PStr entries)),
                     (''count'', PInt (int (length entries)))]))
      | _ \<Rightarrow> Inl type_error)"

definition local_fs_execute :: "'w file_system \<Rightarrow> 'w executor" where
  "local_fs_execute fs target d w =
     (let cap = nc_capability_id target in
      if cap = ''file.read'' then (as_step_error cap (read_file fs d w), w)
      else if cap = ''file.write''
      then (case write_file fs d w of (r, w') \<Rightarrow> (as_step_error cap r, w'))
      else if cap = ''file.list'' then (as_step_error cap (list_dir fs d w), w)
      else (as_step_error cap (Inl (unsupported ''local filesystem'' cap)), w))"

subsection \<open>workflow/executors/zarya.py\<close>

definition work_dump :: "work_response \<Rightarrow> pyval" where
  "work_dump r = PDict
     [(''tool'', PStr (zw_tool r)), (''outcome'', PStr (outcome_value (zw_outcome r))),
      (''verified'', PBool (zw_verified r)), (''result'', PDict (zw_result r)),
      (''summary'', PStr (zw_summary r))]"

text \<open>The provider's \<open>execute\<close> on dynamic arguments: the request model checks their types.\<close>

definition zarya_dynamic_execute ::
  "zarya_client \<Rightarrow> zarya_provider \<Rightarrow> pyval \<Rightarrow> pyval \<Rightarrow> work_response result" where
  "zarya_dynamic_execute c s tool args =
     (if \<not> zp_is_connected s then Inl zp_not_connected
      else (case (tool, if truthy args then args else PDict []) of
              (PStr t, PDict a) \<Rightarrow> zp_execute c s t (Some a)
            | _ \<Rightarrow> Inl (value_error ''invalid work request'')))"

definition zarya_execute ::
  "zarya_client \<Rightarrow> zarya_provider \<Rightarrow> nav_candidate \<Rightarrow> (string, pyval) dict \<Rightarrow> pyval result" where
  "zarya_execute c s target d =
     (let cap = nc_capability_id target;
          tool = dget_or d ''tool'' (PStr cap);
          args = dget_or d ''args'' (PDict (filter (\<lambda>(k, v). k \<noteq> ''tool'') d)) in
      case zarya_dynamic_execute c s tool args of
        Inr r \<Rightarrow> Inr (work_dump r)
      | Inl e \<Rightarrow> Inl (step_execution_error ''unknown'' cap (exn_msg e)))"

subsection \<open>workflow/executors/flux.py\<close>

definition opt_str :: "string option \<Rightarrow> pyval" where
  "opt_str s = (case s of None \<Rightarrow> PNone | Some t \<Rightarrow> PStr t)"

definition opt_int :: "int option \<Rightarrow> pyval" where
  "opt_int i = (case i of None \<Rightarrow> PNone | Some n \<Rightarrow> PInt n)"

fun transport_value :: "flux_transport_kind \<Rightarrow> string" where
  "transport_value TCP_LAN = ''tcp_lan''"
| "transport_value TCP_WIFI = ''tcp_wifi''"
| "transport_value TCP_DIRECT = ''tcp_direct''"
| "transport_value RELAY = ''relay''"
| "transport_value BLUETOOTH = ''bluetooth''"

fun path_state_value :: "flux_path_state \<Rightarrow> string" where
  "path_state_value PATH_AVAILABLE = ''available''"
| "path_state_value PATH_DEGRADED = ''degraded''"
| "path_state_value PATH_UNAVAILABLE = ''unavailable''"
| "path_state_value PATH_STALE = ''stale''"

fun transfer_status_value :: "flux_transfer_status \<Rightarrow> string" where
  "transfer_status_value TRANSFER_CREATED = ''CREATED''"
| "transfer_status_value TRANSFER_RUNNING = ''RUNNING''"
| "transfer_status_value TRANSFER_COMPLETED = ''COMPLETED''"
| "transfer_status_value TRANSFER_FAILED = ''FAILED''"
| "transfer_status_value TRANSFER_CANCELLED = ''CANCELLED''"

definition path_dump :: "flux_path_info \<Rightarrow> pyval" where
  "path_dump p = PDict
     [(''path_id'', PStr (fpath_id p)), (''transport'', PStr (transport_value (fpath_transport p))),
      (''remote_addr'', PStr (fpath_remote_addr p)), (''state'', PStr (path_state_value (fpath_state p))),
      (''rtt_ms'', opt_int (fpath_rtt_ms p)), (''last_seen'', opt_str (fpath_last_seen p))]"

definition peer_dump :: "flux_peer_info \<Rightarrow> pyval" where
  "peer_dump p = PDict
     [(''peer_id'', PStr (fpeer_id p)), (''address'', opt_str (fpeer_address p)),
      (''last_seen'', opt_str (fpeer_last_seen p)),
      (''last_seen_secs_ago'', opt_int (fpeer_last_seen_secs_ago p)),
      (''paths'', PList (map path_dump (fpeer_paths p))),
      (''connectivity'', PStr (fpeer_connectivity p))]"

definition connect_dump :: "flux_connect_response \<Rightarrow> pyval" where
  "connect_dump r = PDict
     [(''peer_id'', PStr (fcr_peer_id r)), (''success'', PBool (fcr_success r)),
      (''connected_address'', opt_str (fcr_connected_address r)), (''message'', opt_str (fcr_message r)),
      (''connected'', (case fcr_connected r of None \<Rightarrow> PNone | Some b \<Rightarrow> PBool b)),
      (''active_path_count'', PInt (fcr_active_path_count r))]"

definition transfer_dump :: "flux_transfer_response \<Rightarrow> pyval" where
  "transfer_dump r = PDict [(''transfer_id'', PStr (ftr_transfer_id r)),
     (''status'', PStr (transfer_status_value (ftr_status r)))]"

definition transfer_info_dump :: "flux_transfer_info \<Rightarrow> pyval" where
  "transfer_info_dump r = PDict
     [(''transfer_id'', PStr (fti_transfer_id r)), (''peer_id'', PStr (fti_peer_id r)),
      (''status'', PStr (transfer_status_value (fti_status r))),
      (''bytes_transferred'', PInt (fti_bytes_transferred r)),
      (''total_bytes'', PInt (fti_total_bytes r)),
      (''files_transferred'', PInt (fti_files_transferred r)),
      (''total_files'', PInt (fti_total_files r)), (''error_message'', opt_str (fti_error_message r))]"

definition cancel_dump :: "flux_cancel_response \<Rightarrow> pyval" where
  "cancel_dump r = PDict [(''transfer_id'', PStr (fca_transfer_id r)), (''cancelled'', PBool (fca_cancelled r))]"

text \<open>
  A call of a provider operation on dynamic arguments that have been tested for truth: the
  request model refuses what is no string, after the provider has checked its connection. A
  transfer id is only interpolated into the path. The artifact's name and kind are handed down to
  \<open>initiate_transfer\<close>, which ignores them: \<open>FluxTransferRequest\<close> has the fields \<open>peer_id\<close> and \<open>file_paths\<close> only, so
  a name that is no string raises nothing, as none at all.
\<close>

definition flux_call :: "flux_provider \<Rightarrow> pyval \<Rightarrow> (string \<Rightarrow> 'a result) \<Rightarrow> ('a \<Rightarrow> pyval) \<Rightarrow> pyval result" where
  "flux_call s arg op dump =
     (case (case arg of PStr x \<Rightarrow> op x | _ \<Rightarrow> fp_guard s (Inl (value_error ''invalid request''))) of
        Inl e \<Rightarrow> Inl e | Inr r \<Rightarrow> Inr (dump r))"

definition flux_dispatch ::
  "flux_client \<Rightarrow> flux_provider \<Rightarrow> string \<Rightarrow> (string, pyval) dict \<Rightarrow> pyval result" where
  "flux_dispatch c s cap d =
     (let arg = (\<lambda>k. dget_or d k PNone) in
      if cap = ''flux.peer.discover'' then
        (case fp_discover_peers c s of
           Inl e \<Rightarrow> Inl e | Inr ps \<Rightarrow> Inr (PList (map peer_dump ps)))
      else if cap = ''flux.peer.connect'' then
        (if \<not> truthy (arg ''peer_id'')
         then Inl (plain_value_error (''Missing '' @ quoted ''peer_id'' @ '' in input_data''))
         else flux_call s (arg ''peer_id'') (fp_connect_peer c s) connect_dump)
      else if cap = ''flux.transfer.send'' then
        (if \<not> truthy (arg ''peer_id'') \<or> \<not> truthy (arg ''artifact_path'')
         then Inl (plain_value_error (''Missing '' @ quoted ''peer_id'' @ '' or ''
                @ quoted ''artifact_path'' @ '' in input_data''))
         else flux_call s (arg ''peer_id'') (\<lambda>peer.
                (case arg ''artifact_path'' of
                   PStr file \<Rightarrow> fp_transfer c s peer file
                     (case arg ''artifact_name'' of PStr n \<Rightarrow> Some n | _ \<Rightarrow> None)
                     (truthy (dget_or d ''is_directory'' (PBool False)))
                 | _ \<Rightarrow> fp_guard s (Inl (value_error ''invalid request'')))) transfer_dump)
      else if cap = ''flux.transfer.status'' then
        (if \<not> truthy (arg ''transfer_id'')
         then Inl (plain_value_error (''Missing '' @ quoted ''transfer_id'' @ '' in input_data''))
         else (case fp_get_transfer_status c s (py_str (arg ''transfer_id'')) of
                 Inl e \<Rightarrow> Inl e | Inr r \<Rightarrow> Inr (transfer_info_dump r)))
      else if cap = ''flux.transfer.cancel'' then
        (if \<not> truthy (arg ''transfer_id'')
         then Inl (plain_value_error (''Missing '' @ quoted ''transfer_id'' @ '' in input_data''))
         else (case fp_cancel_transfer c s (py_str (arg ''transfer_id'')) of
                 Inl e \<Rightarrow> Inl e | Inr r \<Rightarrow> Inr (cancel_dump r)))
      else Inl (unsupported ''Flux'' cap))"

definition flux_execute ::
  "flux_client \<Rightarrow> flux_provider \<Rightarrow> nav_candidate \<Rightarrow> (string, pyval) dict \<Rightarrow> pyval result" where
  "flux_execute c s target d =
     (let cap = nc_capability_id target in as_step_error cap (flux_dispatch c s cap d))"

subsection \<open>Properties\<close>

lemma unsupported_isinst: "isinst (unsupported what cap) (Workflow_Exn StepExecutionError)"
  by (simp add: unsupported_def step_execution_error_isinst)

lemma local_fs_execute_isinst:
  "fst (local_fs_execute fs target d w) = Inl e \<Longrightarrow> isinst e (Workflow_Exn StepExecutionError)"
  by (auto simp: local_fs_execute_def Let_def unsupported_isinst dest: as_step_error_isinst split: if_splits prod.splits)

text \<open>
  Whatever fails inside an execution adapter (the operating system, an HTTP gateway, wrong
  arguments), the engine sees a \<open>StepExecutionError\<close>; and reading and listing files never
  changes the files.
\<close>

theorem executors_raise_step_errors:
  "(\<forall>e. fst (local_fs_execute fs target d w) = Inl e \<longrightarrow> isinst e (Workflow_Exn StepExecutionError))
   \<and> (\<forall>e. zarya_execute zc zs target d = Inl e \<longrightarrow> isinst e (Workflow_Exn StepExecutionError))
   \<and> (\<forall>e. flux_execute fc fp target d = Inl e \<longrightarrow> isinst e (Workflow_Exn StepExecutionError))
   \<and> (nc_capability_id target \<noteq> ''file.write'' \<longrightarrow> snd (local_fs_execute fs target d w) = w)"
proof (intro conjI allI impI)
  show "isinst e (Workflow_Exn StepExecutionError)" if "fst (local_fs_execute fs target d w) = Inl e" for e
    using that by (rule local_fs_execute_isinst)
  show "isinst e (Workflow_Exn StepExecutionError)" if "zarya_execute zc zs target d = Inl e" for e
    using that step_execution_error_isinst by (auto simp: zarya_execute_def Let_def split: sum.splits)
  show "isinst e (Workflow_Exn StepExecutionError)" if "flux_execute fc fp target d = Inl e" for e
    using that as_step_error_isinst by (auto simp: flux_execute_def Let_def)
  show "snd (local_fs_execute fs target d w) = w" if "nc_capability_id target \<noteq> ''file.write''"
    using that by (simp add: local_fs_execute_def Let_def)
qed

definition target_for :: "string \<Rightarrow> nav_candidate" where
  "target_for cap = \<lparr>nc_node_id = ''me'', nc_node_name = ''me'', nc_provider_id = ''p'',
     nc_provider_name = ''p'', nc_capability_id = cap, nc_is_local = True,
     nc_node_state = NODE_AVAILABLE, nc_provider_status = AVAILABLE,
     nc_capability_availability = AVAILABLE, nc_metadata = []\<rparr>"

text \<open>A store of named texts as a file system.\<close>

definition text_store :: "(string, string) dict file_system" where
  "text_store =
     \<lparr>fs_is_file = (\<lambda>w p. dmem p w), fs_is_dir = (\<lambda>w p. False),
      fs_read_text = (\<lambda>w p enc. case dget w p of Some t \<Rightarrow> Inr t
        | None \<Rightarrow> Inl (Exn (Builtin FileNotFoundError) p)),
      fs_mkdir_parent = (\<lambda>p w. (Inr (), w)),
      fs_write_text = (\<lambda>p t enc w. (Inr (), dset p t w)),
      fs_entries = (\<lambda>w p. Inr []), fs_resolve = (\<lambda>w p. p)\<rparr>"

theorem executors_raise_step_errors_witness:
  "\<exists>e. zarya_execute sample_zarya_client new_zarya_provider (target_for ''zarya.work.execute'') [] = Inl e
     \<and> isinst e (Workflow_Exn StepExecutionError)"
proof -
  obtain e where e: "zarya_execute sample_zarya_client new_zarya_provider
      (target_for ''zarya.work.execute'') [] = Inl e"
    by (simp add: zarya_execute_def zarya_dynamic_execute_def new_zarya_provider_def)
  then show ?thesis
    using executors_raise_step_errors [of _ _ _ _ sample_zarya_client new_zarya_provider,
        THEN conjunct2, THEN conjunct1] by blast
qed

text \<open>
  A text written by \<open>file.write\<close> is returned by a following \<open>file.read\<close> of the same path and
  encoding, with its size in UTF-8 bytes, given that the file system returns what it stored.
\<close>

theorem file_write_read_roundtrip:
  assumes stored: "\<And>p t enc w w'. fs_write_text fs p t enc w = (Inr (), w') \<Longrightarrow>
        fs_is_file fs w' p \<and> fs_read_text fs w' p enc = Inr t"
    and path: "p \<noteq> []"
    and wrote: "local_fs_execute fs (target_for ''file.write'')
        [(''path'', PStr p), (''content'', PStr t), (''encoding'', PStr enc)] w = (Inr out, w')"
  shows "local_fs_execute fs (target_for ''file.read'') [(''path'', PStr p), (''encoding'', PStr enc)] w'
    = (Inr (PDict [(''path'', PStr (fs_resolve fs w' p)), (''content'', PStr t),
                   (''size_bytes'', PInt (int (utf8_length t)))]), w')"
proof -
  from wrote path obtain w1 where "fs_write_text fs p t (Some enc) w1 = (Inr (), w')"
    by (auto simp: local_fs_execute_def target_for_def write_file_def dget_or_def encoding_arg_def
        Let_def split: prod.splits sum.splits)
  from stored [OF this] path show ?thesis
    by (simp add: local_fs_execute_def target_for_def read_file_def dget_or_def encoding_arg_def Let_def)
qed

theorem file_write_read_roundtrip_witness:
  "\<exists>w'. snd (local_fs_execute text_store (target_for ''file.write'')
        [(''path'', PStr ''a''), (''content'', PStr ''hi''), (''encoding'', PStr ''utf-8'')] []) = w'
     \<and> fst (local_fs_execute text_store (target_for ''file.read'')
        [(''path'', PStr ''a''), (''encoding'', PStr ''utf-8'')] w')
       = Inr (PDict [(''path'', PStr ''a''), (''content'', PStr ''hi''), (''size_bytes'', PInt 2)])"
proof -
  have wrote: "local_fs_execute text_store (target_for ''file.write'')
        [(''path'', PStr ''a''), (''content'', PStr ''hi''), (''encoding'', PStr ''utf-8'')] []
      = (Inr (PDict [(''path'', PStr ''a''), (''written_bytes'', PInt 2)]), [(''a'', ''hi'')])"
    by code_simp
  have stored: "fs_write_text text_store p t enc w = (Inr (), w') \<Longrightarrow>
        fs_is_file text_store w' p \<and> fs_read_text text_store w' p enc = Inr t" for p t enc w w'
    by (auto simp: text_store_def)
  have "utf8_length ''hi'' = 2" by code_simp
  moreover have "fs_resolve text_store w p = p" for w p by (simp add: text_store_def)
  ultimately show ?thesis
    using file_write_read_roundtrip [OF stored _ wrote] wrote by simp
qed

text \<open>
  The Flux adapter serves none of the capabilities the Flux provider advertises: whatever the
  gateway, the provider's state and the input, each is refused as unsupported.
\<close>

theorem flux_executor_refuses_advertised:
  "list_all (\<lambda>c. flux_execute fc fp (target_for (cap_id c)) d
      = Inl (unsupported ''Flux'' (cap_id c))) FLUX_CAPABILITY_DEFINITIONS"
  by (simp add: FLUX_CAPABILITY_DEFINITIONS_def flux_execute_def flux_dispatch_def target_for_def)

end
