(* ===== verification/Shyam_Composite.thy ===== *)
theory Shyam_Composite
  imports Shyam_Workflow Shyam_Store
begin

section \<open>Composite capabilities\<close>

text \<open>
  \<open>composite/\<close>: a composite is an ordered list of steps whose inputs are bound to the
  invocation's inputs or to the outputs of steps. The registry is a keyed store; the engine
  runs each step as a workflow of one step and never bypasses the workflow engine. The
  specification of a well-formed definition is \<open>references_ok\<close>.
\<close>

subsection \<open>composite/models.py\<close>

datatype binding_source = BIND_INPUT | BIND_STEP

record binding =
  bd_source :: binding_source
  bd_source_id :: string
  bd_source_key :: "string option"

definition mk_binding :: "binding_source \<Rightarrow> string \<Rightarrow> string option \<Rightarrow> binding result" where
  "mk_binding src v key =
     (if v = [] \<or> strip v = [] then Inl (value_error ''Binding source_id must be a non-empty string'')
      else Inr \<lparr>bd_source = src, bd_source_id = strip v, bd_source_key = key\<rparr>)"

record composite_step =
  cs_step_id :: string
  cs_capability :: string
  cs_constraints :: nav_constraints
  cs_input_bindings :: "(string, binding) dict"
  cs_description :: string

definition mk_composite_step ::
  "string \<Rightarrow> string \<Rightarrow> nav_constraints \<Rightarrow> (string, binding) dict \<Rightarrow> string \<Rightarrow> composite_step result" where
  "mk_composite_step i cap k bs desc =
     (if i = [] \<or> strip i = [] then Inl (value_error ''Composite step_id must be a non-empty string'')
      else if cap = [] \<or> CHR ''.'' \<notin> set cap
      then Inl (value_error (''Composite step capability must be namespaced (e.g. ''
             @ quoted ''file.read'' @ ''), got: '' @ quoted cap))
      else Inr \<lparr>cs_step_id = strip i, cs_capability = cap, cs_constraints = k,
                cs_input_bindings = bs, cs_description = desc\<rparr>)"

record composite =
  cp_capability_id :: string
  cp_name :: string
  cp_version :: string
  cp_description :: string
  cp_inputs :: "string list"
  cp_outputs :: "(string, binding) dict"
  cp_steps :: "composite_step list"
  cp_metadata :: "(string, pyval) dict"

text \<open>The bindings of one step, checked in their order; the first failure is the message.\<close>

fun check_step_bindings ::
  "string list \<Rightarrow> string set \<Rightarrow> string \<Rightarrow> (string, binding) dict \<Rightarrow> exn option" where
  "check_step_bindings inputs seen sid [] = None"
| "check_step_bindings inputs seen sid ((f, b) # bs) =
     (case bd_source b of
        BIND_INPUT \<Rightarrow>
          if bd_source_id b \<notin> set inputs
          then Some (value_error (''Step '' @ quoted sid @ '' field '' @ quoted f
                 @ '' binds to undeclared input '' @ quoted (bd_source_id b)))
          else check_step_bindings inputs seen sid bs
      | BIND_STEP \<Rightarrow>
          if bd_source_id b \<notin> seen
          then Some (value_error (''Step '' @ quoted sid @ '' field '' @ quoted f
                 @ '' references step '' @ quoted (bd_source_id b)
                 @ '' which has not been defined yet (steps are ordered; only prior steps may be referenced)''))
          else check_step_bindings inputs seen sid bs)"

text \<open>The loop over the steps: a step's own id is added before its bindings are checked.\<close>

fun check_steps :: "string list \<Rightarrow> string set \<Rightarrow> composite_step list \<Rightarrow> string set result" where
  "check_steps inputs seen [] = Inr seen"
| "check_steps inputs seen (s # ss) =
     (if cs_step_id s \<in> seen
      then Inl (value_error (''Duplicate step_id in composite: '' @ quoted (cs_step_id s)))
      else let seen' = insert (cs_step_id s) seen in
        (case check_step_bindings inputs seen' (cs_step_id s) (cs_input_bindings s) of
           Some e \<Rightarrow> Inl e
         | None \<Rightarrow> check_steps inputs seen' ss))"

fun check_outputs :: "string list \<Rightarrow> string set \<Rightarrow> (string, binding) dict \<Rightarrow> exn option" where
  "check_outputs inputs seen [] = None"
| "check_outputs inputs seen ((f, b) # bs) =
     (case bd_source b of
        BIND_INPUT \<Rightarrow>
          if bd_source_id b \<notin> set inputs
          then Some (value_error (''Output '' @ quoted f @ '' binds to undeclared input ''
                 @ quoted (bd_source_id b)))
          else check_outputs inputs seen bs
      | BIND_STEP \<Rightarrow>
          if bd_source_id b \<notin> seen
          then Some (value_error (''Output '' @ quoted f @ '' references unknown step ''
                 @ quoted (bd_source_id b)))
          else check_outputs inputs seen bs)"

definition validate_step_references :: "composite \<Rightarrow> composite result" where
  "validate_step_references c =
     (case check_steps (cp_inputs c) {} (cp_steps c) of
        Inl e \<Rightarrow> Inl e
      | Inr seen \<Rightarrow> (case check_outputs (cp_inputs c) seen (cp_outputs c) of
          Some e \<Rightarrow> Inl e | None \<Rightarrow> Inr c))"

definition mk_composite ::
  "string \<Rightarrow> string \<Rightarrow> string \<Rightarrow> string \<Rightarrow> string list \<Rightarrow> (string, binding) dict
     \<Rightarrow> composite_step list \<Rightarrow> (string, pyval) dict \<Rightarrow> composite result" where
  "mk_composite cid name ver desc ins outs steps meta =
     (case validate_namespaced ''Composite capability_id'' ''file.copy'' cid of
        Inl e \<Rightarrow> Inl e
      | Inr cid' \<Rightarrow>
          if name = [] \<or> strip name = [] then Inl (value_error ''Composite name cannot be empty'')
          else (case validate_version ver of
                  Inl e \<Rightarrow> Inl e
                | Inr ver' \<Rightarrow> validate_step_references
                    \<lparr>cp_capability_id = cid', cp_name = strip name, cp_version = ver',
                     cp_description = desc, cp_inputs = ins, cp_outputs = outs,
                     cp_steps = steps, cp_metadata = meta\<rparr>))"

record composite_result =
  cpr_capability_id :: string
  cpr_state :: string
  cpr_outputs :: "(string, pyval) dict"
  cpr_step_results :: "step_result list"
  cpr_error_detail :: "string option"

definition cpr_is_success :: "composite_result \<Rightarrow> bool" where
  "cpr_is_success r \<longleftrightarrow> cpr_state r = ''COMPLETED''"

subsection \<open>composite/errors.py\<close>

definition composite_definition_error :: "string \<Rightarrow> string \<Rightarrow> exn" where
  "composite_definition_error cid why = Exn (Workflow_Exn (Composite CompositeDefinitionError))
     (''Invalid composite definition '' @ quoted cid @ '': '' @ why)"

definition composite_input_error :: "string \<Rightarrow> string \<Rightarrow> exn" where
  "composite_input_error cid why = Exn (Workflow_Exn (Composite CompositeInputError))
     (''Invalid input for composite '' @ quoted cid @ '': '' @ why)"

definition composite_binding_error :: "string \<Rightarrow> string \<Rightarrow> string \<Rightarrow> exn" where
  "composite_binding_error sid f why = Exn (Workflow_Exn (Composite CompositeBindingError))
     (''Binding resolution failed for step '' @ quoted sid @ '' field '' @ quoted f @ '': '' @ why)"

definition composite_not_found :: "string \<Rightarrow> exn" where
  "composite_not_found cid = Exn (Workflow_Exn (Composite CompositeNotFoundError))
     (''Composite capability '' @ quoted cid @ '' not found in registry.'')"

subsection \<open>composite/registry.py\<close>

type_synonym composite_registry = "(string, composite) dict"

definition cpr_register :: "composite_registry \<Rightarrow> composite \<Rightarrow> bool \<Rightarrow> composite_registry result" where
  "cpr_register r c overwrite =
     (let cid = cp_capability_id c in
      if dmem cid r \<and> \<not> overwrite
      then Inl (composite_definition_error cid ''Already registered. Set overwrite=True to replace.'')
      else Inr (dset cid c r))"

definition cpr_get :: "composite_registry \<Rightarrow> string \<Rightarrow> composite option" where
  "cpr_get r cid = dget r cid"

definition cpr_require :: "composite_registry \<Rightarrow> string \<Rightarrow> composite result" where
  "cpr_require r cid =
     (case dget r cid of None \<Rightarrow> Inl (composite_not_found cid) | Some c \<Rightarrow> Inr c)"

definition cpr_unregister :: "composite_registry \<Rightarrow> string \<Rightarrow> (composite_registry \<times> composite) result" where
  "cpr_unregister r cid =
     (case dget r cid of None \<Rightarrow> Inl (composite_not_found cid) | Some c \<Rightarrow> Inr (ddel cid r, c))"

definition cpr_list_all :: "composite_registry \<Rightarrow> composite list" where
  "cpr_list_all r = dvals r"

definition cpr_store :: "composite \<Rightarrow> composite_registry \<Rightarrow> composite_registry" where
  "cpr_store c r = dset (cp_capability_id c) c r"

interpretation cpr: keyed_store "keyed cp_capability_id" cpr_get cpr_store ddel cpr_list_all cp_capability_id
  by unfold_locales (auto simp: cpr_get_def cpr_store_def cpr_list_all_def keyed_laws)

subsection \<open>composite/engine.py\<close>

record exec_context =
  xc_inputs :: "(string, pyval) dict"
  xc_step_outputs :: "(string, pyval) dict"

fun type_name :: "pyval \<Rightarrow> string" where
  "type_name PNone = ''NoneType''"
| "type_name (PBool b) = ''bool''"
| "type_name (PInt i) = ''int''"
| "type_name (PStr s) = ''str''"
| "type_name (PList xs) = ''list''"
| "type_name (PDict d) = ''dict''"

definition resolve_binding_value ::
  "binding \<Rightarrow> string \<Rightarrow> string \<Rightarrow> exec_context \<Rightarrow> pyval result" where
  "resolve_binding_value b sid f ctx =
     (case (case bd_source b of
              BIND_INPUT \<Rightarrow> (case dget (xc_inputs ctx) (bd_source_id b) of
                  None \<Rightarrow> Inl (composite_binding_error sid f
                    (''Input '' @ quoted (bd_source_id b) @ '' not found in execution context''))
                | Some v \<Rightarrow> Inr v)
            | BIND_STEP \<Rightarrow> (case dget (xc_step_outputs ctx) (bd_source_id b) of
                  None \<Rightarrow> Inl (composite_binding_error sid f
                    (''Step output '' @ quoted (bd_source_id b)
                     @ '' not available (step may not have executed yet)''))
                | Some v \<Rightarrow> Inr v)) of
        Inl e \<Rightarrow> Inl e
      | Inr value \<Rightarrow>
          (case bd_source_key b of
             None \<Rightarrow> Inr value
           | Some key \<Rightarrow>
               (case value of
                  PDict d \<Rightarrow> (case dget d key of
                      None \<Rightarrow> Inl (composite_binding_error sid f
                        (''Key '' @ quoted key @ '' not found in source dict''))
                    | Some v \<Rightarrow> Inr v)
                | _ \<Rightarrow> Inl (composite_binding_error sid f
                    (''Cannot extract key '' @ quoted key @ '' from non-dict value of type ''
                     @ type_name value)))))"

fun resolve_bindings ::
  "string \<Rightarrow> exec_context \<Rightarrow> (string, binding) dict \<Rightarrow> (string, pyval) dict \<Rightarrow> (string, pyval) dict result" where
  "resolve_bindings sid ctx [] acc = Inr acc"
| "resolve_bindings sid ctx ((f, b) # bs) acc =
     (case resolve_binding_value b sid f ctx of
        Inl e \<Rightarrow> Inl e
      | Inr v \<Rightarrow> resolve_bindings sid ctx bs (dset f v acc))"

definition resolve_step_bindings ::
  "composite_step \<Rightarrow> exec_context \<Rightarrow> (string, pyval) dict result" where
  "resolve_step_bindings s ctx = resolve_bindings (cs_step_id s) ctx (cs_input_bindings s) []"

definition resolve_output_bindings :: "composite \<Rightarrow> exec_context \<Rightarrow> (string, pyval) dict result" where
  "resolve_output_bindings c ctx = resolve_bindings ''output'' ctx (cp_outputs c) []"

definition validate_inputs :: "composite \<Rightarrow> (string, pyval) dict \<Rightarrow> unit result" where
  "validate_inputs c ins =
     (let missing = filter (\<lambda>n. \<not> dmem n ins) (cp_inputs c) in
      if missing \<noteq> []
      then Inl (composite_input_error (cp_capability_id c)
             (''Missing required input(s): '' @ join_with '', '' missing))
      else Inr ())"

record 'w composite_engine =
  ce_engine :: "'w engine"
  ce_registry :: composite_registry
  ce_uuid :: "'w \<Rightarrow> string"

text \<open>The workflow of one step, built through the validators of the workflow models.\<close>

definition step_workflow ::
  "string \<Rightarrow> string \<Rightarrow> composite_step \<Rightarrow> (string, pyval) dict \<Rightarrow> workflow result" where
  "step_workflow wid cid s ins =
     (case mk_wf_step (cs_step_id s) (cs_capability s) (cs_constraints s) ins (cs_description s) of
        Inl e \<Rightarrow> Inl e
      | Inr ws \<Rightarrow> mk_workflow wid (cid @ ''::'' @ cs_step_id s) [] [ws] [(''composite_id'', PStr cid)])"

text \<open>\<open>token\<close> is the caller's cancellation token, read from the world, if there is one.\<close>

fun invoke_steps ::
  "'w composite_engine \<Rightarrow> ('w \<Rightarrow> cancel_token) option \<Rightarrow> string \<Rightarrow> composite_step list \<Rightarrow> exec_context
     \<Rightarrow> step_result list \<Rightarrow> 'w run_state
     \<Rightarrow> (composite_result + exec_context \<times> step_result list) result \<times> 'w run_state" where
  "invoke_steps ce token cid [] ctx rs st = (Inr (Inr (ctx, rs)), st)"
| "invoke_steps ce token cid (s # ss) ctx rs st =
     (let tok = (case token of None \<Rightarrow> new_token | Some t \<Rightarrow> t (fst st)) in
      if ct_cancelled tok
      then (Inr (Inl \<lparr>cpr_capability_id = cid, cpr_state = ''CANCELLED'', cpr_outputs = [],
                      cpr_step_results = rs, cpr_error_detail = Some (ct_reason tok)\<rparr>), st)
      else (case resolve_step_bindings s ctx of
        Inl e \<Rightarrow> (Inl e, st)
      | Inr ins \<Rightarrow> (case step_workflow (ce_uuid ce (fst st)) cid s ins of
          Inl e \<Rightarrow> (Inl e, st)
        | Inr wfl \<Rightarrow>
            let eng = (ce_engine ce)\<lparr>we_token :=
                        (case token of None \<Rightarrow> (\<lambda>_. new_token) | Some t \<Rightarrow> t)\<rparr> in
            (case run_workflow eng wfl st of
               (Inl e, st') \<Rightarrow> (Inl e, st')
             | (Inr wr, st') \<Rightarrow>
                 (case wr_step_results wr of
                    [] \<Rightarrow> (Inl (Exn (Builtin IndexError) ''tuple index out of range''), st')
                  | r # _ \<Rightarrow>
                      if \<not> sr_is_success r
                      then (Inr (Inl \<lparr>cpr_capability_id = cid,
                              cpr_state = workflow_state_value (wr_state wr), cpr_outputs = [],
                              cpr_step_results = rs @ [r],
                              cpr_error_detail = opt_or (wr_error_detail wr)
                                (Some (''Step '' @ quoted (cs_step_id s) @ '' failed''))\<rparr>), st')
                      else invoke_steps ce token cid ss
                             (ctx\<lparr>xc_step_outputs := dset (cs_step_id s)
                                    (case sr_output r of None \<Rightarrow> PNone | Some v \<Rightarrow> v)
                                    (xc_step_outputs ctx)\<rparr>) (rs @ [r]) st')))))"

definition invoke ::
  "'w composite_engine \<Rightarrow> string \<Rightarrow> (string, pyval) dict \<Rightarrow> ('w \<Rightarrow> cancel_token) option \<Rightarrow> 'w run_state
     \<Rightarrow> composite_result result \<times> 'w run_state" where
  "invoke ce cid ins token st =
     (case cpr_require (ce_registry ce) cid of
        Inl e \<Rightarrow> (Inl e, st)
      | Inr c \<Rightarrow> (case validate_inputs c ins of
          Inl e \<Rightarrow> (Inl e, st)
        | Inr _ \<Rightarrow>
            (case invoke_steps ce token cid (cp_steps c)
                    \<lparr>xc_inputs = ins, xc_step_outputs = []\<rparr> [] st of
               (Inl e, st') \<Rightarrow> (Inl e, st')
             | (Inr (Inl r), st') \<Rightarrow> (Inr r, st')
             | (Inr (Inr (ctx, rs)), st') \<Rightarrow>
                 (case resolve_output_bindings c ctx of
                    Inl e \<Rightarrow> (Inl e, st')
                  | Inr outs \<Rightarrow> (Inr \<lparr>cpr_capability_id = cid, cpr_state = ''COMPLETED'',
                      cpr_outputs = outs, cpr_step_results = rs, cpr_error_detail = None\<rparr>, st')))))"

subsection \<open>Well-formed definitions\<close>

text \<open>A reference to a declared input, or to one of the given steps.\<close>

definition refers :: "string list \<Rightarrow> string set \<Rightarrow> binding \<Rightarrow> bool" where
  "refers ins ids b \<longleftrightarrow>
     (case bd_source b of BIND_INPUT \<Rightarrow> bd_source_id b \<in> set ins | BIND_STEP \<Rightarrow> bd_source_id b \<in> ids)"

definition step_ids :: "composite_step list \<Rightarrow> string set" where
  "step_ids ss = cs_step_id ` set ss"

definition bindings_of :: "(string, binding) dict \<Rightarrow> binding set" where
  "bindings_of bs = snd ` set bs"

lemma step_ids_simps [simp]:
  "step_ids [] = {}" "step_ids (s # ss) = insert (cs_step_id s) (step_ids ss)"
  "step_ids (ss @ ts) = step_ids ss \<union> step_ids ts"
  by (auto simp: step_ids_def)

lemma bindings_of_simps [simp]:
  "bindings_of [] = {}" "bindings_of ((f, b) # bs) = insert b (bindings_of bs)"
  by (simp_all add: bindings_of_def)

lemma check_step_bindings_None:
  "check_step_bindings ins seen sid bs = None \<longleftrightarrow> (\<forall>b \<in> bindings_of bs. refers ins seen b)"
  by (induction ins seen sid bs rule: check_step_bindings.induct)
    (auto simp: refers_def split: binding_source.split)

lemma check_outputs_None:
  "check_outputs ins seen bs = None \<longleftrightarrow> (\<forall>b \<in> bindings_of bs. refers ins seen b)"
  by (induction ins seen bs rule: check_outputs.induct)
    (auto simp: refers_def split: binding_source.split)

lemma check_steps_Inr:
  "check_steps ins seen ss = Inr seen' \<longleftrightarrow>
     seen' = seen \<union> step_ids ss \<and> distinct (map cs_step_id ss) \<and> seen \<inter> step_ids ss = {}
     \<and> (\<forall>pre s post. ss = pre @ s # post \<longrightarrow>
          (\<forall>b \<in> bindings_of (cs_input_bindings s).
             refers ins (seen \<union> step_ids pre \<union> {cs_step_id s}) b))"
proof (induction ins seen ss rule: check_steps.induct)
  case (1 ins seen)
  then show ?case by auto
next
  case (2 ins seen s ss)
  let ?seen = "insert (cs_step_id s) seen"
  let ?ok = "\<lambda>seen ss. \<forall>pre s post. ss = pre @ s # post \<longrightarrow>
          (\<forall>b \<in> bindings_of (cs_input_bindings s).
             refers ins (seen \<union> step_ids pre \<union> {cs_step_id s}) b)"
  have split: "?ok seen (s # ss) \<longleftrightarrow>
      (\<forall>b \<in> bindings_of (cs_input_bindings s). refers ins ?seen b) \<and> ?ok ?seen ss"
  proof
    assume L: "?ok seen (s # ss)"
    have "refers ins ?seen b" if "b \<in> bindings_of (cs_input_bindings s)" for b
      using L [rule_format, of "[]" s ss b] that by simp
    moreover have "refers ins (?seen \<union> step_ids pre \<union> {cs_step_id t}) b"
      if "ss = pre @ t # post" "b \<in> bindings_of (cs_input_bindings t)" for pre t post b
      using L [rule_format, of "s # pre" t post b] that by simp
    ultimately show "(\<forall>b \<in> bindings_of (cs_input_bindings s). refers ins ?seen b) \<and> ?ok ?seen ss"
      by blast
  next
    assume "(\<forall>b \<in> bindings_of (cs_input_bindings s). refers ins ?seen b) \<and> ?ok ?seen ss"
    then show "?ok seen (s # ss)" by (auto simp: Cons_eq_append_conv)
  qed
  show ?case
  proof (cases "cs_step_id s \<in> seen \<or> check_step_bindings ins ?seen (cs_step_id s) (cs_input_bindings s) \<noteq> None")
    case True
    then have "\<nexists>x. check_steps ins seen (s # ss) = Inr x" by (auto simp: Let_def)
    moreover have "cs_step_id s \<in> seen \<or> \<not> (\<forall>b \<in> bindings_of (cs_input_bindings s). refers ins ?seen b)"
      using True by (simp only: check_step_bindings_None)
    ultimately show ?thesis unfolding split by auto
  next
    case False
    then have fresh: "cs_step_id s \<notin> seen"
      and none: "check_step_bindings ins ?seen (cs_step_id s) (cs_input_bindings s) = None" by auto
    have run: "check_steps ins seen (s # ss) = check_steps ins ?seen ss"
      using fresh none by (simp add: Let_def)
    have refs: "(\<forall>b \<in> bindings_of (cs_input_bindings s). refers ins ?seen b) \<longleftrightarrow> True"
      using none by (simp add: check_step_bindings_None)
    note IH = 2 [OF fresh refl none]
    have ids: "seen' = seen \<union> step_ids (s # ss) \<and> distinct (map cs_step_id (s # ss))
          \<and> seen \<inter> step_ids (s # ss) = {} \<and> Q \<longleftrightarrow>
        seen' = ?seen \<union> step_ids ss \<and> distinct (map cs_step_id ss) \<and> ?seen \<inter> step_ids ss = {} \<and> Q" for Q
      using fresh by (auto simp: step_ids_def)
    show ?thesis
      unfolding run IH split refs ids simp_thms ..
  qed
qed

text \<open>
  C19. A composite definition is accepted exactly when its id is namespaced, its name is not blank,
  its version is valid, its step ids are distinct, every step refers only to declared inputs,
  earlier steps or itself, and every output refers to a declared input or a step; its fields
  are then the arguments, with the name stripped.
\<close>

theorem composite_definition_checked:
  "mk_composite cid name ver desc ins outs steps meta = Inr c \<longleftrightarrow>
     namespaced cid \<and> strip name \<noteq> [] \<and> version_ok ver
   \<and> distinct (map cs_step_id steps)
   \<and> (\<forall>pre s post. steps = pre @ s # post \<longrightarrow>
        (\<forall>b \<in> bindings_of (cs_input_bindings s). refers ins (step_ids (pre @ [s])) b))
   \<and> (\<forall>b \<in> bindings_of outs. refers ins (step_ids steps) b)
   \<and> c = \<lparr>cp_capability_id = cid, cp_name = strip name, cp_version = ver, cp_description = desc,
          cp_inputs = ins, cp_outputs = outs, cp_steps = steps, cp_metadata = meta\<rparr>"
proof -
  have name: "strip [] = []" by (simp add: strip_def)
  have ns: "validate_namespaced what ex cid = Inr w \<longleftrightarrow> w = cid \<and> namespaced cid" for what ex w
    by (rule validate_namespaced_iff)
  have refs: "validate_step_references x = Inr c \<longleftrightarrow> c = x \<and> distinct (map cs_step_id (cp_steps x))
     \<and> (\<forall>pre s post. cp_steps x = pre @ s # post \<longrightarrow>
        (\<forall>b \<in> bindings_of (cs_input_bindings s). refers (cp_inputs x) (step_ids (pre @ [s])) b))
     \<and> (\<forall>b \<in> bindings_of (cp_outputs x). refers (cp_inputs x) (step_ids (cp_steps x)) b)" for x
    using check_steps_Inr [of "cp_inputs x" "{}" "cp_steps x"]
    by (auto simp: validate_step_references_def check_outputs_None [symmetric]
        split: sum.splits option.splits)
  show ?thesis
  proof (cases "namespaced cid \<and> strip name \<noteq> [] \<and> version_ok ver")
    case True
    then have "validate_namespaced ''Composite capability_id'' ''file.copy'' cid = Inr cid"
      "validate_version ver = Inr ver" by (simp_all add: ns validate_version_iff)
    with True show ?thesis by (auto simp: mk_composite_def name refs)
  next
    case False
    then show ?thesis
      by (auto simp: mk_composite_def ns validate_version_iff name split: sum.splits if_splits)
  qed
qed

definition self_step :: composite_step where
  "self_step = \<lparr>cs_step_id = ''a'', cs_capability = ''file.read'', cs_constraints = default_constraints,
     cs_input_bindings = [(''path'', \<lparr>bd_source = BIND_STEP, bd_source_id = ''a'', bd_source_key = None\<rparr>)],
     cs_description = []\<rparr>"

definition self_composite :: composite where
  "self_composite = \<lparr>cp_capability_id = ''file.loop'', cp_name = ''loop'', cp_version = ''1.0'',
     cp_description = [], cp_inputs = [], cp_outputs = [], cp_steps = [self_step], cp_metadata = []\<rparr>"

theorem composite_definition_checked_witness:
  "mk_composite ''file.loop'' ''loop'' ''1.0'' [] [] [] [self_step] [] = Inr self_composite
   \<and> refers [] (step_ids [self_step]) \<lparr>bd_source = BIND_STEP, bd_source_id = ''a'', bd_source_key = None\<rparr>"
proof -
  have ok: "mk_composite ''file.loop'' ''loop'' ''1.0'' [] [] [] [self_step] [] = Inr self_composite"
    by code_simp
  have "\<lparr>bd_source = BIND_STEP, bd_source_id = ''a'', bd_source_key = None\<rparr>
      \<in> bindings_of (cs_input_bindings self_step)"
    by (simp add: self_step_def)
  then have "refers [] (step_ids ([] @ [self_step]))
      \<lparr>bd_source = BIND_STEP, bd_source_id = ''a'', bd_source_key = None\<rparr>"
    using composite_definition_checked [of "''file.loop''" "''loop''" "''1.0''" "[]" "[]" "[]"
        "[self_step]" "[]" self_composite] ok by blast
  with ok show ?thesis by simp
qed

subsection \<open>Invocation\<close>

definition cstep_ok :: "composite_step \<Rightarrow> bool" where
  "cstep_ok s \<longleftrightarrow> strip (cs_step_id s) = cs_step_id s \<and> cs_step_id s \<noteq> [] \<and> CHR ''.'' \<in> set (cs_capability s)"

lemma mk_composite_step_ok: "mk_composite_step i cap k bs desc = Inr s \<Longrightarrow> cstep_ok s"
  by (auto simp: mk_composite_step_def cstep_ok_def split: if_splits)

lemma strip_empty: "strip s = [] \<longleftrightarrow> (\<forall>c \<in> set s. is_space c)"
proof -
  have "dropWhile is_space s = [] \<longleftrightarrow> (\<forall>c \<in> set s. is_space c)" by (simp add: dropWhile_eq_Nil_conv)
  moreover have "(\<forall>c \<in> set (dropWhile is_space s). is_space c) \<longleftrightarrow> dropWhile is_space s = []"
    by (metis dropWhile_eq_Nil_conv dropWhile_idem)
  ultimately show ?thesis by (simp add: strip_def dropWhile_eq_Nil_conv)
qed

lemma step_workflow_ok:
  assumes "cstep_ok s"
  shows "\<exists>w. step_workflow wid cid s ins = Inr w \<and> map ws_step_id (wf_steps w) = [cs_step_id s]
    \<and> list_all step_ok (wf_steps w)"
proof -
  have "\<not> is_space (CHR '':'')" by (simp add: str_eval)
  then have "strip (cid @ ''::'' @ cs_step_id s) \<noteq> []" by (auto simp: strip_empty)
  with assms show ?thesis
    by (auto simp: step_workflow_def mk_wf_step_def mk_workflow_def cstep_ok_def step_ok_def)
qed

text \<open>A run of one step has one result, and the workflow's state says whether it completed.\<close>

lemma run_one_step:
  assumes steps: "map ws_step_id (wf_steps w) = [sid]" and ok: "list_all step_ok (wf_steps w)"
    and run: "run_workflow eng w st = (out, st')"
  shows "\<exists>wr r. out = Inr wr \<and> wr_step_results wr = [r] \<and> sr_step_id r = sid
    \<and> (\<not> sr_is_success r \<longrightarrow> wr_state wr \<in> {WF_FAILED, WF_CANCELLED})"
proof -
  from run_workflow_outcome [OF ok, of eng st, unfolded run_outcome_def run fst_conv] obtain wr where
    wr: "out = Inr wr" "map sr_step_id (wr_step_results wr) = map ws_step_id (wf_steps w)"
      "run_shape False (map sr_state (wr_step_results wr))"
      "wr_state wr = final_state (map sr_state (wr_step_results wr))"
    by (elim exE conjE)
  from wr(2) obtain r where r: "wr_step_results wr = [r]" "sr_step_id r = sid"
    unfolding steps by (cases "wr_step_results wr") auto
  have "wr_state wr \<in> {WF_FAILED, WF_CANCELLED}" if "\<not> sr_is_success r"
    using wr(3,4) that by (cases "sr_state r") (simp_all add: r(1) sr_is_success_def final_state_def)
  with wr(1) r show ?thesis by blast
qed

definition binding_failure :: "exn \<Rightarrow> bool" where
  "binding_failure e \<longleftrightarrow> exn_class e = Workflow_Exn (Composite CompositeBindingError)"

lemma resolve_binding_Inl: "resolve_binding_value b sid f ctx = Inl e \<Longrightarrow> binding_failure e"
  by (auto simp: resolve_binding_value_def binding_failure_def composite_binding_error_def
      split: binding_source.splits option.splits sum.splits pyval.splits)

lemma resolve_binding_step:
  "resolve_binding_value b sid f ctx = Inr v \<Longrightarrow> bd_source b = BIND_STEP \<Longrightarrow>
     dmem (bd_source_id b) (xc_step_outputs ctx)"
  by (auto simp: resolve_binding_value_def dmem_def split: option.splits)

lemma resolve_bindings_Inl: "resolve_bindings sid ctx bs acc = Inl e \<Longrightarrow> binding_failure e"
  by (induction sid ctx bs acc rule: resolve_bindings.induct)
    (auto dest: resolve_binding_Inl split: sum.splits)

lemma resolve_bindings_Inr:
  "resolve_bindings sid ctx bs acc = Inr d \<Longrightarrow>
     (\<forall>k. dmem k d \<longleftrightarrow> dmem k acc \<or> k \<in> fst ` set bs)
     \<and> (\<forall>b \<in> bindings_of bs. bd_source b = BIND_STEP \<longrightarrow> dmem (bd_source_id b) (xc_step_outputs ctx))"
proof (induction sid ctx bs acc rule: resolve_bindings.induct)
  case (1 sid ctx acc)
  then show ?case by simp
next
  case (2 sid ctx f b bs acc)
  then show ?case by (auto dest: resolve_binding_step split: sum.splits)
qed

text \<open>What the loop over the steps ends with: an error, an early result, or all steps done.\<close>

definition steps_done :: "composite_step list \<Rightarrow> step_result list \<Rightarrow> bool" where
  "steps_done ss rs \<longleftrightarrow> map sr_step_id rs = map cs_step_id ss \<and> list_all sr_is_success rs"

definition steps_stopped :: "composite_step list \<Rightarrow> step_result list \<Rightarrow> bool" where
  "steps_stopped ss rs \<longleftrightarrow>
     (\<exists>k. map sr_step_id rs = take k (map cs_step_id ss)) \<and> list_all sr_is_success (butlast rs)"

text \<open>Every reference to a step goes to \<open>ids\<close> or to an earlier step of the list.\<close>

definition backward :: "string set \<Rightarrow> composite_step list \<Rightarrow> bool" where
  "backward ids ss \<longleftrightarrow> (\<forall>pre s post. ss = pre @ s # post \<longrightarrow>
     (\<forall>b \<in> bindings_of (cs_input_bindings s). bd_source b = BIND_STEP \<longrightarrow>
        bd_source_id b \<in> ids \<union> step_ids pre))"

lemma backward_Nil: "backward ids []"
  by (simp add: backward_def)

lemma backward_Cons:
  assumes "\<forall>b \<in> bindings_of (cs_input_bindings s). bd_source b = BIND_STEP \<longrightarrow> bd_source_id b \<in> ids"
    and "backward (insert (cs_step_id s) ids) ss"
  shows "backward ids (s # ss)"
  unfolding backward_def
proof (intro allI impI ballI)
  fix pre t post b
  assume eq: "s # ss = pre @ t # post" and b: "b \<in> bindings_of (cs_input_bindings t)" "bd_source b = BIND_STEP"
  show "bd_source_id b \<in> ids \<union> step_ids pre"
  proof (cases pre)
    case Nil
    with eq b assms(1) show ?thesis by simp
  next
    case (Cons p pre')
    with eq have "ss = pre' @ t # post" "p = s" by simp_all
    with assms(2) b have "bd_source_id b \<in> insert (cs_step_id s) ids \<union> step_ids pre'"
      unfolding backward_def by blast
    with Cons \<open>p = s\<close> show ?thesis by auto
  qed
qed

definition loop_spec :: "composite_step list \<Rightarrow> exec_context \<Rightarrow> step_result list
    \<Rightarrow> (composite_result + exec_context \<times> step_result list) result \<Rightarrow> bool" where
  "loop_spec ss ctx rs out \<longleftrightarrow>
     (case out of
        Inl e \<Rightarrow> binding_failure e
      | Inr (Inl r) \<Rightarrow> cpr_outputs r = [] \<and> cpr_state r \<in> {''FAILED'', ''CANCELLED''}
          \<and> (\<exists>rs'. cpr_step_results r = rs @ rs' \<and> steps_stopped ss rs')
      | Inr (Inr (ctx', rs2)) \<Rightarrow> (\<exists>rs'. rs2 = rs @ rs' \<and> steps_done ss rs')
          \<and> xc_inputs ctx' = xc_inputs ctx
          \<and> (\<forall>k. dmem k (xc_step_outputs ctx') \<longleftrightarrow> dmem k (xc_step_outputs ctx) \<or> k \<in> step_ids ss)
          \<and> backward {k. dmem k (xc_step_outputs ctx)} ss)"

lemma loop_spec_Cons:
  assumes rest: "loop_spec ss (ctx\<lparr>xc_step_outputs := dset (cs_step_id s) v (xc_step_outputs ctx)\<rparr>)
      (rs @ [r]) out"
    and r: "sr_step_id r = cs_step_id s" "sr_is_success r"
    and bs: "\<forall>b \<in> bindings_of (cs_input_bindings s). bd_source b = BIND_STEP \<longrightarrow>
      dmem (bd_source_id b) (xc_step_outputs ctx)"
  shows "loop_spec (s # ss) ctx rs out"
proof (cases out)
  case (Inl e)
  with rest show ?thesis by (simp add: loop_spec_def)
next
  case (Inr x)
  show ?thesis
  proof (cases x)
    case (Inl res)
    with Inr rest obtain rs' k where rs': "cpr_step_results res = rs @ r # rs'"
      "map sr_step_id rs' = take k (map cs_step_id ss)" "list_all sr_is_success (butlast rs')"
      by (auto simp: loop_spec_def steps_stopped_def)
    then have "map sr_step_id (r # rs') = take (Suc k) (map cs_step_id (s # ss))"
      and "list_all sr_is_success (butlast (r # rs'))"
      using r by auto
    then have "steps_stopped (s # ss) (r # rs')" unfolding steps_stopped_def by blast
    with rest Inl Inr rs'(1) show ?thesis by (auto simp: loop_spec_def)
  next
    case (Inr y)
    obtain ctx' rs2 where y: "y = (ctx', rs2)" by force
    with Inr \<open>out = Inr x\<close> rest obtain rs' where rs': "rs2 = rs @ r # rs'" "steps_done ss rs'"
      by (auto simp: loop_spec_def)
    then have "steps_done (s # ss) (r # rs')" using r by (simp add: steps_done_def)
    with rs'(1) have done': "\<exists>rs'. rs2 = rs @ rs' \<and> steps_done (s # ss) rs'" by blast
    have "{k. dmem k (dset (cs_step_id s) v (xc_step_outputs ctx))}
        = insert (cs_step_id s) {k. dmem k (xc_step_outputs ctx)}" by auto
    with rest \<open>out = Inr x\<close> Inr y have "backward (insert (cs_step_id s) {k. dmem k (xc_step_outputs ctx)}) ss"
      by (simp add: loop_spec_def)
    with bs have "backward {k. dmem k (xc_step_outputs ctx)} (s # ss)"
      by (intro backward_Cons) simp_all
    with rest done' \<open>out = Inr x\<close> Inr y show ?thesis by (auto simp: loop_spec_def)
  qed
qed

lemma invoke_steps_spec:
  "list_all cstep_ok ss \<Longrightarrow> loop_spec ss ctx rs (fst (invoke_steps ce token cid ss ctx rs st))"
proof (induction ss arbitrary: ctx rs st)
  case Nil
  then show ?case by (simp add: loop_spec_def steps_done_def backward_Nil)
next
  case (Cons s ss)
  then have ok: "cstep_ok s" and oks: "list_all cstep_ok ss" by simp_all
  let ?tok = "case token of None \<Rightarrow> new_token | Some t \<Rightarrow> t (fst st)"
  let ?eng = "(ce_engine ce)\<lparr>we_token := (case token of None \<Rightarrow> (\<lambda>_. new_token) | Some t \<Rightarrow> t)\<rparr>"
  show ?case
  proof (cases "ct_cancelled ?tok")
    case True
    have "steps_stopped (s # ss) []" unfolding steps_stopped_def by (auto intro: exI [of _ 0])
    with True show ?thesis by (auto simp: loop_spec_def Let_def)
  next
    case live: False
    show ?thesis
    proof (cases "resolve_step_bindings s ctx")
      case (Inl e)
      then have "binding_failure e" by (simp add: resolve_step_bindings_def resolve_bindings_Inl)
      with live Inl show ?thesis by (simp add: loop_spec_def Let_def)
    next
      case (Inr ins)
      obtain w where w: "step_workflow (ce_uuid ce (fst st)) cid s ins = Inr w"
        "map ws_step_id (wf_steps w) = [cs_step_id s]" "list_all step_ok (wf_steps w)"
        using step_workflow_ok [OF ok, of "ce_uuid ce (fst st)" cid ins] by (elim exE conjE)
      obtain out st' where run: "run_workflow ?eng w st = (out, st')" by (meson surj_pair)
      from run_one_step [OF w(2,3) run] obtain wr r where wr: "out = Inr wr" "wr_step_results wr = [r]"
        "sr_step_id r = cs_step_id s" and stop: "\<not> sr_is_success r \<Longrightarrow> wr_state wr \<in> {WF_FAILED, WF_CANCELLED}"
        by blast
      show ?thesis
      proof (cases "sr_is_success r")
        case False
        have one: "map sr_step_id [r] = take 1 (map cs_step_id (s # ss))"
          "list_all sr_is_success (butlast [r])" using wr(3) by simp_all
        have "steps_stopped (s # ss) [r]" unfolding steps_stopped_def using one by blast
        with False stop live Inr w(1) run wr(1,2) show ?thesis
          by (auto simp: loop_spec_def Let_def)
      next
        case True
        have "invoke_steps ce token cid (s # ss) ctx rs st = invoke_steps ce token cid ss
             (ctx\<lparr>xc_step_outputs := dset (cs_step_id s) (case sr_output r of None \<Rightarrow> PNone | Some v \<Rightarrow> v)
                  (xc_step_outputs ctx)\<rparr>) (rs @ [r]) st'"
          using True live Inr w(1) run wr(1,2) by (simp add: Let_def)
        moreover have "\<forall>b \<in> bindings_of (cs_input_bindings s). bd_source b = BIND_STEP \<longrightarrow>
            dmem (bd_source_id b) (xc_step_outputs ctx)"
          using resolve_bindings_Inr Inr unfolding resolve_step_bindings_def by blast
        ultimately show ?thesis
          using loop_spec_Cons [OF Cons.IH [OF oks] wr(3) True] by simp
      qed
    qed
  qed
qed

lemma validate_inputs_iff: "validate_inputs c ins = Inr u \<longleftrightarrow> (\<forall>n \<in> set (cp_inputs c). dmem n ins)"
  by (auto simp: validate_inputs_def Let_def filter_empty_conv)

lemma validate_inputs_Inl:
  "validate_inputs c ins = Inl e \<Longrightarrow> exn_class e = Workflow_Exn (Composite CompositeInputError)"
  by (auto simp: validate_inputs_def composite_input_error_def Let_def split: if_splits)

text \<open>An invocation with all inputs is the loop over the steps and then the outputs.\<close>

lemma invoke_eq:
  assumes "cpr_get (ce_registry ce) cid = Some c" and "\<forall>n \<in> set (cp_inputs c). dmem n ins"
  shows "fst (invoke ce cid ins token st) =
    (case fst (invoke_steps ce token cid (cp_steps c) \<lparr>xc_inputs = ins, xc_step_outputs = []\<rparr> [] st) of
       Inl e \<Rightarrow> Inl e
     | Inr (Inl r) \<Rightarrow> Inr r
     | Inr (Inr (ctx, rs)) \<Rightarrow> (case resolve_output_bindings c ctx of
         Inl e \<Rightarrow> Inl e
       | Inr outs \<Rightarrow> Inr \<lparr>cpr_capability_id = cid, cpr_state = ''COMPLETED'', cpr_outputs = outs,
                         cpr_step_results = rs, cpr_error_detail = None\<rparr>))"
proof -
  have "validate_inputs c ins = Inr ()" using assms(2) validate_inputs_iff by blast
  then show ?thesis
    using assms(1) by (auto simp: invoke_def cpr_require_def cpr_get_def split: prod.split sum.split)
qed

lemma invoke_needs_inputs:
  "cpr_get (ce_registry ce) cid = Some c \<Longrightarrow> fst (invoke ce cid ins token st) = Inr r \<Longrightarrow>
     \<forall>n \<in> set (cp_inputs c). dmem n ins"
  using validate_inputs_iff [of c ins "()"]
  by (cases "validate_inputs c ins") (auto simp: invoke_def cpr_require_def cpr_get_def)

definition invocation_ok :: "composite \<Rightarrow> composite_result result \<Rightarrow> bool" where
  "invocation_ok c out \<longleftrightarrow>
     (case out of
        Inl e \<Rightarrow> binding_failure e
      | Inr r \<Rightarrow>
          if cpr_state r = ''COMPLETED''
          then steps_done (cp_steps c) (cpr_step_results r)
             \<and> (\<forall>k. dmem k (cpr_outputs r) \<longleftrightarrow> k \<in> fst ` set (cp_outputs c))
             \<and> backward {} (cp_steps c)
          else cpr_state r \<in> {''FAILED'', ''CANCELLED''} \<and> cpr_outputs r = []
             \<and> steps_stopped (cp_steps c) (cpr_step_results r))"

lemma invoke_ok:
  assumes reg: "cpr_get (ce_registry ce) cid = Some c" and ins: "\<forall>n \<in> set (cp_inputs c). dmem n ins"
    and ok: "list_all cstep_ok (cp_steps c)"
  shows "invocation_ok c (fst (invoke ce cid ins token st))"
proof -
  let ?ctx = "\<lparr>xc_inputs = ins, xc_step_outputs = []\<rparr>"
  obtain out where out: "fst (invoke_steps ce token cid (cp_steps c) ?ctx [] st) = out" by blast
  from invoke_steps_spec [OF ok, of ?ctx "[]" ce token cid st] have spec: "loop_spec (cp_steps c) ?ctx [] out"
    by (simp only: out)
  have outs: "resolve_output_bindings c ctx = Inr d \<Longrightarrow> dmem k d \<longleftrightarrow> k \<in> fst ` set (cp_outputs c)" for ctx d k
    using resolve_bindings_Inr [of "''output''" ctx "cp_outputs c" "[]" d]
    by (simp add: resolve_output_bindings_def dmem_def)
  have fails: "resolve_output_bindings c ctx = Inl e \<Longrightarrow> binding_failure e" for ctx e
    using resolve_bindings_Inl by (auto simp: resolve_output_bindings_def)
  have none: "{k. dmem k []} = {}" by (simp add: dmem_def)
  show ?thesis
    unfolding invoke_eq [OF reg ins] out
    using spec outs fails
    by (auto simp: loop_spec_def invocation_ok_def none split: sum.splits prod.splits)
qed

text \<open>
  C18. Invoking a registered composite with a missing input raises \<open>CompositeInputError\<close>. With all
  inputs it raises nothing but \<open>CompositeBindingError\<close>. A COMPLETED result has one successful
  step result for each step, in order, and exactly the declared outputs; any other result is
  FAILED or CANCELLED, has no outputs, and its step results are those of a prefix of the steps,
  all successful but possibly the last.
\<close>

theorem composite_invocation_outcome:
  assumes reg: "cpr_get (ce_registry ce) cid = Some c" and ok: "list_all cstep_ok (cp_steps c)"
  shows "(case fst (invoke ce cid ins token st) of
       Inl e \<Rightarrow> exn_class e = Workflow_Exn (Composite
           (if \<forall>n \<in> set (cp_inputs c). dmem n ins then CompositeBindingError else CompositeInputError))
     | Inr r \<Rightarrow> (\<forall>n \<in> set (cp_inputs c). dmem n ins)
         \<and> (if cpr_state r = ''COMPLETED''
            then map sr_step_id (cpr_step_results r) = map cs_step_id (cp_steps c)
               \<and> list_all sr_is_success (cpr_step_results r)
               \<and> (\<forall>k. dmem k (cpr_outputs r) \<longleftrightarrow> k \<in> fst ` set (cp_outputs c))
            else cpr_state r \<in> {''FAILED'', ''CANCELLED''} \<and> cpr_outputs r = []
               \<and> (\<exists>k. map sr_step_id (cpr_step_results r) = take k (map cs_step_id (cp_steps c)))
               \<and> list_all sr_is_success (butlast (cpr_step_results r))))"
proof (cases "\<forall>n \<in> set (cp_inputs c). dmem n ins")
  case True
  from invoke_ok [OF reg True ok, of token st] True show ?thesis
    by (auto simp: invocation_ok_def binding_failure_def steps_done_def steps_stopped_def
        split: sum.splits if_splits)
next
  case False
  then obtain e where "validate_inputs c ins = Inl e"
    by (metis validate_inputs_iff sum.exhaust)
  with False reg show ?thesis
    using validate_inputs_Inl by (simp add: invoke_def cpr_require_def cpr_get_def)
qed

definition loop_engine :: "unit composite_engine" where
  "loop_engine = \<lparr>ce_engine = echo_engine False, ce_registry = [(''file.loop'', self_composite)],
     ce_uuid = (\<lambda>w. ''u'')\<rparr>"

lemma self_composite_facts:
  "cpr_get (ce_registry loop_engine) ''file.loop'' = Some self_composite"
  "list_all cstep_ok (cp_steps self_composite)" "cp_inputs self_composite = []"
  by (simp_all add: loop_engine_def cpr_get_def self_composite_def self_step_def cstep_ok_def str_eval)

lemma self_composite_raises: "isl (fst (invoke loop_engine ''file.loop'' [] None ((), [])))"
  by code_simp

theorem composite_invocation_outcome_witness:
  "\<exists>e. fst (invoke loop_engine ''file.loop'' [] None ((), [])) = Inl e
     \<and> exn_class e = Workflow_Exn (Composite CompositeBindingError)"
proof -
  obtain e where e: "fst (invoke loop_engine ''file.loop'' [] None ((), [])) = Inl e"
    using self_composite_raises by (auto simp: isl_def)
  from composite_invocation_outcome [OF self_composite_facts(1,2), of "[]" None "((), [])"] e show ?thesis
    by (simp add: self_composite_facts(3))
qed

text \<open>
  C32. A composite in which a step refers to its own output, which the definition check accepts, can
  never complete: whatever the engine, the inputs and the token, its invocation raises or ends
  FAILED or CANCELLED.
\<close>

theorem composite_self_reference_never_completes:
  assumes reg: "cpr_get (ce_registry ce) cid = Some c" and ok: "list_all cstep_ok (cp_steps c)"
    and ids: "distinct (map cs_step_id (cp_steps c))" and step: "s \<in> set (cp_steps c)"
    and b: "b \<in> bindings_of (cs_input_bindings s)" "bd_source b = BIND_STEP"
      "bd_source_id b = cs_step_id s"
  shows "\<nexists>r. fst (invoke ce cid ins token st) = Inr r \<and> cpr_state r = ''COMPLETED''"
proof (rule notI, elim exE conjE)
  fix r
  assume r: "fst (invoke ce cid ins token st) = Inr r" "cpr_state r = ''COMPLETED''"
  have ins: "\<forall>n \<in> set (cp_inputs c). dmem n ins"
    by (rule invoke_needs_inputs [OF reg r(1)])
  from step obtain pre post where ss: "cp_steps c = pre @ s # post" by (meson split_list)
  have "backward {} (cp_steps c)"
    using invoke_ok [OF reg ins ok, of token st] r by (simp add: invocation_ok_def)
  with ss b have "cs_step_id s \<in> step_ids pre" unfolding backward_def by fastforce
  with ids ss show False by (auto simp: step_ids_def)
qed

theorem composite_self_reference_never_completes_witness:
  "\<nexists>r. fst (invoke loop_engine ''file.loop'' [] None ((), [])) = Inr r \<and> cpr_state r = ''COMPLETED''"
  by (rule composite_self_reference_never_completes [OF self_composite_facts(1,2), of self_step
        "\<lparr>bd_source = BIND_STEP, bd_source_id = ''a'', bd_source_key = None\<rparr>"])
    (simp_all add: self_composite_def self_step_def)

subsection \<open>Definitions that cannot fail to bind\<close>

text \<open>A whole-value reference to an input, or to one of the steps \<open>ids\<close>.\<close>

definition plain :: "string list \<Rightarrow> string set \<Rightarrow> binding \<Rightarrow> bool" where
  "plain ins ids b \<longleftrightarrow> bd_source_key b = None \<and> refers ins ids b"

fun steps_plain :: "string list \<Rightarrow> string set \<Rightarrow> composite_step list \<Rightarrow> bool" where
  "steps_plain ins ids [] \<longleftrightarrow> True"
| "steps_plain ins ids (s # ss) \<longleftrightarrow>
     (\<forall>b \<in> bindings_of (cs_input_bindings s). plain ins ids b)
     \<and> steps_plain ins (insert (cs_step_id s) ids) ss"

lemma resolve_plain:
  assumes "plain ins ids b" and "\<forall>n \<in> set ins. dmem n (xc_inputs ctx)"
    and "\<forall>i \<in> ids. dmem i (xc_step_outputs ctx)"
  shows "\<exists>v. resolve_binding_value b sid f ctx = Inr v"
  using assms
  by (auto simp: plain_def refers_def resolve_binding_value_def dmem_def split: binding_source.splits)

lemma resolve_bindings_plain:
  "\<forall>b \<in> bindings_of bs. plain ins ids b \<Longrightarrow> \<forall>n \<in> set ins. dmem n (xc_inputs ctx) \<Longrightarrow>
     \<forall>i \<in> ids. dmem i (xc_step_outputs ctx) \<Longrightarrow> \<exists>d. resolve_bindings sid ctx bs acc = Inr d"
proof (induction bs arbitrary: acc)
  case Nil
  then show ?case by simp
next
  case (Cons x bs)
  obtain f b where x: "x = (f, b)" by force
  with Cons.prems obtain v where "resolve_binding_value b sid f ctx = Inr v"
    using resolve_plain [of ins ids b ctx sid f] by auto
  with Cons x show ?case by simp
qed

lemma invoke_steps_plain:
  "list_all cstep_ok ss \<Longrightarrow> steps_plain ins ids ss \<Longrightarrow> \<forall>n \<in> set ins. dmem n (xc_inputs ctx) \<Longrightarrow>
     \<forall>i \<in> ids. dmem i (xc_step_outputs ctx) \<Longrightarrow>
     \<exists>out. fst (invoke_steps ce token cid ss ctx rs st) = Inr out"
proof (induction ss arbitrary: ids ctx rs st)
  case Nil
  then show ?case by simp
next
  case (Cons s ss)
  then have ok: "cstep_ok s" and oks: "list_all cstep_ok ss" by simp_all
  let ?tok = "case token of None \<Rightarrow> new_token | Some t \<Rightarrow> t (fst st)"
  let ?eng = "(ce_engine ce)\<lparr>we_token := (case token of None \<Rightarrow> (\<lambda>_. new_token) | Some t \<Rightarrow> t)\<rparr>"
  show ?case
  proof (cases "ct_cancelled ?tok")
    case True
    then show ?thesis by (simp add: Let_def)
  next
    case live: False
    have "\<exists>d. resolve_bindings (cs_step_id s) ctx (cs_input_bindings s) [] = Inr d"
      by (rule resolve_bindings_plain [where ins = ins and ids = ids]) (use Cons.prems in simp_all)
    then obtain d where d: "resolve_step_bindings s ctx = Inr d"
      unfolding resolve_step_bindings_def by (elim exE)
    obtain w where w: "step_workflow (ce_uuid ce (fst st)) cid s d = Inr w"
      "map ws_step_id (wf_steps w) = [cs_step_id s]" "list_all step_ok (wf_steps w)"
      using step_workflow_ok [OF ok, of "ce_uuid ce (fst st)" cid d] by (elim exE conjE)
    obtain out st' where run: "run_workflow ?eng w st = (out, st')" by (meson surj_pair)
    from run_one_step [OF w(2,3) run] obtain wr r where wr: "out = Inr wr" "wr_step_results wr = [r]"
      by blast
    let ?ctx = "ctx\<lparr>xc_step_outputs := dset (cs_step_id s)
        (case sr_output r of None \<Rightarrow> PNone | Some v \<Rightarrow> v) (xc_step_outputs ctx)\<rparr>"
    have "\<exists>out. fst (invoke_steps ce token cid ss ?ctx (rs @ [r]) st') = Inr out"
      using Cons.prems by (intro Cons.IH [OF oks, of "insert (cs_step_id s) ids"]) auto
    with live d w(1) run wr show ?thesis by (cases "sr_is_success r") (simp_all add: Let_def)
  qed
qed

text \<open>
  When no binding extracts a key and every step refers only to declared inputs and earlier
  steps, an invocation with all inputs never raises, whatever its steps do.
\<close>

theorem plain_composite_never_raises:
  assumes reg: "cpr_get (ce_registry ce) cid = Some c" and ok: "list_all cstep_ok (cp_steps c)"
    and steps: "steps_plain (cp_inputs c) {} (cp_steps c)"
    and outs: "\<forall>b \<in> bindings_of (cp_outputs c). plain (cp_inputs c) (step_ids (cp_steps c)) b"
    and ins: "\<forall>n \<in> set (cp_inputs c). dmem n ins"
  shows "\<exists>r. fst (invoke ce cid ins token st) = Inr r"
proof -
  let ?ctx = "\<lparr>xc_inputs = ins, xc_step_outputs = []\<rparr>"
  have "\<exists>out. fst (invoke_steps ce token cid (cp_steps c) ?ctx [] st) = Inr out"
    by (rule invoke_steps_plain [OF ok steps]) (use ins in simp_all)
  then obtain out where out: "fst (invoke_steps ce token cid (cp_steps c) ?ctx [] st) = Inr out"
    by (elim exE)
  have spec: "loop_spec (cp_steps c) ?ctx [] (Inr out)"
    using invoke_steps_spec [OF ok, of ?ctx "[]" ce token cid st] by (simp only: out)
  show ?thesis
  proof (cases out)
    case (Inl r)
    then show ?thesis by (simp add: invoke_eq [OF reg ins] out)
  next
    case (Inr p)
    obtain ctx rs where p: "p = (ctx, rs)" by force
    have "\<forall>n \<in> set (cp_inputs c). dmem n (xc_inputs ctx)"
      "\<forall>i \<in> step_ids (cp_steps c). dmem i (xc_step_outputs ctx)"
      using spec ins by (auto simp: Inr p loop_spec_def)
    from resolve_bindings_plain [OF outs this] obtain d where "resolve_output_bindings c ctx = Inr d"
      unfolding resolve_output_bindings_def by blast
    then show ?thesis by (simp add: invoke_eq [OF reg ins] out Inr p)
  qed
qed

definition copy_composite :: composite where
  "copy_composite = \<lparr>cp_capability_id = ''file.copy'', cp_name = ''copy'', cp_version = ''1.0'',
     cp_description = [], cp_inputs = [''src''],
     cp_outputs = [(''out'', \<lparr>bd_source = BIND_STEP, bd_source_id = ''a'', bd_source_key = None\<rparr>)],
     cp_steps = [self_step\<lparr>cs_input_bindings :=
       [(''path'', \<lparr>bd_source = BIND_INPUT, bd_source_id = ''src'', bd_source_key = None\<rparr>)]\<rparr>],
     cp_metadata = []\<rparr>"

theorem plain_composite_never_raises_witness:
  "\<exists>r. fst (invoke (loop_engine\<lparr>ce_registry := [(''file.copy'', copy_composite)]\<rparr>) ''file.copy''
      [(''src'', PStr ''x'')] None ((), [])) = Inr r"
  by (rule plain_composite_never_raises [of _ _ copy_composite])
    (simp_all add: cpr_get_def copy_composite_def self_step_def cstep_ok_def str_eval plain_def
      refers_def dmem_def)

end
