(* ===== verification/Shyam_Json.thy ===== *)
theory Shyam_Json
  imports Shyam_Gateway
begin

section \<open>JSON documents kept in files\<close>

text \<open>
  The trust store, the identity and the synchronisation messages are JSON documents. A store
  file is what \<open>json.loads\<close> makes of its text: absent, unreadable, not
  UTF-8, blank, malformed or a value. \<open>json.dumps(..., sort_keys=True)\<close> sorts the keys at every level, so what is read
  back is the document with its dictionaries in key order. The text of a time stamp, and what
  pydantic accepts as one, are arguments with the law that a printed time is read back.
\<close>

datatype json_file = Missing | Unreadable string | Undecodable string | Blank | Malformed string | Json pyval

definition sort_dict :: "(string, 'v) dict \<Rightarrow> (string, 'v) dict" where
  "sort_dict d = sort_key fst d"

fun sort_keys :: "pyval \<Rightarrow> pyval" where
  "sort_keys (PList xs) = PList (map sort_keys xs)"
| "sort_keys (PDict d) = PDict (sort_dict (map (\<lambda>(k, v). (k, sort_keys v)) d))"
| "sort_keys PNone = PNone"
| "sort_keys (PBool b) = PBool b"
| "sort_keys (PInt i) = PInt i"
| "sort_keys (PStr s) = PStr s"

record time_codec =
  tc_print :: "time \<Rightarrow> string"
  tc_read :: "pyval \<Rightarrow> time option"

definition codec_ok :: "time_codec \<Rightarrow> bool" where
  "codec_ok tc \<longleftrightarrow> (\<forall>t. tc_read tc (PStr (tc_print tc t)) = Some t)"

text \<open>A codec that prints the microseconds in unary after a sign.\<close>

definition unary_codec :: time_codec where
  "unary_codec =
     \<lparr>tc_print = (\<lambda>t. (if t < 0 then CHR ''-'' else CHR ''+'') # replicate (nat \<bar>t\<bar>) CHR ''1''),
      tc_read = (\<lambda>v. case v of
          PStr (c # ds) \<Rightarrow> Some (if c = CHR ''-'' then - int (length ds) else int (length ds))
        | _ \<Rightarrow> None)\<rparr>"

lemma unary_codec_ok: "codec_ok unary_codec"
  by (simp add: codec_ok_def unary_codec_def)

subsection \<open>Sorting dictionaries\<close>

lemma dict_ok_sort [simp]: "dict_ok (sort_dict d) = dict_ok d"
  by (simp add: dict_ok_def sort_dict_def distinct_map inj_on_def cong: conj_cong)

lemma dget_sort [dict_simps, simp]: "dict_ok d \<Longrightarrow> dget (sort_dict d) k = dget d k"
  by (rule map_of_inject_set [THEN iffD2, THEN fun_cong])
    (simp_all add: dict_ok_def sort_dict_def distinct_map inj_on_def cong: conj_cong)

lemma dmem_sort [dict_simps, simp]: "dmem k (sort_dict d) = dmem k d"
  by (simp add: dmem_keys sort_dict_def)

lemma sort_dict_map:
  "sort_dict (map (\<lambda>(k, v). (k, f v)) d) = map (\<lambda>(k, v). (k, f v)) (sort_dict d)"
proof -
  have ins: "insort_key fst (k, f v) (map (\<lambda>(k, v). (k, f v)) d)
      = map (\<lambda>(k, v). (k, f v)) (insort_key fst (k, v) d)" for k v d
    by (induction d) auto
  show ?thesis by (induction d) (auto simp: sort_dict_def ins)
qed

lemma sort_dict_idem [simp]: "sort_dict (sort_dict d) = sort_dict d"
  by (simp add: sort_dict_def sort_key_id_if_sorted)

end
