(* ===== verification/Shyam_Trust.thy ===== *)
theory Shyam_Trust
  imports Shyam_Json
begin

section \<open>Trust: local decisions about other nodes and their persistence\<close>

text \<open>
  \<open>trust/models.py\<close>, \<open>trust/store.py\<close> and \<open>trust/service.py\<close>. The state of the service is its
  dictionary of records and whether it has loaded them; the disk is the store file and, when
  writing fails, the operating system's error. Every operation holds the service's lock from
  its first read to its save, so operations are sequential.
\<close>

subsection \<open>trust/models.py\<close>

datatype trust_status = TRUST_UNKNOWN | TRUST_TRUSTED | TRUST_REVOKED

datatype relationship = REL_NONE | REL_PERSONAL | REL_PEER | REL_INFRASTRUCTURE

fun trust_status_value :: "trust_status \<Rightarrow> string" where
  "trust_status_value TRUST_UNKNOWN = ''unknown''"
| "trust_status_value TRUST_TRUSTED = ''trusted''"
| "trust_status_value TRUST_REVOKED = ''revoked''"

fun relationship_value :: "relationship \<Rightarrow> string" where
  "relationship_value REL_NONE = ''none''"
| "relationship_value REL_PERSONAL = ''personal''"
| "relationship_value REL_PEER = ''peer''"
| "relationship_value REL_INFRASTRUCTURE = ''infrastructure''"

record trust_record =
  tr_node_id :: string
  tr_public_key :: "string option"
  tr_status :: trust_status
  tr_relationship :: relationship
  tr_alias :: string
  tr_created_at :: time
  tr_updated_at :: time
  tr_metadata :: "(string, pyval) dict"

definition tr_is_trusted :: "trust_record \<Rightarrow> bool" where
  "tr_is_trusted r \<longleftrightarrow> tr_status r = TRUST_TRUSTED"

definition tr_is_revoked :: "trust_record \<Rightarrow> bool" where
  "tr_is_revoked r \<longleftrightarrow> tr_status r = TRUST_REVOKED"

definition with_status ::
  "time \<Rightarrow> trust_record \<Rightarrow> trust_status \<Rightarrow> relationship option \<Rightarrow> string option \<Rightarrow> string option
     \<Rightarrow> (string, pyval) dict option \<Rightarrow> trust_record" where
  "with_status now r status rel al key meta =
     r\<lparr>tr_status := status, tr_updated_at := now,
       tr_relationship := (case rel of None \<Rightarrow> tr_relationship r | Some x \<Rightarrow> x),
       tr_alias := (case al of None \<Rightarrow> tr_alias r | Some x \<Rightarrow> x),
       tr_public_key := (case key of None \<Rightarrow> tr_public_key r | Some x \<Rightarrow> Some x),
       tr_metadata := (case meta of None \<Rightarrow> tr_metadata r | Some x \<Rightarrow> x)\<rparr>"

datatype trust_event =
    TrustGrantedEvent string "string option" relationship string
  | TrustRevokedEvent string "string option"

text \<open>\<open>model_dump(mode="json")\<close> and \<open>model_validate\<close>; \<open>now\<close> fills in missing time stamps.\<close>

definition dump_trust_record :: "time_codec \<Rightarrow> trust_record \<Rightarrow> pyval" where
  "dump_trust_record tc r = PDict
     [(''node_id'', PStr (tr_node_id r)),
      (''public_key'', case tr_public_key r of None \<Rightarrow> PNone | Some k \<Rightarrow> PStr k),
      (''status'', PStr (trust_status_value (tr_status r))),
      (''relationship'', PStr (relationship_value (tr_relationship r))),
      (''alias'', PStr (tr_alias r)),
      (''created_at'', PStr (tc_print tc (tr_created_at r))),
      (''updated_at'', PStr (tc_print tc (tr_updated_at r))),
      (''metadata'', PDict (tr_metadata r))]"

definition read_field :: "(string, pyval) dict \<Rightarrow> string \<Rightarrow> 'a option \<Rightarrow> (pyval \<Rightarrow> 'a option) \<Rightarrow> 'a option" where
  "read_field d k dflt rd = (case dget d k of None \<Rightarrow> dflt | Some v \<Rightarrow> rd v)"

fun read_str :: "pyval \<Rightarrow> string option" where
  "read_str (PStr s) = Some s"
| "read_str _ = None"

fun read_opt_str :: "pyval \<Rightarrow> string option option" where
  "read_opt_str (PStr s) = Some (Some s)"
| "read_opt_str PNone = Some None"
| "read_opt_str _ = None"

fun read_dict :: "pyval \<Rightarrow> (string, pyval) dict option" where
  "read_dict (PDict d) = Some d"
| "read_dict _ = None"

definition read_trust_status :: "pyval \<Rightarrow> trust_status option" where
  "read_trust_status v = find (\<lambda>s. v = PStr (trust_status_value s))
     [TRUST_UNKNOWN, TRUST_TRUSTED, TRUST_REVOKED]"

definition read_relationship :: "pyval \<Rightarrow> relationship option" where
  "read_relationship v = find (\<lambda>s. v = PStr (relationship_value s))
     [REL_NONE, REL_PERSONAL, REL_PEER, REL_INFRASTRUCTURE]"

definition read_trust_record :: "time_codec \<Rightarrow> time \<Rightarrow> pyval \<Rightarrow> trust_record option" where
  "read_trust_record tc now v =
     (case v of PDict d \<Rightarrow>
        (case (read_field d ''node_id'' None read_str,
               read_field d ''public_key'' (Some None) read_opt_str,
               read_field d ''status'' (Some TRUST_UNKNOWN) read_trust_status,
               read_field d ''relationship'' (Some REL_NONE) read_relationship,
               read_field d ''alias'' (Some []) read_str,
               read_field d ''created_at'' (Some now) (tc_read tc),
               read_field d ''updated_at'' (Some now) (tc_read tc),
               read_field d ''metadata'' (Some []) read_dict) of
           (Some n, Some k, Some s, Some r, Some a, Some c, Some u, Some m) \<Rightarrow>
             Some \<lparr>tr_node_id = n, tr_public_key = k, tr_status = s, tr_relationship = r,
                   tr_alias = a, tr_created_at = c, tr_updated_at = u, tr_metadata = m\<rparr>
         | _ \<Rightarrow> None)
      | _ \<Rightarrow> None)"

subsection \<open>trust/store.py\<close>

type_synonym trust_records = "(string, trust_record) dict"

record trust_disk =
  td_file :: json_file
  td_write_error :: "string option"

definition trust_store_error :: "string \<Rightarrow> exn" where
  "trust_store_error m = Exn (Trust_Exn TrustStoreError) m"

definition trust_corruption :: "string \<Rightarrow> exn" where
  "trust_corruption m = Exn (Trust_Exn TrustStoreCorruptionError) m"

fun read_trust_records ::
  "time_codec \<Rightarrow> time \<Rightarrow> (string, pyval) dict \<Rightarrow> trust_records \<Rightarrow> trust_records result" where
  "read_trust_records tc now [] acc = Inr acc"
| "read_trust_records tc now ((k, v) # d) acc =
     (case read_trust_record tc now v of
        None \<Rightarrow> Inl (trust_corruption ''Corrupted trust store file'')
      | Some r \<Rightarrow> read_trust_records tc now d (dset k r acc))"

definition trust_load :: "time_codec \<Rightarrow> time \<Rightarrow> trust_disk \<Rightarrow> trust_records result" where
  "trust_load tc now dk = (case td_file dk of
      Missing \<Rightarrow> Inr []
    | Unreadable m \<Rightarrow> Inl (trust_store_error m)
    | Undecodable m \<Rightarrow> Inl (Exn (Builtin ValueError) m)
    | Blank \<Rightarrow> Inr []
    | Malformed m \<Rightarrow> Inl (trust_corruption m)
    | Json (PDict d) \<Rightarrow> read_trust_records tc now d []
    | Json _ \<Rightarrow> Inl (trust_corruption ''Trust store content is not a JSON object''))"

text \<open>A save writes a temporary file and moves it over the store: on an error the store is as before.\<close>

definition trust_save :: "time_codec \<Rightarrow> trust_records \<Rightarrow> trust_disk \<Rightarrow> unit result \<times> trust_disk" where
  "trust_save tc rs dk = (case td_write_error dk of
      Some m \<Rightarrow> (Inl (trust_store_error m), dk)
    | None \<Rightarrow> (Inr (), dk\<lparr>td_file :=
        Json (sort_keys (PDict (map (\<lambda>(n, r). (n, dump_trust_record tc r)) rs)))\<rparr>))"

subsection \<open>trust/service.py\<close>

record trust_service =
  ts_records :: trust_records
  ts_initialized :: bool
  ts_event_bus :: bool

definition new_trust_service :: "bool \<Rightarrow> trust_service" where
  "new_trust_service bus = \<lparr>ts_records = [], ts_initialized = False, ts_event_bus = bus\<rparr>"

definition trust_initialize :: "time_codec \<Rightarrow> time \<Rightarrow> trust_disk \<Rightarrow> trust_service \<Rightarrow> trust_service result" where
  "trust_initialize tc now dk s =
     (if ts_initialized s then Inr s
      else (case trust_load tc now dk of
              Inl e \<Rightarrow> Inl e
            | Inr rs \<Rightarrow> Inr (s\<lparr>ts_records := rs, ts_initialized := True\<rparr>)))"

definition unknown_record :: "time \<Rightarrow> string \<Rightarrow> trust_record" where
  "unknown_record now n = \<lparr>tr_node_id = n, tr_public_key = None, tr_status = TRUST_UNKNOWN,
     tr_relationship = REL_NONE, tr_alias = [], tr_created_at = now, tr_updated_at = now,
     tr_metadata = []\<rparr>"

text \<open>A query loads the records first when that has not happened; the disk is only read.\<close>

definition get_record ::
  "time_codec \<Rightarrow> time \<Rightarrow> trust_disk \<Rightarrow> string \<Rightarrow> trust_service \<Rightarrow> (trust_record \<times> trust_service) result" where
  "get_record tc now dk n s = (case trust_initialize tc now dk s of
      Inl e \<Rightarrow> Inl e
    | Inr s' \<Rightarrow> Inr (dget_or (ts_records s') n (unknown_record now n), s'))"

definition is_trusted ::
  "time_codec \<Rightarrow> time \<Rightarrow> trust_disk \<Rightarrow> string \<Rightarrow> trust_service \<Rightarrow> (bool \<times> trust_service) result" where
  "is_trusted tc now dk n s = (case get_record tc now dk n s of
      Inl e \<Rightarrow> Inl e | Inr (r, s') \<Rightarrow> Inr (tr_is_trusted r, s'))"

definition list_records ::
  "time_codec \<Rightarrow> time \<Rightarrow> trust_disk \<Rightarrow> trust_status option \<Rightarrow> trust_service
     \<Rightarrow> (trust_record list \<times> trust_service) result" where
  "list_records tc now dk st s = (case trust_initialize tc now dk s of
      Inl e \<Rightarrow> Inl e
    | Inr s' \<Rightarrow> Inr (filter (\<lambda>r. st = None \<or> st = Some (tr_status r)) (dvals (ts_records s')), s'))"

definition get_trusted_node_ids ::
  "time_codec \<Rightarrow> time \<Rightarrow> trust_disk \<Rightarrow> trust_service \<Rightarrow> (string set \<times> trust_service) result" where
  "get_trusted_node_ids tc now dk s = (case list_records tc now dk (Some TRUST_TRUSTED) s of
      Inl e \<Rightarrow> Inl e | Inr (rs, s') \<Rightarrow> Inr (set (map tr_node_id rs), s'))"

definition granted_record ::
  "time \<Rightarrow> string \<Rightarrow> string option \<Rightarrow> relationship \<Rightarrow> string \<Rightarrow> (string, pyval) dict option
     \<Rightarrow> trust_record option \<Rightarrow> trust_record" where
  "granted_record now n key rel al meta existing = (case existing of
      None \<Rightarrow> \<lparr>tr_node_id = n, tr_public_key = key, tr_status = TRUST_TRUSTED,
        tr_relationship = rel, tr_alias = al, tr_created_at = now, tr_updated_at = now,
        tr_metadata = (case meta of None \<Rightarrow> [] | Some m \<Rightarrow> m)\<rparr>
    | Some r \<Rightarrow> with_status now r TRUST_TRUSTED (Some rel) (Some (str_or al (tr_alias r)))
        (opt_or key (tr_public_key r))
        (Some (case meta of None \<Rightarrow> tr_metadata r | Some m \<Rightarrow> m)))"

definition revoked_record ::
  "time \<Rightarrow> string \<Rightarrow> string option \<Rightarrow> trust_record option \<Rightarrow> trust_record" where
  "revoked_record now n reason existing = (case existing of
      None \<Rightarrow> (unknown_record now n)\<lparr>tr_status := TRUST_REVOKED,
        tr_metadata := (if truthy_opt reason then [(''revoke_reason'', PStr (the reason))] else [])\<rparr>
    | Some r \<Rightarrow> with_status now r TRUST_REVOKED None None None
        (Some (if truthy_opt reason then dset ''revoke_reason'' (PStr (the reason)) (tr_metadata r)
               else tr_metadata r)))"

text \<open>
  The result of an update, the service, the disk and the published events. The record is stored
  in memory before it is saved, whether or not the records were ever loaded.
\<close>

type_synonym trust_update = "trust_record result \<times> trust_service \<times> trust_disk \<times> trust_event list"

definition store_record ::
  "time_codec \<Rightarrow> string \<Rightarrow> trust_record \<Rightarrow> trust_event \<Rightarrow> trust_service \<Rightarrow> trust_disk \<Rightarrow> trust_update" where
  "store_record tc n r ev s dk =
     (let s' = s\<lparr>ts_records := dset n r (ts_records s)\<rparr> in
      case trust_save tc (ts_records s') dk of
        (Inl e, dk') \<Rightarrow> (Inl e, s', dk', [])
      | (Inr _, dk') \<Rightarrow> (Inr r, s', dk', if ts_event_bus s then [ev] else []))"

definition grant_trust ::
  "time_codec \<Rightarrow> time \<Rightarrow> string \<Rightarrow> string option \<Rightarrow> relationship \<Rightarrow> string
     \<Rightarrow> (string, pyval) dict option \<Rightarrow> trust_service \<Rightarrow> trust_disk \<Rightarrow> trust_update" where
  "grant_trust tc now n key rel al meta s dk =
     (let r = granted_record now n key rel al meta (dget (ts_records s) n) in
      store_record tc n r
        (TrustGrantedEvent n (tr_public_key r) (tr_relationship r) (tr_alias r)) s dk)"

definition revoke_trust ::
  "time_codec \<Rightarrow> time \<Rightarrow> string \<Rightarrow> string option \<Rightarrow> trust_service \<Rightarrow> trust_disk \<Rightarrow> trust_update" where
  "revoke_trust tc now n reason s dk =
     store_record tc n (revoked_record now n reason (dget (ts_records s) n))
       (TrustRevokedEvent n reason) s dk"

subsection \<open>What is saved is read back\<close>

definition canon_record :: "trust_record \<Rightarrow> trust_record" where
  "canon_record r = r\<lparr>tr_metadata := sort_dict (map (\<lambda>(k, v). (k, sort_keys v)) (tr_metadata r))\<rparr>"

lemma canon_record_sel [simp]:
  "tr_node_id (canon_record r) = tr_node_id r" "tr_status (canon_record r) = tr_status r"
  "tr_public_key (canon_record r) = tr_public_key r"
  "tr_relationship (canon_record r) = tr_relationship r" "tr_alias (canon_record r) = tr_alias r"
  by (simp_all add: canon_record_def)

lemma tr_is_trusted_canon [simp]: "tr_is_trusted (canon_record r) = tr_is_trusted r"
  by (simp add: tr_is_trusted_def)

lemma read_status_value: "read_trust_status (PStr (trust_status_value s)) = Some s"
  by (cases s) (simp_all add: read_trust_status_def)

lemma read_relationship_value: "read_relationship (PStr (relationship_value s)) = Some s"
  by (cases s) (simp_all add: read_relationship_def)

lemma read_opt_str_value: "read_opt_str (sort_keys (case k of None \<Rightarrow> PNone | Some s \<Rightarrow> PStr s)) = Some k"
  by (cases k) simp_all

lemmas read_values = read_status_value read_relationship_value read_opt_str_value

lemma read_dumped_record:
  assumes "codec_ok tc"
  shows "read_trust_record tc now (sort_keys (dump_trust_record tc r)) = Some (canon_record r)"
proof -
  have sorted: "read_field (sort_dict (map (\<lambda>(k, v). (k, sort_keys v)) d)) k dflt rd
      = (case dget d k of None \<Rightarrow> dflt | Some v \<Rightarrow> rd (sort_keys v))"
    if "dict_ok d" for d k and dflt :: "'a option" and rd
    using that by (simp add: read_field_def dget_map split: option.splits)
  obtain d where d: "dump_trust_record tc r = PDict d" "dict_ok d"
      "dget d ''node_id'' = Some (PStr (tr_node_id r))"
      "dget d ''public_key'' = Some (case tr_public_key r of None \<Rightarrow> PNone | Some k \<Rightarrow> PStr k)"
      "dget d ''status'' = Some (PStr (trust_status_value (tr_status r)))"
      "dget d ''relationship'' = Some (PStr (relationship_value (tr_relationship r)))"
      "dget d ''alias'' = Some (PStr (tr_alias r))"
      "dget d ''created_at'' = Some (PStr (tc_print tc (tr_created_at r)))"
      "dget d ''updated_at'' = Some (PStr (tc_print tc (tr_updated_at r)))"
      "dget d ''metadata'' = Some (PDict (tr_metadata r))"
    by (simp add: dump_trust_record_def dict_ok_def)
  have "\<forall>t. tc_read tc (PStr (tc_print tc t)) = Some t"
    using assms by (simp add: codec_ok_def)
  with d(2-) show ?thesis
    by (simp add: d(1) read_trust_record_def sorted read_values canon_record_def)
qed

lemma read_dumped_records:
  "codec_ok tc \<Longrightarrow> dict_ok (acc @ rs) \<Longrightarrow>
     read_trust_records tc now (map (\<lambda>(n, r). (n, sort_keys (dump_trust_record tc r))) rs) acc
       = Inr (acc @ map (\<lambda>(n, r). (n, canon_record r)) rs)"
proof (induction rs arbitrary: acc)
  case Nil
  then show ?case by simp
next
  case (Cons x rs)
  obtain n r where x: "x = (n, r)" by force
  with Cons.prems have "\<not> dmem n acc" by (auto simp: dict_ok_def dmem_keys)
  with Cons x show ?case
    by (simp add: read_dumped_record dset_new dict_ok_def)
qed

lemma trust_load_save:
  assumes "codec_ok tc" and "dict_ok rs" and "trust_save tc rs dk = (Inr (), dk')"
  shows "trust_load tc now dk' = Inr (map (\<lambda>(n, r). (n, canon_record r)) (sort_dict rs))"
proof -
  have "td_file dk' = Json (PDict (map (\<lambda>(n, r). (n, sort_keys (dump_trust_record tc r))) (sort_dict rs)))"
    using assms(3) sort_dict_map [of "\<lambda>r. sort_keys (dump_trust_record tc r)" rs]
    by (auto simp: trust_save_def comp_def case_prod_unfold split: option.splits)
  with assms show ?thesis
    using read_dumped_records [of tc "[]" "sort_dict rs" now] by (simp add: trust_load_def)
qed

lemma read_trust_records_ok:
  "read_trust_records tc now d acc = Inr rs \<Longrightarrow> dict_ok acc \<Longrightarrow> dict_ok rs"
  by (induction tc now d acc rule: read_trust_records.induct) (auto split: option.splits)

lemma trust_load_ok: "trust_load tc now dk = Inr rs \<Longrightarrow> dict_ok rs"
  by (auto simp: trust_load_def dest: read_trust_records_ok split: json_file.splits pyval.splits)

subsection \<open>Sequences of decisions\<close>

text \<open>
  The abstract state of the service is the set of trusted nodes, as a predicate. A successful
  operation changes it for the node it names; \<open>decide\<close> is the specification.
\<close>

definition trusted_in :: "trust_records \<Rightarrow> string \<Rightarrow> bool" where
  "trusted_in rs n = (case dget rs n of None \<Rightarrow> False | Some r \<Rightarrow> tr_is_trusted r)"

datatype trust_op =
    Grant string "string option" relationship string "(string, pyval) dict option"
  | Revoke string "string option"

fun decide :: "(string \<Rightarrow> bool) \<Rightarrow> trust_op \<Rightarrow> (string \<Rightarrow> bool)" where
  "decide f (Grant n key rel al meta) = f(n := True)"
| "decide f (Revoke n reason) = f(n := False)"

fun trust_apply :: "time_codec \<Rightarrow> time \<times> trust_op \<Rightarrow> trust_service \<times> trust_disk \<Rightarrow> trust_service \<times> trust_disk" where
  "trust_apply tc (now, Grant n key rel al meta) (s, dk) =
     (case grant_trust tc now n key rel al meta s dk of (_, s', dk', _) \<Rightarrow> (s', dk'))"
| "trust_apply tc (now, Revoke n reason) (s, dk) =
     (case revoke_trust tc now n reason s dk of (_, s', dk', _) \<Rightarrow> (s', dk'))"

lemma is_trusted_loaded: "ts_initialized s \<Longrightarrow> is_trusted tc now dk n s = Inr (trusted_in (ts_records s) n, s)"
  by (simp add: is_trusted_def get_record_def trust_initialize_def trusted_in_def dget_or_def
      unknown_record_def tr_is_trusted_def split: option.splits)

lemma trusted_in_canon:
  "dict_ok rs \<Longrightarrow> trusted_in (map (\<lambda>(n, r). (n, canon_record r)) (sort_dict rs)) = trusted_in rs"
  by (rule ext) (simp add: trusted_in_def dget_map split: option.splits)

lemma granted_trusted [simp]: "tr_is_trusted (granted_record now n key rel al meta x)"
  by (simp add: granted_record_def with_status_def tr_is_trusted_def split: option.splits)

lemma revoked_not_trusted [simp]: "\<not> tr_is_trusted (revoked_record now n reason x)"
  by (simp add: revoked_record_def with_status_def tr_is_trusted_def split: option.splits)

text \<open>The disk answers as the memory does, whenever it is read.\<close>

definition synced :: "time_codec \<Rightarrow> trust_service \<Rightarrow> trust_disk \<Rightarrow> bool" where
  "synced tc s dk \<longleftrightarrow> dict_ok (ts_records s)
     \<and> (\<forall>now. \<exists>rs. trust_load tc now dk = Inr rs \<and> trusted_in rs = trusted_in (ts_records s))"

lemma store_record_ok:
  assumes "codec_ok tc" and "dict_ok (ts_records s)" and "td_write_error dk = None"
    and "store_record tc n r ev s dk = (res, s', dk', evs)"
  shows "synced tc s' dk' \<and> trusted_in (ts_records s') = (trusted_in (ts_records s))(n := tr_is_trusted r)
     \<and> td_write_error dk' = None \<and> ts_initialized s' = ts_initialized s"
proof -
  have s': "s' = s\<lparr>ts_records := dset n r (ts_records s)\<rparr>"
    and saved: "trust_save tc (ts_records s') dk = (Inr (), dk')"
    using assms(3,4) by (auto simp: store_record_def trust_save_def Let_def)
  have ok: "dict_ok (ts_records s')" using assms(2) s' by simp
  have "synced tc s' dk'"
    unfolding synced_def using trust_load_save [OF assms(1) ok saved] trusted_in_canon [OF ok] ok by blast
  moreover have "trusted_in (ts_records s') = (trusted_in (ts_records s))(n := tr_is_trusted r)"
    by (rule ext) (simp add: s' trusted_in_def)
  moreover have "td_write_error dk' = None"
    using saved assms(3) by (auto simp: trust_save_def)
  ultimately show ?thesis by (simp add: s')
qed

lemma trust_apply_ok:
  assumes "codec_ok tc" and "dict_ok (ts_records s)" and "td_write_error dk = None"
    and run: "trust_apply tc (now, op) (s, dk) = (s', dk')"
  shows "synced tc s' dk' \<and> trusted_in (ts_records s') = decide (trusted_in (ts_records s)) op
     \<and> td_write_error dk' = None \<and> ts_initialized s' = ts_initialized s"
proof (cases op)
  case (Grant n key rel al meta)
  with run store_record_ok [OF assms(1-3)] show ?thesis
    by (auto simp: grant_trust_def Let_def split: prod.splits)
next
  case (Revoke n reason)
  with run store_record_ok [OF assms(1-3)] show ?thesis
    by (auto simp: revoke_trust_def split: prod.splits)
qed

lemma trust_applies_ok:
  "codec_ok tc \<Longrightarrow> synced tc s dk \<Longrightarrow> td_write_error dk = None \<Longrightarrow>
     fold (trust_apply tc) ops (s, dk) = (s', dk') \<Longrightarrow>
     synced tc s' dk' \<and> trusted_in (ts_records s') = fold (\<lambda>p f. decide f (snd p)) ops (trusted_in (ts_records s))
     \<and> ts_initialized s' = ts_initialized s"
proof (induction ops arbitrary: s dk)
  case Nil
  then show ?case by simp
next
  case (Cons p ops)
  obtain now op where p: "p = (now, op)" by force
  obtain s1 dk1 where one: "trust_apply tc (now, op) (s, dk) = (s1, dk1)" by force
  have "dict_ok (ts_records s)" using Cons.prems(2) by (simp add: synced_def)
  from trust_apply_ok [OF Cons.prems(1) this Cons.prems(3) one] Cons.prems(1,4) Cons.IH [of s1 dk1]
  show ?case by (simp add: p one)
qed

text \<open>Reading a file again changes at most the time stamps it does not state.\<close>

definition statuses :: "trust_records \<Rightarrow> (string, trust_status) dict" where
  "statuses rs = map (\<lambda>(n, r). (n, tr_status r)) rs"

lemma statuses_dset: "statuses (dset n r rs) = dset n (tr_status r) (statuses rs)"
  by (induction rs) (auto simp: statuses_def)

lemma trusted_in_statuses: "trusted_in rs n \<longleftrightarrow> dget (statuses rs) n = Some TRUST_TRUSTED"
  by (simp add: trusted_in_def statuses_def dget_map tr_is_trusted_def split: option.splits)

lemma read_field_again:
  "read_field d k (Some b) rd = None \<Longrightarrow> read_field d k (Some a) rd = None"
  by (simp add: read_field_def split: option.splits)

lemma read_record_again:
  assumes "read_trust_record tc now v = Some r"
  shows "\<exists>r'. read_trust_record tc now' v = Some r' \<and> tr_status r' = tr_status r"
  using assms
  by (auto simp: read_trust_record_def split: pyval.splits option.splits
      dest!: read_field_again [where b = now' and a = now and rd = "tc_read tc"])

lemma read_records_again:
  "read_trust_records tc now d acc = Inr rs \<Longrightarrow> statuses acc = statuses acc' \<Longrightarrow>
     \<exists>rs'. read_trust_records tc now' d acc' = Inr rs' \<and> statuses rs' = statuses rs"
proof (induction d arbitrary: acc acc')
  case Nil
  then show ?case by simp
next
  case (Cons x d)
  obtain k v where x: "x = (k, v)" by force
  with Cons.prems obtain r where r: "read_trust_record tc now v = Some r"
    "read_trust_records tc now d (dset k r acc) = Inr rs"
    by (auto split: option.splits)
  from read_record_again [OF r(1)] obtain r' where
    r': "read_trust_record tc now' v = Some r'" "tr_status r' = tr_status r" by blast
  with Cons.prems(2) have "statuses (dset k r acc) = statuses (dset k r' acc')"
    by (simp add: statuses_dset)
  from Cons.IH [OF r(2) this] r' show ?case by (simp add: x)
qed

lemma trust_load_again:
  assumes "trust_load tc now dk = Inr rs"
  shows "\<exists>rs'. trust_load tc now' dk = Inr rs' \<and> trusted_in rs' = trusted_in rs"
proof -
  have "\<exists>rs'. trust_load tc now' dk = Inr rs' \<and> statuses rs' = statuses rs"
    using assms read_records_again
    by (auto simp: trust_load_def split: json_file.splits pyval.splits)
  then show ?thesis by (auto simp: fun_eq_iff trusted_in_statuses)
qed

lemma trust_initialize_synced:
  assumes "trust_initialize tc now dk (new_trust_service bus) = Inr s"
  shows "synced tc s dk \<and> ts_initialized s"
proof -
  obtain rs where "trust_load tc now dk = Inr rs" "s = \<lparr>ts_records = rs, ts_initialized = True, ts_event_bus = bus\<rparr>"
    using assms by (auto simp: trust_initialize_def new_trust_service_def split: sum.splits)
  with trust_load_again trust_load_ok show ?thesis unfolding synced_def by fastforce
qed

lemma is_trusted_synced:
  "synced tc s dk \<Longrightarrow>
     \<exists>s'. is_trusted tc now dk n (new_trust_service bus) = Inr (trusted_in (ts_records s) n, s')"
proof -
  assume "synced tc s dk"
  then obtain rs where rs: "trust_load tc now dk = Inr rs" "trusted_in rs = trusted_in (ts_records s)"
    unfolding synced_def by blast
  let ?s = "\<lparr>ts_records = rs, ts_initialized = True, ts_event_bus = bus\<rparr>"
  have "is_trusted tc now dk n (new_trust_service bus) = is_trusted tc now dk n ?s"
    by (simp add: is_trusted_def get_record_def trust_initialize_def new_trust_service_def rs)
  with is_trusted_loaded [of ?s] rs(2) show ?thesis by simp
qed

subsection \<open>Properties\<close>

text \<open>
  C39. After any sequence of grants and revocations on an initialised service over a writable disk,
  a node is trusted exactly if the last decision that names it granted trust (or none names it and
  it was trusted before), and a service started afresh on that disk gives the same answers.
\<close>

theorem trust_decisions_survive_restart:
  assumes codec: "codec_ok tc" and disk: "td_write_error dk = None"
    and start: "trust_initialize tc t0 dk (new_trust_service bus) = Inr s"
    and run: "fold (trust_apply tc) ops (s, dk) = (s', dk')"
  shows "is_trusted tc t dk' n s' = Inr (fold (\<lambda>p f. decide f (snd p)) ops (trusted_in (ts_records s)) n, s')
    \<and> (\<exists>s''. is_trusted tc t dk' n (new_trust_service bus')
        = Inr (fold (\<lambda>p f. decide f (snd p)) ops (trusted_in (ts_records s)) n, s''))"
proof -
  from trust_initialize_synced [OF start] have "synced tc s dk" "ts_initialized s" by simp_all
  with trust_applies_ok [OF codec _ disk run]
  have "synced tc s' dk'" "ts_initialized s'"
    "trusted_in (ts_records s') = fold (\<lambda>p f. decide f (snd p)) ops (trusted_in (ts_records s))"
    by simp_all
  with is_trusted_loaded [of s'] is_trusted_synced [of tc s' dk'] show ?thesis by simp
qed

definition sample_ops :: "(time \<times> trust_op) list" where
  "sample_ops = [(1, Grant ''n1'' (Some ''k'') REL_PERSONAL ''one'' None), (2, Grant ''n2'' None REL_PEER [] None),
     (3, Revoke ''n1'' (Some ''lost''))]"

definition empty_disk :: trust_disk where
  "empty_disk = \<lparr>td_file = Missing, td_write_error = None\<rparr>"

theorem trust_decisions_survive_restart_witness:
  "case fold (trust_apply unary_codec) sample_ops ((new_trust_service True)\<lparr>ts_initialized := True\<rparr>, empty_disk) of
     (s', dk') \<Rightarrow> (\<exists>s''. is_trusted unary_codec 9 dk' ''n2'' (new_trust_service False) = Inr (True, s''))"
proof -
  obtain s' dk' where run: "fold (trust_apply unary_codec) sample_ops
      ((new_trust_service True)\<lparr>ts_initialized := True\<rparr>, empty_disk) = (s', dk')" by force
  have start: "trust_initialize unary_codec 0 empty_disk (new_trust_service True)
      = Inr ((new_trust_service True)\<lparr>ts_initialized := True\<rparr>)"
    by (simp add: trust_initialize_def trust_load_def empty_disk_def new_trust_service_def)
  have "fold (\<lambda>p f. decide f (snd p)) sample_ops f ''n2''" for f by (simp add: sample_ops_def)
  then show ?thesis
    using trust_decisions_survive_restart [OF unary_codec_ok _ start run, of 9 "''n2''" False] run
    by (simp add: empty_disk_def)
qed

text \<open>
  A grant stores one TRUSTED record, with the given key or the one pinned before, and a
  revocation one REVOKED record that keeps the key, the relationship and the alias; all other
  records stay. The record is saved and announced, unless the disk refuses: then the operation
  raises \<open>TrustStoreError\<close> and the file is unchanged, but the memory keeps the decision.
\<close>

theorem trust_update_outcome:
  assumes codec: "codec_ok tc" and recs: "dict_ok (ts_records s)"
  shows "(case grant_trust tc now n key rel al meta s dk of (res, s', dk', evs) \<Rightarrow>
      \<exists>r. ts_records s' = dset n r (ts_records s) \<and> tr_is_trusted r \<and> tr_relationship r = rel
        \<and> tr_public_key r = (case dget (ts_records s) n of None \<Rightarrow> key
            | Some x \<Rightarrow> opt_or key (tr_public_key x))
        \<and> (case td_write_error dk of
             Some m \<Rightarrow> res = Inl (trust_store_error m) \<and> dk' = dk \<and> evs = []
           | None \<Rightarrow> res = Inr r
               \<and> trust_load tc t dk' = Inr (map (\<lambda>(n, r). (n, canon_record r)) (sort_dict (ts_records s')))
               \<and> evs = (if ts_event_bus s
                        then [TrustGrantedEvent n (tr_public_key r) rel (tr_alias r)] else [])))
    \<and> (case revoke_trust tc now n reason s dk of (res, s', dk', evs) \<Rightarrow>
      \<exists>r. ts_records s' = dset n r (ts_records s) \<and> tr_is_revoked r
        \<and> (tr_public_key r, tr_relationship r, tr_alias r) = (case dget (ts_records s) n of
             None \<Rightarrow> (None, REL_NONE, [])
           | Some x \<Rightarrow> (tr_public_key x, tr_relationship x, tr_alias x))
        \<and> (case td_write_error dk of
             Some m \<Rightarrow> res = Inl (trust_store_error m) \<and> dk' = dk \<and> evs = []
           | None \<Rightarrow> res = Inr r
               \<and> trust_load tc t dk' = Inr (map (\<lambda>(n, r). (n, canon_record r)) (sort_dict (ts_records s')))
               \<and> evs = (if ts_event_bus s then [TrustRevokedEvent n reason] else [])))"
    (is "?grant \<and> ?revoke")
proof
  have stored: "case store_record tc n r ev s dk of (res, s', dk', evs) \<Rightarrow>
      ts_records s' = dset n r (ts_records s)
      \<and> (case td_write_error dk of
           Some m \<Rightarrow> res = Inl (trust_store_error m) \<and> dk' = dk \<and> evs = []
         | None \<Rightarrow> res = Inr r
             \<and> trust_load tc t dk' = Inr (map (\<lambda>(n, r). (n, canon_record r)) (sort_dict (ts_records s')))
             \<and> evs = (if ts_event_bus s then [ev] else []))" for r ev
    using trust_load_save [OF codec, of "dset n r (ts_records s)" dk] recs
    by (cases "td_write_error dk") (simp_all add: store_record_def trust_save_def)
  let ?r = "granted_record now n key rel al meta (dget (ts_records s) n)"
  have "tr_relationship ?r = rel"
    and "tr_public_key ?r = (case dget (ts_records s) n of None \<Rightarrow> key | Some x \<Rightarrow> opt_or key (tr_public_key x))"
    by (auto simp: granted_record_def with_status_def opt_or_def truthy_opt_def split: option.splits)
  with stored [of ?r "TrustGrantedEvent n (tr_public_key ?r) rel (tr_alias ?r)"] show ?grant
    by (cases "td_write_error dk")
      (simp_all add: grant_trust_def Let_def case_prod_unfold exI [of _ ?r])
  let ?q = "revoked_record now n reason (dget (ts_records s) n)"
  have "tr_is_revoked ?q" and "(tr_public_key ?q, tr_relationship ?q, tr_alias ?q)
      = (case dget (ts_records s) n of None \<Rightarrow> (None, REL_NONE, [])
         | Some x \<Rightarrow> (tr_public_key x, tr_relationship x, tr_alias x))"
    by (auto simp: revoked_record_def with_status_def unknown_record_def tr_is_revoked_def split: option.splits)
  with stored [of ?q "TrustRevokedEvent n reason"] show ?revoke
    by (cases "td_write_error dk")
      (simp_all add: revoke_trust_def case_prod_unfold exI [of _ ?q])
qed

theorem trust_update_outcome_witness:
  "case grant_trust unary_codec 1 ''n'' None REL_PEER [] None (new_trust_service True)
       (empty_disk\<lparr>td_write_error := Some ''full''\<rparr>) of (res, s', dk', evs) \<Rightarrow>
     \<exists>r. ts_records s' = [(''n'', r)] \<and> tr_is_trusted r \<and> res = Inl (trust_store_error ''full'') \<and> evs = []"
  using trust_update_outcome [OF unary_codec_ok, where s = "new_trust_service True" and n = "''n''"
      and rel = REL_PEER and al = "[]" and meta = None and key = None and now = 1
      and dk = "empty_disk\<lparr>td_write_error := Some ''full''\<rparr>", THEN conjunct1]
  by (auto simp: new_trust_service_def split: prod.splits)

text \<open>
  A grant on a service that has not been initialised does not load the store before it saves:
  whatever the file held, afterwards a fresh service trusts the granted node and nobody else.
\<close>

theorem uninitialised_grant_wipes_store:
  assumes codec: "codec_ok tc" and disk: "td_write_error dk = None"
    and grant: "grant_trust tc now n key rel al meta (new_trust_service bus) dk = (res, s', dk', evs)"
  shows "\<exists>s''. is_trusted tc t dk' m (new_trust_service bus') = Inr (m = n, s'')"
proof -
  have "synced tc s' dk'" "trusted_in (ts_records s') = (trusted_in [])(n := True)"
    using store_record_ok [OF codec _ disk, of "new_trust_service bus"] grant
    by (auto simp: grant_trust_def Let_def new_trust_service_def)
  with is_trusted_synced [of tc s' dk' t m bus'] show ?thesis
    by (auto simp: trusted_in_def split: if_splits)
qed

text \<open>A store in which \<open>old\<close> is trusted.\<close>

definition old_disk :: trust_disk where
  "old_disk = \<lparr>td_file = Json (PDict [(''old'', PDict [(''node_id'', PStr ''old''),
     (''status'', PStr ''trusted'')])]), td_write_error = None\<rparr>"

theorem uninitialised_grant_wipes_store_witness:
  "(\<exists>s. is_trusted unary_codec 0 old_disk ''old'' (new_trust_service True) = Inr (True, s))
   \<and> (case grant_trust unary_codec 1 ''n'' None REL_PEER [] None (new_trust_service True) old_disk of
        (_, _, dk', _) \<Rightarrow>
          \<exists>s. is_trusted unary_codec 2 dk' ''old'' (new_trust_service True) = Inr (False, s))"
proof
  show "\<exists>s. is_trusted unary_codec 0 old_disk ''old'' (new_trust_service True) = Inr (True, s)"
    by (simp add: is_trusted_def get_record_def trust_initialize_def trust_load_def old_disk_def
        new_trust_service_def read_trust_record_def read_field_def read_trust_status_def dget_or_def
        tr_is_trusted_def)
  obtain res s' dk' evs where "grant_trust unary_codec 1 ''n'' None REL_PEER [] None
      (new_trust_service True) old_disk = (res, s', dk', evs)" by (meson prod_cases4)
  with uninitialised_grant_wipes_store [OF unary_codec_ok _ this, of 2 "''old''" True]
  show "case grant_trust unary_codec 1 ''n'' None REL_PEER [] None (new_trust_service True) old_disk of
        (_, _, dk', _) \<Rightarrow> \<exists>s. is_trusted unary_codec 2 dk' ''old'' (new_trust_service True) = Inr (False, s)"
    by (simp add: old_disk_def)
qed

end
