(* ===== verification/Shyam_Identity.thy ===== *)
theory Shyam_Identity
  imports Shyam_Trust
begin

section \<open>Identity: the node, its key pair and their files\<close>

text \<open>
  \<open>identity/model.py\<close>, \<open>identity/manager.py\<close> and \<open>identity/crypto.py\<close>. Byte strings are lists of
  characters (256 values). Ed25519 is a library: a record of the operations the code calls, with
  the documented laws that a signature verifies under the signer's public key and that a key is
  recovered from its raw bytes. Identifiers are the text of UUIDs, and what pydantic reads as
  one is an argument. Base 64 is the standard library's.
\<close>

subsection \<open>Base 64\<close>

definition b64_char :: "nat \<Rightarrow> char" where
  "b64_char v = (if v < 26 then char_of (65 + v) else if v < 52 then char_of (71 + v)
     else if v < 62 then char_of (v - 4) else if v = 62 then CHR ''+'' else CHR ''/'')"

definition b64_val :: "char \<Rightarrow> nat option" where
  "b64_val c =
     (let n = char_code c in
      if 65 \<le> n \<and> n \<le> 90 then Some (n - 65)
      else if 97 \<le> n \<and> n \<le> 122 then Some (n - 71)
      else if is_digit c then Some (n + 4)
      else if c = CHR ''+'' then Some 62
      else if c = CHR ''/'' then Some 63 else None)"

fun b64encode :: "string \<Rightarrow> string" where
  "b64encode [] = []"
| "b64encode [a] =
     [b64_char (char_code a div 4), b64_char (char_code a mod 4 * 16), CHR ''='', CHR ''='']"
| "b64encode [a, b] =
     [b64_char (char_code a div 4), b64_char (char_code a mod 4 * 16 + char_code b div 16),
      b64_char (char_code b mod 16 * 4), CHR ''='']"
| "b64encode (a # b # c # cs) =
     [b64_char (char_code a div 4), b64_char (char_code a mod 4 * 16 + char_code b div 16),
      b64_char (char_code b mod 16 * 4 + char_code c div 64), b64_char (char_code c mod 64)]
     @ b64encode cs"

text \<open>
  The lenient decoder: characters outside the alphabet are skipped, a complete padding ends the
  input. Its state is the position in the group of four, the bits left over and the number of
  padding characters in a row.
\<close>

fun b64_loop :: "nat \<Rightarrow> nat \<Rightarrow> nat \<Rightarrow> string \<Rightarrow> string option" where
  "b64_loop pos left pads [] = (if pos = 0 then Some [] else None)"
| "b64_loop pos left pads (c # cs) =
     (if c = CHR ''='' then
        (if 2 \<le> pos \<and> 4 \<le> pos + pads + 1 then Some []
         else b64_loop pos left (if 2 \<le> pos then pads + 1 else pads) cs)
      else (case b64_val c of
          None \<Rightarrow> b64_loop pos left pads cs
        | Some v \<Rightarrow>
            if pos = 0 then b64_loop 1 v 0 cs
            else if pos = 1 then map_option ((#) (char_of (left * 4 + v div 16))) (b64_loop 2 (v mod 16) 0 cs)
            else if pos = 2 then map_option ((#) (char_of (left * 16 + v div 4))) (b64_loop 3 (v mod 4) 0 cs)
            else map_option ((#) (char_of (left * 64 + v))) (b64_loop 0 0 0 cs)))"

definition b64decode :: "string \<Rightarrow> string result" where
  "b64decode s =
     (if \<exists>c \<in> set s. 128 \<le> char_code c
      then Inl (Exn (Builtin ValueError) ''string argument should contain only ASCII characters'')
      else (case b64_loop 0 0 0 s of
          None \<Rightarrow> Inl (Exn (Builtin ValueError) ''Incorrect padding'')
        | Some bs \<Rightarrow> Inr bs))"

lemma b64_char_code:
  "v < 64 \<Longrightarrow> char_code (b64_char v) = (if v < 26 then 65 + v else if v < 52 then 71 + v
     else if v < 62 then v - 4 else if v = 62 then 43 else 47)"
  by (simp add: b64_char_def char_code_of) (simp add: char_code_def)

lemma b64_char_laws:
  assumes "v < 64"
  shows "b64_val (b64_char v) = Some v" "b64_char v \<noteq> CHR ''=''" "char_code (b64_char v) < 128"
proof -
  note code = b64_char_code [OF assms]
  show "char_code (b64_char v) < 128" using code assms by auto
  have "char_code (b64_char v) \<noteq> 61" using code assms by auto
  moreover have "char_code (CHR ''='') = 61" by (simp add: char_code_def)
  ultimately show "b64_char v \<noteq> CHR ''=''" by metis
  have "b64_char v = CHR ''+''" if "v = 62" using that by (simp add: b64_char_def)
  moreover have "b64_char v = CHR ''/''" if "v = 63" using that by (simp add: b64_char_def)
  moreover have "v < 26 \<or> 26 \<le> v \<and> v < 52 \<or> 52 \<le> v \<and> v < 62 \<or> v = 62 \<or> v = 63" using assms by linarith
  ultimately show "b64_val (b64_char v) = Some v"
    using code by (auto simp: b64_val_def Let_def is_digit_def)
qed

lemma b64_bits:
  fixes a b c :: nat
  assumes "a < 256" "b < 256" "c < 256"
  shows "a div 4 < 64" "a mod 4 * 16 < 64" "a mod 4 * 16 + b div 16 < 64" "b mod 16 * 4 < 64"
    "b mod 16 * 4 + c div 64 < 64" "c mod 64 < 64" "b div 16 mod 16 = b div 16"
    "c div 64 mod 4 = c div 64" "c div 64 div 4 = 0" "b div 16 div 16 = 0"
proof -
  have "b div 16 < 16" "c div 64 < 4" using assms by linarith+
  then show "b div 16 mod 16 = b div 16" "c div 64 mod 4 = c div 64" "c div 64 div 4 = 0" "b div 16 div 16 = 0"
    by (simp_all only: mod_less div_less)
qed (use assms in linarith)+

lemma b64_loop_encode: "b64_loop 0 0 0 (b64encode s) = Some s"
proof (induction s rule: b64encode.induct)
  case 1
  then show ?case by simp
next
  case (2 a)
  then show ?case
    using b64_bits [of "char_code a" 0 0] char_code_lt [of a] by (simp add: b64_char_laws)
next
  case (3 a b)
  then show ?case
    using b64_bits [of "char_code a" "char_code b" 0] char_code_lt by (simp add: b64_char_laws)
next
  case (4 a b c cs)
  then show ?case
    using b64_bits [of "char_code a" "char_code b" "char_code c"] char_code_lt by (simp add: b64_char_laws)
qed

lemma b64encode_ascii: "c \<in> set (b64encode s) \<Longrightarrow> char_code c < 128"
proof (induction s rule: b64encode.induct)
  case 1
  then show ?case by simp
next
  case (2 a)
  have "char_code (CHR ''='') < 128" by (simp add: char_code_def)
  with 2 b64_bits [of "char_code a" 0 0] char_code_lt [of a] show ?case by (auto simp: b64_char_laws)
next
  case (3 a b)
  have "char_code (CHR ''='') < 128" by (simp add: char_code_def)
  with 3 b64_bits [of "char_code a" "char_code b" 0] char_code_lt show ?case by (auto simp: b64_char_laws)
next
  case (4 a b c cs)
  then show ?case
    using b64_bits [of "char_code a" "char_code b" "char_code c"] char_code_lt by (auto simp: b64_char_laws)
qed

lemma b64_roundtrip: "b64decode (b64encode s) = Inr s"
proof -
  have "\<not> (\<exists>c \<in> set (b64encode s). 128 \<le> char_code c)"
    using b64encode_ascii [of _ s] by force
  then show ?thesis by (simp add: b64decode_def b64_loop_encode)
qed

subsection \<open>identity/crypto.py: key pairs\<close>

text \<open>
  \<open>'k\<close> is a private key handle; \<open>cy_verify\<close> tells whether the library accepts a signature, raising
  being refusal for every caller.
\<close>

record 'k crypto =
  cy_public :: "'k \<Rightarrow> string"
  cy_sign :: "'k \<Rightarrow> string \<Rightarrow> string"
  cy_verify :: "string \<Rightarrow> string \<Rightarrow> string \<Rightarrow> bool"
  cy_raw :: "'k \<Rightarrow> string"
  cy_from_raw :: "string \<Rightarrow> 'k option"

definition crypto_ok :: "'k crypto \<Rightarrow> bool" where
  "crypto_ok cy \<longleftrightarrow> (\<forall>k d. cy_verify cy (cy_public cy k) (cy_sign cy k d) d)
     \<and> (\<forall>k. cy_from_raw cy (cy_raw cy k) = Some k)"

definition public_key_b64 :: "'k crypto \<Rightarrow> 'k \<Rightarrow> string" where
  "public_key_b64 cy k = b64encode (cy_public cy k)"

definition kp_verify :: "'k crypto \<Rightarrow> 'k \<Rightarrow> string \<Rightarrow> string \<Rightarrow> bool" where
  "kp_verify cy k d sig = cy_verify cy (cy_public cy k) sig d"

definition verify_with_public_key :: "'k crypto \<Rightarrow> string \<Rightarrow> string \<Rightarrow> string \<Rightarrow> bool" where
  "verify_with_public_key cy key d sig =
     (case b64decode key of Inl _ \<Rightarrow> False | Inr raw \<Rightarrow> cy_verify cy raw sig d)"

record crypto_identity =
  ci_node_id :: string
  ci_public_key :: string
  ci_algorithm :: string
  ci_created_at :: time

definition to_crypto_identity :: "'k crypto \<Rightarrow> time \<Rightarrow> 'k \<Rightarrow> string \<Rightarrow> crypto_identity" where
  "to_crypto_identity cy now k n =
     \<lparr>ci_node_id = n, ci_public_key = public_key_b64 cy k, ci_algorithm = ''Ed25519'',
      ci_created_at = now\<rparr>"

definition dump_crypto_identity :: "time_codec \<Rightarrow> crypto_identity \<Rightarrow> pyval" where
  "dump_crypto_identity tc c = PDict
     [(''node_id'', PStr (ci_node_id c)), (''public_key'', PStr (ci_public_key c)),
      (''algorithm'', PStr (ci_algorithm c)), (''created_at'', PStr (tc_print tc (ci_created_at c)))]"

definition read_crypto_identity ::
  "(pyval \<Rightarrow> string option) \<Rightarrow> time_codec \<Rightarrow> time \<Rightarrow> pyval \<Rightarrow> crypto_identity option" where
  "read_crypto_identity uuid tc now v =
     (case v of PDict d \<Rightarrow>
        (case (read_field d ''node_id'' None uuid, read_field d ''public_key'' None read_str,
               read_field d ''algorithm'' (Some ''Ed25519'') read_str,
               read_field d ''created_at'' (Some now) (tc_read tc)) of
           (Some n, Some k, Some a, Some c) \<Rightarrow>
             Some \<lparr>ci_node_id = n, ci_public_key = k, ci_algorithm = a, ci_created_at = c\<rparr>
         | _ \<Rightarrow> None)
      | _ \<Rightarrow> None)"

subsection \<open>The files of an identity\<close>

datatype key_file = No_Key | Unreadable_Key | Key_Bytes string

text \<open>The three files, and for each the error of the operating system when writing it fails.\<close>

record id_disk =
  id_node_file :: json_file
  id_public_file :: json_file
  id_private_file :: key_file
  id_node_error :: "string option"
  id_public_error :: "string option"
  id_private_error :: "string option"

definition os_error :: "string \<Rightarrow> exn" where
  "os_error m = Exn (Builtin OSError) m"

text \<open>What an existing pair of files yields: any failure means that a new pair is generated.\<close>

definition load_keypair ::
  "'k crypto \<Rightarrow> (pyval \<Rightarrow> string option) \<Rightarrow> time_codec \<Rightarrow> time \<Rightarrow> string \<Rightarrow> id_disk
     \<Rightarrow> ('k \<times> crypto_identity) option" where
  "load_keypair cy uuid tc now n dk =
     (case (id_private_file dk, id_public_file dk) of
        (Key_Bytes raw, Json v) \<Rightarrow>
          (case (cy_from_raw cy raw, read_crypto_identity uuid tc now v) of
             (Some k, Some c) \<Rightarrow> if ci_node_id c \<noteq> n then None else Some (k, c)
           | _ \<Rightarrow> None)
      | _ \<Rightarrow> None)"

definition load_or_create_keypair ::
  "'k crypto \<Rightarrow> (pyval \<Rightarrow> string option) \<Rightarrow> time_codec \<Rightarrow> time \<Rightarrow> 'k \<Rightarrow> string \<Rightarrow> id_disk
     \<Rightarrow> ('k \<times> crypto_identity) result \<times> id_disk" where
  "load_or_create_keypair cy uuid tc now fresh n dk =
     (case load_keypair cy uuid tc now n dk of
        Some kc \<Rightarrow> (Inr kc, dk)
      | None \<Rightarrow>
          let c = to_crypto_identity cy now fresh n in
          (case id_public_error dk of
             Some m \<Rightarrow> (Inl (os_error m), dk)
           | None \<Rightarrow>
               let dk1 = dk\<lparr>id_public_file := Json (dump_crypto_identity tc c)\<rparr> in
               (case id_private_error dk of
                  Some m \<Rightarrow> (Inl (os_error m), dk1)
                | None \<Rightarrow> (Inr (fresh, c), dk1\<lparr>id_private_file := Key_Bytes (cy_raw cy fresh)\<rparr>))))"

subsection \<open>identity/model.py and identity/manager.py\<close>

record node_identity =
  ni_node_id :: string
  ni_node_name :: string
  ni_created_at :: time
  ni_protocol_version :: string

definition dump_node_identity :: "time_codec \<Rightarrow> node_identity \<Rightarrow> pyval" where
  "dump_node_identity tc i = PDict
     [(''node_id'', PStr (ni_node_id i)), (''node_name'', PStr (ni_node_name i)),
      (''created_at'', PStr (tc_print tc (ni_created_at i))),
      (''protocol_version'', PStr (ni_protocol_version i))]"

text \<open>\<open>fresh\<close> and \<open>now\<close> are the defaults of a file that states no id or no time.\<close>

definition read_node_identity ::
  "(pyval \<Rightarrow> string option) \<Rightarrow> time_codec \<Rightarrow> string \<Rightarrow> time \<Rightarrow> pyval \<Rightarrow> node_identity option" where
  "read_node_identity uuid tc fresh now v =
     (case v of PDict d \<Rightarrow>
        (case (read_field d ''node_id'' (Some fresh) uuid, read_field d ''node_name'' None read_str,
               read_field d ''created_at'' (Some now) (tc_read tc),
               read_field d ''protocol_version'' (Some ''0.2.0'') read_str) of
           (Some n, Some nm, Some c, Some p) \<Rightarrow>
             Some \<lparr>ni_node_id = n, ni_node_name = nm, ni_created_at = c, ni_protocol_version = p\<rparr>
         | _ \<Rightarrow> None)
      | _ \<Rightarrow> None)"

record identity_manager =
  im_custom_node_name :: "string option"
  im_identity :: "node_identity option"

definition new_identity_manager :: "string option \<Rightarrow> identity_manager" where
  "new_identity_manager name = \<lparr>im_custom_node_name = name, im_identity = None\<rparr>"

definition identity_error :: "string \<Rightarrow> exn" where
  "identity_error m = Exn (Identity_Exn IdentityError) m"

definition identity_corruption :: "string \<Rightarrow> exn" where
  "identity_corruption m = Exn (Identity_Exn IdentityCorruptionError) m"

definition load_identity ::
  "(pyval \<Rightarrow> string option) \<Rightarrow> time_codec \<Rightarrow> string \<Rightarrow> time \<Rightarrow> json_file \<Rightarrow> node_identity result" where
  "load_identity uuid tc fresh now f = (case f of
      Missing \<Rightarrow> Inl (identity_error ''Failed to read identity file'')
    | Unreadable m \<Rightarrow> Inl (identity_error m)
    | Undecodable m \<Rightarrow> Inl (Exn (Builtin ValueError) m)
    | Blank \<Rightarrow> Inl (identity_corruption ''Corrupted node identity file'')
    | Malformed m \<Rightarrow> Inl (identity_corruption m)
    | Json v \<Rightarrow> (case read_node_identity uuid tc fresh now v of
          None \<Rightarrow> Inl (identity_corruption ''Corrupted node identity file'')
        | Some i \<Rightarrow> Inr i))"

definition create_identity ::
  "time_codec \<Rightarrow> string \<Rightarrow> time \<Rightarrow> string \<Rightarrow> string option \<Rightarrow> id_disk \<Rightarrow> node_identity result \<times> id_disk" where
  "create_identity tc fresh now host name dk =
     (let i = \<lparr>ni_node_id = fresh,
                ni_node_name = str_or (str_or (case name of None \<Rightarrow> [] | Some s \<Rightarrow> s) host) ''shyam-node'',
                ni_created_at = now, ni_protocol_version = ''0.2.0''\<rparr> in
      case id_node_error dk of
        Some m \<Rightarrow> (Inl (identity_error m), dk)
      | None \<Rightarrow> (Inr i, dk\<lparr>id_node_file := Json (dump_node_identity tc i)\<rparr>))"

definition get_or_create_identity ::
  "(pyval \<Rightarrow> string option) \<Rightarrow> time_codec \<Rightarrow> string \<Rightarrow> time \<Rightarrow> string \<Rightarrow> identity_manager \<Rightarrow> id_disk
     \<Rightarrow> node_identity result \<times> identity_manager \<times> id_disk" where
  "get_or_create_identity uuid tc fresh now host im dk = (case im_identity im of
      Some i \<Rightarrow> (Inr i, im, dk)
    | None \<Rightarrow>
        (case (if id_node_file dk \<noteq> Missing then (load_identity uuid tc fresh now (id_node_file dk), dk)
               else create_identity tc fresh now host (im_custom_node_name im) dk) of
           (Inl e, dk') \<Rightarrow> (Inl e, im, dk')
         | (Inr i, dk') \<Rightarrow> (Inr i, im\<lparr>im_identity := Some i\<rparr>, dk')))"

subsection \<open>What is written is read back\<close>

lemma read_dumped_crypto_identity:
  "codec_ok tc \<Longrightarrow> uuid (PStr (ci_node_id c)) = Some (ci_node_id c) \<Longrightarrow>
     read_crypto_identity uuid tc now (dump_crypto_identity tc c) = Some c"
  by (simp add: read_crypto_identity_def dump_crypto_identity_def read_field_def codec_ok_def)

lemma read_dumped_node_identity:
  "codec_ok tc \<Longrightarrow> uuid (PStr (ni_node_id i)) = Some (ni_node_id i) \<Longrightarrow>
     read_node_identity uuid tc fresh now (dump_node_identity tc i) = Some i"
  by (simp add: read_node_identity_def dump_node_identity_def read_field_def codec_ok_def)

lemma read_crypto_identity_again:
  assumes "read_crypto_identity uuid tc now v = Some c"
  shows "\<exists>t. read_crypto_identity uuid tc now' v = Some (c\<lparr>ci_created_at := t\<rparr>)"
  using assms
  by (auto simp: read_crypto_identity_def split: pyval.splits option.splits
      dest!: read_field_again [where b = now' and a = now and rd = "tc_read tc"])

lemma load_keypair_again:
  assumes "load_keypair cy uuid tc now n dk = Some (k, c)"
  shows "\<exists>t. load_keypair cy uuid tc now' n dk = Some (k, c\<lparr>ci_created_at := t\<rparr>)"
  using assms read_crypto_identity_again [of uuid tc now _ c now']
  by (fastforce simp: load_keypair_def split: key_file.splits json_file.splits option.splits if_splits)

lemma load_keypair_written:
  assumes "codec_ok tc" and "crypto_ok cy" and "uuid (PStr n) = Some n"
    and "id_private_file dk = Key_Bytes (cy_raw cy k)"
    and "id_public_file dk = Json (dump_crypto_identity tc (to_crypto_identity cy t k' n))"
  shows "load_keypair cy uuid tc now n dk = Some (k, to_crypto_identity cy t k' n)"
proof -
  have "ci_node_id (to_crypto_identity cy t k' n) = n" by (simp add: to_crypto_identity_def)
  with read_dumped_crypto_identity [of tc uuid "to_crypto_identity cy t k' n" now] assms
  show ?thesis by (simp add: load_keypair_def crypto_ok_def)
qed

subsection \<open>Properties\<close>

text \<open>
  C40. Once a key pair has been loaded or created, every later start for the same node returns the
  same private key with the same public identity and writes nothing; a created pair publishes
  the public half of its private key.
\<close>

theorem keypair_stable:
  assumes codec: "codec_ok tc" and cy: "crypto_ok cy" and uuid: "uuid (PStr n) = Some n"
    and start: "load_or_create_keypair cy uuid tc t0 k0 n dk = (Inr (k, c), dk')"
  shows "(\<exists>t. load_or_create_keypair cy uuid tc t1 k1 n dk' = (Inr (k, c\<lparr>ci_created_at := t\<rparr>), dk'))
    \<and> (load_keypair cy uuid tc t0 n dk \<noteq> None \<or> k = k0 \<and> ci_public_key c = public_key_b64 cy k)"
proof (cases "load_keypair cy uuid tc t0 n dk")
  case None
  with start have kc: "k = k0" "c = to_crypto_identity cy t0 k0 n"
    and dk': "id_private_file dk' = Key_Bytes (cy_raw cy k0)"
      "id_public_file dk' = Json (dump_crypto_identity tc (to_crypto_identity cy t0 k0 n))"
    by (auto simp: load_or_create_keypair_def Let_def split: option.splits)
  from load_keypair_written [where uuid = uuid and n = n and now = t1, OF codec cy uuid dk']
  have "load_or_create_keypair cy uuid tc t1 k1 n dk'
      = (Inr (k0, to_crypto_identity cy t0 k0 n), dk')" by (simp add: load_or_create_keypair_def)
  moreover have "(to_crypto_identity cy t0 k0 n)\<lparr>ci_created_at := t0\<rparr> = to_crypto_identity cy t0 k0 n"
    by (simp add: to_crypto_identity_def)
  ultimately show ?thesis by (metis kc to_crypto_identity_def crypto_identity.select_convs(2))
next
  case (Some kc)
  with start have "load_keypair cy uuid tc t0 n dk = Some (k, c)" "dk' = dk"
    by (simp_all add: load_or_create_keypair_def)
  with load_keypair_again [of cy uuid tc t0 n dk k c t1] show ?thesis
    by (fastforce simp: load_or_create_keypair_def)
qed

text \<open>A toy scheme in which the key is the text that signs.\<close>

definition toy_crypto :: "string crypto" where
  "toy_crypto = \<lparr>cy_public = (\<lambda>k. k), cy_sign = (\<lambda>k d. k @ d), cy_verify = (\<lambda>pub sig d. sig = pub @ d),
     cy_raw = (\<lambda>k. k), cy_from_raw = Some\<rparr>"

lemma toy_crypto_ok: "crypto_ok toy_crypto"
  by (simp add: crypto_ok_def toy_crypto_def)

definition new_id_disk :: id_disk where
  "new_id_disk = \<lparr>id_node_file = Missing, id_public_file = Missing, id_private_file = No_Key,
     id_node_error = None, id_public_error = None, id_private_error = None\<rparr>"

theorem keypair_stable_witness:
  "\<exists>c dk' t. load_or_create_keypair toy_crypto read_str unary_codec 5 ''k0'' ''n'' new_id_disk = (Inr (''k0'', c), dk')
     \<and> load_or_create_keypair toy_crypto read_str unary_codec 6 ''k1'' ''n'' dk'
       = (Inr (''k0'', c\<lparr>ci_created_at := t\<rparr>), dk')"
proof -
  obtain c dk' where
    "load_or_create_keypair toy_crypto read_str unary_codec 5 ''k0'' ''n'' new_id_disk = (Inr (''k0'', c), dk')"
    by (simp add: load_or_create_keypair_def load_keypair_def new_id_disk_def Let_def)
  with keypair_stable [OF unary_codec_ok toy_crypto_ok _ this] show ?thesis by fastforce
qed

text \<open>
  The two key files are not replaced together and are not compared when they are loaded. If a
  new pair is written over an old private key that cannot be loaded with its public file, and
  the second write fails, the next start accepts the old private key with the public identity
  of the lost one.
\<close>

theorem interrupted_rotation_mixes_keys:
  assumes codec: "codec_ok tc" and cy: "crypto_ok cy" and uuid: "uuid (PStr n) = Some n"
    and old: "id_private_file dk = Key_Bytes (cy_raw cy k)"
    and stale: "load_keypair cy uuid tc t0 n dk = None"
    and disk: "id_public_error dk = None" "id_private_error dk = Some m"
  shows "case load_or_create_keypair cy uuid tc t0 k0 n dk of (res, dk') \<Rightarrow>
      res = Inl (os_error m)
      \<and> (\<exists>c. load_or_create_keypair cy uuid tc t1 k1 n dk' = (Inr (k, c), dk')
           \<and> ci_public_key c = public_key_b64 cy k0)"
proof -
  let ?dk = "dk\<lparr>id_public_file := Json (dump_crypto_identity tc (to_crypto_identity cy t0 k0 n))\<rparr>"
  have "load_keypair cy uuid tc t1 n ?dk = Some (k, to_crypto_identity cy t0 k0 n)"
    by (rule load_keypair_written [where uuid = uuid and n = n, OF codec cy uuid]) (simp_all add: old)
  then show ?thesis
    by (simp add: load_or_create_keypair_def stale disk Let_def to_crypto_identity_def)
qed

theorem interrupted_rotation_mixes_keys_witness:
  "case load_or_create_keypair toy_crypto read_str unary_codec 5 ''new'' ''n''
      (new_id_disk\<lparr>id_public_file := Blank, id_private_file := Key_Bytes ''old'', id_private_error := Some ''full''\<rparr>) of
     (res, dk') \<Rightarrow> \<exists>c. load_or_create_keypair toy_crypto read_str unary_codec 6 ''k1'' ''n'' dk' = (Inr (''old'', c), dk')
       \<and> ci_public_key c = b64encode ''new''"
  using interrupted_rotation_mixes_keys [OF unary_codec_ok toy_crypto_ok, where uuid = read_str and n = "''n''"
      and k = "''old''" and ?k0.0 = "''new''" and ?t0.0 = 5 and m = "''full''" and ?t1.0 = 6 and ?k1.0 = "''k1''"
      and dk = "new_id_disk\<lparr>id_public_file := Blank, id_private_file := Key_Bytes ''old'', id_private_error := Some ''full''\<rparr>"]
  by (auto simp: new_id_disk_def toy_crypto_def load_keypair_def public_key_b64_def split: prod.splits)

text \<open>
  A node identity is created once: after a first call that succeeds, every later call, also by
  a manager started afresh, returns the same node id and name and writes nothing. A corrupt file is
  reported as \<open>IdentityCorruptionError\<close> and never replaced.
\<close>

theorem node_identity_stable:
  assumes codec: "codec_ok tc" and uuid: "uuid (PStr u) = Some u"
    and start: "get_or_create_identity uuid tc u t0 host (new_identity_manager name) dk = (Inr i, im', dk')"
    and first: "id_node_file dk = Missing"
  shows "get_or_create_identity uuid tc u1 t1 host1 im' dk' = (Inr i, im', dk')
    \<and> fst (get_or_create_identity uuid tc u1 t1 host1 (new_identity_manager name1) dk') = Inr i
    \<and> snd (snd (get_or_create_identity uuid tc u1 t1 host1 (new_identity_manager name1) dk')) = dk'
    \<and> get_or_create_identity uuid tc u1 t1 host1 (new_identity_manager name1) (dk'\<lparr>id_node_file := Malformed m\<rparr>)
        = (Inl (identity_corruption m), new_identity_manager name1, dk'\<lparr>id_node_file := Malformed m\<rparr>)"
proof -
  from start first have i: "ni_node_id i = u" "im_identity im' = Some i"
      "id_node_file dk' = Json (dump_node_identity tc i)"
    by (auto simp: get_or_create_identity_def new_identity_manager_def create_identity_def Let_def
        split: option.splits)
  with read_dumped_node_identity [OF codec, of uuid i u1 t1] uuid
  have "load_identity uuid tc u1 t1 (id_node_file dk') = Inr i" by (simp add: load_identity_def)
  with i show ?thesis
    by (simp add: get_or_create_identity_def new_identity_manager_def load_identity_def)
qed

theorem node_identity_stable_witness:
  "\<exists>i im' dk'. get_or_create_identity read_str unary_codec ''u'' 1 ''host'' (new_identity_manager None) new_id_disk
       = (Inr i, im', dk')
     \<and> fst (get_or_create_identity read_str unary_codec ''other'' 2 ''host'' (new_identity_manager None) dk') = Inr i"
proof -
  obtain i im' dk' where
    "get_or_create_identity read_str unary_codec ''u'' 1 ''host'' (new_identity_manager None) new_id_disk = (Inr i, im', dk')"
    by (simp add: get_or_create_identity_def new_identity_manager_def create_identity_def new_id_disk_def Let_def)
  with node_identity_stable [OF unary_codec_ok _ this, of "''other''" 2 "''host''" None]
  show ?thesis by (simp add: new_id_disk_def)
qed

end
