(* ===== verification/Shyam_Canonical.thy ===== *)
theory Shyam_Canonical
  imports Shyam_Json
begin

section \<open>Canonical JSON text\<close>

text \<open>
  \<open>json.dumps(value, sort_keys=True, ensure_ascii=False, separators=(",", ":"))\<close> and its UTF-8
  bytes: what \<open>sync/serializer.py\<close> signs. The main lemma is that the bytes determine the
  value, so a signature over them covers the whole value.
\<close>

subsection \<open>The printer\<close>

definition json_esc :: "char \<Rightarrow> string" where
  "json_esc c =
     (if c = CHR 0x22 then [CHR 0x5C, CHR 0x22]
      else if c = CHR 0x5C then [CHR 0x5C, CHR 0x5C]
      else if c = CHR 0x0A then [CHR 0x5C, CHR ''n'']
      else if c = CHR 0x0D then [CHR 0x5C, CHR ''r'']
      else if c = CHR 0x09 then [CHR 0x5C, CHR ''t'']
      else if c = CHR 0x0C then [CHR 0x5C, CHR ''f'']
      else if c = CHR 0x08 then [CHR 0x5C, CHR ''b'']
      else if char_code c < 32
      then [CHR 0x5C, CHR ''u'', CHR ''0'', CHR ''0'',
            hex_digit (char_code c div 16), hex_digit (char_code c mod 16)]
      else [c])"

definition json_str :: "string \<Rightarrow> string" where
  "json_str s = CHR 0x22 # concat (map json_esc s) @ [CHR 0x22]"

fun json_text :: "pyval \<Rightarrow> string" where
  "json_text PNone = ''null''"
| "json_text (PBool b) = (if b then ''true'' else ''false'')"
| "json_text (PInt i) = int_str i"
| "json_text (PStr s) = json_str s"
| "json_text (PList xs) = ''['' @ join_with '','' (map json_text xs) @ '']''"
| "json_text (PDict d) =
     CHR 0x7B # join_with '','' (map (\<lambda>(k, v). json_str k @ '':'' @ json_text v) d) @ [CHR 0x7D]"

definition utf8_char :: "char \<Rightarrow> string" where
  "utf8_char c = (if char_code c < 128 then [c]
     else [char_of (192 + char_code c div 64), char_of (128 + char_code c mod 64)])"

definition utf8_encode :: "string \<Rightarrow> string" where
  "utf8_encode s = concat (map utf8_char s)"

definition canonical_json_bytes :: "pyval \<Rightarrow> string" where
  "canonical_json_bytes v = utf8_encode (json_text (sort_keys v))"

subsection \<open>Prefix codes\<close>

text \<open>A code with a left inverse on the front of a text is determined by the text.\<close>

lemma prefix_code:
  assumes "\<And>c x. decode (code c @ x) = Some (c, x)"
  shows "code c @ x = code d @ y \<Longrightarrow> c = d \<and> x = y"
  by (metis assms option.inject prod.inject)

lemma concat_code_inj:
  assumes code: "\<And>c d x y. code c @ x = code d @ y \<Longrightarrow> c = d \<and> x = y"
    and end_code: "\<And>c. code c \<noteq> [] \<and> hd (code c) \<noteq> e"
  shows "concat (map code s) @ e # x = concat (map code t) @ e # y \<Longrightarrow> s = t \<and> x = y"
proof (induction s arbitrary: t)
  case Nil
  show ?case
  proof (cases t)
    case (Cons b t')
    with Nil end_code [of b] show ?thesis by (cases "code b") simp_all
  qed (use Nil in simp)
next
  case (Cons a s)
  show ?case
  proof (cases t)
    case Nil
    with Cons.prems end_code [of a] show ?thesis by (cases "code a") simp_all
  next
    case (Cons b t')
    with Cons.prems have "code a @ concat (map code s) @ e # x = code b @ concat (map code t') @ e # y"
      by simp
    from code [OF this] Cons.IH [of t'] Cons show ?thesis by simp
  qed
qed

definition utf8_decode1 :: "string \<Rightarrow> (char \<times> string) option" where
  "utf8_decode1 s = (case s of [] \<Rightarrow> None
     | c # cs \<Rightarrow> if char_code c < 128 then Some (c, cs)
         else (case cs of [] \<Rightarrow> None
           | d # ds \<Rightarrow> Some (char_of ((char_code c - 192) * 64 + (char_code d - 128)), ds)))"

lemma utf8_decode_char: "utf8_decode1 (utf8_char c @ x) = Some (c, x)"
proof (cases "char_code c < 128")
  case True
  then show ?thesis by (simp add: utf8_char_def utf8_decode1_def)
next
  case False
  have "char_code c div 64 < 4" "char_code c mod 64 < 64" using char_code_lt [of c] by linarith+
  with False show ?thesis by (simp add: utf8_char_def utf8_decode1_def char_code_of char_of_code)
qed

lemmas utf8_char_inj = prefix_code [of utf8_decode1 utf8_char, OF utf8_decode_char]

lemma utf8_char_nonempty: "utf8_char c \<noteq> []"
  by (simp add: utf8_char_def)

lemma utf8_encode_inj: "utf8_encode s = utf8_encode t \<Longrightarrow> s = t"
proof (induction s arbitrary: t)
  case Nil
  then show ?case by (cases t) (simp_all add: utf8_encode_def utf8_char_nonempty)
next
  case (Cons a s)
  show ?case
  proof (cases t)
    case Nil
    with Cons.prems show ?thesis by (simp add: utf8_encode_def utf8_char_nonempty)
  next
    case (Cons b t')
    with Cons.prems utf8_char_inj [of a "utf8_encode s" b "utf8_encode t'"] Cons.IH [of t']
    show ?thesis by (simp add: utf8_encode_def)
  qed
qed

subsection \<open>Strings and numbers\<close>

definition hex_val :: "char \<Rightarrow> nat" where
  "hex_val c = (if char_code c < 58 then char_code c - 48 else char_code c - 87)"

definition json_unesc1 :: "string \<Rightarrow> (char \<times> string) option" where
  "json_unesc1 s = (case s of [] \<Rightarrow> None
     | c # cs \<Rightarrow> if c \<noteq> CHR 0x5C then Some (c, cs)
         else (case cs of [] \<Rightarrow> None
           | d # ds \<Rightarrow>
               if d = CHR ''n'' then Some (CHR 0x0A, ds)
               else if d = CHR ''r'' then Some (CHR 0x0D, ds)
               else if d = CHR ''t'' then Some (CHR 0x09, ds)
               else if d = CHR ''f'' then Some (CHR 0x0C, ds)
               else if d = CHR ''b'' then Some (CHR 0x08, ds)
               else if d = CHR ''u''
               then Some (char_of (hex_val (ds ! 2) * 16 + hex_val (ds ! 3)), drop 4 ds)
               else Some (d, ds)))"

lemma hex_val_digit: "n < 16 \<Longrightarrow> hex_val (hex_digit n) = n"
  by (simp add: hex_val_def hex_digit_def char_code_of)

lemma json_unesc_esc: "json_unesc1 (json_esc c @ x) = Some (c, x)"
proof -
  have "char_code c div 16 < 16" "char_code c mod 16 < 16" using char_code_lt [of c] by linarith+
  then show ?thesis
    by (simp add: json_esc_def json_unesc1_def hex_val_digit char_of_code numeral_2_eq_2 numeral_3_eq_3)
qed

lemmas json_esc_inj = prefix_code [of json_unesc1 json_esc, OF json_unesc_esc]

lemma json_esc_no_quote: "json_esc c \<noteq> [] \<and> hd (json_esc c) \<noteq> CHR 0x22"
  by (simp add: json_esc_def)

lemma json_str_inj: "json_str s @ x = json_str t @ y \<Longrightarrow> s = t \<and> x = y"
  using concat_code_inj [of json_esc "CHR 0x22", OF json_esc_inj json_esc_no_quote, of s x t y]
  by (simp add: json_str_def)

lemma nat_str_digits: "list_all is_digit (nat_str n) \<and> nat_str n \<noteq> []"
proof (induction n rule: nat_str.induct)
  case (1 n)
  have "is_digit (char_of (48 + m))" if "m < 10" for m :: nat
    using that by (simp add: is_digit_def char_code_of)
  with 1 show ?case by (subst (1 2) nat_str.simps) auto
qed

lemma nat_str_value: "foldl (\<lambda>a c. a * 10 + (char_code c - 48)) 0 (nat_str n) = n"
proof (induction n rule: nat_str.induct)
  case (1 n)
  then show ?case by (subst nat_str.simps) (simp add: char_code_of)
qed

definition delim :: "string \<Rightarrow> bool" where
  "delim r \<longleftrightarrow> r = [] \<or> hd r \<in> {CHR '','', CHR '']'', CHR 0x7D}"

lemma delim_no_digit:
  assumes "delim r"
  shows "takeWhile is_digit (nat_str n @ r) = nat_str n"
proof -
  have "takeWhile is_digit r = []"
    using assms by (cases r) (auto simp: delim_def is_digit_def char_code_def)
  with nat_str_digits [of n] show ?thesis by (simp add: takeWhile_append list_all_iff)
qed

lemma nat_str_inj:
  assumes "nat_str n @ r = nat_str m @ s" and "delim r" and "delim s"
  shows "n = m \<and> r = s"
proof -
  have eq: "nat_str n = nat_str m"
    using delim_no_digit [OF assms(2), of n] delim_no_digit [OF assms(3), of m] assms(1) by metis
  then have "n = m" by (metis nat_str_value)
  moreover have "r = s" using assms(1) unfolding eq by (rule same_append_eq [THEN iffD1])
  ultimately show ?thesis by (rule conjI)
qed

lemma nat_str_minus: "nat_str n @ u \<noteq> CHR ''-'' # v"
  using nat_str_digits [of n] by (cases "nat_str n") (auto simp: is_digit_def char_code_def)

lemma int_str_inj:
  assumes eq: "int_str i @ r = int_str j @ s" and r: "delim r" and s: "delim s"
  shows "i = j \<and> r = s"
proof -
  consider "i < 0" "j < 0" | "i < 0" "0 \<le> j" | "0 \<le> i" "j < 0" | "0 \<le> i" "0 \<le> j" by linarith
  then show ?thesis
  proof cases
    case 1
    with eq have "nat_str (nat (- i)) @ r = nat_str (nat (- j)) @ s" by (simp add: int_str_def)
    from nat_str_inj [OF this r s] 1 show ?thesis by linarith
  next
    case 2
    with eq have "nat_str (nat j) @ s = CHR ''-'' # nat_str (nat (- i)) @ r" by (simp add: int_str_def)
    then show ?thesis by (rule notE [OF nat_str_minus])
  next
    case 3
    with eq have "nat_str (nat i) @ r = CHR ''-'' # nat_str (nat (- j)) @ s" by (simp add: int_str_def)
    then show ?thesis by (rule notE [OF nat_str_minus])
  next
    case 4
    with eq have "nat_str (nat i) @ r = nat_str (nat j) @ s" by (simp add: int_str_def)
    from nat_str_inj [OF this r s] 4 show ?thesis by linarith
  qed
qed

subsection \<open>Values\<close>

text \<open>The first character tells the constructor.\<close>

fun json_kind :: "pyval \<Rightarrow> nat" where
  "json_kind PNone = 0"
| "json_kind (PBool b) = 1"
| "json_kind (PInt i) = 2"
| "json_kind (PStr s) = 3"
| "json_kind (PList xs) = 4"
| "json_kind (PDict d) = 5"

definition kind_of :: "char \<Rightarrow> nat" where
  "kind_of c = (if is_digit c \<or> c = CHR ''-'' then 2 else if c = CHR ''n'' then 0
     else if c \<in> {CHR ''t'', CHR ''f''} then 1 else if c = CHR 0x22 then 3
     else if c = CHR ''['' then 4 else if c = CHR 0x7B then 5 else 6)"

lemma json_head: "json_text w \<noteq> [] \<and> kind_of (hd (json_text w)) = json_kind w"
proof (cases w)
  case (PInt i)
  then show ?thesis
    using nat_str_digits [of "nat i"] by (cases "nat_str (nat i)") (auto simp: int_str_def kind_of_def)
qed (simp_all add: kind_of_def json_str_def is_digit_def char_code_def)

lemma json_same_kind: "json_text v @ r = json_text w @ s \<Longrightarrow> json_kind v = json_kind w"
proof -
  assume eq: "json_text v @ r = json_text w @ s"
  from json_head [of v] have "json_kind v = kind_of (hd (json_text v @ r))" by simp
  also have "\<dots> = kind_of (hd (json_text w @ s))" by (simp only: eq)
  also have "\<dots> = json_kind w" using json_head [of w] by simp
  finally show ?thesis .
qed

lemma kind_closing: "c \<in> {CHR '','', CHR '']'', CHR 0x7D} \<Longrightarrow> kind_of c = 6"
  by (elim insertE emptyE) (simp_all add: kind_of_def is_digit_def char_code_def)

lemma json_kind_lt: "json_kind v < 6"
  by (cases v) simp_all

lemma join_with_Cons: "join_with sep (p # ps) = p @ concat (map (\<lambda>q. sep @ q) ps)"
  by (induction ps arbitrary: p) auto

text \<open>A sequence of items between commas up to a closing bracket determines the items.\<close>

definition item_code :: "('a \<Rightarrow> string) \<Rightarrow> 'a set \<Rightarrow> bool" where
  "item_code f A \<longleftrightarrow> (\<forall>x \<in> A. \<forall>y u v. f x @ u = f y @ v \<longrightarrow> delim u \<longrightarrow> delim v \<longrightarrow> x = y \<and> u = v)
     \<and> (\<forall>y. f y \<noteq> [] \<and> kind_of (hd (f y)) \<noteq> 6)"

lemma item_codeD:
  "item_code f A \<Longrightarrow> x \<in> A \<Longrightarrow> f x @ u = f y @ v \<Longrightarrow> delim u \<Longrightarrow> delim v \<Longrightarrow> x = y \<and> u = v"
  unfolding item_code_def by blast

lemma item_codeI:
  "(\<And>x y u v. x \<in> A \<Longrightarrow> f x @ u = f y @ v \<Longrightarrow> delim u \<Longrightarrow> delim v \<Longrightarrow> x = y \<and> u = v) \<Longrightarrow>
     (\<And>y. f y \<noteq> [] \<and> kind_of (hd (f y)) \<noteq> 6) \<Longrightarrow> item_code f A"
  unfolding item_code_def by blast

lemma item_code_mono: "item_code f A \<Longrightarrow> B \<subseteq> A \<Longrightarrow> item_code f B"
  unfolding item_code_def by blast

lemma item_code_closing:
  assumes "item_code f A" and "c \<in> {CHR '']'', CHR 0x7D}"
  shows "f y @ u \<noteq> c # v"
proof
  assume "f y @ u = c # v"
  moreover from assms(1) have "f y \<noteq> []" "kind_of (hd (f y)) \<noteq> 6" unfolding item_code_def by blast+
  ultimately have "hd (f y) = c" by (cases "f y") simp_all
  moreover have "kind_of c = 6" by (rule kind_closing) (use assms(2) in blast)
  ultimately show False using \<open>kind_of (hd (f y)) \<noteq> 6\<close> by simp
qed

lemma delim_tail: "c \<in> {CHR '']'', CHR 0x7D} \<Longrightarrow> delim (concat (map (\<lambda>x. CHR '','' # f x) xs) @ c # r)"
  by (cases xs) (auto simp: delim_def)

lemma item_tail_inj:
  "item_code f (set xs) \<Longrightarrow> c \<in> {CHR '']'', CHR 0x7D} \<Longrightarrow>
     concat (map (\<lambda>x. CHR '','' # f x) xs) @ c # r = concat (map (\<lambda>x. CHR '','' # f x) ys) @ c # s \<Longrightarrow>
     xs = ys \<and> r = s"
proof (induction xs arbitrary: ys)
  case Nil
  then show ?case by (cases ys) auto
next
  case (Cons x xs)
  show ?case
  proof (cases ys)
    case Nil
    with Cons.prems show ?thesis by auto
  next
    case (Cons y ys')
    let ?u = "concat (map (\<lambda>x. CHR '','' # f x) xs) @ c # r"
    let ?v = "concat (map (\<lambda>x. CHR '','' # f x) ys') @ c # s"
    have "f x @ ?u = f y @ ?v" using Cons.prems(3) Cons by simp
    note xy = item_codeD [OF Cons.prems(1) list.set_intros(1) this delim_tail [OF Cons.prems(2)]
        delim_tail [OF Cons.prems(2)]]
    have "item_code f (set xs)" by (rule item_code_mono [OF Cons.prems(1)]) (rule set_subset_Cons)
    from Cons.IH [OF this Cons.prems(2) conjunct2 [OF xy]] conjunct1 [OF xy] Cons show ?thesis by simp
  qed
qed

lemma items_inj:
  assumes code: "item_code f (set xs)" and c: "c \<in> {CHR '']'', CHR 0x7D}"
    and eq: "join_with '','' (map f xs) @ c # r = join_with '','' (map f ys) @ c # s"
  shows "xs = ys \<and> r = s"
proof -
  note closing = item_code_closing [OF code c]
  have tail: "concat (map (\<lambda>q. '','' @ q) (map f zs)) = concat (map (\<lambda>x. CHR '','' # f x) zs)" for zs
    by (simp add: comp_def)
  show ?thesis
  proof (cases xs)
    case Nil
    with eq closing [symmetric] show ?thesis by (cases ys) (auto simp: join_with_Cons)
  next
    case (Cons x xs')
    show ?thesis
    proof (cases ys)
      case Nil
      with eq Cons closing show ?thesis by (auto simp: join_with_Cons)
    next
      case (Cons y ys')
      with \<open>xs = x # xs'\<close> eq have "concat (map (\<lambda>x. CHR '','' # f x) xs) @ c # r
          = concat (map (\<lambda>x. CHR '','' # f x) ys) @ c # s"
        by (simp add: join_with_Cons comp_def)
      from item_tail_inj [OF code c this] show ?thesis .
    qed
  qed
qed

lemma dict_item_code:
  assumes "\<And>k v w u x. (k, v) \<in> set d \<Longrightarrow> json_text v @ u = json_text w @ x \<Longrightarrow> delim u \<Longrightarrow> delim x \<Longrightarrow> v = w \<and> u = x"
  shows "item_code (\<lambda>(k, v). json_str k @ '':'' @ json_text v) (set d)"
proof (rule item_codeI)
  fix p q u x
  assume p: "p \<in> set d" and eq: "(case p of (k, v) \<Rightarrow> json_str k @ '':'' @ json_text v) @ u
      = (case q of (k, v) \<Rightarrow> json_str k @ '':'' @ json_text v) @ x" and ux: "delim u" "delim x"
  obtain k v k' w where kv: "p = (k, v)" "q = (k', w)" by (cases p, cases q) blast
  with eq have "json_str k @ '':'' @ json_text v @ u = json_str k' @ '':'' @ json_text w @ x" by simp
  from json_str_inj [OF this] have "k = k'" "json_text v @ u = json_text w @ x" by simp_all
  moreover from assms [OF p [unfolded kv(1)] this(2) ux] have "v = w" "u = x" by simp_all
  ultimately show "p = q \<and> u = x" by (simp add: kv)
next
  fix q :: "string \<times> pyval"
  have "kind_of (CHR 0x22) = 3" by (simp add: kind_of_def is_digit_def char_code_def)
  then show "(case q of (k, v) \<Rightarrow> json_str k @ '':'' @ json_text v) \<noteq> []
      \<and> kind_of (hd (case q of (k, v) \<Rightarrow> json_str k @ '':'' @ json_text v)) \<noteq> 6"
    by (simp add: json_str_def split: prod.split)
qed

lemma json_text_inj:
  "json_text v @ r = json_text w @ s \<Longrightarrow> delim r \<Longrightarrow> delim s \<Longrightarrow> v = w \<and> r = s"
proof (induction v arbitrary: w r s)
  case PNone
  then show ?case using json_same_kind [OF PNone.prems(1)] by (cases w) simp_all
next
  case (PBool b)
  then show ?case using json_same_kind [OF PBool.prems(1)] by (cases w) (simp_all split: if_splits)
next
  case (PInt i)
  then obtain j where w: "w = PInt j" using json_same_kind [OF PInt.prems(1)] by (cases w) simp_all
  with int_str_inj [of i r j s] PInt.prems show ?case by simp
next
  case (PStr t)
  then obtain t' where w: "w = PStr t'" using json_same_kind [OF PStr.prems(1)] by (cases w) simp_all
  with json_str_inj [of t r t' s] PStr.prems show ?case by simp
next
  case (PList xs)
  then obtain ys where w: "w = PList ys" using json_same_kind [OF PList.prems(1)] by (cases w) simp_all
  have "item_code json_text (set xs)"
  proof (rule item_codeI)
    show "x = y \<and> u = v" if "x \<in> set xs" "json_text x @ u = json_text y @ v" "delim u" "delim v" for x y u v
      using PList.IH [OF that] .
    show "json_text y \<noteq> [] \<and> kind_of (hd (json_text y)) \<noteq> 6" for y
      using json_head [of y] json_kind_lt [of y] by simp
  qed
  from items_inj [OF this, of "CHR '']''" r ys s] PList.prems(1) show ?case by (simp add: w)
next
  case (PDict d)
  then obtain e where w: "w = PDict e" using json_same_kind [OF PDict.prems(1)] by (cases w) simp_all
  have "item_code (\<lambda>(k, v). json_str k @ '':'' @ json_text v) (set d)"
  proof (rule dict_item_code)
    show "v = w \<and> u = x" if "(k, v) \<in> set d" "json_text v @ u = json_text w @ x" "delim u" "delim x" for k v w u x
      using PDict.IH [OF that(1) _ that(2-4)] by (simp add: snds.simps)
  qed
  from items_inj [OF this, of "CHR 0x7D" r e s] PDict.prems(1) show ?case by (simp add: w)
qed

lemma canonical_json_inj: "canonical_json_bytes v = canonical_json_bytes w \<longleftrightarrow> sort_keys v = sort_keys w"
proof
  assume "canonical_json_bytes v = canonical_json_bytes w"
  then have "json_text (sort_keys v) @ [] = json_text (sort_keys w) @ []"
    by (simp add: canonical_json_bytes_def utf8_encode_inj)
  from json_text_inj [OF this] show "sort_keys v = sort_keys w" by (simp add: delim_def)
qed (simp add: canonical_json_bytes_def)

end
