(* ===== verification/Shyam_Sync.thy ===== *)
theory Shyam_Sync
  imports Shyam_Identity Shyam_Canonical
begin

section \<open>Synchronisation: version vectors, signed envelopes and convergence\<close>

text \<open>
  \<open>sync/versions.py\<close>, \<open>sync/models.py\<close>, \<open>sync/serializer.py\<close>, \<open>sync/authenticator.py\<close>,
  \<open>sync/events.py\<close> and \<open>sync/service.py\<close>. Where the code iterates over a Python set the model
  takes one order, and nothing below depends on it. The part of an operation under the service's
  lock is one step; authentication happens before the lock is taken.
\<close>

subsection \<open>Version vectors\<close>

type_synonym version_map = "(string, int) dict"

definition get_version :: "version_map \<Rightarrow> string \<Rightarrow> int" where
  "get_version vm n = dget_or vm n 0"

definition with_update :: "version_map \<Rightarrow> string \<Rightarrow> int \<Rightarrow> version_map" where
  "with_update vm n v = dset n v vm"

datatype version_comparison = VC_EQUAL | VC_AHEAD | VC_BEHIND | VC_CONCURRENT

fun comparison_value :: "version_comparison \<Rightarrow> string" where
  "comparison_value VC_EQUAL = ''equal''"
| "comparison_value VC_AHEAD = ''ahead''"
| "comparison_value VC_BEHIND = ''behind''"
| "comparison_value VC_CONCURRENT = ''concurrent''"

definition all_version_keys :: "version_map \<Rightarrow> version_map \<Rightarrow> string list" where
  "all_version_keys l r = remdups (dkeys l @ dkeys r)"

fun scan_versions :: "version_map \<Rightarrow> version_map \<Rightarrow> string list \<Rightarrow> bool \<times> bool \<Rightarrow> bool \<times> bool" where
  "scan_versions l r [] flags = flags"
| "scan_versions l r (k # ks) (lg, rg) =
     scan_versions l r ks
       (if get_version l k > get_version r k then (True, rg)
        else if get_version r k > get_version l k then (lg, True) else (lg, rg))"

definition compare_versions :: "version_map \<Rightarrow> version_map \<Rightarrow> version_comparison" where
  "compare_versions l r =
     (if all_version_keys l r = [] then VC_EQUAL
      else (case scan_versions l r (all_version_keys l r) (False, False) of
              (lg, rg) \<Rightarrow> if lg \<and> rg then VC_CONCURRENT else if rg then VC_BEHIND
                         else if lg then VC_AHEAD else VC_EQUAL))"

definition merge_version_maps :: "version_map \<Rightarrow> version_map \<Rightarrow> version_map" where
  "merge_version_maps l r =
     map (\<lambda>n. (n, max (get_version l n) (get_version r n))) (all_version_keys l r)"

lemma get_version_absent: "n \<notin> set (all_version_keys l r) \<Longrightarrow> get_version l n = 0 \<and> get_version r n = 0"
  by (force simp: all_version_keys_def get_version_def dget_or_def split: option.splits dest: map_of_SomeD)

lemma get_version_merge [simp]:
  "get_version (merge_version_maps l r) n = max (get_version l n) (get_version r n)"
proof (cases "n \<in> set (all_version_keys l r)")
  case True
  have "dget (map (\<lambda>n. (n, f n)) ks) n = (if n \<in> set ks then Some (f n) else None)" for f :: "string \<Rightarrow> int" and ks
    by (induction ks) auto
  with True show ?thesis
    by (simp add: merge_version_maps_def get_version_def [of "map f ks" for f ks] dget_or_def)
next
  case False
  with get_version_absent [OF this] show ?thesis
    by (auto simp: merge_version_maps_def get_version_def dget_or_def split: option.splits dest!: map_of_SomeD)
qed

lemma get_version_update [simp]: "get_version (with_update vm k v) n = (if n = k then v else get_version vm n)"
  by (simp add: get_version_def with_update_def dget_or_def)

lemma scan_versions_spec:
  "scan_versions l r ks (lg, rg) =
     (lg \<or> (\<exists>k \<in> set ks. get_version l k > get_version r k),
      rg \<or> (\<exists>k \<in> set ks. get_version r k > get_version l k))"
  by (induction ks arbitrary: lg rg) auto

text \<open>The pointwise order of vectors, an absent node counting as 0.\<close>

definition version_le :: "version_map \<Rightarrow> version_map \<Rightarrow> bool" where
  "version_le l r \<longleftrightarrow> (\<forall>n. get_version l n \<le> get_version r n)"

lemma version_le_keys:
  "version_le l r \<longleftrightarrow> \<not> (\<exists>k \<in> set (all_version_keys l r). get_version l k > get_version r k)"
  using get_version_absent [of _ l r] by (auto simp: version_le_def not_less)

lemma all_version_keys_commute: "set (all_version_keys l r) = set (all_version_keys r l)"
  by (auto simp: all_version_keys_def)

lemma compare_versions_le:
  "compare_versions l r =
     (if version_le l r then if version_le r l then VC_EQUAL else VC_BEHIND
      else if version_le r l then VC_AHEAD else VC_CONCURRENT)"
proof -
  have "version_le r l \<longleftrightarrow> \<not> (\<exists>k \<in> set (all_version_keys l r). get_version r k > get_version l k)"
    using version_le_keys [of r l] all_version_keys_commute [of r l] by simp
  then show ?thesis
    using version_le_keys [of l r] by (auto simp: compare_versions_def scan_versions_spec)
qed

text \<open>
  C38. Comparing version vectors is the pointwise order on all nodes, absent ones counting as 0; and
  merging is its least upper bound, so it is commutative, associative and idempotent up to the
  versions it gives.
\<close>

theorem version_vectors_lattice:
  "compare_versions l r =
     (if version_le l r then if version_le r l then VC_EQUAL else VC_BEHIND
      else if version_le r l then VC_AHEAD else VC_CONCURRENT)
   \<and> version_le l (merge_version_maps l r) \<and> version_le r (merge_version_maps l r)
   \<and> (version_le (merge_version_maps l r) u \<longleftrightarrow> version_le l u \<and> version_le r u)
   \<and> get_version (merge_version_maps l r) = get_version (merge_version_maps r l)
   \<and> get_version (merge_version_maps (merge_version_maps l r) u)
       = get_version (merge_version_maps l (merge_version_maps r u))
   \<and> get_version (merge_version_maps l l) = get_version l"
  by (auto simp: compare_versions_le version_le_def fun_eq_iff max.commute max.assoc)

subsection \<open>Messages\<close>

definition SYNC_PROTOCOL_VERSION :: string where
  "SYNC_PROTOCOL_VERSION = ''1.0''"

record sync_payload =
  sp_known_node_ids :: "string list"
  sp_node_capabilities :: "(string, string list) dict"
  sp_node_availability :: "(string, string) dict"
  sp_extra :: "(string, pyval) dict"

record sync_envelope =
  se_sender_node_id :: string
  se_sender_public_key :: string
  se_protocol_version :: string
  se_message_type :: string
  se_version_map :: version_map
  se_payload :: sync_payload
  se_timestamp :: time
  se_message_id :: string
  se_signature :: string

datatype sync_outcome = SYNC_APPLIED | SYNC_ALREADY_CURRENT | SYNC_REJECTED_UNTRUSTED
  | SYNC_REJECTED_INVALID_SIGNATURE | SYNC_REJECTED_PROTOCOL_MISMATCH | SYNC_REJECTED_MALFORMED
  | SYNC_REJECTED_REVOKED | SYNC_CONFLICT | SYNC_ERROR

record sync_result =
  syr_outcome :: sync_outcome
  syr_sender_node_id :: string
  syr_message_id :: string
  syr_version_before :: int
  syr_version_after :: int
  syr_detail :: string

datatype sync_event =
    SyncCompletedEvent string string sync_outcome
  | SyncRejectedEvent string string sync_outcome string

text \<open>\<open>model_dump\<close> without the signature, and the bytes that are signed.\<close>

definition payload_dump :: "sync_payload \<Rightarrow> pyval" where
  "payload_dump p = PDict
     [(''known_node_ids'', PList (map PStr (sp_known_node_ids p))),
      (''node_capabilities'', PDict (map (\<lambda>(n, cs). (n, PList (map PStr cs))) (sp_node_capabilities p))),
      (''node_availability'', PDict (map (\<lambda>(n, a). (n, PStr a)) (sp_node_availability p))),
      (''extra'', PDict (sp_extra p))]"

definition envelope_dump :: "time_codec \<Rightarrow> sync_envelope \<Rightarrow> pyval" where
  "envelope_dump tc e = PDict
     [(''sender_node_id'', PStr (se_sender_node_id e)),
      (''sender_public_key'', PStr (se_sender_public_key e)),
      (''protocol_version'', PStr (se_protocol_version e)),
      (''message_type'', PStr (se_message_type e)),
      (''version_map'', PDict [(''versions'', PDict (map (\<lambda>(n, v). (n, PInt v)) (se_version_map e)))]),
      (''payload'', payload_dump (se_payload e)),
      (''timestamp'', PStr (tc_print tc (se_timestamp e))),
      (''message_id'', PStr (se_message_id e))]"

definition get_signable_bytes :: "time_codec \<Rightarrow> sync_envelope \<Rightarrow> string" where
  "get_signable_bytes tc e = canonical_json_bytes (envelope_dump tc e)"

subsection \<open>sync/authenticator.py\<close>

definition sign_envelope :: "'k crypto \<Rightarrow> time_codec \<Rightarrow> sync_envelope \<Rightarrow> 'k \<Rightarrow> sync_envelope" where
  "sign_envelope cy tc e k = e\<lparr>se_signature := b64encode (cy_sign cy k (get_signable_bytes tc e))\<rparr>"

text \<open>The verdict once the sender's trust record is known.\<close>

definition judge_envelope ::
  "'k crypto \<Rightarrow> time_codec \<Rightarrow> sync_envelope \<Rightarrow> trust_record \<Rightarrow> bool \<times> sync_outcome \<times> string" where
  "judge_envelope cy tc e r =
     (let n = se_sender_node_id e in
      if tr_is_revoked r
      then (False, SYNC_REJECTED_REVOKED, ''Node '' @ quoted n @ '' trust standing is REVOKED'')
      else if \<not> tr_is_trusted r
      then (False, SYNC_REJECTED_UNTRUSTED, ''Node '' @ quoted n @ '' is not in local trust store'')
      else if truthy_opt (tr_public_key r) \<and> tr_public_key r \<noteq> Some (se_sender_public_key e)
      then (False, SYNC_REJECTED_INVALID_SIGNATURE,
            ''Envelope public key does not match pinned trust key for node '' @ quoted n)
      else (case opt_or (tr_public_key r) (Some (se_sender_public_key e)) of
          None \<Rightarrow> (False, SYNC_REJECTED_MALFORMED, ''No public key available for node '' @ quoted n)
        | Some key \<Rightarrow>
            if key = []
            then (False, SYNC_REJECTED_MALFORMED, ''No public key available for node '' @ quoted n)
            else (case b64decode (se_signature e) of
                Inl x \<Rightarrow> (False, SYNC_REJECTED_INVALID_SIGNATURE,
                          ''Signature parsing or verification error: '' @ exn_msg x)
              | Inr sig \<Rightarrow>
                  if \<not> verify_with_public_key cy key (get_signable_bytes tc e) sig
                  then (False, SYNC_REJECTED_INVALID_SIGNATURE, ''Ed25519 signature verification failed'')
                  else (True, SYNC_APPLIED, ''Authentication successful''))))"

text \<open>Looking up the sender may load the trust store, and that may raise.\<close>

definition authenticate_incoming ::
  "'k crypto \<Rightarrow> time_codec \<Rightarrow> time \<Rightarrow> trust_disk \<Rightarrow> sync_envelope \<Rightarrow> trust_service
     \<Rightarrow> ((bool \<times> sync_outcome \<times> string) \<times> trust_service) result" where
  "authenticate_incoming cy tc now dk e ts =
     (if se_protocol_version e \<noteq> SYNC_PROTOCOL_VERSION
      then Inr ((False, SYNC_REJECTED_PROTOCOL_MISMATCH,
             ''Unsupported protocol version '' @ quoted (se_protocol_version e) @ '', expected ''
               @ quoted SYNC_PROTOCOL_VERSION), ts)
      else if se_signature e = []
      then Inr ((False, SYNC_REJECTED_INVALID_SIGNATURE, ''Envelope is unsigned''), ts)
      else if se_sender_node_id e = []
      then Inr ((False, SYNC_REJECTED_MALFORMED, ''Envelope missing sender_node_id''), ts)
      else (case get_record tc now dk (se_sender_node_id e) ts of
              Inl x \<Rightarrow> Inl x
            | Inr (r, ts') \<Rightarrow> Inr (judge_envelope cy tc e r, ts')))"

subsection \<open>sync/service.py\<close>

text \<open>\<open>deque(maxlen=m)\<close>: appending to a full deque drops its oldest element.\<close>

definition deque_append :: "nat \<Rightarrow> 'a list \<Rightarrow> 'a \<Rightarrow> 'a list" where
  "deque_append m q x = drop (length q + 1 - m) (q @ [x])"

record 'k sync_service =
  sy_local_node_id :: string
  sy_keypair :: 'k
  sy_event_bus :: bool
  sy_max_tracked :: nat
  sy_version_map :: version_map
  sy_processed :: "string list"
  sy_capabilities :: "(string, string set) dict"
  sy_availability :: "(string, string) dict"

definition new_sync_service :: "string \<Rightarrow> 'k \<Rightarrow> bool \<Rightarrow> nat \<Rightarrow> 'k sync_service" where
  "new_sync_service n k bus m =
     \<lparr>sy_local_node_id = n, sy_keypair = k, sy_event_bus = bus, sy_max_tracked = m,
      sy_version_map = [(n, 0)], sy_processed = [], sy_capabilities = [], sy_availability = []\<rparr>"

definition increment_local_version :: "'k sync_service \<Rightarrow> 'k sync_service" where
  "increment_local_version s =
     s\<lparr>sy_version_map := with_update (sy_version_map s) (sy_local_node_id s)
         (get_version (sy_version_map s) (sy_local_node_id s) + 1)\<rparr>"

fun merge_capabilities :: "(string, string list) dict \<Rightarrow> (string, string set) dict \<Rightarrow> (string, string set) dict" where
  "merge_capabilities [] d = d"
| "merge_capabilities ((n, cs) # es) d = merge_capabilities es (dset n (dget_or d n {} \<union> set cs) d)"

text \<open>An empty argument counts as none.\<close>

definition update_local_facts ::
  "(string, string list) dict option \<Rightarrow> (string, string) dict option \<Rightarrow> 'k sync_service \<Rightarrow> 'k sync_service" where
  "update_local_facts caps avail s =
     increment_local_version
       (s\<lparr>sy_capabilities := (case caps of None \<Rightarrow> sy_capabilities s
              | Some d \<Rightarrow> merge_capabilities d (sy_capabilities s)),
          sy_availability := (case avail of None \<Rightarrow> sy_availability s
              | Some d \<Rightarrow> dupdate (sy_availability s) d)\<rparr>)"

definition create_sync_envelope ::
  "'k crypto \<Rightarrow> time_codec \<Rightarrow> time \<Rightarrow> string \<Rightarrow> string \<Rightarrow> 'k sync_service \<Rightarrow> sync_envelope" where
  "create_sync_envelope cy tc now uuid mtype s =
     sign_envelope cy tc
       \<lparr>se_sender_node_id = sy_local_node_id s,
        se_sender_public_key = public_key_b64 cy (sy_keypair s),
        se_protocol_version = SYNC_PROTOCOL_VERSION, se_message_type = mtype,
        se_version_map = sy_version_map s,
        se_payload = \<lparr>sp_known_node_ids = remdups (dkeys (sy_version_map s)
              @ dkeys (sy_capabilities s) @ dkeys (sy_availability s)),
            sp_node_capabilities = map (\<lambda>(n, cs). (n, sorted_list_of_set cs)) (sy_capabilities s),
            sp_node_availability = sy_availability s, sp_extra = []\<rparr>,
        se_timestamp = now, se_message_id = uuid, se_signature = []\<rparr> (sy_keypair s)"

definition sync_reply :: "sync_envelope \<Rightarrow> sync_outcome \<Rightarrow> int \<Rightarrow> int \<Rightarrow> string \<Rightarrow> sync_result" where
  "sync_reply e out before after detail =
     \<lparr>syr_outcome = out, syr_sender_node_id = se_sender_node_id e, syr_message_id = se_message_id e,
      syr_version_before = before, syr_version_after = after, syr_detail = detail\<rparr>"

text \<open>The facts of an envelope merged into the service.\<close>

definition merge_envelope :: "sync_envelope \<Rightarrow> 'k sync_service \<Rightarrow> 'k sync_service" where
  "merge_envelope e s =
     s\<lparr>sy_capabilities := merge_capabilities (sp_node_capabilities (se_payload e)) (sy_capabilities s),
       sy_availability := dupdate (sy_availability s) (sp_node_availability (se_payload e)),
       sy_version_map := merge_version_maps (sy_version_map s) (se_version_map e)\<rparr>"

definition remember_message :: "sync_envelope \<Rightarrow> 'k sync_service \<Rightarrow> 'k sync_service" where
  "remember_message e s =
     s\<lparr>sy_processed := deque_append (sy_max_tracked s) (sy_processed s) (se_message_id e)\<rparr>"

text \<open>What happens under the lock to an authenticated envelope.\<close>

definition apply_envelope :: "sync_envelope \<Rightarrow> 'k sync_service \<Rightarrow> sync_result \<times> 'k sync_service \<times> sync_event list" where
  "apply_envelope e s =
     (if se_message_id e \<in> set (sy_processed s)
      then (sync_reply e SYNC_ALREADY_CURRENT 0 0 ''Duplicate message already processed'', s, [])
      else
        let before = get_version (sy_version_map s) (sy_local_node_id s);
            cmp = compare_versions (sy_version_map s) (se_version_map e) in
        if cmp = VC_EQUAL \<or> cmp = VC_AHEAD
        then (sync_reply e SYNC_ALREADY_CURRENT before before
                (''Local state is '' @ comparison_value cmp @ '' relative to remote''),
              remember_message e s, [])
        else
          let s' = remember_message e (merge_envelope e s);
              out = (if cmp = VC_CONCURRENT then SYNC_CONFLICT else SYNC_APPLIED) in
          (sync_reply e out before (get_version (sy_version_map s') (sy_local_node_id s))
             (''Synchronized facts successfully (causality: '' @ comparison_value cmp @ '')''),
           s', if sy_event_bus s
               then [SyncCompletedEvent (se_sender_node_id e) (se_message_id e) out] else []))"

definition process_incoming_envelope ::
  "'k crypto \<Rightarrow> time_codec \<Rightarrow> time \<Rightarrow> trust_disk \<Rightarrow> sync_envelope \<Rightarrow> 'k sync_service \<Rightarrow> trust_service
     \<Rightarrow> (sync_result \<times> 'k sync_service \<times> trust_service \<times> sync_event list) result" where
  "process_incoming_envelope cy tc now dk e s ts =
     (if se_sender_node_id e = sy_local_node_id s
      then Inr (sync_reply e SYNC_ALREADY_CURRENT 0 0 ''Ignored self-originating envelope'', s, ts, [])
      else (case authenticate_incoming cy tc now dk e ts of
          Inl x \<Rightarrow> Inl x
        | Inr ((valid, out, detail), ts') \<Rightarrow>
            if \<not> valid
            then Inr (sync_reply e out 0 0 detail, s, ts',
                   if sy_event_bus s
                   then [SyncRejectedEvent (se_sender_node_id e) (se_message_id e) out detail] else [])
            else (case apply_envelope e s of (r, s', evs) \<Rightarrow> Inr (r, s', ts', evs))))"

definition get_node_capabilities :: "'k sync_service \<Rightarrow> string \<Rightarrow> string list" where
  "get_node_capabilities s n = sorted_list_of_set (dget_or (sy_capabilities s) n {})"

definition get_node_availability :: "'k sync_service \<Rightarrow> string \<Rightarrow> string option" where
  "get_node_availability s n = dget (sy_availability s) n"

subsection \<open>What a signature covers\<close>

lemma tc_print_inj: "codec_ok tc \<Longrightarrow> tc_print tc t = tc_print tc u \<longleftrightarrow> t = u"
  by (metis codec_ok_def option.inject)

lemma map_PStr_inj [simp]: "map PStr xs = map PStr ys \<longleftrightarrow> xs = ys"
proof (induction xs arbitrary: ys)
  case Nil
  then show ?case by auto
next
  case (Cons x xs)
  then show ?case by (cases ys) simp_all
qed

lemma sort_keys_strs [simp]: "map (sort_keys \<circ> PStr) xs = map PStr xs"
  by simp

text \<open>Dictionaries that are equal after sorting agree at every key.\<close>

lemma sorted_dict_get:
  assumes "sort_keys (PDict d) = sort_keys (PDict e)" and "dict_ok d" and "dict_ok e"
  shows "map_option sort_keys (dget d k) = map_option sort_keys (dget e k)"
proof -
  have "dget (sort_dict (map (\<lambda>(k, v). (k, sort_keys v)) d)) k
      = dget (sort_dict (map (\<lambda>(k, v). (k, sort_keys v)) e)) k"
    using assms(1) by simp
  with assms(2,3) show ?thesis by (simp add: dget_map)
qed

lemma sorted_encoded_get:
  assumes "sort_keys (PDict (map (\<lambda>(k, v). (k, f v)) d)) = sort_keys (PDict (map (\<lambda>(k, v). (k, f v)) e))"
    and "dict_ok d" and "dict_ok e" and inj: "\<And>x y. sort_keys (f x) = sort_keys (f y) \<Longrightarrow> x = y"
  shows "dget d = dget e"
proof
  fix k
  have "map_option sort_keys (map_option f (dget d k)) = map_option sort_keys (map_option f (dget e k))"
    using sorted_dict_get [OF assms(1), of k] assms(2,3) by (simp add: dget_map)
  then show "dget d k = dget e k" by (cases "dget d k"; cases "dget e k") (auto dest: inj)
qed

definition envelope_dicts_ok :: "sync_envelope \<Rightarrow> bool" where
  "envelope_dicts_ok e \<longleftrightarrow> dict_ok (se_version_map e) \<and> dict_ok (sp_node_capabilities (se_payload e))
     \<and> dict_ok (sp_node_availability (se_payload e))"

lemma payload_covered:
  assumes "sort_keys (payload_dump p) = sort_keys (payload_dump q)"
    and "dict_ok (sp_node_capabilities p)" "dict_ok (sp_node_capabilities q)"
    and "dict_ok (sp_node_availability p)" "dict_ok (sp_node_availability q)"
  shows "sp_known_node_ids p = sp_known_node_ids q
    \<and> dget (sp_node_capabilities p) = dget (sp_node_capabilities q)
    \<and> dget (sp_node_availability p) = dget (sp_node_availability q)
    \<and> sort_keys (PDict (sp_extra p)) = sort_keys (PDict (sp_extra q))"
proof -
  note get = sorted_dict_get [OF assms(1) [unfolded payload_dump_def]]
  have ids: "map PStr (sp_known_node_ids p) = map PStr (sp_known_node_ids q)"
    using get [of "''known_node_ids''"] by (simp add: dict_ok_def)
  have caps: "sort_keys (PDict (map (\<lambda>(n, cs). (n, PList (map PStr cs))) (sp_node_capabilities p)))
      = sort_keys (PDict (map (\<lambda>(n, cs). (n, PList (map PStr cs))) (sp_node_capabilities q)))"
    using get [of "''node_capabilities''"] by (simp add: dict_ok_def del: sort_keys.simps)
  have avail: "sort_keys (PDict (map (\<lambda>(n, a). (n, PStr a)) (sp_node_availability p)))
      = sort_keys (PDict (map (\<lambda>(n, a). (n, PStr a)) (sp_node_availability q)))"
    using get [of "''node_availability''"] by (simp add: dict_ok_def del: sort_keys.simps)
  have extra: "sort_keys (PDict (sp_extra p)) = sort_keys (PDict (sp_extra q))"
    using get [of "''extra''"] by (simp add: dict_ok_def del: sort_keys.simps)
  show ?thesis
    using ids extra sorted_encoded_get [OF caps assms(2,3)] sorted_encoded_get [OF avail assms(4,5)] by simp
qed

text \<open>
  C36. The bytes that are signed determine every field of an envelope but the signature: two
  envelopes with the same signable bytes have the same sender, key, protocol, type, time, id and
  node list, their version, capability and availability dictionaries are the same maps, and their extra data is the same
  up to the order of keys.
\<close>

theorem signature_covers_message:
  assumes codec: "codec_ok tc" and ok: "envelope_dicts_ok e" "envelope_dicts_ok e'"
    and eq: "get_signable_bytes tc e = get_signable_bytes tc e'"
  shows "se_sender_node_id e = se_sender_node_id e' \<and> se_sender_public_key e = se_sender_public_key e'
    \<and> se_protocol_version e = se_protocol_version e' \<and> se_message_type e = se_message_type e'
    \<and> se_timestamp e = se_timestamp e' \<and> se_message_id e = se_message_id e'
    \<and> dget (se_version_map e) = dget (se_version_map e')
    \<and> sp_known_node_ids (se_payload e) = sp_known_node_ids (se_payload e')
    \<and> dget (sp_node_capabilities (se_payload e)) = dget (sp_node_capabilities (se_payload e'))
    \<and> dget (sp_node_availability (se_payload e)) = dget (sp_node_availability (se_payload e'))
    \<and> sort_keys (PDict (sp_extra (se_payload e))) = sort_keys (PDict (sp_extra (se_payload e')))"
proof -
  from eq have sorted: "sort_keys (envelope_dump tc e) = sort_keys (envelope_dump tc e')"
    by (simp add: get_signable_bytes_def canonical_json_inj)
  note get = sorted_dict_get [OF sorted [unfolded envelope_dump_def]]
  have payload: "sort_keys (payload_dump (se_payload e)) = sort_keys (payload_dump (se_payload e'))"
    using get [of "''payload''"] by (simp add: dict_ok_def)
  have "sort_keys (PDict [(''versions'', PDict (map (\<lambda>(n, v). (n, PInt v)) (se_version_map e)))])
      = sort_keys (PDict [(''versions'', PDict (map (\<lambda>(n, v). (n, PInt v)) (se_version_map e')))])"
    using get [of "''version_map''"] by (simp add: dict_ok_def del: sort_keys.simps)
  from sorted_dict_get [OF this, of "''versions''"]
  have "sort_keys (PDict (map (\<lambda>(n, v). (n, PInt v)) (se_version_map e)))
      = sort_keys (PDict (map (\<lambda>(n, v). (n, PInt v)) (se_version_map e')))"
    by (simp add: dict_ok_def del: sort_keys.simps)
  from sorted_encoded_get [OF this] ok have vm: "dget (se_version_map e) = dget (se_version_map e')"
    by (simp add: envelope_dicts_ok_def)
  have "se_timestamp e = se_timestamp e'"
    using get [of "''timestamp''"] tc_print_inj [OF codec] by (simp add: dict_ok_def)
  moreover have "se_sender_node_id e = se_sender_node_id e'" "se_sender_public_key e = se_sender_public_key e'"
    "se_protocol_version e = se_protocol_version e'" "se_message_type e = se_message_type e'"
    "se_message_id e = se_message_id e'"
    using get [of "''sender_node_id''"] get [of "''sender_public_key''"] get [of "''protocol_version''"]
      get [of "''message_type''"] get [of "''message_id''"] by (simp_all add: dict_ok_def)
  ultimately show ?thesis
    using vm payload_covered [OF payload] ok by (simp add: envelope_dicts_ok_def)
qed

definition sample_envelope :: sync_envelope where
  "sample_envelope = \<lparr>se_sender_node_id = ''b'', se_sender_public_key = ''kb'',
     se_protocol_version = SYNC_PROTOCOL_VERSION, se_message_type = ''sync_response'',
     se_version_map = [(''b'', 1)],
     se_payload = \<lparr>sp_known_node_ids = [''b''], sp_node_capabilities = [(''b'', [''file.read''])],
       sp_node_availability = [(''b'', ''up'')], sp_extra = []\<rparr>,
     se_timestamp = 3, se_message_id = ''m1'', se_signature = []\<rparr>"

theorem signature_covers_message_witness:
  "get_signable_bytes unary_codec sample_envelope
     \<noteq> get_signable_bytes unary_codec
         (sample_envelope\<lparr>se_payload := (se_payload sample_envelope)\<lparr>sp_extra := [(''k'', PInt 1)]\<rparr>\<rparr>)"
proof
  assume "get_signable_bytes unary_codec sample_envelope = get_signable_bytes unary_codec
      (sample_envelope\<lparr>se_payload := (se_payload sample_envelope)\<lparr>sp_extra := [(''k'', PInt 1)]\<rparr>\<rparr>)"
  from signature_covers_message [OF unary_codec_ok _ _ this]
  have "sort_keys (PDict []) = sort_keys (PDict [(''k'', PInt 1)])"
    by (simp add: sample_envelope_def envelope_dicts_ok_def dict_ok_def del: sort_keys.simps)
  then show False by (simp add: sort_dict_def)
qed

subsection \<open>Who is believed\<close>

definition pin_matches :: "trust_record \<Rightarrow> string \<Rightarrow> bool" where
  "pin_matches r key \<longleftrightarrow> \<not> truthy_opt (tr_public_key r) \<or> tr_public_key r = Some key"

definition envelope_verifies :: "'k crypto \<Rightarrow> time_codec \<Rightarrow> sync_envelope \<Rightarrow> bool" where
  "envelope_verifies cy tc e \<longleftrightarrow> (\<exists>sig. b64decode (se_signature e) = Inr sig
     \<and> verify_with_public_key cy (se_sender_public_key e) (get_signable_bytes tc e) sig)"

text \<open>Whether pinned or not, the key that verifies is the one in the envelope.\<close>

lemma judge_envelope_iff:
  "fst (judge_envelope cy tc e r) \<longleftrightarrow> tr_is_trusted r \<and> pin_matches r (se_sender_public_key e)
     \<and> se_sender_public_key e \<noteq> [] \<and> envelope_verifies cy tc e"
proof -
  have "tr_is_trusted r \<Longrightarrow> \<not> tr_is_revoked r" by (simp add: tr_is_trusted_def tr_is_revoked_def)
  moreover have "opt_or (tr_public_key r) (Some (se_sender_public_key e)) = Some (se_sender_public_key e)"
    if "pin_matches r (se_sender_public_key e)"
    using that by (auto simp: pin_matches_def opt_or_def)
  ultimately show ?thesis
    by (auto simp: judge_envelope_def Let_def pin_matches_def envelope_verifies_def split: sum.split)
qed

lemma authenticate_iff:
  "authenticate_incoming cy tc now dk e ts = Inr ((valid, out, detail), ts') \<Longrightarrow>
     valid \<longleftrightarrow> se_protocol_version e = SYNC_PROTOCOL_VERSION \<and> se_signature e \<noteq> [] \<and> se_sender_node_id e \<noteq> []
       \<and> (\<exists>r. get_record tc now dk (se_sender_node_id e) ts = Inr (r, ts') \<and> tr_is_trusted r
            \<and> pin_matches r (se_sender_public_key e) \<and> se_sender_public_key e \<noteq> [] \<and> envelope_verifies cy tc e)"
  using judge_envelope_iff [of cy tc e]
  by (auto simp: authenticate_incoming_def split: if_splits sum.splits) (metis fst_conv)+

text \<open>
  C33. State is changed, or completion announced, only for an envelope of the supported protocol by
  another node whose record is TRUSTED, whose key is the pinned one if there is one, and whose
  signature verifies under that key; everything else leaves the service as it was.
\<close>

theorem sync_only_authenticated:
  assumes run: "process_incoming_envelope cy tc now dk e s ts = Inr (res, s', ts', evs)"
  shows "(s' = s \<and> syr_outcome res \<noteq> SYNC_APPLIED \<and> syr_outcome res \<noteq> SYNC_CONFLICT
      \<and> evs \<in> {[], [SyncRejectedEvent (se_sender_node_id e) (se_message_id e) (syr_outcome res) (syr_detail res)]})
    \<or> (se_sender_node_id e \<noteq> sy_local_node_id s \<and> se_protocol_version e = SYNC_PROTOCOL_VERSION
      \<and> (\<exists>r. get_record tc now dk (se_sender_node_id e) ts = Inr (r, ts') \<and> tr_is_trusted r
           \<and> pin_matches r (se_sender_public_key e) \<and> envelope_verifies cy tc e)
      \<and> apply_envelope e s = (res, s', evs))"
proof (cases "se_sender_node_id e = sy_local_node_id s")
  case True
  with run show ?thesis by (auto simp: process_incoming_envelope_def sync_reply_def)
next
  case False
  with run obtain valid out detail where auth:
    "authenticate_incoming cy tc now dk e ts = Inr ((valid, out, detail), ts')"
    by (auto simp: process_incoming_envelope_def split: sum.splits prod.splits if_splits)
  show ?thesis
  proof (cases valid)
    case True
    with False run auth have "apply_envelope e s = (res, s', evs)"
      by (auto simp: process_incoming_envelope_def split: prod.splits)
    with False authenticate_iff [OF auth] True show ?thesis by blast
  next
    case invalid: False
    have "out \<noteq> SYNC_APPLIED \<and> out \<noteq> SYNC_CONFLICT"
      using auth invalid
      by (auto simp: authenticate_incoming_def judge_envelope_def Let_def
          split: if_splits sum.splits option.splits)
    with False invalid run auth show ?thesis
      by (auto simp: process_incoming_envelope_def sync_reply_def)
  qed
qed

definition trusting :: "string \<Rightarrow> string option \<Rightarrow> trust_service" where
  "trusting n key = \<lparr>ts_records = [(n, (unknown_record 0 n)\<lparr>tr_status := TRUST_TRUSTED, tr_public_key := key\<rparr>)],
     ts_initialized = True, ts_event_bus = False\<rparr>"

theorem sync_only_authenticated_witness:
  "\<exists>res s' ts' evs. process_incoming_envelope toy_crypto unary_codec 1 empty_disk sample_envelope
      (new_sync_service ''a'' ''ka'' True 10) (trusting ''b'' None) = Inr (res, s', ts', evs)
     \<and> s' = new_sync_service ''a'' ''ka'' True 10 \<and> syr_outcome res \<noteq> SYNC_APPLIED"
proof -
  obtain res s' ts' evs where run: "process_incoming_envelope toy_crypto unary_codec 1 empty_disk sample_envelope
      (new_sync_service ''a'' ''ka'' True 10) (trusting ''b'' None) = Inr (res, s', ts', evs)"
    by (simp add: process_incoming_envelope_def authenticate_incoming_def sample_envelope_def new_sync_service_def)
  have "\<not> envelope_verifies toy_crypto unary_codec sample_envelope"
  proof -
    have "b64decode (se_signature sample_envelope) = Inr []"
      by (simp add: sample_envelope_def b64decode_def)
    moreover have "b64decode (se_sender_public_key sample_envelope) = Inr [] \<Longrightarrow> False"
      by (simp add: sample_envelope_def b64decode_def b64_val_def is_digit_def char_code_def split: if_splits)
    moreover have "get_signable_bytes unary_codec sample_envelope \<noteq> []"
      by (simp add: get_signable_bytes_def canonical_json_bytes_def envelope_dump_def utf8_encode_def utf8_char_def)
    ultimately show ?thesis
      by (auto simp: envelope_verifies_def verify_with_public_key_def toy_crypto_def split: sum.splits)
  qed
  with sync_only_authenticated [OF run] run show ?thesis by auto
qed

lemma b64encode_nonempty: "s \<noteq> [] \<Longrightarrow> b64encode s \<noteq> []"
  by (induction s rule: b64encode.induct) simp_all

lemma get_signable_bytes_sign [simp]: "get_signable_bytes tc (e\<lparr>se_signature := x\<rparr>) = get_signable_bytes tc e"
  by (simp add: get_signable_bytes_def envelope_dump_def)

lemma signed_verifies:
  assumes "crypto_ok cy" and "se_sender_public_key e = public_key_b64 cy k"
  shows "envelope_verifies cy tc (sign_envelope cy tc e k)"
  using assms
  by (simp add: envelope_verifies_def sign_envelope_def b64_roundtrip verify_with_public_key_def
      public_key_b64_def crypto_ok_def)

text \<open>
  C37. An envelope made by a service is authenticated by another node exactly if that node trusts
  the name the service gives itself and has pinned its key, or no key at all: for a trusted node
  without a pinned key, any key pair will do.
\<close>

theorem created_envelope_accepted_iff:
  assumes cy: "crypto_ok cy" and raw: "cy_public cy (sy_keypair s) \<noteq> []" "\<And>d. cy_sign cy (sy_keypair s) d \<noteq> []"
    and name: "sy_local_node_id s \<noteq> []"
    and known: "get_record tc t dk (sy_local_node_id s) ts = Inr (r, ts')"
  shows "\<exists>valid out detail. authenticate_incoming cy tc t dk (create_sync_envelope cy tc now uuid mtype s) ts
      = Inr ((valid, out, detail), ts')
    \<and> (valid \<longleftrightarrow> tr_is_trusted r \<and> pin_matches r (public_key_b64 cy (sy_keypair s)))"
proof -
  let ?e = "create_sync_envelope cy tc now uuid mtype s"
  have fields: "se_sender_node_id ?e = sy_local_node_id s" "se_protocol_version ?e = SYNC_PROTOCOL_VERSION"
      "se_sender_public_key ?e = public_key_b64 cy (sy_keypair s)" "se_signature ?e \<noteq> []"
      "public_key_b64 cy (sy_keypair s) \<noteq> []"
    using raw by (simp_all add: create_sync_envelope_def sign_envelope_def b64encode_nonempty public_key_b64_def)
  have "envelope_verifies cy tc ?e"
    unfolding create_sync_envelope_def by (rule signed_verifies [OF cy]) simp
  with judge_envelope_iff [of cy tc ?e r] fields
  have "fst (judge_envelope cy tc ?e r) \<longleftrightarrow> tr_is_trusted r \<and> pin_matches r (public_key_b64 cy (sy_keypair s))"
    by simp
  moreover have "authenticate_incoming cy tc t dk ?e ts = Inr (judge_envelope cy tc ?e r, ts')"
    using fields known name by (simp add: authenticate_incoming_def)
  moreover obtain v x d where "judge_envelope cy tc ?e r = (v, x, d)" by (rule prod_cases3)
  ultimately show ?thesis by simp
qed

text \<open>A scheme whose signatures are never empty.\<close>

definition tagged_crypto :: "string crypto" where
  "tagged_crypto = \<lparr>cy_public = (\<lambda>k. CHR ''p'' # k), cy_sign = (\<lambda>k d. CHR ''p'' # k @ d),
     cy_verify = (\<lambda>pub sig d. sig = pub @ d), cy_raw = (\<lambda>k. k), cy_from_raw = Some\<rparr>"

theorem created_envelope_accepted_iff_witness:
  "\<exists>out detail. authenticate_incoming tagged_crypto unary_codec 1 empty_disk
      (create_sync_envelope tagged_crypto unary_codec 1 ''m'' ''sync_response'' (new_sync_service ''b'' ''evil'' False 10))
      (trusting ''b'' None) = Inr ((True, out, detail), trusting ''b'' None)"
proof -
  let ?r = "(unknown_record 0 ''b'')\<lparr>tr_status := TRUST_TRUSTED, tr_public_key := None\<rparr>"
  have known: "get_record unary_codec 1 empty_disk ''b'' (trusting ''b'' None) = Inr (?r, trusting ''b'' None)"
    by (simp add: get_record_def trust_initialize_def trusting_def dget_or_def)
  show ?thesis
    using created_envelope_accepted_iff [of tagged_crypto "new_sync_service ''b'' ''evil'' False 10" unary_codec 1
        empty_disk "trusting ''b'' None" ?r "trusting ''b'' None" 1 "''m''" "''sync_response''"] known
    by (auto simp: crypto_ok_def tagged_crypto_def new_sync_service_def tr_is_trusted_def pin_matches_def truthy_opt_def)
qed

subsection \<open>What an envelope changes\<close>

lemma merge_capabilities_get:
  "dget_or (merge_capabilities es d) n {} = dget_or d n {} \<union> \<Union> {set cs |cs. (n, cs) \<in> set es}"
proof (induction es d rule: merge_capabilities.induct)
  case (1 d)
  then show ?case by simp
next
  case (2 m cs es d)
  have "dget_or (dset m c d) n {} = (if n = m then c else dget_or d n {})" for c
    by (simp add: dget_or_def)
  with 2 show ?case by auto
qed

text \<open>What is known of a node's capabilities, and when one service knows at least what another does.\<close>

definition known_capabilities :: "'k sync_service \<Rightarrow> string \<Rightarrow> string set" where
  "known_capabilities s n = dget_or (sy_capabilities s) n {}"

definition stated_capabilities :: "sync_envelope \<Rightarrow> string \<Rightarrow> string set" where
  "stated_capabilities e n = \<Union> {set cs |cs. (n, cs) \<in> set (sp_node_capabilities (se_payload e))}"

definition knows_more :: "'k sync_service \<Rightarrow> 'k sync_service \<Rightarrow> bool" where
  "knows_more s t \<longleftrightarrow> version_le (sy_version_map s) (sy_version_map t)
     \<and> (\<forall>n. known_capabilities s n \<subseteq> known_capabilities t n)
     \<and> (\<forall>n. dmem n (sy_availability s) \<longrightarrow> dmem n (sy_availability t))"

lemma known_capabilities_merge:
  "known_capabilities (merge_envelope e s) n = known_capabilities s n \<union> stated_capabilities e n"
  by (simp add: known_capabilities_def merge_envelope_def merge_capabilities_get stated_capabilities_def)

lemma dmem_dupdate: "dmem k (dupdate d e) \<longleftrightarrow> dmem k d \<or> dmem k e"
  by (induction d e rule: dupdate.induct) (auto simp: dmem_def)

lemma remember_sel [simp]:
  "sy_version_map (remember_message e s) = sy_version_map s"
  "sy_availability (remember_message e s) = sy_availability s"
  "sy_capabilities (remember_message e s) = sy_capabilities s"
  "known_capabilities (remember_message e s) = known_capabilities s"
  "sy_local_node_id (remember_message e s) = sy_local_node_id s"
  "sy_max_tracked (remember_message e s) = sy_max_tracked s"
  "sy_processed (remember_message e s) = deque_append (sy_max_tracked s) (sy_processed s) (se_message_id e)"
  by (simp_all add: remember_message_def known_capabilities_def fun_eq_iff)

lemma merge_sel [simp]:
  "sy_version_map (merge_envelope e s) = merge_version_maps (sy_version_map s) (se_version_map e)"
  "sy_availability (merge_envelope e s) = dupdate (sy_availability s) (sp_node_availability (se_payload e))"
  "sy_max_tracked (merge_envelope e s) = sy_max_tracked s"
  "sy_processed (merge_envelope e s) = sy_processed s"
  "sy_local_node_id (merge_envelope e s) = sy_local_node_id s"
  by (simp_all add: merge_envelope_def)

lemma deque_append_bounded: "length (deque_append m q x) \<le> max m 0"
  by (simp add: deque_append_def)

lemma deque_append_mem: "0 < m \<Longrightarrow> length q \<le> m \<Longrightarrow> x \<in> set (deque_append m q x)"
  by (simp add: deque_append_def)

lemma apply_envelope_cases:
  "apply_envelope e s = (res, s', evs) \<Longrightarrow>
     s' = s \<or> s' = remember_message e s \<or> s' = remember_message e (merge_envelope e s)"
  by (auto simp: apply_envelope_def Let_def split: if_splits)

lemma merge_knows_more: "knows_more s (merge_envelope e s)"
  by (auto simp: knows_more_def known_capabilities_merge version_le_def dmem_dupdate)

lemma knows_more_remember: "knows_more s (remember_message e t) = knows_more s t"
  by (simp add: knows_more_def)

lemma dget_dupdate_rev: "dget (dupdate d e) k = (case dget (rev e) k of Some a \<Rightarrow> Some a | None \<Rightarrow> dget d k)"
  by (induction d e rule: dupdate.induct) (auto simp: map_add_def split: option.split)

text \<open>
  C35. What applying an authenticated envelope does to the facts of a node. Versions never decrease, and
  capabilities and the nodes whose availability is known never disappear; but the availability of a node that the message names
  becomes the value in the message, even where the local one was newer. A message that was processed before, or whose versions are all
  known, changes no fact; every other message has its versions and capabilities merged. The memory of message ids stays within its
  bound, and delivering the message again changes nothing.
\<close>

theorem sync_apply_monotone_idempotent:
  assumes bound: "length (sy_processed s) \<le> sy_max_tracked s" "0 < sy_max_tracked s"
    and run: "apply_envelope e s = (res, s', evs)"
  shows "version_le (sy_version_map s) (sy_version_map s')
    \<and> (\<forall>n. known_capabilities s n \<subseteq> known_capabilities s' n)
    \<and> (\<forall>n. dmem n (sy_availability s) \<longrightarrow> dmem n (sy_availability s'))
    \<and> length (sy_processed s') \<le> sy_max_tracked s'
    \<and> apply_envelope e s' = (sync_reply e SYNC_ALREADY_CURRENT 0 0 ''Duplicate message already processed'', s', [])
    \<and> (if se_message_id e \<in> set (sy_processed s) \<or> version_le (se_version_map e) (sy_version_map s)
       then s'\<lparr>sy_processed := sy_processed s\<rparr> = s \<and> evs = []
       else known_capabilities s' = (\<lambda>n. known_capabilities s n \<union> stated_capabilities e n)
           \<and> (\<forall>n. dget (sy_availability s') n = (case dget (rev (sp_node_availability (se_payload e))) n of
                 Some a \<Rightarrow> Some a | None \<Rightarrow> dget (sy_availability s) n))
           \<and> get_version (sy_version_map s')
               = (\<lambda>n. max (get_version (sy_version_map s) n) (get_version (se_version_map e) n)))"
proof -
  have "knows_more s s" by (simp add: knows_more_def version_le_def)
  with apply_envelope_cases [OF run] merge_knows_more [of s e] have more: "knows_more s s'"
    by (auto simp: knows_more_remember)
  have seen: "se_message_id e \<in> set (sy_processed s')" and len: "length (sy_processed s') \<le> sy_max_tracked s'"
    using run bound deque_append_mem [OF bound(2,1)] deque_append_bounded [of "sy_max_tracked s"]
    by (auto simp: apply_envelope_def Let_def split: if_splits)
  have old: "s'\<lparr>sy_processed := sy_processed s\<rparr> = s \<and> evs = []"
    if "se_message_id e \<in> set (sy_processed s) \<or> version_le (se_version_map e) (sy_version_map s)"
    using run that by (auto simp: apply_envelope_def Let_def compare_versions_le remember_message_def split: if_splits)
  have "known_capabilities s' = (\<lambda>n. known_capabilities s n \<union> stated_capabilities e n)
      \<and> sy_availability s' = dupdate (sy_availability s) (sp_node_availability (se_payload e))
      \<and> get_version (sy_version_map s')
          = (\<lambda>n. max (get_version (sy_version_map s) n) (get_version (se_version_map e) n))"
    if "\<not> (se_message_id e \<in> set (sy_processed s) \<or> version_le (se_version_map e) (sy_version_map s))"
    using run that
    by (auto simp: apply_envelope_def Let_def compare_versions_le known_capabilities_merge fun_eq_iff split: if_splits)
  with more seen len old show ?thesis
    by (auto simp: apply_envelope_def knows_more_def dget_dupdate_rev)
qed

text \<open>A message with an older version of another node, and the availability it overwrites.\<close>

theorem sync_apply_monotone_idempotent_witness:
  "let s = (new_sync_service ''a'' ''ka'' True 10)\<lparr>sy_version_map := [(''c'', 2)], sy_availability := [(''b'', ''down'')]\<rparr> in
   case apply_envelope sample_envelope s of (res, s', evs) \<Rightarrow>
     version_le (sy_version_map s) (sy_version_map s') \<and> known_capabilities s' ''b'' = {''file.read''}
     \<and> dget (sy_availability s') ''b'' = Some ''up''
     \<and> apply_envelope sample_envelope s'
       = (sync_reply sample_envelope SYNC_ALREADY_CURRENT 0 0 ''Duplicate message already processed'', s', [])"
proof -
  let ?s = "(new_sync_service ''a'' ''ka'' True 10)\<lparr>sy_version_map := [(''c'', 2)], sy_availability := [(''b'', ''down'')]\<rparr>"
  obtain res s' evs where run: "apply_envelope sample_envelope ?s = (res, s', evs)" by (meson prod_cases3)
  have "get_version (se_version_map sample_envelope) ''b'' = 1" "get_version (sy_version_map ?s) ''b'' = 0" by code_simp+
  then have "\<not> version_le (se_version_map sample_envelope) (sy_version_map ?s)"
    unfolding version_le_def by (metis not_one_le_zero)
  moreover have "se_message_id sample_envelope \<notin> set (sy_processed ?s)" by (simp add: new_sync_service_def)
  moreover have "length (sy_processed ?s) \<le> sy_max_tracked ?s" "0 < sy_max_tracked ?s" by (simp_all add: new_sync_service_def)
  moreover have "stated_capabilities sample_envelope ''b'' = {''file.read''}"
    by (simp add: stated_capabilities_def sample_envelope_def)
  moreover have "known_capabilities ?s ''b'' = {}" by (simp add: known_capabilities_def new_sync_service_def dget_or_def)
  moreover have "dget (rev (sp_node_availability (se_payload sample_envelope))) ''b'' = Some ''up''" by (simp add: sample_envelope_def)
  ultimately show ?thesis
    using sync_apply_monotone_idempotent [OF _ _ run] run by (auto simp: Let_def)
qed

subsection \<open>Two nodes exchange their state\<close>

text \<open>What every operation keeps: dictionaries with distinct keys and finite sets.\<close>

definition sync_ok :: "'k sync_service \<Rightarrow> bool" where
  "sync_ok s \<longleftrightarrow> dict_ok (sy_version_map s) \<and> dict_ok (sy_capabilities s) \<and> dict_ok (sy_availability s)
     \<and> (\<forall>(n, cs) \<in> set (sy_capabilities s). finite cs)"

lemma merge_capabilities_ok:
  "dict_ok d \<Longrightarrow> \<forall>(n, cs) \<in> set d. finite cs \<Longrightarrow>
     dict_ok (merge_capabilities es d) \<and> (\<forall>(n, cs) \<in> set (merge_capabilities es d). finite cs)"
proof (induction es d rule: merge_capabilities.induct)
  case (1 d)
  then show ?case by simp
next
  case (2 n cs es d)
  let ?d = "dset n (dget_or d n {} \<union> set cs) d"
  have "finite (dget_or d n {})" using 2 by (fastforce simp: dget_or_def split: option.splits dest: map_of_SomeD)
  then have "\<forall>(m, x) \<in> set ?d. finite x" using 2
    by (fastforce simp: dict_ok_mem [OF dict_ok_dset [OF 2(2)]] dict_ok_mem split: if_splits)
  with 2 show ?case by simp
qed

lemma new_sync_service_ok: "sync_ok (new_sync_service n k bus m)"
  by (simp add: sync_ok_def new_sync_service_def dict_ok_def)

lemma merge_version_maps_ok: "dict_ok (merge_version_maps l r)"
  by (simp add: merge_version_maps_def dict_ok_def comp_def all_version_keys_def)

lemma apply_envelope_ok:
  assumes "sync_ok s" and "apply_envelope e s = (res, s', evs)"
  shows "sync_ok s'"
proof -
  have "sync_ok (remember_message e t) = sync_ok t" for t :: "'a sync_service" by (simp add: sync_ok_def)
  moreover have "sync_ok (merge_envelope e s)"
    using assms(1) merge_capabilities_ok [of "sy_capabilities s"]
    by (simp add: sync_ok_def merge_envelope_def merge_version_maps_ok)
  ultimately show ?thesis using apply_envelope_cases [OF assms(2)] assms(1) by auto
qed

lemma created_sel [simp]:
  "se_version_map (create_sync_envelope cy tc now u m s) = sy_version_map s"
  "se_message_id (create_sync_envelope cy tc now u m s) = u"
  "sp_node_availability (se_payload (create_sync_envelope cy tc now u m s)) = sy_availability s"
  by (simp_all add: create_sync_envelope_def sign_envelope_def)

lemma stated_created:
  assumes "sync_ok s"
  shows "stated_capabilities (create_sync_envelope cy tc now u m s) = known_capabilities s"
proof
  fix n
  have "stated_capabilities (create_sync_envelope cy tc now u m s) n
      = \<Union> {set (sorted_list_of_set cs) |cs. (n, cs) \<in> set (sy_capabilities s)}"
    by (force simp: stated_capabilities_def create_sync_envelope_def sign_envelope_def)
  also have "\<dots> = \<Union> {cs. (n, cs) \<in> set (sy_capabilities s)}"
  proof -
    have "set (sorted_list_of_set cs) = cs" if "(n, cs) \<in> set (sy_capabilities s)" for cs
      using assms that by (fastforce simp: sync_ok_def)
    then show ?thesis by force
  qed
  also have "\<dots> = known_capabilities s n"
    using assms by (simp add: sync_ok_def dict_ok_mem known_capabilities_def dget_or_def split: option.splits)
  finally show "stated_capabilities (create_sync_envelope cy tc now u m s) n = known_capabilities s n" .
qed

lemma apply_concurrent:
  assumes "se_message_id e \<notin> set (sy_processed s)" "compare_versions (sy_version_map s) (se_version_map e) = VC_CONCURRENT"
  shows "fst (snd (apply_envelope e s)) = remember_message e (merge_envelope e s)"
  using assms by (simp add: apply_envelope_def Let_def)

text \<open>
  C34. When two nodes with concurrent versions exchange their envelopes, they agree afterwards on the
  versions and on every capability, and count as equal; but each takes over the availability the
  other had stated, so two nodes that disagreed on a node's availability still do, the other
  way round, and regard themselves as synchronised.
\<close>

theorem exchange_converges_but_availability:
  assumes ok: "sync_ok a" "sync_ok b"
    and fresh: "ua \<notin> set (sy_processed b)" "ub \<notin> set (sy_processed a)"
    and conc: "compare_versions (sy_version_map a) (sy_version_map b) = VC_CONCURRENT"
  shows "case (fst (snd (apply_envelope (create_sync_envelope cy tc t ub m b) a)),
               fst (snd (apply_envelope (create_sync_envelope cy tc t ua m a) b))) of (a', b') \<Rightarrow>
      get_version (sy_version_map a') = get_version (sy_version_map b')
      \<and> compare_versions (sy_version_map a') (sy_version_map b') = VC_EQUAL
      \<and> known_capabilities a' = known_capabilities b'
      \<and> known_capabilities a' = (\<lambda>n. known_capabilities a n \<union> known_capabilities b n)
      \<and> get_node_availability a' = (\<lambda>n. case get_node_availability b n of
            None \<Rightarrow> get_node_availability a n | Some x \<Rightarrow> Some x)
      \<and> get_node_availability b' = (\<lambda>n. case get_node_availability a n of
            None \<Rightarrow> get_node_availability b n | Some x \<Rightarrow> Some x)"
proof -
  have "compare_versions (sy_version_map b) (sy_version_map a) = VC_CONCURRENT"
    using conc by (simp add: compare_versions_le split: if_splits)
  with conc fresh
  have a': "fst (snd (apply_envelope (create_sync_envelope cy tc t ub m b) a))
        = remember_message (create_sync_envelope cy tc t ub m b) (merge_envelope (create_sync_envelope cy tc t ub m b) a)"
    and b': "fst (snd (apply_envelope (create_sync_envelope cy tc t ua m a) b))
        = remember_message (create_sync_envelope cy tc t ua m a) (merge_envelope (create_sync_envelope cy tc t ua m a) b)"
    by (simp_all add: apply_concurrent)
  have "dict_ok (sy_availability a)" "dict_ok (sy_availability b)" using ok by (simp_all add: sync_ok_def)
  then show ?thesis
    unfolding a' b'
    by (simp add: known_capabilities_merge stated_created ok fun_eq_iff max.commute compare_versions_le version_le_def
        get_node_availability_def dget_dupdate Un_commute split: option.split)
qed

definition node_with_status :: "string \<Rightarrow> string \<Rightarrow> string sync_service" where
  "node_with_status n st = update_local_facts None (Some [(''c'', st)]) (new_sync_service n n False 10)"

theorem exchange_converges_but_availability_witness:
  "let a = node_with_status ''a'' ''up''; b = node_with_status ''b'' ''down'';
       a' = fst (snd (apply_envelope (create_sync_envelope toy_crypto unary_codec 1 ''m2'' ''x'' b) a));
       b' = fst (snd (apply_envelope (create_sync_envelope toy_crypto unary_codec 1 ''m1'' ''x'' a) b)) in
   get_node_availability a' ''c'' = Some ''down'' \<and> get_node_availability b' ''c'' = Some ''up''
   \<and> compare_versions (sy_version_map a') (sy_version_map b') = VC_EQUAL"
proof -
  have ok: "sync_ok (node_with_status n st)" for n st
    by (simp add: node_with_status_def update_local_facts_def increment_local_version_def new_sync_service_def
        sync_ok_def with_update_def dict_ok_def)
  have "compare_versions (sy_version_map (node_with_status ''a'' ''up'')) (sy_version_map (node_with_status ''b'' ''down''))
      = VC_CONCURRENT"
    by (simp add: node_with_status_def update_local_facts_def increment_local_version_def new_sync_service_def
        compare_versions_def all_version_keys_def get_version_def dget_or_def with_update_def)
  from exchange_converges_but_availability [OF ok ok _ _ this, of "''m1''" "''m2''" toy_crypto unary_codec 1 "''x''"]
  show ?thesis
    by (simp add: Let_def) (simp add: node_with_status_def update_local_facts_def increment_local_version_def
        new_sync_service_def get_node_availability_def)
qed

end
