(* ===== verification/Shyam_Continuity.thy ===== *)
theory Shyam_Continuity
  imports Shyam_Lifecycle Shyam_Navigation Shyam_Flux Shyam_Zarya Shyam_Executors Shyam_Trust
begin

section \<open>Continuity: continuing work on another node\<close>

text \<open>
  \<open>continuity/state.py\<close>, \<open>continuity/models.py\<close>, \<open>continuity/errors.py\<close> and
  \<open>continuity/service.py\<close>. The pipeline of one attempt is the function \<open>run_pipeline\<close>; what the
  services it calls answer is the record \<open>continuity_env\<close>. Attempts suspend between their stages,
  so the service as a whole is the relation \<open>continuity_step\<close>: any request may start, and any
  unfinished attempt may run its next stage.
\<close>

subsection \<open>continuity/state.py\<close>

datatype continuity_state = C_REQUESTED | C_VALIDATING | C_TARGET_SELECTED | C_AUTHORIZED
  | C_PREPARING | C_TRANSFERRING | C_RECONSTRUCTING | C_CONTINUING | C_VERIFYING
  | C_COMPLETED | C_FAILED | C_CANCELLED | C_UNSUPPORTED | C_UNKNOWN

fun continuity_state_value :: "continuity_state \<Rightarrow> string" where
  "continuity_state_value C_REQUESTED = ''requested''"
| "continuity_state_value C_VALIDATING = ''validating''"
| "continuity_state_value C_TARGET_SELECTED = ''target_selected''"
| "continuity_state_value C_AUTHORIZED = ''authorized''"
| "continuity_state_value C_PREPARING = ''preparing''"
| "continuity_state_value C_TRANSFERRING = ''transferring''"
| "continuity_state_value C_RECONSTRUCTING = ''reconstructing''"
| "continuity_state_value C_CONTINUING = ''continuing''"
| "continuity_state_value C_VERIFYING = ''verifying''"
| "continuity_state_value C_COMPLETED = ''completed''"
| "continuity_state_value C_FAILED = ''failed''"
| "continuity_state_value C_CANCELLED = ''cancelled''"
| "continuity_state_value C_UNSUPPORTED = ''unsupported''"
| "continuity_state_value C_UNKNOWN = ''unknown''"

definition C_TERMINAL_STATES :: "continuity_state set" where
  "C_TERMINAL_STATES = {C_COMPLETED, C_FAILED, C_CANCELLED, C_UNSUPPORTED, C_UNKNOWN}"

fun C_VALID_TRANSITIONS :: "continuity_state \<Rightarrow> continuity_state set" where
  "C_VALID_TRANSITIONS C_REQUESTED = {C_VALIDATING, C_FAILED, C_CANCELLED, C_UNSUPPORTED}"
| "C_VALID_TRANSITIONS C_VALIDATING = {C_TARGET_SELECTED, C_FAILED, C_CANCELLED, C_UNSUPPORTED}"
| "C_VALID_TRANSITIONS C_TARGET_SELECTED = {C_AUTHORIZED, C_FAILED, C_CANCELLED}"
| "C_VALID_TRANSITIONS C_AUTHORIZED = {C_PREPARING, C_FAILED, C_CANCELLED}"
| "C_VALID_TRANSITIONS C_PREPARING = {C_TRANSFERRING, C_FAILED, C_CANCELLED}"
| "C_VALID_TRANSITIONS C_TRANSFERRING = {C_RECONSTRUCTING, C_FAILED, C_CANCELLED}"
| "C_VALID_TRANSITIONS C_RECONSTRUCTING = {C_CONTINUING, C_FAILED, C_CANCELLED}"
| "C_VALID_TRANSITIONS C_CONTINUING = {C_VERIFYING, C_FAILED, C_CANCELLED}"
| "C_VALID_TRANSITIONS C_VERIFYING = {C_COMPLETED, C_FAILED, C_UNKNOWN}"
| "C_VALID_TRANSITIONS _ = {}"

definition c_is_valid_transition :: "continuity_state \<Rightarrow> continuity_state \<Rightarrow> bool" where
  "c_is_valid_transition s t \<longleftrightarrow> t \<in> C_VALID_TRANSITIONS s"

definition c_is_terminal :: "continuity_state \<Rightarrow> bool" where
  "c_is_terminal s \<longleftrightarrow> s \<in> C_TERMINAL_STATES"

fun c_rank :: "continuity_state \<Rightarrow> nat" where
  "c_rank C_REQUESTED = 0"
| "c_rank C_VALIDATING = 1"
| "c_rank C_TARGET_SELECTED = 2"
| "c_rank C_AUTHORIZED = 3"
| "c_rank C_PREPARING = 4"
| "c_rank C_TRANSFERRING = 5"
| "c_rank C_RECONSTRUCTING = 6"
| "c_rank C_CONTINUING = 7"
| "c_rank C_VERIFYING = 8"
| "c_rank _ = 9"

interpretation continuity_lc: lifecycle_map C_VALID_TRANSITIONS c_is_terminal c_rank 9
proof
  fix s t
  show "t \<in> C_VALID_TRANSITIONS s \<Longrightarrow> c_rank s < c_rank t" by (cases s) auto
  show "c_rank s \<le> 9" by (cases s) simp_all
  show "c_is_terminal s = (C_VALID_TRANSITIONS s = {})"
    by (cases s) (simp_all add: c_is_terminal_def C_TERMINAL_STATES_def)
qed

subsection \<open>continuity/models.py and continuity/errors.py\<close>

datatype continuity_outcome = CO_SUCCESS | CO_FAILED | CO_CANCELLED | CO_UNSUPPORTED | CO_UNKNOWN

record continuity_request =
  cq_work_id :: string
  cq_source_device_id :: string
  cq_portable_work :: "(string, pyval) dict"
  cq_artifact_paths :: "string list"
  cq_target_constraints :: nav_constraints
  cq_continuity_intent :: string

definition mk_continuity_request ::
  "string \<Rightarrow> string \<Rightarrow> (string, pyval) dict \<Rightarrow> string list \<Rightarrow> nav_constraints \<Rightarrow> string
     \<Rightarrow> continuity_request result" where
  "mk_continuity_request work source portable artifacts constraints intent =
     (if strip work = [] then Inl (value_error ''work_id must be a non-empty string'')
      else if upper intent \<notin> {''COPY'', ''HANDOFF'', ''MIGRATION''}
      then Inl (value_error (''continuity_intent must be one of COPY, HANDOFF, MIGRATION, got '' @ quoted intent))
      else Inr \<lparr>cq_work_id = strip work, cq_source_device_id = source, cq_portable_work = portable,
                cq_artifact_paths = artifacts, cq_target_constraints = constraints,
                cq_continuity_intent = upper intent\<rparr>)"

record continuity_target =
  tg_node_id :: string
  tg_provider_id :: string
  tg_device_id :: string
  tg_trust_verified :: bool
  tg_flux_peer_id :: "string option"
  tg_zarya_url :: "string option"

text \<open>The metadata values are dynamic: the target model accepts text or nothing.\<close>

definition mk_continuity_target :: "nav_candidate \<Rightarrow> pyval \<Rightarrow> pyval \<Rightarrow> continuity_target result" where
  "mk_continuity_target c flux url =
     (case (read_opt_str flux, read_opt_str url) of
        (Some f, Some u) \<Rightarrow> Inr \<lparr>tg_node_id = nc_node_id c, tg_provider_id = nc_provider_id c,
          tg_device_id = nc_node_id c, tg_trust_verified = False, tg_flux_peer_id = f, tg_zarya_url = u\<rparr>
      | _ \<Rightarrow> Inl (value_error ''ContinuityTarget: Input should be a valid string''))"

record continuity_result =
  cres_outcome :: continuity_outcome
  cres_transfer_completed :: bool
  cres_reconstruction_completed :: bool
  cres_execution_completed :: bool
  cres_zarya_outcome :: "string option"
  cres_reason :: string

definition plain_result :: "continuity_outcome \<Rightarrow> string \<Rightarrow> continuity_result" where
  "plain_result out reason = \<lparr>cres_outcome = out, cres_transfer_completed = False,
     cres_reconstruction_completed = False, cres_execution_completed = False,
     cres_zarya_outcome = None, cres_reason = reason\<rparr>"

record continuity_session =
  cn_continuity_id :: string
  cn_request :: continuity_request
  cn_target :: "continuity_target option"
  cn_state :: continuity_state
  cn_transfer_id :: "string option"
  cn_operation_id :: "string option"
  cn_result :: "continuity_result option"
  cn_created_at :: time
  cn_updated_at :: time

definition new_session :: "string \<Rightarrow> time \<Rightarrow> continuity_request \<Rightarrow> continuity_session" where
  "new_session cid now q = \<lparr>cn_continuity_id = cid, cn_request = q, cn_target = None,
     cn_state = C_REQUESTED, cn_transfer_id = None, cn_operation_id = None, cn_result = None,
     cn_created_at = now, cn_updated_at = now\<rparr>"

definition continuity_error :: "continuity_class \<Rightarrow> string \<Rightarrow> string \<Rightarrow> exn" where
  "continuity_error c cid reason = Exn (Continuity_Exn c) (''['' @ cid @ ''] '' @ reason)"

definition invalid_continuity_transition :: "string \<Rightarrow> continuity_state \<Rightarrow> continuity_state \<Rightarrow> exn" where
  "invalid_continuity_transition cid s t = continuity_error InvalidContinuityTransitionError cid
     (''Invalid transition: '' @ continuity_state_value s @ '' -> '' @ continuity_state_value t)"

definition duplicate_continuity :: "string \<Rightarrow> string \<Rightarrow> exn" where
  "duplicate_continuity cid work = continuity_error DuplicateContinuityError cid
     (''Duplicate continuity for work '' @ quoted work)"

subsection \<open>continuity/service.py: the stages\<close>

text \<open>What the injected services answer during an attempt.\<close>

record continuity_env =
  cv_snapshot :: snapshot
  cv_trust :: "string \<Rightarrow> trust_record result"
  cv_flux_client :: flux_client
  cv_flux :: flux_provider
  cv_zarya_client :: zarya_client
  cv_zarya_at :: "string \<Rightarrow> zarya_client"
  cv_zarya :: zarya_provider
  cv_now :: time

definition c_transition ::
  "continuity_env \<Rightarrow> continuity_session \<Rightarrow> continuity_state \<Rightarrow> continuity_result option
     \<Rightarrow> continuity_session result" where
  "c_transition env s t res =
     (if \<not> c_is_valid_transition (cn_state s) t
      then Inl (invalid_continuity_transition (cn_continuity_id s) (cn_state s) t)
      else Inr (s\<lparr>cn_state := t, cn_updated_at := cv_now env,
                  cn_result := (case res of None \<Rightarrow> cn_result s | Some r \<Rightarrow> Some r)\<rparr>))"

definition c_fail :: "continuity_env \<Rightarrow> continuity_session \<Rightarrow> string \<Rightarrow> continuity_session result" where
  "c_fail env s reason = c_transition env s C_FAILED (Some (plain_result CO_FAILED reason))"

definition c_validate :: "continuity_env \<Rightarrow> continuity_session \<Rightarrow> continuity_session result" where
  "c_validate env s =
     (let q = cn_request s in
      if cq_portable_work q = [] then c_fail env s ''Empty portable_work''
      else if cq_work_id q = [] then c_fail env s ''Missing work_id''
      else if cq_continuity_intent q = ''MIGRATION''
      then c_transition env s C_UNSUPPORTED (Some (plain_result CO_UNSUPPORTED
             ''MIGRATION intent not supported in S16 first slice.''))
      else Inr s)"

text \<open>\<open>metadata.get(k) or provider.get(k) or node.get(k)\<close>, where a part that is no dictionary is empty.\<close>

definition sub_dict :: "(string, pyval) dict \<Rightarrow> string \<Rightarrow> (string, pyval) dict" where
  "sub_dict m k = (case dget_or m k (PDict []) of PDict d \<Rightarrow> d | _ \<Rightarrow> [])"

definition target_meta :: "(string, pyval) dict \<Rightarrow> string \<Rightarrow> pyval" where
  "target_meta m k =
     py_or (py_or (dget_or m k PNone) (dget_or (sub_dict m ''provider'') k PNone))
       (dget_or (sub_dict m ''node'') k PNone)"

definition c_target_of :: "continuity_env \<Rightarrow> continuity_request \<Rightarrow> string + continuity_target" where
  "c_target_of env q =
     (case mk_nav_request ''zarya.work.continue'' (cq_target_constraints q) of
        Inl e \<Rightarrow> Inl (''Target selection failed: '' @ exn_msg e)
      | Inr nq \<Rightarrow>
          let r = navigate nq (cv_snapshot env) in
          (case nr_selected r of
             None \<Rightarrow> Inl (''No eligible target: '' @ nr_reason r)
           | Some c \<Rightarrow>
               (case mk_continuity_target c (target_meta (nc_metadata c) ''flux_peer_id'')
                       (target_meta (nc_metadata c) ''zarya_url'') of
                  Inl e \<Rightarrow> Inl (''Target selection failed: '' @ exn_msg e)
                | Inr t \<Rightarrow> Inr t)))"

definition c_select_target :: "continuity_env \<Rightarrow> continuity_session \<Rightarrow> continuity_session result" where
  "c_select_target env s =
     (case c_target_of env (cn_request s) of
        Inl reason \<Rightarrow> c_fail env s reason
      | Inr t \<Rightarrow> Inr (s\<lparr>cn_target := Some t, cn_updated_at := cv_now env\<rparr>))"

definition c_verify_trust :: "continuity_env \<Rightarrow> continuity_session \<Rightarrow> continuity_session result" where
  "c_verify_trust env s =
     (case cn_target s of
        None \<Rightarrow> c_fail env s ''No target selected''
      | Some t \<Rightarrow> (case cv_trust env (tg_device_id t) of
          Inl e \<Rightarrow> c_fail env s (''Trust verification failed: '' @ exn_msg e)
        | Inr r \<Rightarrow>
            if tr_status r = TRUST_UNKNOWN
            then c_fail env s (''No trust relationship with '' @ tg_device_id t)
            else if tr_status r \<noteq> TRUST_TRUSTED
            then c_fail env s (''Target trust status: '' @ trust_status_value (tr_status r))
            else Inr (s\<lparr>cn_target := Some (t\<lparr>tg_trust_verified := True\<rparr>), cn_updated_at := cv_now env\<rparr>)))"

definition c_prepare_artifacts :: "continuity_env \<Rightarrow> continuity_session \<Rightarrow> continuity_session result" where
  "c_prepare_artifacts env s = Inr s"

fun c_transfer_all ::
  "continuity_env \<Rightarrow> string \<Rightarrow> string list \<Rightarrow> string option \<Rightarrow> string + string option" where
  "c_transfer_all env peer [] tid = Inr tid"
| "c_transfer_all env peer (file # files) tid =
     (case fp_transfer (cv_flux_client env) (cv_flux env) peer file None False of
        Inl e \<Rightarrow> Inl (''Artifact transfer failed: '' @ exn_msg e)
      | Inr r \<Rightarrow>
          if ftr_status r \<in> {TRANSFER_FAILED, TRANSFER_CANCELLED}
          then Inl (''Artifact transfer failed with status: '' @ transfer_status_value (ftr_status r))
          else c_transfer_all env peer files (Some (ftr_transfer_id r)))"

definition transfer_peer :: "continuity_target \<Rightarrow> string" where
  "transfer_peer t = (if truthy_opt (tg_flux_peer_id t) then the (tg_flux_peer_id t) else tg_node_id t)"

definition c_transfer_artifacts :: "continuity_env \<Rightarrow> continuity_session \<Rightarrow> continuity_session result" where
  "c_transfer_artifacts env s =
     (case cn_target s of
        None \<Rightarrow> c_fail env s ''No target for transfer''
      | Some t \<Rightarrow>
          if cq_artifact_paths (cn_request s) = []
          then Inr (s\<lparr>cn_result := Some ((plain_result CO_SUCCESS [])\<lparr>cres_transfer_completed := True\<rparr>),
                      cn_updated_at := cv_now env\<rparr>)
          else (case c_transfer_all env (transfer_peer t) (cq_artifact_paths (cn_request s)) None of
                  Inl reason \<Rightarrow> c_fail env s reason
                | Inr i \<Rightarrow> Inr (s\<lparr>cn_transfer_id := i, cn_updated_at := cv_now env\<rparr>)))"

fun map_zarya_outcome :: "verification_outcome \<Rightarrow> continuity_outcome" where
  "map_zarya_outcome VERIFIED_SUCCESS = CO_SUCCESS"
| "map_zarya_outcome VERIFIED_FAILURE = CO_FAILED"
| "map_zarya_outcome OUTCOME_UNKNOWN = CO_UNKNOWN"

definition c_reply :: "continuity_env \<Rightarrow> continuity_session \<Rightarrow> continuity_target \<Rightarrow> continuation_response result" where
  "c_reply env s t =
     zp_continue_work (cv_zarya_client env) (cv_zarya_at env) (cv_zarya env) (cq_portable_work (cn_request s))
       (cq_source_device_id (cn_request s)) (cn_continuity_id s)
       (if truthy_opt (tg_zarya_url t) then tg_zarya_url t else None)"

definition c_continue_on_target :: "continuity_env \<Rightarrow> continuity_session \<Rightarrow> continuity_session result" where
  "c_continue_on_target env s =
     (case cn_target s of
        None \<Rightarrow> c_fail env s ''No target for continuation''
      | Some t \<Rightarrow> (case c_reply env s t of
          Inl e \<Rightarrow> c_fail env s (''Target continuation failed: '' @ exn_msg e)
        | Inr r \<Rightarrow> Inr (s\<lparr>cn_operation_id := Some (zc_operation_id r),
            cn_result := Some \<lparr>cres_outcome = map_zarya_outcome (zc_outcome r), cres_transfer_completed = True,
              cres_reconstruction_completed = zc_reconstruction_completed r,
              cres_execution_completed = zc_execution_completed r,
              cres_zarya_outcome = Some (outcome_value (zc_outcome r)), cres_reason = zc_summary r\<rparr>,
            cn_updated_at := cv_now env\<rparr>)))"

definition c_verify_result :: "continuity_env \<Rightarrow> continuity_session \<Rightarrow> continuity_session result" where
  "c_verify_result env s =
     (case cn_result s of
        None \<Rightarrow> c_transition env s C_UNKNOWN (Some (plain_result CO_UNKNOWN ''No result to verify.''))
      | Some r \<Rightarrow>
          let out = (if cres_zarya_outcome r = Some (outcome_value VERIFIED_SUCCESS) then CO_SUCCESS
                     else if cres_zarya_outcome r = Some (outcome_value VERIFIED_FAILURE) then CO_FAILED
                     else CO_UNKNOWN);
              r' = r\<lparr>cres_outcome := out\<rparr> in
          c_transition env s
            (case out of CO_SUCCESS \<Rightarrow> C_COMPLETED | CO_FAILED \<Rightarrow> C_FAILED | _ \<Rightarrow> C_UNKNOWN) (Some r'))"

subsection \<open>continuity/service.py: the pipeline and the service\<close>

definition c_stage ::
  "continuity_env \<Rightarrow> continuity_state \<Rightarrow> (continuity_env \<Rightarrow> continuity_session \<Rightarrow> continuity_session result)
     \<Rightarrow> continuity_session \<Rightarrow> continuity_session result" where
  "c_stage env t body s = (case c_transition env s t None of Inl e \<Rightarrow> Inl e | Inr s' \<Rightarrow> body env s')"

text \<open>Stage 6 passes through RECONSTRUCTING.\<close>

definition c_continue_stage :: "continuity_env \<Rightarrow> continuity_session \<Rightarrow> continuity_session result" where
  "c_continue_stage env s =
     (case c_transition env s C_RECONSTRUCTING None of
        Inl e \<Rightarrow> Inl e | Inr s' \<Rightarrow> c_stage env C_CONTINUING c_continue_on_target s')"

text \<open>Later stages run only while the attempt is not terminal.\<close>

definition unless_terminal ::
  "continuity_session result \<Rightarrow> (continuity_session \<Rightarrow> continuity_session result) \<Rightarrow> continuity_session result" where
  "unless_terminal r next_part = (case r of
      Inl e \<Rightarrow> Inl e | Inr s \<Rightarrow> if c_is_terminal (cn_state s) then Inr s else next_part s)"

definition run_pipeline :: "continuity_env \<Rightarrow> continuity_session \<Rightarrow> continuity_session result" where
  "run_pipeline env s =
     unless_terminal (c_stage env C_VALIDATING c_validate s) (\<lambda>s.
     unless_terminal (c_stage env C_TARGET_SELECTED c_select_target s) (\<lambda>s.
     unless_terminal (c_stage env C_AUTHORIZED c_verify_trust s) (\<lambda>s.
     unless_terminal (c_stage env C_PREPARING c_prepare_artifacts s) (\<lambda>s.
     unless_terminal (c_stage env C_TRANSFERRING c_transfer_artifacts s) (\<lambda>s.
     unless_terminal (c_continue_stage env s)
       (c_stage env C_VERIFYING c_verify_result))))))"

record continuity_service =
  co_sessions :: "(string, continuity_session) dict"
  co_work_continuities :: "(string, string) dict"

definition new_continuity_service :: continuity_service where
  "new_continuity_service = \<lparr>co_sessions = [], co_work_continuities = []\<rparr>"

definition store_session :: "continuity_session \<Rightarrow> continuity_service \<Rightarrow> continuity_service" where
  "store_session s v = v\<lparr>co_sessions := dset (cn_continuity_id s) s (co_sessions v)\<rparr>"

definition get_session :: "continuity_service \<Rightarrow> string \<Rightarrow> continuity_session option" where
  "get_session v cid = dget (co_sessions v) cid"

definition active_sessions :: "continuity_service \<Rightarrow> nat" where
  "active_sessions v = length (filter (\<lambda>s. \<not> c_is_terminal (cn_state s)) (dvals (co_sessions v)))"

text \<open>The check and the registration under the lock.\<close>

definition begin_continuity ::
  "string \<Rightarrow> time \<Rightarrow> continuity_request \<Rightarrow> continuity_service
     \<Rightarrow> (continuity_session \<times> continuity_service) result" where
  "begin_continuity cid now q v =
     (let s = new_session cid now q;
          started = Inr (s, (store_session s v)\<lparr>co_work_continuities :=
                               dset (cq_work_id q) cid (co_work_continuities v)\<rparr>) in
      case dget (co_work_continuities v) (cq_work_id q) of
        None \<Rightarrow> started
      | Some old \<Rightarrow>
          if old = [] then started
          else (case dget (co_sessions v) old of
                  None \<Rightarrow> started
                | Some x \<Rightarrow> if \<not> c_is_terminal (cn_state x)
                            then Inl (duplicate_continuity old (cq_work_id q)) else started))"

definition request_continuity ::
  "continuity_env \<Rightarrow> string \<Rightarrow> continuity_request \<Rightarrow> continuity_service
     \<Rightarrow> continuity_session result \<times> continuity_service" where
  "request_continuity env cid q v =
     (case begin_continuity cid (cv_now env) q v of
        Inl e \<Rightarrow> (Inl e, v)
      | Inr (s, v') \<Rightarrow> (case run_pipeline env s of
          Inr s' \<Rightarrow> (Inr s', store_session s' v')
        | Inl e \<Rightarrow> (Inl e, v')))"

subsection \<open>The attempt as a stage machine\<close>

text \<open>The next stage of an attempt, by its state; a terminal attempt stays as it is.\<close>

definition c_next :: "continuity_env \<Rightarrow> continuity_session \<Rightarrow> continuity_session result" where
  "c_next env s = (case cn_state s of
      C_REQUESTED \<Rightarrow> c_stage env C_VALIDATING c_validate s
    | C_VALIDATING \<Rightarrow> c_stage env C_TARGET_SELECTED c_select_target s
    | C_TARGET_SELECTED \<Rightarrow> c_stage env C_AUTHORIZED c_verify_trust s
    | C_AUTHORIZED \<Rightarrow> c_stage env C_PREPARING c_prepare_artifacts s
    | C_PREPARING \<Rightarrow> c_stage env C_TRANSFERRING c_transfer_artifacts s
    | C_TRANSFERRING \<Rightarrow> c_continue_stage env s
    | C_CONTINUING \<Rightarrow> c_stage env C_VERIFYING c_verify_result s
    | _ \<Rightarrow> Inr s)"

fun c_run :: "nat \<Rightarrow> continuity_env \<Rightarrow> continuity_session \<Rightarrow> continuity_session result" where
  "c_run 0 env s = Inr s"
| "c_run (Suc n) env s = (case c_next env s of Inl e \<Rightarrow> Inl e | Inr s' \<Rightarrow> c_run n env s')"

text \<open>The states between two stages.\<close>

definition c_rests :: "continuity_state set" where
  "c_rests = {C_REQUESTED, C_VALIDATING, C_TARGET_SELECTED, C_AUTHORIZED, C_PREPARING, C_TRANSFERRING, C_CONTINUING}"

named_theorems c_stage_defs \<open>the bodies of the stages\<close>

lemmas [c_stage_defs] = c_stage_def c_continue_stage_def c_transition_def c_fail_def c_validate_def
  c_select_target_def c_verify_trust_def c_prepare_artifacts_def c_transfer_artifacts_def
  c_continue_on_target_def c_verify_result_def c_is_valid_transition_def Let_def

lemma c_terminal_eval [simp]:
  "c_is_terminal C_COMPLETED" "c_is_terminal C_FAILED" "c_is_terminal C_CANCELLED"
  "c_is_terminal C_UNSUPPORTED" "c_is_terminal C_UNKNOWN" "\<not> c_is_terminal C_REQUESTED"
  "\<not> c_is_terminal C_VALIDATING" "\<not> c_is_terminal C_TARGET_SELECTED" "\<not> c_is_terminal C_AUTHORIZED"
  "\<not> c_is_terminal C_PREPARING" "\<not> c_is_terminal C_TRANSFERRING" "\<not> c_is_terminal C_RECONSTRUCTING"
  "\<not> c_is_terminal C_CONTINUING" "\<not> c_is_terminal C_VERIFYING"
  by (simp_all add: c_is_terminal_def C_TERMINAL_STATES_def)

lemma c_next_terminal: "c_is_terminal (cn_state s) \<Longrightarrow> c_next env s = Inr s"
  by (cases "cn_state s") (simp_all add: c_next_def)

lemma c_run_terminal: "c_is_terminal (cn_state s) \<Longrightarrow> c_run n env s = Inr s"
  by (induction n) (simp_all add: c_next_terminal)

text \<open>A stage never raises, keeps the identity of the attempt, and moves it forward.\<close>

definition c_moved :: "continuity_session \<Rightarrow> continuity_state \<Rightarrow> continuity_session \<Rightarrow> bool" where
  "c_moved s t s' \<longleftrightarrow> cn_continuity_id s' = cn_continuity_id s \<and> cn_request s' = cn_request s
     \<and> (cn_state s' = t \<or> c_is_terminal (cn_state s'))"

lemma c_next_validate:
  "cn_state s = C_REQUESTED \<Longrightarrow> \<exists>s'. c_next env s = Inr s' \<and> c_moved s C_VALIDATING s'"
  by (simp add: c_next_def c_stage_defs c_moved_def)

lemma c_next_select:
  "cn_state s = C_VALIDATING \<Longrightarrow> \<exists>s'. c_next env s = Inr s' \<and> c_moved s C_TARGET_SELECTED s'"
  by (simp add: c_next_def c_stage_defs c_moved_def split: sum.split)

lemma c_next_trust:
  "cn_state s = C_TARGET_SELECTED \<Longrightarrow> \<exists>s'. c_next env s = Inr s' \<and> c_moved s C_AUTHORIZED s'"
  by (simp add: c_next_def c_stage_defs c_moved_def split: sum.split option.split)

lemma c_next_prepare:
  "cn_state s = C_AUTHORIZED \<Longrightarrow> \<exists>s'. c_next env s = Inr s' \<and> c_moved s C_PREPARING s'"
  by (simp add: c_next_def c_stage_defs c_moved_def)

lemma c_next_transfer:
  "cn_state s = C_PREPARING \<Longrightarrow> \<exists>s'. c_next env s = Inr s' \<and> c_moved s C_TRANSFERRING s'"
  by (simp add: c_next_def c_stage_defs c_moved_def split: sum.split option.split)

lemma c_reply_sel [simp]:
  "c_reply env (s\<lparr>cn_state := t, cn_updated_at := u, cn_result := r\<rparr>) = c_reply env s"
  by (simp add: c_reply_def fun_eq_iff)

lemma c_next_continue:
  "cn_state s = C_TRANSFERRING \<Longrightarrow> \<exists>s'. c_next env s = Inr s' \<and> c_moved s C_CONTINUING s'"
  by (simp add: c_next_def c_stage_defs c_moved_def split: sum.split option.split)

lemma c_next_verify:
  "cn_state s = C_CONTINUING \<Longrightarrow> \<exists>s'. c_next env s = Inr s' \<and> c_moved s C_COMPLETED s'"
  by (simp add: c_next_def c_stage_defs c_moved_def split: option.split)

lemmas c_next_moves = c_next_validate c_next_select c_next_trust c_next_prepare c_next_transfer
  c_next_continue c_next_verify

lemma c_run_unless: "c_run (Suc n) env s = unless_terminal (c_next env s) (c_run n env)"
  by (simp add: unless_terminal_def c_run_terminal split: sum.split)

lemma unless_terminal_moved:
  assumes "\<exists>s'. r = Inr s' \<and> c_moved s t s'" and "\<And>s'. cn_state s' = t \<Longrightarrow> f s' = g s'"
  shows "unless_terminal r f = unless_terminal r g"
  using assms by (auto simp: unless_terminal_def c_moved_def)

lemma stage_chain:
  assumes "c_next env s = r" and "\<exists>s'. c_next env s = Inr s' \<and> c_moved s t s'"
    and "\<And>s'. cn_state s' = t \<Longrightarrow> f s' = c_run n env s'"
  shows "unless_terminal r f = c_run (Suc n) env s"
  using assms unless_terminal_moved [of r s t f "c_run n env"] by (simp only: c_run_unless)

lemma run_pipeline_stages:
  assumes new: "cn_state s = C_REQUESTED"
  shows "run_pipeline env s = c_run (Suc (Suc (Suc (Suc (Suc (Suc (Suc 0))))))) env s"
  unfolding run_pipeline_def
proof (rule stage_chain [OF _ c_next_validate [OF new]], simp add: c_next_def new,
    rule stage_chain [OF _ c_next_select], simp add: c_next_def, assumption,
    rule stage_chain [OF _ c_next_trust], simp add: c_next_def, assumption,
    rule stage_chain [OF _ c_next_prepare], simp add: c_next_def, assumption,
    rule stage_chain [OF _ c_next_transfer], simp add: c_next_def, assumption,
    rule stage_chain [OF _ c_next_continue], simp add: c_next_def, assumption)
  fix s' :: continuity_session
  assume "cn_state s' = C_CONTINUING"
  then show "c_stage env C_VERIFYING c_verify_result s' = c_run (Suc 0) env s'"
    by (simp add: c_next_def split: sum.split)
qed

text \<open>How far the stages are from the end.\<close>

fun stages_left :: "continuity_state \<Rightarrow> nat" where
  "stages_left C_REQUESTED = 7"
| "stages_left C_VALIDATING = 6"
| "stages_left C_TARGET_SELECTED = 5"
| "stages_left C_AUTHORIZED = 4"
| "stages_left C_PREPARING = 3"
| "stages_left C_TRANSFERRING = 2"
| "stages_left C_CONTINUING = 1"
| "stages_left _ = 0"

lemma stages_left_terminal: "c_is_terminal t \<Longrightarrow> stages_left t = 0"
  by (cases t) simp_all

lemma c_next_progress:
  assumes "cn_state s \<in> c_rests"
  shows "\<exists>s' t. c_next env s = Inr s' \<and> c_moved s t s' \<and> t \<in> insert C_COMPLETED c_rests
     \<and> stages_left t < stages_left (cn_state s)"
proof -
  have "\<exists>t. (\<exists>s'. c_next env s = Inr s' \<and> c_moved s t s') \<and> t \<in> insert C_COMPLETED c_rests
      \<and> stages_left t < stages_left (cn_state s)"
    using assms c_next_moves [of s env] unfolding c_rests_def by (elim insertE) auto
  then show ?thesis by blast
qed

lemma c_run_terminates:
  "cn_state s \<in> insert C_COMPLETED c_rests \<or> c_is_terminal (cn_state s) \<Longrightarrow> stages_left (cn_state s) \<le> n \<Longrightarrow>
     \<exists>s'. c_run n env s = Inr s' \<and> c_is_terminal (cn_state s')
       \<and> cn_continuity_id s' = cn_continuity_id s \<and> cn_request s' = cn_request s"
proof (induction n arbitrary: s)
  case 0
  then show ?case by (auto simp: c_rests_def)
next
  case (Suc n)
  show ?case
  proof (cases "c_is_terminal (cn_state s)")
    case True
    then show ?thesis using c_run_terminal [OF True, of "Suc n" env] by simp
  next
    case False
    with Suc.prems have "cn_state s \<in> c_rests" by (auto simp: c_rests_def)
    from c_next_progress [OF this] obtain s' t where s': "c_next env s = Inr s'" "c_moved s t s'"
      and t: "t \<in> insert C_COMPLETED c_rests" "stages_left t < stages_left (cn_state s)" by blast
    then have "cn_state s' \<in> insert C_COMPLETED c_rests \<or> c_is_terminal (cn_state s')"
      and "stages_left (cn_state s') \<le> n"
      using Suc.prems(2) stages_left_terminal by (auto simp: c_moved_def)
    from Suc.IH [OF this] s' show ?thesis by (auto simp: c_moved_def)
  qed
qed

text \<open>
  C12. The pipeline is the stage machine: running it on a new attempt is running the next stage, by
  the state of the attempt, seven times; it never raises, and the attempt is terminal then.
\<close>

theorem pipeline_is_stage_machine:
  assumes new: "cn_state s = C_REQUESTED"
  shows "run_pipeline env s = c_run 7 env s
    \<and> (\<exists>s'. run_pipeline env s = Inr s' \<and> c_is_terminal (cn_state s')
         \<and> cn_continuity_id s' = cn_continuity_id s \<and> cn_request s' = cn_request s)"
proof -
  have eq: "run_pipeline env s = c_run 7 env s"
    using run_pipeline_stages [OF new, of env] by (simp add: numeral_eq_Suc del: c_run.simps)
  then show ?thesis
    using c_run_terminates [of s 7 env] new by (simp add: c_rests_def)
qed

subsection \<open>What a completed attempt means\<close>

lemma c_target_of_eligible:
  assumes "c_target_of env q = Inr t"
  shows "\<exists>c \<in> set (discover_candidates (cv_snapshot env) ''zarya.work.continue'').
     eligible (cq_target_constraints q) c \<and> tg_node_id t = nc_node_id c \<and> tg_device_id t = nc_node_id c
     \<and> tg_provider_id t = nc_provider_id c"
proof -
  let ?nq = "\<lparr>nq_capability = ''zarya.work.continue'', nq_constraints = cq_target_constraints q\<rparr>"
  have "mk_nav_request ''zarya.work.continue'' (cq_target_constraints q) = Inr ?nq"
    by (simp add: mk_nav_request_def)
  with assms obtain c where c: "nr_selected (navigate ?nq (cv_snapshot env)) = Some c"
    "mk_continuity_target c (target_meta (nc_metadata c) ''flux_peer_id'')
       (target_meta (nc_metadata c) ''zarya_url'') = Inr t"
    by (auto simp: c_target_of_def Let_def split: option.splits sum.splits)
  have "tg_node_id t = nc_node_id c" "tg_device_id t = nc_node_id c" "tg_provider_id t = nc_provider_id c"
    using c(2) by (auto simp: mk_continuity_target_def split: option.splits)
  with hybrid.nav_candidate [OF c(1)] hybrid.nav_eligible [OF c(1)] show ?thesis by auto
qed

lemma pipeline_keeps:
  assumes "run_pipeline env (new_session cid now q) = Inr s"
  shows "cn_request s = q \<and> cn_continuity_id s = cid \<and> c_is_terminal (cn_state s)"
proof -
  let ?s = "new_session cid now q"
  have new: "cn_state ?s = C_REQUESTED" by (simp add: new_session_def)
  have "\<exists>s'. run_pipeline env ?s = Inr s' \<and> c_is_terminal (cn_state s')
      \<and> cn_continuity_id s' = cn_continuity_id ?s \<and> cn_request s' = cn_request ?s"
    unfolding run_pipeline_stages [OF new] by (rule c_run_terminates) (simp_all add: new c_rests_def)
  with assms show ?thesis by (auto simp: new_session_def)
qed

text \<open>The target is a capability of a provider of a node in the snapshot, with the address that one of the two announces.\<close>

definition announced_url :: "disc_node \<Rightarrow> disc_provider \<Rightarrow> pyval" where
  "announced_url m p = py_or (dget_or (dp_metadata p) ''zarya_url'' PNone) (dget_or (dn_metadata m) ''zarya_url'' PNone)"

lemma read_opt_str_Some: "read_opt_str v = Some u \<longleftrightarrow> v = (case u of None \<Rightarrow> PNone | Some s \<Rightarrow> PStr s)"
  by (cases v) (auto split: option.split)

lemma target_meta_candidate:
  "target_meta (nc_metadata (mk_candidate m p dc)) ''zarya_url'' = announced_url m p"
  by (simp add: target_meta_def announced_url_def mk_candidate_def sub_dict_def dget_or_def py_or_def)

lemma c_target_of_provider:
  assumes "c_target_of env q = Inr t"
  shows "\<exists>m p dc. m \<in> set (dvals (snap_nodes (cv_snapshot env))) \<and> p \<in> set (dvals (dn_providers m)) \<and> dc \<in> set (dp_capabilities p)
     \<and> dc_capability_id dc = ''zarya.work.continue'' \<and> eligible (cq_target_constraints q) (mk_candidate m p dc)
     \<and> tg_node_id t = dn_node_id m \<and> tg_device_id t = dn_node_id m \<and> tg_provider_id t = dp_provider_id p
     \<and> announced_url m p = (case tg_zarya_url t of None \<Rightarrow> PNone | Some u \<Rightarrow> PStr u)"
proof -
  let ?nq = "\<lparr>nq_capability = ''zarya.work.continue'', nq_constraints = cq_target_constraints q\<rparr>"
  have "mk_nav_request ''zarya.work.continue'' (cq_target_constraints q) = Inr ?nq"
    by (simp add: mk_nav_request_def)
  with assms obtain c where c: "nr_selected (navigate ?nq (cv_snapshot env)) = Some c"
    "mk_continuity_target c (target_meta (nc_metadata c) ''flux_peer_id'')
       (target_meta (nc_metadata c) ''zarya_url'') = Inr t"
    by (auto simp: c_target_of_def Let_def split: option.splits sum.splits)
  from c(2) have url: "read_opt_str (target_meta (nc_metadata c) ''zarya_url'') = Some (tg_zarya_url t)"
    and ids: "tg_node_id t = nc_node_id c" "tg_device_id t = nc_node_id c" "tg_provider_id t = nc_provider_id c"
    by (auto simp: mk_continuity_target_def split: option.splits)
  from hybrid.nav_candidate [OF c(1)] obtain m p dc where m: "m \<in> set (dvals (snap_nodes (cv_snapshot env)))"
    "p \<in> set (dvals (dn_providers m))" "dc \<in> set (dp_capabilities p)" "dc_capability_id dc = ''zarya.work.continue''"
    and eq: "c = mk_candidate m p dc" by (auto simp: discover_candidates_mem)
  have "announced_url m p = (case tg_zarya_url t of None \<Rightarrow> PNone | Some u \<Rightarrow> PStr u)"
    using url unfolding eq target_meta_candidate read_opt_str_Some .
  moreover have "eligible (cq_target_constraints q) (mk_candidate m p dc)" using hybrid.nav_eligible [OF c(1)] by (simp add: eq)
  ultimately show ?thesis using m ids by (intro exI [of _ m] exI [of _ p] exI [of _ dc]) (simp add: eq mk_candidate_def)
qed

text \<open>The reply of the target to the request of attempt \<open>cid\<close>.\<close>

definition target_reply ::
  "continuity_env \<Rightarrow> string \<Rightarrow> continuity_request \<Rightarrow> continuity_target \<Rightarrow> continuation_response result" where
  "target_reply env cid q t =
     zp_continue_work (cv_zarya_client env) (cv_zarya_at env) (cv_zarya env) (cq_portable_work q)
       (cq_source_device_id q) cid (if truthy_opt (tg_zarya_url t) then tg_zarya_url t else None)"

lemma transfer_peer_verified [simp]: "transfer_peer (t\<lparr>tg_trust_verified := b\<rparr>) = transfer_peer t"
  by (simp add: transfer_peer_def)

lemma c_target_unverified: "c_target_of env q = Inr t \<Longrightarrow> \<not> tg_trust_verified t"
  by (auto simp: c_target_of_def mk_continuity_target_def Let_def split: option.splits sum.splits)

lemma c_reply_target:
  "cn_request s = q \<Longrightarrow> cn_continuity_id s = cid \<Longrightarrow>
     c_reply env s (t\<lparr>tg_trust_verified := b\<rparr>) = target_reply env cid q t"
  by (simp add: c_reply_def target_reply_def)

lemmas pipeline_eval = run_pipeline_def unless_terminal_def c_stage_defs new_session_def

text \<open>Where an attempt with valid work ends, by the answers of the services.\<close>

definition pipeline_end ::
  "continuity_env \<Rightarrow> string \<Rightarrow> continuity_request \<Rightarrow> continuity_state" where
  "pipeline_end env cid q =
     (if cq_portable_work q = [] \<or> cq_work_id q = [] then C_FAILED
      else if cq_continuity_intent q = ''MIGRATION'' then C_UNSUPPORTED
      else (case c_target_of env q of Inl _ \<Rightarrow> C_FAILED
        | Inr t \<Rightarrow> (case cv_trust env (tg_device_id t) of Inl _ \<Rightarrow> C_FAILED
          | Inr rec \<Rightarrow> if tr_status rec \<noteq> TRUST_TRUSTED then C_FAILED
              else (case c_transfer_all env (transfer_peer t) (cq_artifact_paths q) None of Inl _ \<Rightarrow> C_FAILED
                | Inr i \<Rightarrow> (case target_reply env cid q t of Inl _ \<Rightarrow> C_FAILED
                  | Inr r \<Rightarrow> (case zc_outcome r of VERIFIED_SUCCESS \<Rightarrow> C_COMPLETED
                      | VERIFIED_FAILURE \<Rightarrow> C_FAILED | OUTCOME_UNKNOWN \<Rightarrow> C_UNKNOWN))))))"

lemma pipeline_no_target:
  "cq_portable_work q \<noteq> [] \<Longrightarrow> cq_work_id q \<noteq> [] \<Longrightarrow> cq_continuity_intent q \<noteq> ''MIGRATION'' \<Longrightarrow>
     c_target_of env q = Inl why \<Longrightarrow>
     \<exists>s. run_pipeline env (new_session cid now q) = Inr s \<and> cn_state s = C_FAILED"
  by (simp add: pipeline_eval)

text \<open>The session once a target has been selected and authorised.\<close>

definition authorized_session :: "continuity_env \<Rightarrow> string \<Rightarrow> time \<Rightarrow> continuity_request \<Rightarrow> continuity_target \<Rightarrow> continuity_session" where
  "authorized_session env cid now q t = (new_session cid now q)
     \<lparr>cn_state := C_AUTHORIZED, cn_target := Some (t\<lparr>tg_trust_verified := True\<rparr>), cn_updated_at := cv_now env\<rparr>"

definition from_authorized :: "continuity_env \<Rightarrow> continuity_session \<Rightarrow> continuity_session result" where
  "from_authorized env s =
     unless_terminal (c_stage env C_PREPARING c_prepare_artifacts s) (\<lambda>s.
     unless_terminal (c_stage env C_TRANSFERRING c_transfer_artifacts s) (\<lambda>s.
     unless_terminal (c_continue_stage env s) (c_stage env C_VERIFYING c_verify_result)))"

lemma pipeline_authorized:
  assumes "cq_portable_work q \<noteq> []" "cq_work_id q \<noteq> []" "cq_continuity_intent q \<noteq> ''MIGRATION''"
    and t: "c_target_of env q = Inr t"
  shows "case cv_trust env (tg_device_id t) of
      Inl e \<Rightarrow> \<exists>s. run_pipeline env (new_session cid now q) = Inr s \<and> cn_state s = C_FAILED
    | Inr rec \<Rightarrow> if tr_status rec \<noteq> TRUST_TRUSTED
        then \<exists>s. run_pipeline env (new_session cid now q) = Inr s \<and> cn_state s = C_FAILED
        else run_pipeline env (new_session cid now q) = from_authorized env (authorized_session env cid now q t)"
  using assms
  by (simp add: pipeline_eval from_authorized_def authorized_session_def split: sum.split)

lemma from_authorized_end:
  "case c_transfer_all env (transfer_peer t) (cq_artifact_paths q) None of
     Inl e \<Rightarrow> \<exists>s. from_authorized env (authorized_session env cid now q t) = Inr s \<and> cn_state s = C_FAILED
   | Inr i \<Rightarrow> (case target_reply env cid q t of
         Inl e \<Rightarrow> \<exists>s. from_authorized env (authorized_session env cid now q t) = Inr s \<and> cn_state s = C_FAILED
       | Inr r \<Rightarrow> \<exists>s. from_authorized env (authorized_session env cid now q t) = Inr s
           \<and> cn_state s = (case zc_outcome r of VERIFIED_SUCCESS \<Rightarrow> C_COMPLETED
                | VERIFIED_FAILURE \<Rightarrow> C_FAILED | OUTCOME_UNKNOWN \<Rightarrow> C_UNKNOWN)
           \<and> cn_target s = Some (t\<lparr>tg_trust_verified := True\<rparr>)
           \<and> cn_operation_id s = Some (zc_operation_id r))"
proof -
  note eval = from_authorized_def authorized_session_def pipeline_eval c_reply_target
  show ?thesis
  proof (cases "c_transfer_all env (transfer_peer t) (cq_artifact_paths q) None")
    case (Inl e)
    then have "cq_artifact_paths q \<noteq> []" by auto
    with Inl show ?thesis by (simp add: eval)
  next
    case (Inr i)
    let ?s = "(authorized_session env cid now q t)\<lparr>cn_state := C_TRANSFERRING, cn_updated_at := cv_now env\<rparr>"
    obtain tid res where sent: "unless_terminal (c_stage env C_TRANSFERRING c_transfer_artifacts
          ((authorized_session env cid now q t)\<lparr>cn_state := C_PREPARING, cn_updated_at := cv_now env\<rparr>)) f
        = f (?s\<lparr>cn_transfer_id := tid, cn_result := res\<rparr>)" for f
    proof (cases "cq_artifact_paths q = []")
      case True
      then show ?thesis by (intro that [of "Some ((plain_result CO_SUCCESS [])\<lparr>cres_transfer_completed := True\<rparr>)" None]) (simp add: eval)
    next
      case False
      with Inr show ?thesis by (intro that [of None i]) (simp add: eval)
    qed
    have cont: "from_authorized env (authorized_session env cid now q t)
        = unless_terminal (c_continue_stage env (?s\<lparr>cn_transfer_id := tid, cn_result := res\<rparr>))
            (c_stage env C_VERIFYING c_verify_result)"
    proof -
      have "from_authorized env (authorized_session env cid now q t)
          = unless_terminal (c_stage env C_TRANSFERRING c_transfer_artifacts
              ((authorized_session env cid now q t)\<lparr>cn_state := C_PREPARING, cn_updated_at := cv_now env\<rparr>))
              (\<lambda>s. unless_terminal (c_continue_stage env s) (c_stage env C_VERIFYING c_verify_result))"
        by (simp add: from_authorized_def c_stage_def c_transition_def c_is_valid_transition_def
            c_prepare_artifacts_def authorized_session_def unless_terminal_def new_session_def)
      then show ?thesis by (simp only: sent)
    qed
    show ?thesis
    proof (cases "target_reply env cid q t")
      case (Inl e)
      with Inr show ?thesis unfolding cont by (simp add: eval)
    next
      case reply: (Inr r)
      with Inr show ?thesis unfolding cont by (cases "zc_outcome r") (simp_all add: eval)
    qed
  qed
qed

lemma pipeline_invalid:
  assumes "cq_portable_work q = [] \<or> cq_work_id q = [] \<or> cq_continuity_intent q = ''MIGRATION''"
  shows "\<exists>s. run_pipeline env (new_session cid now q) = Inr s \<and> cn_state s = pipeline_end env cid q
     \<and> cn_state s \<noteq> C_COMPLETED"
proof (cases "cq_portable_work q = [] \<or> cq_work_id q = []")
  case True
  then show ?thesis by (elim disjE) (simp_all add: pipeline_eval pipeline_end_def)
next
  case False
  with assms show ?thesis by (simp add: pipeline_eval pipeline_end_def)
qed

lemma pipeline_result:
  "\<exists>s. run_pipeline env (new_session cid now q) = Inr s \<and> cn_state s = pipeline_end env cid q
     \<and> (cn_state s \<noteq> C_COMPLETED
        \<or> (\<exists>t rec r. cn_target s = Some (t\<lparr>tg_trust_verified := True\<rparr>) \<and> c_target_of env q = Inr t
             \<and> cv_trust env (tg_device_id t) = Inr rec \<and> tr_is_trusted rec
             \<and> target_reply env cid q t = Inr r \<and> zc_outcome r = VERIFIED_SUCCESS
             \<and> cn_operation_id s = Some (zc_operation_id r)
             \<and> (\<exists>c \<in> set (discover_candidates (cv_snapshot env) ''zarya.work.continue'').
                  eligible (cq_target_constraints q) c \<and> tg_node_id t = nc_node_id c)))"
proof (cases "cq_portable_work q = [] \<or> cq_work_id q = [] \<or> cq_continuity_intent q = ''MIGRATION''")
  case True
  from pipeline_invalid [OF this] show ?thesis by blast
next
  case valid: False
  show ?thesis
  proof (cases "c_target_of env q")
    case (Inl why)
    with pipeline_no_target [of q env why cid now] valid obtain s
      where "run_pipeline env (new_session cid now q) = Inr s" "cn_state s = C_FAILED" by blast
    with Inl valid show ?thesis by (simp add: pipeline_end_def)
  next
    case target: (Inr t)
    have "\<exists>c \<in> set (discover_candidates (cv_snapshot env) ''zarya.work.continue'').
        eligible (cq_target_constraints q) c \<and> tg_node_id t = nc_node_id c"
      using c_target_of_eligible [OF target] by blast
    moreover have "case cv_trust env (tg_device_id t) of
        Inl e \<Rightarrow> \<exists>s. run_pipeline env (new_session cid now q) = Inr s \<and> cn_state s = C_FAILED
      | Inr rec \<Rightarrow> if tr_status rec \<noteq> TRUST_TRUSTED
          then \<exists>s. run_pipeline env (new_session cid now q) = Inr s \<and> cn_state s = C_FAILED
          else run_pipeline env (new_session cid now q) = from_authorized env (authorized_session env cid now q t)"
      by (rule pipeline_authorized) (use valid target in simp_all)
    ultimately show ?thesis
      using from_authorized_end [where env = env and t = t and q = q and cid = cid and now = now] valid target
      by (auto simp: pipeline_end_def tr_is_trusted_def split: sum.splits if_splits verification_outcome.splits)
  qed
qed

text \<open>
  C10. The pipeline on a new attempt never raises, and where it ends is decided by the answers of the
  services: it is FAILED for empty work, without an eligible target, for a node that is not
  TRUSTED or an error of any service, UNSUPPORTED for a migration, and otherwise as the target
  reports. A completed session names the authorised target and the operation of the reply,
  and that target is a candidate that satisfies the constraints.
\<close>

theorem pipeline_outcome:
  "\<exists>s. run_pipeline env (new_session cid now q) = Inr s \<and> cn_state s = pipeline_end env cid q
     \<and> (cn_state s \<noteq> C_COMPLETED
        \<or> (\<exists>t rec r. cn_target s = Some (t\<lparr>tg_trust_verified := True\<rparr>) \<and> c_target_of env q = Inr t
             \<and> cv_trust env (tg_device_id t) = Inr rec \<and> tr_is_trusted rec
             \<and> target_reply env cid q t = Inr r \<and> zc_outcome r = VERIFIED_SUCCESS
             \<and> cn_operation_id s = Some (zc_operation_id r)
             \<and> (\<exists>c \<in> set (discover_candidates (cv_snapshot env) ''zarya.work.continue'').
                  eligible (cq_target_constraints q) c \<and> tg_node_id t = nc_node_id c)))"
  by (rule pipeline_result)

subsection \<open>Interleaved attempts\<close>

text \<open>
  One step of the service: a request is registered under a fresh id, or an unfinished attempt runs
  its next stage, with whatever the other services answer at that time.
\<close>

inductive continuity_step :: "continuity_service \<Rightarrow> continuity_service \<Rightarrow> bool" where
  begins: "begin_continuity cid now q v = Inr (s, v') \<Longrightarrow> cid \<noteq> [] \<Longrightarrow> get_session v cid = None \<Longrightarrow>
     continuity_step v v'"
| advances: "get_session v cid = Some s \<Longrightarrow> \<not> c_is_terminal (cn_state s) \<Longrightarrow> c_next env s = Inr s' \<Longrightarrow>
     continuity_step v (store_session s' v)"

inductive continuity_reachable :: "continuity_service \<Rightarrow> bool" where
  initial: "continuity_reachable new_continuity_service"
| steps: "continuity_reachable v \<Longrightarrow> continuity_step v v' \<Longrightarrow> continuity_reachable v'"

inductive_cases continuity_stepE: "continuity_step v v'"

inductive_simps reachable_iff: "continuity_reachable v"

declare continuity_reachable.intros [intro]

text \<open>Every unfinished attempt is the one registered for its work.\<close>

definition sessions_ok :: "continuity_service \<Rightarrow> bool" where
  "sessions_ok v \<longleftrightarrow>
     (\<forall>cid s. get_session v cid = Some s \<longrightarrow> cn_continuity_id s = cid \<and> cid \<noteq> []
        \<and> (cn_state s \<in> c_rests \<or> c_is_terminal (cn_state s))
        \<and> (\<not> c_is_terminal (cn_state s) \<longrightarrow> dget (co_work_continuities v) (cq_work_id (cn_request s)) = Some cid))"

lemma sessions_okD:
  assumes "sessions_ok v" and "get_session v cid = Some s"
  shows "cn_continuity_id s = cid" "cid \<noteq> []" "cn_state s \<in> c_rests \<or> c_is_terminal (cn_state s)"
    "\<not> c_is_terminal (cn_state s) \<Longrightarrow> dget (co_work_continuities v) (cq_work_id (cn_request s)) = Some cid"
  using assms unfolding sessions_ok_def by blast+

lemma store_session_get [simp]:
  "get_session (store_session s v) cid = (if cid = cn_continuity_id s then Some s else get_session v cid)"
  by (simp add: get_session_def store_session_def)

lemma store_session_work [simp]: "co_work_continuities (store_session s v) = co_work_continuities v"
  by (simp add: store_session_def)

text \<open>A registration replaces at most the entry of a finished attempt.\<close>

lemma begin_continuity_Inr:
  assumes "begin_continuity cid now q v = Inr (s, v')"
  shows "s = new_session cid now q"
    and "v' = (store_session s v)\<lparr>co_work_continuities := dset (cq_work_id q) cid (co_work_continuities v)\<rparr>"
    and "dget (co_work_continuities v) (cq_work_id q) = Some old \<Longrightarrow> old \<noteq> [] \<Longrightarrow>
       get_session v old = Some x \<Longrightarrow> c_is_terminal (cn_state x)"
  using assms by (auto simp: begin_continuity_def get_session_def Let_def split: option.splits if_splits)

lemma begins_ok:
  assumes ok: "sessions_ok v" and run: "begin_continuity cid now q v = Inr (s, v')" and cid: "cid \<noteq> []"
  shows "sessions_ok v'"
  unfolding sessions_ok_def
proof (intro allI impI)
  note new = begin_continuity_Inr [OF run]
  fix i x
  assume x: "get_session v' i = Some x"
  have get: "get_session v' i = (if i = cid then Some s else get_session v i)"
    by (simp add: new get_session_def store_session_def new_session_def)
  show "cn_continuity_id x = i \<and> i \<noteq> [] \<and> (cn_state x \<in> c_rests \<or> c_is_terminal (cn_state x))
     \<and> (\<not> c_is_terminal (cn_state x) \<longrightarrow> dget (co_work_continuities v') (cq_work_id (cn_request x)) = Some i)"
  proof (cases "i = cid")
    case True
    with x get have "x = new_session cid now q" by (simp add: new(1))
    with True cid show ?thesis by (simp add: new(2) new_session_def c_rests_def)
  next
    case False
    with x get have old: "get_session v i = Some x" by simp
    note okx = sessions_okD [OF ok old]
    have "c_is_terminal (cn_state x)"
      if "cq_work_id (cn_request x) = cq_work_id q" "\<not> c_is_terminal (cn_state x)"
      using new(3) [OF _ okx(2) old] okx(4) [OF that(2)] that(1) by simp
    with okx show ?thesis by (auto simp: new(2))
  qed
qed

lemma advances_ok:
  assumes ok: "sessions_ok v" and s: "get_session v cid = Some s" "\<not> c_is_terminal (cn_state s)"
    and run: "c_next env s = Inr s'"
  shows "sessions_ok (store_session s' v)"
proof -
  note oks = sessions_okD [OF ok s(1)]
  from oks(3) s(2) have "cn_state s \<in> c_rests" by blast
  from c_next_progress [OF this, of env] run obtain t where
    "c_moved s t s'" "t \<in> insert C_COMPLETED c_rests" by auto
  then have "cn_continuity_id s' = cid" "cn_request s' = cn_request s"
    "cn_state s' \<in> c_rests \<or> c_is_terminal (cn_state s')"
    using oks(1) by (auto simp: c_moved_def)
  with oks s(2) ok show ?thesis by (simp add: sessions_ok_def)
qed

lemma reachable_ok: "continuity_reachable v \<Longrightarrow> sessions_ok v"
proof (induction rule: continuity_reachable.induct)
  case initial
  then show ?case by (simp add: sessions_ok_def new_continuity_service_def get_session_def)
next
  case (steps v v')
  from steps(2,3) show ?case by (auto elim!: continuity_stepE intro: begins_ok advances_ok)
qed

text \<open>
  C11. However attempts interleave, at most one unfinished attempt exists for a piece of work, a request
  for work that has one is refused, a finished attempt never changes again, and an unfinished
  one can always run its next stage.
\<close>

theorem one_active_attempt_per_work:
  assumes reach: "continuity_reachable v" and s: "get_session v cid = Some s"
  shows "if c_is_terminal (cn_state s)
     then \<forall>env. c_next env s = Inr s
     else (\<forall>env. \<exists>s'. c_next env s = Inr s' \<and> stages_left (cn_state s') < stages_left (cn_state s)
             \<and> continuity_step v (store_session s' v))
       \<and> (\<forall>cid' s'. get_session v cid' = Some s' \<and> \<not> c_is_terminal (cn_state s')
            \<and> cq_work_id (cn_request s') = cq_work_id (cn_request s) \<longrightarrow> cid' = cid)
       \<and> (\<forall>new now q. cq_work_id q = cq_work_id (cn_request s)
            \<longrightarrow> begin_continuity new now q v = Inl (duplicate_continuity cid (cq_work_id q)))"
proof (cases "c_is_terminal (cn_state s)")
  case True
  then show ?thesis by (simp add: c_next_terminal)
next
  case False
  note ok = reachable_ok [OF reach]
  note oks = sessions_okD [OF ok s]
  have "\<exists>s'. c_next env s = Inr s' \<and> stages_left (cn_state s') < stages_left (cn_state s)
      \<and> continuity_step v (store_session s' v)" for env
  proof -
    from oks(3) False have "cn_state s \<in> c_rests" by blast
    from c_next_progress [OF this] obtain s' t where s': "c_next env s = Inr s'" "c_moved s t s'"
      "stages_left t < stages_left (cn_state s)" by blast
    then have "stages_left (cn_state s') < stages_left (cn_state s)"
      using stages_left_terminal [of "cn_state s'"] by (auto simp: c_moved_def)
    with s' continuity_step.advances [OF s False] show ?thesis by blast
  qed
  moreover have "cid' = cid" if "get_session v cid' = Some s'" "\<not> c_is_terminal (cn_state s')"
    "cq_work_id (cn_request s') = cq_work_id (cn_request s)" for cid' s'
    using sessions_okD(4) [OF ok that(1,2)] oks(4) [OF False] that(3) by simp
  moreover have "begin_continuity new now q v = Inl (duplicate_continuity cid (cq_work_id q))"
    if "cq_work_id q = cq_work_id (cn_request s)" for new now q
    using oks(2) oks(4) [OF False] that s False by (simp add: begin_continuity_def get_session_def)
  ultimately show ?thesis using False by (simp del: not_ex)
qed

text \<open>A whole request is the registration followed by steps of its attempt.\<close>

lemma store_session_triv: "get_session v (cn_continuity_id s) = Some s \<Longrightarrow> store_session s v = v"
  by (simp add: store_session_def get_session_def update_triv)

lemma dset_again: "dset k v (dset k w d) = dset k v d"
  by (induction d) auto

lemma store_session_again:
  "cn_continuity_id s' = cn_continuity_id s \<Longrightarrow> store_session s' (store_session s v) = store_session s' v"
  by (simp add: store_session_def dset_again)

lemma c_run_reachable:
  "continuity_reachable v \<Longrightarrow> get_session v cid = Some s \<Longrightarrow> c_run n env s = Inr s' \<Longrightarrow>
     continuity_reachable (store_session s' v) \<and> cn_continuity_id s' = cid"
proof (induction n arbitrary: v s)
  case 0
  note ok = sessions_okD(1) [OF reachable_ok [OF 0(1)] 0(2)]
  with 0 show ?case by (simp add: store_session_triv)
next
  case (Suc n)
  note ok = sessions_okD [OF reachable_ok [OF Suc.prems(1)] Suc.prems(2)]
  show ?case
  proof (cases "c_is_terminal (cn_state s)")
    case True
    with Suc.prems c_run_terminal [OF True, of "Suc n" env] ok(1) show ?thesis
      by (simp add: store_session_triv del: c_run.simps)
  next
    case False
    with ok(3) have "cn_state s \<in> c_rests" by blast
    from c_next_progress [OF this] obtain s1 t where s1: "c_next env s = Inr s1" "c_moved s t s1" by blast
    have id1: "cn_continuity_id s1 = cid" using s1(2) ok(1) by (simp add: c_moved_def)
    have reach: "continuity_reachable (store_session s1 v)"
      using Suc.prems(1) continuity_step.advances [OF Suc.prems(2) False s1(1)] by blast
    have "c_run n env s1 = Inr s'" using Suc.prems(3) s1(1) by simp
    from Suc.IH [OF reach _ this] id1 show ?thesis by (auto simp: store_session_again)
  qed
qed

lemma request_result:
  assumes reach: "continuity_reachable v" and fresh: "cid \<noteq> []" "get_session v cid = None"
  shows "case request_continuity env cid q v of
      (Inl e, v') \<Rightarrow> v' = v \<and> (\<exists>old x. e = duplicate_continuity old (cq_work_id q)
          \<and> dget (co_work_continuities v) (cq_work_id q) = Some old
          \<and> get_session v old = Some x \<and> \<not> c_is_terminal (cn_state x))
    | (Inr s, v') \<Rightarrow> continuity_reachable v' \<and> get_session v' cid = Some s
          \<and> c_is_terminal (cn_state s) \<and> cn_state s = pipeline_end env cid q \<and> cn_request s = q"
proof (cases "begin_continuity cid (cv_now env) q v")
  case (Inl e)
  then show ?thesis
    by (auto simp: request_continuity_def begin_continuity_def get_session_def Let_def split: option.splits if_splits)
next
  case (Inr p)
  then obtain s v1 where p: "begin_continuity cid (cv_now env) q v = Inr (s, v1)" by (cases p) simp
  note s = begin_continuity_Inr [OF p]
  have reach1: "continuity_reachable v1"
    using reach continuity_step.begins [OF p fresh] by blast
  have get1: "get_session v1 cid = Some s"
    by (simp add: s(2) get_session_def store_session_def) (simp add: s(1) new_session_def)
  have new: "cn_state s = C_REQUESTED" "cn_request s = q" "cn_continuity_id s = cid"
    by (simp_all add: s(1) new_session_def)
  from pipeline_result [of env cid "cv_now env" q] obtain s' where
    s': "run_pipeline env s = Inr s'" "cn_state s' = pipeline_end env cid q" unfolding s(1) by blast
  have run: "run_pipeline env s = c_run 7 env s"
    using run_pipeline_stages [OF new(1), of env] by (simp add: numeral_eq_Suc del: c_run.simps)
  from c_run_terminates [of s 7 env] new s'(1) run have "c_is_terminal (cn_state s')" "cn_request s' = q"
    by (auto simp: c_rests_def)
  moreover have "continuity_reachable (store_session s' v1)" "cn_continuity_id s' = cid"
    using c_run_reachable [OF reach1 get1, of 7 env s'] s'(1) run by simp_all
  ultimately show ?thesis using s' by (simp add: request_continuity_def p)
qed

text \<open>
  A request raises only \<open>DuplicateContinuityError\<close>, and then changes nothing; otherwise it returns
  the terminal session that it also stores, and the service is again in a reachable state.
\<close>

theorem request_continuity_outcome:
  assumes reach: "continuity_reachable v" and fresh: "cid \<noteq> []" "get_session v cid = None"
  shows "case request_continuity env cid q v of
      (Inl e, v') \<Rightarrow> v' = v \<and> (\<exists>old x. e = duplicate_continuity old (cq_work_id q)
          \<and> dget (co_work_continuities v) (cq_work_id q) = Some old
          \<and> get_session v old = Some x \<and> \<not> c_is_terminal (cn_state x))
    | (Inr s, v') \<Rightarrow> continuity_reachable v' \<and> get_session v' cid = Some s
          \<and> c_is_terminal (cn_state s) \<and> cn_state s = pipeline_end env cid q \<and> cn_request s = q"
  using assms by (rule request_result)

subsection \<open>What a finished session reports\<close>

fun outcome_of :: "continuity_state \<Rightarrow> continuity_outcome" where
  "outcome_of C_COMPLETED = CO_SUCCESS"
| "outcome_of C_CANCELLED = CO_CANCELLED"
| "outcome_of C_UNSUPPORTED = CO_UNSUPPORTED"
| "outcome_of C_UNKNOWN = CO_UNKNOWN"
| "outcome_of _ = CO_FAILED"

definition settled :: "continuity_session \<Rightarrow> bool" where
  "settled s \<longleftrightarrow> (c_is_terminal (cn_state s) \<longrightarrow>
     (\<exists>r. cn_result s = Some r \<and> cres_outcome r = outcome_of (cn_state s)))"

lemma c_next_settled: "settled s \<Longrightarrow> c_next env s = Inr s' \<Longrightarrow> settled s'"
  by (cases "cn_state s")
    (auto simp: c_next_def c_stage_defs settled_def plain_result_def split: sum.splits option.splits if_splits)

lemma c_run_settled: "settled s \<Longrightarrow> c_run n env s = Inr s' \<Longrightarrow> settled s'"
  by (induction n arbitrary: s) (auto split: sum.splits dest: c_next_settled)

lemma request_settled:
  assumes "request_continuity env cid q v = (Inr s, v')" and "c_is_terminal (cn_state s)"
  shows "\<exists>r. cn_result s = Some r \<and> cres_outcome r = outcome_of (cn_state s)"
proof -
  obtain s0 where s0: "s0 = new_session cid (cv_now env) q" "run_pipeline env s0 = Inr s"
    using assms(1) begin_continuity_Inr by (fastforce simp: request_continuity_def split: sum.splits prod.splits)
  then have "settled s0" "cn_state s0 = C_REQUESTED" by (simp_all add: settled_def new_session_def)
  with s0(2) c_run_settled have "settled s" by (metis run_pipeline_stages)
  with assms(2) show ?thesis by (simp add: settled_def)
qed

subsection \<open>Concrete attempts\<close>

text \<open>A network without nodes, and one request.\<close>

definition sample_request :: continuity_request where
  "sample_request = \<lparr>cq_work_id = ''w'', cq_source_device_id = ''me'', cq_portable_work = [(''k'', PInt 1)],
     cq_artifact_paths = [], cq_target_constraints = default_constraints, cq_continuity_intent = ''COPY''\<rparr>"

definition silent_flux :: flux_client where
  "silent_flux =
     \<lparr>fc_get_identity = Inl (Exn (Builtin OSError) ''down''), fc_get_status = Inl (Exn (Builtin OSError) ''down''),
      fc_get_peers = Inl (Exn (Builtin OSError) ''down''), fc_get_peer = (\<lambda>_. Inl (Exn (Builtin OSError) ''down'')),
      fc_connect_peer = (\<lambda>_. Inl (Exn (Builtin OSError) ''down'')),
      fc_initiate_transfer = (\<lambda>_ _ _ _. Inl (Exn (Builtin OSError) ''down'')),
      fc_get_transfer_status = (\<lambda>_. Inl (Exn (Builtin OSError) ''down'')),
      fc_cancel_transfer = (\<lambda>_. Inl (Exn (Builtin OSError) ''down''))\<rparr>"

definition empty_env :: continuity_env where
  "empty_env = \<lparr>cv_snapshot = \<lparr>snap_timestamp = 0, snap_local_node_id = ''me'', snap_nodes = []\<rparr>,
     cv_trust = (\<lambda>n. Inr (unknown_record 0 n)), cv_flux_client = silent_flux, cv_flux = new_flux_provider,
     cv_zarya_client = sample_zarya_client, cv_zarya_at = (\<lambda>_. sample_zarya_client), cv_zarya = new_zarya_provider,
     cv_now = 5\<rparr>"

lemma one_session:
  "begin_continuity ''c'' 5 sample_request new_continuity_service
     = Inr (new_session ''c'' 5 sample_request,
         \<lparr>co_sessions = [(''c'', new_session ''c'' 5 sample_request)], co_work_continuities = [(''w'', ''c'')]\<rparr>)"
  by (simp add: begin_continuity_def new_continuity_service_def sample_request_def new_session_def
      store_session_def Let_def)

text \<open>The same request when a trusted peer with an execution service has been announced.\<close>

definition announced_env :: continuity_env where
  "announced_env = empty_env\<lparr>
     cv_snapshot := \<lparr>snap_timestamp = 0, snap_local_node_id = ''me'',
       snap_nodes = [(''peer'', udp_peer_node sample_service sample_peer)]\<rparr>,
     cv_trust := (\<lambda>n. Inr ((unknown_record 0 n)\<lparr>tr_status := TRUST_TRUSTED\<rparr>)),
     cv_zarya_at := (\<lambda>url. sample_zarya_client\<lparr>zcl_continue_work := (\<lambda>w src cid.
        Inr \<lparr>zc_operation_id = cid @ ''/'' @ url, zc_outcome = VERIFIED_SUCCESS, zc_reconstruction_completed = True,
          zc_execution_completed = True, zc_result = [], zc_summary = ''continued''\<rparr>)\<rparr>)\<rparr>"

lemma announced_end: "pipeline_end announced_env ''c'' sample_request = C_COMPLETED"
  by code_simp

theorem pipeline_outcome_witness:
  "\<exists>s t. run_pipeline announced_env (new_session ''c'' 5 sample_request) = Inr s \<and> cn_state s = C_COMPLETED
     \<and> cn_target s = Some t \<and> tg_trust_verified t"
proof -
  from pipeline_outcome [of announced_env "''c''" 5 sample_request] announced_end obtain s t where
    "run_pipeline announced_env (new_session ''c'' 5 sample_request) = Inr s" "cn_state s = C_COMPLETED"
    "cn_target s = Some (t\<lparr>tg_trust_verified := True\<rparr>)" by metis
  then show ?thesis by simp
qed

theorem pipeline_is_stage_machine_witness:
  "\<exists>s'. run_pipeline empty_env (new_session ''c'' 5 sample_request) = Inr s' \<and> c_is_terminal (cn_state s')"
proof -
  have "cn_state (new_session ''c'' 5 sample_request) = C_REQUESTED" by (simp add: new_session_def)
  from pipeline_is_stage_machine [OF this, of empty_env] show ?thesis by blast
qed

theorem one_active_attempt_per_work_witness:
  "begin_continuity ''d'' 6 sample_request
     \<lparr>co_sessions = [(''c'', new_session ''c'' 5 sample_request)], co_work_continuities = [(''w'', ''c'')]\<rparr>
   = Inl (duplicate_continuity ''c'' ''w'')"
proof -
  let ?v = "\<lparr>co_sessions = [(''c'', new_session ''c'' 5 sample_request)], co_work_continuities = [(''w'', ''c'')]\<rparr>"
  have "continuity_step new_continuity_service ?v"
    by (rule continuity_step.begins [OF one_session]) (simp_all add: get_session_def new_continuity_service_def)
  then have "continuity_reachable ?v" by blast
  from one_active_attempt_per_work [OF this, of "''c''" "new_session ''c'' 5 sample_request"]
  show ?thesis by (simp add: get_session_def new_session_def sample_request_def)
qed

theorem request_continuity_outcome_witness:
  "case request_continuity empty_env ''c'' sample_request new_continuity_service of
      (Inl e, v') \<Rightarrow> v' = new_continuity_service
    | (Inr s, v') \<Rightarrow> continuity_reachable v' \<and> c_is_terminal (cn_state s)"
proof -
  have "get_session new_continuity_service ''c'' = None" by (simp add: get_session_def new_continuity_service_def)
  from request_continuity_outcome [OF continuity_reachable.initial _ this, where env = empty_env and q = sample_request]
  show ?thesis by (auto split: prod.splits sum.splits)
qed

end
