(* ===== verification/Shyam_Context.thy ===== *)
theory Shyam_Context
  imports Shyam_Ecosystem Shyam_Workflow Shyam_Event_Bus
begin

section \<open>Runtime context: active work and recent activity\<close>

text \<open>
  \<open>context/models.py\<close>, \<open>context/store.py\<close> and \<open>context/service.py\<close>. The store is a fold over the
  events of the workflow engine and of the ecosystem registry; the service subscribes its
  handlers to the bus and refreshes the discovery snapshot after every node event. The
  specification of the store is given by \<open>activity_of\<close> and \<open>running_after\<close>, functions of the
  event sequence alone.
\<close>

subsection \<open>context/models.py\<close>

datatype work_item_status = WORK_RUNNING | WORK_COMPLETED | WORK_FAILED | WORK_CANCELLED

record active_work_item =
  aw_workflow_id :: string
  aw_workflow_name :: string
  aw_status :: work_item_status
  aw_step_count :: nat
  aw_completed_steps :: nat
  aw_target_node_id :: "string option"
  aw_target_provider_id :: "string option"
  aw_started_at :: time
  aw_finished_at :: "time option"
  aw_error :: "string option"

datatype activity_kind =
    ACT_NODE_DISCOVERED | ACT_NODE_UPDATED | ACT_NODE_STALE | ACT_NODE_LOST
  | ACT_WORKFLOW_STARTED | ACT_WORKFLOW_COMPLETED | ACT_WORKFLOW_FAILED | ACT_WORKFLOW_CANCELLED

record activity_entry =
  ac_kind :: activity_kind
  ac_description :: string
  ac_occurred_at :: time
  ac_related_node_id :: "string option"
  ac_related_workflow_id :: "string option"
  ac_metadata :: "(string, pyval) dict"

record ecosystem_state =
  eco_version :: nat
  eco_captured_at :: time
  eco_discovery :: snapshot
  eco_active_work :: "active_work_item list"
  eco_recent_activity :: "activity_entry list"

definition eco_total_nodes :: "ecosystem_state \<Rightarrow> nat" where
  "eco_total_nodes s = total_nodes (eco_discovery s)"

definition active_node_count :: "ecosystem_state \<Rightarrow> nat" where
  "active_node_count s = length (active_nodes (eco_discovery s))"

definition running_work_count :: "ecosystem_state \<Rightarrow> nat" where
  "running_work_count s = length (eco_active_work s)"

record ecosystem_context =
  ctx_state :: ecosystem_state
  ctx_local_node_id :: string
  ctx_has_active_work :: bool
  ctx_stale_node_ids :: "string list"

subsection \<open>context/store.py\<close>

record state_store =
  ss_version :: nat
  ss_discovery :: "snapshot option"
  ss_active_work :: "(string, active_work_item) dict"
  ss_activity :: "activity_entry list"
  ss_max_activity :: nat

definition MAX_ACTIVITY_ENTRIES :: int where
  "MAX_ACTIVITY_ENTRIES = 100"

text \<open>\<open>deque(maxlen=...)\<close> refuses a negative bound; \<open>appendleft\<close> drops the last entry of a full deque.\<close>

definition new_state_store :: "int \<Rightarrow> state_store result" where
  "new_state_store max_activity =
     (if max_activity < 0 then Inl (Exn (Builtin ValueError) ''maxlen must be non-negative'')
      else Inr \<lparr>ss_version = 0, ss_discovery = None, ss_active_work = [], ss_activity = [],
                ss_max_activity = nat max_activity\<rparr>)"

definition appendleft :: "nat \<Rightarrow> 'a \<Rightarrow> 'a list \<Rightarrow> 'a list" where
  "appendleft m x q = take m (x # q)"

definition update_discovery :: "snapshot \<Rightarrow> state_store \<Rightarrow> state_store" where
  "update_discovery snap s = s\<lparr>ss_discovery := Some snap, ss_version := Suc (ss_version s)\<rparr>"

definition record_activity :: "activity_entry \<Rightarrow> state_store \<Rightarrow> state_store" where
  "record_activity a s =
     s\<lparr>ss_activity := appendleft (ss_max_activity s) a (ss_activity s), ss_version := Suc (ss_version s)\<rparr>"

definition work_activity :: "activity_kind \<Rightarrow> string \<Rightarrow> time \<Rightarrow> string \<Rightarrow> activity_entry" where
  "work_activity k text at wid = \<lparr>ac_kind = k, ac_description = text, ac_occurred_at = at,
     ac_related_node_id = None, ac_related_workflow_id = Some wid, ac_metadata = []\<rparr>"

definition node_activity :: "activity_kind \<Rightarrow> string \<Rightarrow> time \<Rightarrow> string \<Rightarrow> activity_entry" where
  "node_activity k text at i = \<lparr>ac_kind = k, ac_description = text, ac_occurred_at = at,
     ac_related_node_id = Some i, ac_related_workflow_id = None, ac_metadata = []\<rparr>"

definition on_workflow_started :: "time \<Rightarrow> string \<Rightarrow> string \<Rightarrow> nat \<Rightarrow> state_store \<Rightarrow> state_store" where
  "on_workflow_started at wid wname n s =
     (let item = \<lparr>aw_workflow_id = wid, aw_workflow_name = wname, aw_status = WORK_RUNNING,
            aw_step_count = n, aw_completed_steps = 0, aw_target_node_id = None,
            aw_target_provider_id = None, aw_started_at = at, aw_finished_at = None, aw_error = None\<rparr> in
      record_activity
        (work_activity ACT_WORKFLOW_STARTED
           (''Workflow '' @ quoted wname @ '' started ('' @ nat_str n @ '' steps).'') at wid)
        (s\<lparr>ss_active_work := dset wid item (ss_active_work s)\<rparr>))"

definition on_workflow_completed :: "time \<Rightarrow> string \<Rightarrow> string \<Rightarrow> nat \<Rightarrow> state_store \<Rightarrow> state_store" where
  "on_workflow_completed at wid wname n s =
     (let popped = ddel wid (ss_active_work s);
          work = (case dget (ss_active_work s) wid of
              None \<Rightarrow> popped
            | Some x \<Rightarrow> ddel wid (dset wid (x\<lparr>aw_status := WORK_COMPLETED, aw_completed_steps := n,
                                            aw_finished_at := Some at\<rparr>) popped)) in
      record_activity
        (work_activity ACT_WORKFLOW_COMPLETED (''Workflow '' @ quoted wname @ '' completed.'') at wid)
        (s\<lparr>ss_active_work := work\<rparr>))"

definition on_workflow_failed :: "time \<Rightarrow> string \<Rightarrow> string \<Rightarrow> string \<Rightarrow> state_store \<Rightarrow> state_store" where
  "on_workflow_failed at wid wname err s =
     record_activity
       (work_activity ACT_WORKFLOW_FAILED (''Workflow '' @ quoted wname @ '' failed: '' @ err) at wid)
       (s\<lparr>ss_active_work := ddel wid (ss_active_work s)\<rparr>)"

definition on_workflow_cancelled :: "time \<Rightarrow> string \<Rightarrow> string \<Rightarrow> string \<Rightarrow> state_store \<Rightarrow> state_store" where
  "on_workflow_cancelled at wid wname reason s =
     record_activity
       (work_activity ACT_WORKFLOW_CANCELLED (''Workflow '' @ quoted wname @ '' cancelled: '' @ reason) at wid)
       (s\<lparr>ss_active_work := ddel wid (ss_active_work s)\<rparr>)"

text \<open>The version is not advanced here.\<close>

definition on_step_started :: "string \<Rightarrow> nav_candidate option \<Rightarrow> state_store \<Rightarrow> state_store" where
  "on_step_started wid target s =
     (case target of
        None \<Rightarrow> s
      | Some t \<Rightarrow>
          (case dget (ss_active_work s) wid of
             None \<Rightarrow> s
           | Some x \<Rightarrow>
               if aw_target_node_id x = None
               then s\<lparr>ss_active_work := dset wid
                        (x\<lparr>aw_target_node_id := Some (nc_node_id t),
                           aw_target_provider_id := Some (nc_provider_id t)\<rparr>) (ss_active_work s)\<rparr>
               else s))"

definition on_node_discovered :: "time \<Rightarrow> disc_node \<Rightarrow> state_store \<Rightarrow> state_store" where
  "on_node_discovered at n = record_activity
     (node_activity ACT_NODE_DISCOVERED (''Node '' @ quoted (dn_node_name n) @ '' discovered.'') at (dn_node_id n))"

definition on_node_updated :: "time \<Rightarrow> disc_node \<Rightarrow> state_store \<Rightarrow> state_store" where
  "on_node_updated at n = record_activity
     (node_activity ACT_NODE_UPDATED (''Node '' @ quoted (dn_node_name n) @ '' updated.'') at (dn_node_id n))"

definition on_node_stale :: "time \<Rightarrow> string \<Rightarrow> string \<Rightarrow> state_store \<Rightarrow> state_store" where
  "on_node_stale at i name = record_activity
     (node_activity ACT_NODE_STALE (''Node '' @ quoted name @ '' went stale.'') at i)"

definition on_node_lost :: "time \<Rightarrow> string \<Rightarrow> string \<Rightarrow> state_store \<Rightarrow> state_store" where
  "on_node_lost at i name = record_activity
     (node_activity ACT_NODE_LOST (''Node '' @ quoted name @ '' lost.'') at i)"

definition get_state :: "time \<Rightarrow> state_store \<Rightarrow> ecosystem_state" where
  "get_state now s = \<lparr>eco_version = ss_version s, eco_captured_at = now,
     eco_discovery = (case ss_discovery s of Some d \<Rightarrow> d
        | None \<Rightarrow> \<lparr>snap_timestamp = now, snap_local_node_id = ''unknown'', snap_nodes = []\<rparr>),
     eco_active_work = dvals (ss_active_work s), eco_recent_activity = ss_activity s\<rparr>"

definition get_context :: "time \<Rightarrow> state_store \<Rightarrow> ecosystem_context" where
  "get_context now s =
     (let st = get_state now s in
      \<lparr>ctx_state = st, ctx_local_node_id = snap_local_node_id (eco_discovery st),
       ctx_has_active_work = (running_work_count st > 0),
       ctx_stale_node_ids = map dn_node_id
         (filter (\<lambda>n. dn_state n = NODE_STALE) (dvals (snap_nodes (eco_discovery st))))\<rparr>)"

subsection \<open>context/service.py\<close>

text \<open>An event is a workflow event or a node event; a handler is one of the bound methods.\<close>

datatype context_event = Work_Event workflow_event | Node_Event ecosystem_event

datatype context_handler =
    H_Workflow_Started | H_Workflow_Completed | H_Workflow_Failed | H_Workflow_Cancelled
  | H_Step_Started | H_Node_Discovered | H_Node_Updated | H_Node_Stale | H_Node_Lost

definition sync_snapshot :: "ecosystem_registry \<Rightarrow> time \<Rightarrow> state_store \<Rightarrow> state_store" where
  "sync_snapshot r now s = update_discovery (create_snapshot r now []) s"

fun work_handler :: "workflow_event \<Rightarrow> context_handler option" where
  "work_handler (WorkflowStartedEvent _ _ _) = Some H_Workflow_Started"
| "work_handler (WorkflowCompletedEvent _ _ _) = Some H_Workflow_Completed"
| "work_handler (WorkflowFailedEvent _ _ _ _) = Some H_Workflow_Failed"
| "work_handler (WorkflowCancelledEvent _ _ _) = Some H_Workflow_Cancelled"
| "work_handler (WorkflowStepStartedEvent _ _ _ _ _) = Some H_Step_Started"
| "work_handler (WorkflowStepCompletedEvent _ _ _ _ _ _) = None"
| "work_handler (WorkflowStepFailedEvent _ _ _ _ _) = None"
| "work_handler (WorkflowStepSkippedEvent _ _ _ _ _) = None"

fun node_handler :: "ecosystem_event \<Rightarrow> context_handler" where
  "node_handler (EcosystemNodeDiscoveredEvent _) = H_Node_Discovered"
| "node_handler (EcosystemNodeUpdatedEvent _ _) = H_Node_Updated"
| "node_handler (EcosystemNodeStaleEvent _ _ _) = H_Node_Stale"
| "node_handler (EcosystemNodeLostEvent _ _ _) = H_Node_Lost"

text \<open>The handler whose parameter type is the class of the event.\<close>

fun handler_for :: "context_event \<Rightarrow> context_handler option" where
  "handler_for (Work_Event e) = work_handler e"
| "handler_for (Node_Event e) = Some (node_handler e)"

fun on_work_event :: "time \<Rightarrow> workflow_event \<Rightarrow> state_store \<Rightarrow> state_store" where
  "on_work_event at (WorkflowStartedEvent wid wname n) s = on_workflow_started at wid wname n s"
| "on_work_event at (WorkflowCompletedEvent wid wname n) s = on_workflow_completed at wid wname n s"
| "on_work_event at (WorkflowFailedEvent wid wname sid err) s = on_workflow_failed at wid wname err s"
| "on_work_event at (WorkflowCancelledEvent wid wname reason) s = on_workflow_cancelled at wid wname reason s"
| "on_work_event at (WorkflowStepStartedEvent wid wname sid cap t) s = on_step_started wid t s"
| "on_work_event at (WorkflowStepCompletedEvent _ _ _ _ _ _) s = s"
| "on_work_event at (WorkflowStepFailedEvent _ _ _ _ _) s = s"
| "on_work_event at (WorkflowStepSkippedEvent _ _ _ _ _) s = s"

fun on_node_event :: "time \<Rightarrow> ecosystem_event \<Rightarrow> state_store \<Rightarrow> state_store" where
  "on_node_event at (EcosystemNodeDiscoveredEvent n) s = on_node_discovered at n s"
| "on_node_event at (EcosystemNodeUpdatedEvent n old) s = on_node_updated at n s"
| "on_node_event at (EcosystemNodeStaleEvent i name seen) s = on_node_stale at i name s"
| "on_node_event at (EcosystemNodeLostEvent i name seen) s = on_node_lost at i name s"

definition context_on_event ::
  "ecosystem_registry \<Rightarrow> time \<Rightarrow> time \<Rightarrow> context_event \<Rightarrow> state_store \<Rightarrow> state_store" where
  "context_on_event r now at ev s =
     (case ev of Work_Event e \<Rightarrow> on_work_event at e s
      | Node_Event e \<Rightarrow> sync_snapshot r now (on_node_event at e s))"

text \<open>A bound method, called with an event of its class.\<close>

definition run_handler ::
  "ecosystem_registry \<Rightarrow> time \<Rightarrow> context_handler \<Rightarrow> context_event event \<Rightarrow> state_store \<Rightarrow> state_store" where
  "run_handler r now h ev s =
     (if handler_for (ev_body ev) = Some h then context_on_event r now (ev_timestamp ev) (ev_body ev) s else s)"

definition context_subscriptions :: "(string \<times> context_handler) list" where
  "context_subscriptions =
     [(''WorkflowStartedEvent'', H_Workflow_Started), (''WorkflowCompletedEvent'', H_Workflow_Completed),
      (''WorkflowFailedEvent'', H_Workflow_Failed), (''WorkflowCancelledEvent'', H_Workflow_Cancelled),
      (''WorkflowStepStartedEvent'', H_Step_Started),
      (''EcosystemNodeDiscoveredEvent'', H_Node_Discovered), (''EcosystemNodeUpdatedEvent'', H_Node_Updated),
      (''EcosystemNodeStaleEvent'', H_Node_Stale), (''EcosystemNodeLostEvent'', H_Node_Lost)]"

text \<open>The service: whether it is subscribed, and its store. The bus is shared with other subscribers.\<close>

record context_service =
  xs_store :: state_store
  xs_subscribed :: bool

definition start_context ::
  "ecosystem_registry \<Rightarrow> time \<Rightarrow> context_service \<Rightarrow> context_handler bus \<Rightarrow> context_service \<times> context_handler bus" where
  "start_context r now x b =
     (if xs_subscribed x then (x, b)
      else (\<lparr>xs_store = sync_snapshot r now (xs_store x), xs_subscribed = True\<rparr>,
            fold (\<lambda>(ty, h) b. subscribe b ty h) context_subscriptions b))"

definition stop_context :: "context_service \<Rightarrow> context_handler bus \<Rightarrow> context_service \<times> context_handler bus" where
  "stop_context x b =
     (if \<not> xs_subscribed x then (x, b)
      else (x\<lparr>xs_subscribed := False\<rparr>,
            fold (\<lambda>(ty, h) b. snd (unsubscribe b ty h)) context_subscriptions b))"

subsection \<open>The store as a function of the events\<close>

text \<open>A delivered event: the registry and the clock when its handler runs, its time stamp and itself.\<close>

type_synonym delivery = "ecosystem_registry \<times> time \<times> time \<times> context_event"

definition deliver_all :: "delivery list \<Rightarrow> state_store \<Rightarrow> state_store" where
  "deliver_all ds s = fold (\<lambda>(r, now, at, ev). context_on_event r now at ev) ds s"

fun work_entry :: "time \<Rightarrow> workflow_event \<Rightarrow> activity_entry option" where
  "work_entry at (WorkflowStartedEvent wid wname n) = Some (work_activity ACT_WORKFLOW_STARTED
     (''Workflow '' @ quoted wname @ '' started ('' @ nat_str n @ '' steps).'') at wid)"
| "work_entry at (WorkflowCompletedEvent wid wname n) = Some (work_activity ACT_WORKFLOW_COMPLETED
     (''Workflow '' @ quoted wname @ '' completed.'') at wid)"
| "work_entry at (WorkflowFailedEvent wid wname sid err) = Some (work_activity ACT_WORKFLOW_FAILED
     (''Workflow '' @ quoted wname @ '' failed: '' @ err) at wid)"
| "work_entry at (WorkflowCancelledEvent wid wname why) = Some (work_activity ACT_WORKFLOW_CANCELLED
     (''Workflow '' @ quoted wname @ '' cancelled: '' @ why) at wid)"
| "work_entry at _ = None"

fun node_entry :: "time \<Rightarrow> ecosystem_event \<Rightarrow> activity_entry" where
  "node_entry at (EcosystemNodeDiscoveredEvent n) = node_activity ACT_NODE_DISCOVERED
     (''Node '' @ quoted (dn_node_name n) @ '' discovered.'') at (dn_node_id n)"
| "node_entry at (EcosystemNodeUpdatedEvent n old) = node_activity ACT_NODE_UPDATED
     (''Node '' @ quoted (dn_node_name n) @ '' updated.'') at (dn_node_id n)"
| "node_entry at (EcosystemNodeStaleEvent i name seen) = node_activity ACT_NODE_STALE
     (''Node '' @ quoted name @ '' went stale.'') at i"
| "node_entry at (EcosystemNodeLostEvent i name seen) = node_activity ACT_NODE_LOST
     (''Node '' @ quoted name @ '' lost.'') at i"

definition entry_of :: "time \<Rightarrow> context_event \<Rightarrow> activity_entry option" where
  "entry_of at ev = (case ev of Work_Event e \<Rightarrow> work_entry at e | Node_Event e \<Rightarrow> Some (node_entry at e))"

text \<open>The feed of a sequence of deliveries, newest first.\<close>

definition feed :: "delivery list \<Rightarrow> activity_entry list" where
  "feed ds = rev (List.map_filter (\<lambda>(r, now, at, ev). entry_of at ev) ds)"

fun work_change :: "string \<Rightarrow> workflow_event \<Rightarrow> bool option" where
  "work_change wid (WorkflowStartedEvent i wname n) = (if i = wid then Some True else None)"
| "work_change wid (WorkflowCompletedEvent i wname n) = (if i = wid then Some False else None)"
| "work_change wid (WorkflowFailedEvent i wname sid err) = (if i = wid then Some False else None)"
| "work_change wid (WorkflowCancelledEvent i wname why) = (if i = wid then Some False else None)"
| "work_change wid _ = None"

definition change_of :: "string \<Rightarrow> context_event \<Rightarrow> bool option" where
  "change_of wid ev = (case ev of Work_Event e \<Rightarrow> work_change wid e | Node_Event _ \<Rightarrow> None)"

text \<open>Whether the last start or end of \<open>wid\<close> in the sequence is a start.\<close>

definition running_after :: "string \<Rightarrow> delivery list \<Rightarrow> bool \<Rightarrow> bool" where
  "running_after wid ds b =
     fold (\<lambda>(r, now, at, ev) b. case change_of wid ev of None \<Rightarrow> b | Some c \<Rightarrow> c) ds b"

definition items_ok :: "state_store \<Rightarrow> bool" where
  "items_ok s \<longleftrightarrow> dict_ok (ss_active_work s) \<and> length (ss_activity s) \<le> ss_max_activity s
     \<and> (\<forall>wid x. dget (ss_active_work s) wid = Some x \<longrightarrow>
          aw_workflow_id x = wid \<and> aw_status x = WORK_RUNNING \<and> aw_finished_at x = None)"

lemmas store_defs = on_workflow_started_def on_workflow_completed_def on_workflow_failed_def
  on_workflow_cancelled_def on_step_started_def on_node_discovered_def on_node_updated_def
  on_node_stale_def on_node_lost_def record_activity_def sync_snapshot_def update_discovery_def
  appendleft_def Let_def

lemma on_work_event_activity:
  "ss_max_activity (on_work_event at e s) = ss_max_activity s"
  "length (ss_activity s) \<le> ss_max_activity s \<Longrightarrow> ss_activity (on_work_event at e s) =
     take (ss_max_activity s) ((case work_entry at e of None \<Rightarrow> [] | Some a \<Rightarrow> [a]) @ ss_activity s)"
  by (cases e; simp add: store_defs split: option.split)+

lemma on_node_event_activity:
  "ss_max_activity (on_node_event at e s) = ss_max_activity s"
  "ss_activity (on_node_event at e s) = take (ss_max_activity s) (node_entry at e # ss_activity s)"
  "ss_active_work (on_node_event at e s) = ss_active_work s"
  by (cases e; simp add: store_defs)+

lemma on_work_event_running:
  "dmem wid (ss_active_work (on_work_event at e s)) =
     (case work_change wid e of None \<Rightarrow> dmem wid (ss_active_work s) | Some c \<Rightarrow> c)"
  by (cases e) (auto simp: store_defs dmem_def split: option.split)

lemma on_work_event_ok: "items_ok s \<Longrightarrow> items_ok (on_work_event at e s)"
  by (cases e) (auto simp: items_ok_def store_defs split: option.split)

lemma context_on_event_step:
  assumes "items_ok s"
  shows "items_ok (context_on_event r now at ev s)
    \<and> ss_max_activity (context_on_event r now at ev s) = ss_max_activity s
    \<and> ss_activity (context_on_event r now at ev s) = take (ss_max_activity s)
        ((case entry_of at ev of None \<Rightarrow> [] | Some a \<Rightarrow> [a]) @ ss_activity s)
    \<and> dmem wid (ss_active_work (context_on_event r now at ev s)) =
        (case change_of wid ev of None \<Rightarrow> dmem wid (ss_active_work s) | Some c \<Rightarrow> c)"
proof (cases ev)
  case (Work_Event e)
  with assms on_work_event_ok [OF assms, of at e] show ?thesis
    by (simp add: context_on_event_def entry_of_def change_of_def on_work_event_activity
        on_work_event_running items_ok_def)
next
  case (Node_Event e)
  with assms show ?thesis
    by (simp add: context_on_event_def entry_of_def change_of_def on_node_event_activity
        sync_snapshot_def update_discovery_def items_ok_def)
qed

lemma deliver_all_replay:
  "items_ok s \<Longrightarrow> items_ok (deliver_all ds s)
    \<and> ss_max_activity (deliver_all ds s) = ss_max_activity s
    \<and> ss_activity (deliver_all ds s) = take (ss_max_activity s) (feed ds @ ss_activity s)
    \<and> dmem wid (ss_active_work (deliver_all ds s)) = running_after wid ds (dmem wid (ss_active_work s))"
proof (induction ds arbitrary: s)
  case Nil
  then show ?case by (simp add: deliver_all_def feed_def running_after_def items_ok_def map_filter_simps)
next
  case (Cons d ds)
  obtain r now at ev where d: "d = (r, now, at, ev)" by (cases d)
  let ?s = "context_on_event r now at ev s"
  note st = context_on_event_step [OF Cons.prems, of r now at ev wid]
  then have IH: "items_ok (deliver_all ds ?s)" "ss_max_activity (deliver_all ds ?s) = ss_max_activity s"
    "ss_activity (deliver_all ds ?s) = take (ss_max_activity s) (feed ds @ ss_activity ?s)"
    "dmem wid (ss_active_work (deliver_all ds ?s)) = running_after wid ds (dmem wid (ss_active_work ?s))"
    using Cons.IH [of ?s] by auto
  have "deliver_all (d # ds) s = deliver_all ds ?s" by (simp add: deliver_all_def d)
  moreover have "feed (d # ds) = feed ds @ (case entry_of at ev of None \<Rightarrow> [] | Some a \<Rightarrow> [a])"
    by (simp add: feed_def d map_filter_simps split: option.split)
  moreover have "running_after wid (d # ds) b = running_after wid ds (case change_of wid ev of None \<Rightarrow> b | Some c \<Rightarrow> c)" for b
    by (simp add: running_after_def d)
  ultimately show ?case using st IH by (simp add: min_def)
qed

text \<open>
  C30. The context store is a function of the events delivered to it: the feed holds the newest
  \<open>max_activity\<close> entries, newest first, whatever the number of events; a workflow is
  active exactly when its last start or end event is a start; and what is shown as active is running,
  under its own id, with no finishing time. Nodes neither start nor end work.
\<close>

theorem context_replays_events:
  assumes new: "new_state_store m = Inr s0"
  shows "ss_activity (deliver_all ds s0) = take (nat m) (feed ds)
    \<and> (\<forall>wid. dmem wid (ss_active_work (deliver_all ds s0)) = running_after wid ds False)
    \<and> (let st = get_state now (deliver_all ds s0) in
         length (eco_recent_activity st) \<le> nat m \<and> distinct (map aw_workflow_id (eco_active_work st))
         \<and> list_all (\<lambda>x. aw_status x = WORK_RUNNING \<and> aw_finished_at x = None
              \<and> running_after (aw_workflow_id x) ds False) (eco_active_work st))"
proof -
  let ?s = "deliver_all ds s0"
  have s0: "items_ok s0" "ss_max_activity s0 = nat m" "ss_activity s0 = []" "ss_active_work s0 = []"
    using new by (auto simp: new_state_store_def items_ok_def split: if_splits)
  note replay = deliver_all_replay [OF s0(1), of ds]
  have ok: "items_ok ?s" and run: "dmem wid (ss_active_work ?s) = running_after wid ds False" for wid
    using replay [of wid] s0(4) by (simp_all add: dmem_def)
  have act: "ss_activity ?s = take (nat m) (feed ds)" using replay s0 by simp
  have keyed: "aw_workflow_id x = k \<and> aw_status x = WORK_RUNNING \<and> aw_finished_at x = None"
    if "(k, x) \<in> set (ss_active_work ?s)" for k x
    using ok that by (auto simp: items_ok_def dict_ok_mem [symmetric])
  have ids: "map aw_workflow_id (dvals (ss_active_work ?s)) = map fst (ss_active_work ?s)"
    using keyed by (auto intro!: map_cong)
  have "list_all (\<lambda>x. aw_status x = WORK_RUNNING \<and> aw_finished_at x = None
      \<and> running_after (aw_workflow_id x) ds False) (dvals (ss_active_work ?s))"
    using keyed run by (fastforce simp: list_all_iff dmem_keys image_iff)
  moreover have "distinct (map aw_workflow_id (dvals (ss_active_work ?s)))"
    using ok unfolding ids by (simp add: items_ok_def dict_ok_def)
  ultimately show ?thesis using act run by (simp add: get_state_def Let_def)
qed

definition sample_deliveries :: "delivery list" where
  "sample_deliveries = map (\<lambda>e. (new_ecosystem_registry True, 1, 1, Work_Event e))
     [WorkflowStartedEvent ''a'' ''A'' 2, WorkflowStartedEvent ''b'' ''B'' 1, WorkflowFailedEvent ''a'' ''A'' ''s'' ''no'']"

theorem context_replays_events_witness:
  "\<exists>s0. new_state_store 2 = Inr s0
     \<and> map ac_kind (ss_activity (deliver_all sample_deliveries s0)) = [ACT_WORKFLOW_FAILED, ACT_WORKFLOW_STARTED]
     \<and> \<not> dmem ''a'' (ss_active_work (deliver_all sample_deliveries s0))
     \<and> dmem ''b'' (ss_active_work (deliver_all sample_deliveries s0))"
proof -
  obtain s0 where s0: "new_state_store 2 = Inr s0" by (simp add: new_state_store_def)
  have "map ac_kind (take (nat 2) (feed sample_deliveries)) = [ACT_WORKFLOW_FAILED, ACT_WORKFLOW_STARTED]"
    by (simp add: feed_def sample_deliveries_def entry_of_def work_activity_def map_filter_simps numeral_2_eq_2)
  moreover have "\<not> running_after ''a'' sample_deliveries False" "running_after ''b'' sample_deliveries False"
    by (simp_all add: running_after_def sample_deliveries_def change_of_def)
  ultimately show ?thesis using context_replays_events [OF s0, of sample_deliveries] s0 by auto
qed

subsection \<open>Runs of workflows in the context\<close>

text \<open>The targets of active work, which only a step event that names one changes.\<close>

definition untargeted :: "state_store \<Rightarrow> bool" where
  "untargeted s \<longleftrightarrow> (\<forall>wid x. dget (ss_active_work s) wid = Some x \<longrightarrow>
     aw_target_node_id x = None \<and> aw_target_provider_id x = None)"

fun names_target :: "workflow_event \<Rightarrow> bool" where
  "names_target (WorkflowStepStartedEvent wid wname sid cap t) = (t \<noteq> None)"
| "names_target _ = False"

lemma on_work_event_untargeted:
  "untargeted s \<Longrightarrow> \<not> names_target e \<Longrightarrow> untargeted (on_work_event at e s)"
  by (cases e) (auto simp: untargeted_def store_defs split: option.split)

lemma deliver_all_untargeted:
  "untargeted s \<Longrightarrow> list_all (\<lambda>(r, now, at, ev). case ev of Work_Event e \<Rightarrow> \<not> names_target e | _ \<Rightarrow> True) ds \<Longrightarrow>
     untargeted (deliver_all ds s)"
proof (induction ds arbitrary: s)
  case Nil
  then show ?case by (simp add: deliver_all_def)
next
  case (Cons d ds)
  obtain r now at ev where d: "d = (r, now, at, ev)" by (cases d)
  have "untargeted (context_on_event r now at ev s)"
    using Cons.prems on_work_event_untargeted [of s]
    by (cases ev) (auto simp: d context_on_event_def sync_snapshot_def update_discovery_def untargeted_def
        on_node_event_activity)
  with Cons show ?case by (simp add: deliver_all_def d)
qed

lemma events_of_untargeted: "list_all (\<lambda>e. \<not> names_target e) (events_of wid wname r)"
  by (simp add: events_of_def step_events_def split: step_state.split)

lemma events_of_change:
  "e \<in> set (events_of wid wname r) \<Longrightarrow> work_change i e \<in> {None, Some False}"
  by (auto simp: events_of_def step_events_def split: step_state.splits if_splits)

lemma events_of_failed:
  "sr_state r = STEP_FAILED \<Longrightarrow> \<exists>e \<in> set (events_of wid wname r). work_change wid e = Some False"
  by (simp add: events_of_def step_events_def)

lemma events_of_others: "i \<noteq> wid \<Longrightarrow> e \<in> set (events_of wid wname r) \<Longrightarrow> work_change i e = None"
  by (auto simp: events_of_def step_events_def split: step_state.splits if_splits)

text \<open>The log of a run: perhaps a start, then only ends of this workflow, at least one, and no targets.\<close>

lemma run_log_ends:
  assumes log: "run_log token w r evs" and fin: "wr_state r = final_state (map sr_state (wr_step_results r))"
  shows "\<exists>pre post. evs = pre @ post \<and> list_all (\<lambda>e. \<not> names_target e) evs
    \<and> (\<forall>e \<in> set post. work_change (wf_workflow_id w) e \<in> {None, Some False})
    \<and> (\<exists>e \<in> set post. work_change (wf_workflow_id w) e = Some False)
    \<and> (\<forall>i e. i \<noteq> wf_workflow_id w \<longrightarrow> e \<in> set evs \<longrightarrow> work_change i e = None)"
proof (cases "wf_steps w \<noteq> [] \<and> ct_cancelled token")
  case True
  with log show ?thesis by (intro exI [of _ "[]"] exI [of _ evs]) (auto simp: run_log_def)
next
  case False
  let ?mid = "concat (map (events_of (wf_workflow_id w) (wf_name w)) (wr_step_results r))"
  from log False obtain last_part where
    evs: "evs = WorkflowStartedEvent (wf_workflow_id w) (wf_name w) (length (wf_steps w)) # ?mid @ last_part"
    and e: "wr_state r = WF_COMPLETED \<Longrightarrow> last_part = [WorkflowCompletedEvent (wf_workflow_id w) (wf_name w) (length (wf_steps w))]"
      "wr_state r = WF_FAILED \<Longrightarrow> last_part = []"
      "wr_state r = WF_CANCELLED \<Longrightarrow> \<exists>why. last_part = [WorkflowCancelledEvent (wf_workflow_id w) (wf_name w) why]"
    by (auto simp: run_log_def)
  have mid: "work_change (wf_workflow_id w) e \<in> {None, Some False} \<and> \<not> names_target e
      \<and> (i \<noteq> wf_workflow_id w \<longrightarrow> work_change i e = None)" if "e \<in> set ?mid" for e i
  proof -
    from that obtain x where x: "e \<in> set (events_of (wf_workflow_id w) (wf_name w) x)" by auto
    then have "\<not> names_target e" using events_of_untargeted by (simp add: list_all_iff)
    with events_of_change [OF x] events_of_others [OF _ x] show ?thesis by simp
  qed
  have "\<exists>e \<in> set ?mid. work_change (wf_workflow_id w) e = Some False" if "wr_state r = WF_FAILED"
  proof -
    have "STEP_FAILED \<in> sr_state ` set (wr_step_results r)"
      using that fin by (simp add: final_state_def split: if_splits)
    then obtain x where x: "x \<in> set (wr_step_results r)" "sr_state x = STEP_FAILED" by auto
    from events_of_failed [OF x(2)] obtain e where
      ev: "e \<in> set (events_of (wf_workflow_id w) (wf_name w) x)" "work_change (wf_workflow_id w) e = Some False" by blast
    have "e \<in> set ?mid" using x(1) ev(1) by auto
    with ev(2) show ?thesis by (intro bexI)
  qed
  moreover have "wr_state r = WF_COMPLETED \<or> wr_state r = WF_FAILED \<or> wr_state r = WF_CANCELLED"
    using fin by (simp add: final_state_def split: if_splits)
  ultimately consider (failed) "last_part = []" "\<exists>e \<in> set ?mid. work_change (wf_workflow_id w) e = Some False"
    | (ended) x where "last_part = [x]" "work_change (wf_workflow_id w) x = Some False"
        "\<not> names_target x" "\<forall>i. i \<noteq> wf_workflow_id w \<longrightarrow> work_change i x = None"
    using e by auto
  then have part: "(\<forall>x \<in> set (?mid @ last_part). work_change (wf_workflow_id w) x \<in> {None, Some False}
        \<and> \<not> names_target x \<and> (\<forall>i. i \<noteq> wf_workflow_id w \<longrightarrow> work_change i x = None))
      \<and> (\<exists>x \<in> set (?mid @ last_part). work_change (wf_workflow_id w) x = Some False)"
  proof cases
    case failed
    then show ?thesis using mid by simp
  next
    case ended
    have "\<forall>x \<in> set (?mid @ last_part). x \<in> set ?mid \<or> x = x1" if "last_part = [x1]" for x1
      using that by auto
    with ended mid show ?thesis by (metis Un_iff insertI1 insert_iff list.set(2) set_append)
  qed
  let ?start = "WorkflowStartedEvent (wf_workflow_id w) (wf_name w) (length (wf_steps w))"
  define part where "part = ?mid @ last_part"
  note part = part [folded part_def]
  have start: "\<not> names_target ?start" "i \<noteq> wf_workflow_id w \<Longrightarrow> work_change i ?start = None" for i by simp_all
  have "evs = [?start] @ part" by (simp add: evs part_def)
  with part start show ?thesis
    by (intro exI [of _ "[?start]"] exI [of _ part]) (auto simp: list_all_iff)
qed

lemma running_after_append: "running_after wid (xs @ ys) b = running_after wid ys (running_after wid xs b)"
  by (simp add: running_after_def)

lemma running_after_none:
  "\<forall>(r, now, at, ev) \<in> set ds. change_of wid ev = None \<Longrightarrow> running_after wid ds b = b"
  by (induction ds arbitrary: b) (auto simp: running_after_def)

lemma running_after_ended:
  "\<forall>(r, now, at, ev) \<in> set ds. change_of wid ev \<in> {None, Some False} \<Longrightarrow>
     \<not> b \<or> (\<exists>(r, now, at, ev) \<in> set ds. change_of wid ev = Some False) \<Longrightarrow> \<not> running_after wid ds b"
proof (induction ds arbitrary: b)
  case Nil
  then show ?case by (simp add: running_after_def)
next
  case (Cons d ds)
  obtain r now at ev where d: "d = (r, now, at, ev)" by (cases d)
  let ?b = "case change_of wid ev of None \<Rightarrow> b | Some c \<Rightarrow> c"
  have "\<not> ?b \<or> (\<exists>(r, now, at, ev) \<in> set ds. change_of wid ev = Some False)"
    using Cons.prems by (auto simp: d split: option.split)
  with Cons have "\<not> running_after wid ds ?b" by simp
  then show ?case by (simp add: running_after_def d)
qed

lemma delivered_mem:
  assumes "map (\<lambda>(r, now, at, ev). ev) ds = map Work_Event es" and "(r, now, at, ev) \<in> set ds"
  shows "\<exists>e \<in> set es. ev = Work_Event e"
proof -
  have "ev \<in> set (map (\<lambda>(r, now, at, ev). ev) ds)" using assms(2) by (force simp: image_iff)
  then show ?thesis unfolding assms(1) by auto
qed

text \<open>
  C31. What a run of a workflow leaves in the context, whatever its outcome and whenever its
  events are delivered: the workflow is not active afterwards and no other workflow's entry is
  started or ended. While it runs its target is never shown, since no event of the engine names one.
\<close>

theorem finished_run_leaves_context:
  assumes ok: "workflow_ok w" and bus: "we_bus eng"
    and run: "run_workflow eng w (world, []) = (Inr r, (w', evs))"
    and s: "items_ok s" "untargeted s" and ds: "map (\<lambda>(r, now, at, ev). ev) ds = map Work_Event evs"
  shows "\<not> dmem (wf_workflow_id w) (ss_active_work (deliver_all ds s))
    \<and> (\<forall>i. i \<noteq> wf_workflow_id w \<longrightarrow>
          dmem i (ss_active_work (deliver_all ds s)) = dmem i (ss_active_work s))
    \<and> (\<forall>k. untargeted (deliver_all (take k ds) s))"
proof -
  let ?wid = "wf_workflow_id w"
  have "list_all step_ok (wf_steps w)" using ok by (simp add: workflow_ok_def)
  from run_workflow_outcome [OF this, of eng "(world, [])"] run bus
  have log: "run_log (we_token eng world) w r evs" "wr_state r = final_state (map sr_state (wr_step_results r))"
    by (auto simp: run_outcome_def emitted_def)
  from run_log_ends [OF log] obtain pre post where evs: "evs = pre @ post"
    and quiet: "list_all (\<lambda>e. \<not> names_target e) evs"
    and post: "\<forall>e \<in> set post. work_change ?wid e \<in> {None, Some False}"
      "\<exists>e \<in> set post. work_change ?wid e = Some False"
    and other: "\<And>i e. i \<noteq> ?wid \<Longrightarrow> e \<in> set evs \<Longrightarrow> work_change i e = None" by blast
  from ds obtain ds1 ds2 where split: "ds = ds1 @ ds2" "map (\<lambda>(r, now, at, ev). ev) ds2 = map Work_Event post"
    unfolding evs by (auto simp: map_eq_append_conv)
  have ev2: "\<exists>e \<in> set post. ev = Work_Event e" if "(r, now, at, ev) \<in> set ds2" for r now at ev
    using delivered_mem [OF split(2) that] .
  have "\<exists>d \<in> set ds2. (case d of (r, now, at, ev) \<Rightarrow> change_of ?wid ev = Some False)"
  proof -
    from post(2) obtain e where e: "e \<in> set post" "work_change ?wid e = Some False" by blast
    then have "Work_Event e \<in> (\<lambda>(r, now, at, ev). ev) ` set ds2"
      using arg_cong [OF split(2), of set] by (simp only: set_map image_eqI)
    then obtain r now at where "(r, now, at, Work_Event e) \<in> set ds2" by auto
    with e(2) show ?thesis by (intro bexI) (auto simp: change_of_def)
  qed
  moreover have "\<forall>(r, now, at, ev) \<in> set ds2. change_of ?wid ev \<in> {None, Some False}"
    using ev2 post(1) by (fastforce simp: change_of_def)
  ultimately have "\<not> running_after ?wid ds b" for b
    unfolding split(1) running_after_append using running_after_ended by blast
  then have gone: "\<not> dmem ?wid (ss_active_work (deliver_all ds s))"
    using deliver_all_replay [OF s(1)] by simp
  have evd: "\<exists>e \<in> set evs. ev = Work_Event e" if "(r, now, at, ev) \<in> set ds" for r now at ev
    using delivered_mem [OF ds that] .
  have keep: "dmem i (ss_active_work (deliver_all ds s)) = dmem i (ss_active_work s)" if "i \<noteq> ?wid" for i
  proof -
    have "\<forall>(r, now, at, ev) \<in> set ds. change_of i ev = None"
      using evd other [OF that] by (fastforce simp: change_of_def)
    then show ?thesis using deliver_all_replay [OF s(1)] running_after_none by simp
  qed
  have "list_all (\<lambda>(r, now, at, ev). case ev of Work_Event e \<Rightarrow> \<not> names_target e | _ \<Rightarrow> True) (take k ds)" for k
    using evd quiet by (fastforce simp: list_all_iff dest: in_set_takeD)
  then have "untargeted (deliver_all (take k ds) s)" for k by (rule deliver_all_untargeted [OF s(2)])
  with gone keep show ?thesis by blast
qed

theorem finished_run_leaves_context_witness:
  "\<exists>r evs s. run_workflow (echo_engine False) two_steps ((), []) = (Inr r, ((), evs)) \<and> new_state_store 100 = Inr s
     \<and> \<not> dmem ''w1'' (ss_active_work (deliver_all (map (\<lambda>e. (new_ecosystem_registry True, 1, 1, Work_Event e)) evs) s))"
proof -
  have "list_all step_ok (wf_steps two_steps)" using two_steps_ok by (simp add: workflow_ok_def)
  from run_workflow_outcome [OF this, of "echo_engine False" "((), [])"] obtain r evs where
    run: "run_workflow (echo_engine False) two_steps ((), []) = (Inr r, ((), evs))"
    by (auto simp: run_outcome_def prod_eq_iff)
  obtain s where s: "new_state_store 100 = Inr s" "items_ok s" "untargeted s"
    by (simp add: new_state_store_def items_ok_def untargeted_def)
  have bus: "we_bus (echo_engine False)" by (simp add: echo_engine_def)
  have wid: "wf_workflow_id two_steps = ''w1''" by (simp add: two_steps_def)
  have "map (\<lambda>(r, now, at, ev). ev) (map (\<lambda>e. (new_ecosystem_registry True, 1, 1, Work_Event e)) evs)
      = map Work_Event evs" by simp
  from finished_run_leaves_context [OF two_steps_ok bus run s(2,3) this] run s(1) wid
  show ?thesis by (intro exI [of _ r] exI [of _ evs] exI [of _ s]) simp
qed

end
