(* ===== verification/Shyam_Values.thy ===== *)
theory Shyam_Values
  imports Shyam_Prelude
begin

section \<open>Equality of values and identifiers read from text\<close>

text \<open>
  What the network services use of Python: \<open>==\<close> on values read from JSON (a boolean equals its
  number, dictionaries are compared without their order), \<open>int(text, 16)\<close> and
  \<open>UUID(text)\<close> with its canonical text.
\<close>

subsection \<open>Equality\<close>

function py_eq :: "pyval \<Rightarrow> pyval \<Rightarrow> bool" where
  "py_eq (PList xs) b = (case b of PList ys \<Rightarrow>
      length xs = length ys \<and> list_all (\<lambda>(x, y). py_eq x y) (zip xs ys) | _ \<Rightarrow> False)"
| "py_eq (PDict d) b = (case b of PDict e \<Rightarrow>
      length d = length e \<and> list_all (\<lambda>(k, v). case dget e k of None \<Rightarrow> False | Some w \<Rightarrow> py_eq v w) d
    | _ \<Rightarrow> False)"
| "py_eq PNone b = (b = PNone)"
| "py_eq (PBool x) b = (case b of PBool y \<Rightarrow> x = y | PInt j \<Rightarrow> (if x then 1 else 0) = j | _ \<Rightarrow> False)"
| "py_eq (PInt i) b = (case b of PInt j \<Rightarrow> i = j | PBool y \<Rightarrow> i = (if y then 1 else 0) | _ \<Rightarrow> False)"
| "py_eq (PStr s) b = (b = PStr s)"
  by pat_completeness auto
termination
proof (relation "measure (size \<circ> fst)")
  show "wf (measure (size \<circ> (fst :: pyval \<times> pyval \<Rightarrow> pyval)))" by simp
next
  fix xs :: "pyval list" and b :: pyval and ys z x and y :: pyval
  assume z: "z \<in> set (zip xs ys)" and xy: "(x, y) = z"
  then have "x \<in> set xs" by (metis set_zip_leftD)
  then have "size x < Suc (size_list size xs)" by (simp add: size_list_estimation less_Suc_eq_le size_list_estimation')
  then show "((x, y), PList xs, b) \<in> measure (size \<circ> fst)" by simp
next
  fix d :: "(string \<times> pyval) list" and b :: pyval and e z k v and w :: pyval
  assume z: "z \<in> set d" and kv: "(k, v) = z"
  then have "(k, v) \<in> set d" by simp
  then have "size v < Suc (size_list (size_prod (\<lambda>_. 0) size) d)"
    by (intro le_imp_less_Suc size_list_estimation' [of "(k, v)"]) simp_all
  then show "((v, w), PDict d, b) \<in> measure (size \<circ> fst)" by simp
qed


text \<open>What \<open>json.loads\<close> builds has distinct keys at every level.\<close>

fun keys_ok :: "pyval \<Rightarrow> bool" where
  "keys_ok (PList xs) = list_all keys_ok xs"
| "keys_ok (PDict d) = (dict_ok d \<and> list_all (\<lambda>(k, v). keys_ok v) d)"
| "keys_ok _ = True"

lemma py_eq_refl: "keys_ok v \<Longrightarrow> py_eq v v"
proof (induction v)
  case (PList xs)
  then have "list_all (\<lambda>(x, y). py_eq x y) (zip xs xs)" by (auto simp: list_all_iff zip_same)
  then show ?case by simp
next
  case (PDict d)
  have "case dget d k of None \<Rightarrow> False | Some w \<Rightarrow> py_eq v w" if m: "(k, v) \<in> set d" for k v
  proof -
    from PDict.prems m have get: "dget d k = Some v" and ok: "keys_ok v"
      by (auto simp: dict_ok_mem list_all_iff)
    from PDict.IH [OF m, of v] ok have "py_eq v v" by simp
    with get show ?thesis by simp
  qed
  then show ?case by (auto simp: list_all_iff)
qed simp_all

subsection \<open>int(text, 16)\<close>

definition hex_val :: "char \<Rightarrow> int option" where
  "hex_val c = (let n = int (char_code c) in
     if 48 \<le> n \<and> n \<le> 57 then Some (n - 48)
     else if 97 \<le> n \<and> n \<le> 102 then Some (n - 87)
     else if 65 \<le> n \<and> n \<le> 70 then Some (n - 55) else None)"

fun hex_value :: "int \<Rightarrow> string \<Rightarrow> int option" where
  "hex_value acc [] = Some acc"
| "hex_value acc (c # cs) = (case hex_val c of None \<Rightarrow> None | Some d \<Rightarrow> hex_value (16 * acc + d) cs)"

text \<open>Underscores stand between digits only, and one may follow the prefix.\<close>

definition hex_digits :: "string \<Rightarrow> int option" where
  "hex_digits s = (let parts = split_on (CHR ''_'') s in
     if list_all (\<lambda>p. p \<noteq> []) parts then hex_value 0 (concat parts) else None)"

definition hex_unsigned :: "string \<Rightarrow> int option" where
  "hex_unsigned s =
     (if starts_with ''0x'' s \<or> starts_with ''0X'' s
      then hex_digits (if starts_with ''_'' (drop 2 s) then drop 3 s else drop 2 s)
      else hex_digits s)"

definition int_base16 :: "string \<Rightarrow> int option" where
  "int_base16 text = (let s = strip text in
     if starts_with ''-'' s then map_option uminus (hex_unsigned (drop 1 s))
     else if starts_with ''+'' s then hex_unsigned (drop 1 s)
     else hex_unsigned s)"

subsection \<open>UUID(text)\<close>

text \<open>\<open>s.replace(p, "")\<close> for a non-empty \<open>p\<close>, and \<open>s.strip(chars)\<close>.\<close>

function remove_sub :: "string \<Rightarrow> string \<Rightarrow> string" where
  "remove_sub p [] = []"
| "remove_sub p (c # cs) =
     (if p \<noteq> [] \<and> starts_with p (c # cs) then remove_sub p (drop (length p) (c # cs))
      else c # remove_sub p cs)"
  by pat_completeness auto
termination by (relation "measure (length \<circ> snd)") (auto simp: neq_Nil_conv)

definition strip_chars :: "char set \<Rightarrow> string \<Rightarrow> string" where
  "strip_chars cs s = rev (dropWhile (\<lambda>c. c \<in> cs) (rev (dropWhile (\<lambda>c. c \<in> cs) s)))"

definition hex_char :: "int \<Rightarrow> char" where
  "hex_char d = (if d < 10 then char_of (48 + nat d) else char_of (87 + nat d))"

fun hex_text :: "nat \<Rightarrow> int \<Rightarrow> string" where
  "hex_text 0 v = []"
| "hex_text (Suc n) v = hex_text n (v div 16) @ [hex_char (v mod 16)]"

definition uuid_str :: "int \<Rightarrow> string" where
  "uuid_str v = (let h = hex_text 32 v in
     take 8 h @ ''-'' @ take 4 (drop 8 h) @ ''-'' @ take 4 (drop 12 h) @ ''-'' @ take 4 (drop 16 h)
     @ ''-'' @ drop 20 h)"

text \<open>The value of a UUID; None is the \<open>ValueError\<close> for a badly formed text.\<close>

definition uuid_value :: "string \<Rightarrow> int option" where
  "uuid_value text =
     (let h = filter (\<lambda>c. c \<noteq> CHR ''-'') (strip_chars {CHR ''{'', CHR ''}''}
                (remove_sub ''uuid:'' (remove_sub ''urn:'' text))) in
      if length h \<noteq> 32 then None
      else (case int_base16 h of None \<Rightarrow> None
            | Some i \<Rightarrow> if 0 \<le> i \<and> i < 2 ^ 128 then Some i else None))"

text \<open>\<open>str(UUID(text))\<close>.\<close>

definition uuid_of :: "string \<Rightarrow> string option" where
  "uuid_of text = map_option uuid_str (uuid_value text)"

lemma uuid_examples:
  "uuid_of ''{6BA7B810-9dad-11d1-80b4-00c04fd430c8}'' = Some ''6ba7b810-9dad-11d1-80b4-00c04fd430c8''"
  "uuid_of ''not-a-uuid'' = None"
  by code_simp+

subsection \<open>The canonical text is read back\<close>

lemma hex_char_cases:
  assumes "0 \<le> d" "d < 16"
  shows "hex_val (hex_char d) = Some d \<and> (is_digit (hex_char d) \<or> char_code (hex_char d) \<in> {97..102})"
proof -
  have "d \<in> {0, 1, 2, 3, 4, 5, 6, 7, 8, 9, 10, 11, 12, 13, 14, 15}" using assms by (simp, arith)
  then show ?thesis by (elim insertE) (auto simp: hex_char_def hex_val_def char_code_def is_digit_def)
qed

definition hexy :: "char \<Rightarrow> bool" where
  "hexy c \<longleftrightarrow> is_digit c \<or> char_code c \<in> {97..102}"

lemma hexy_not:
  "hexy c \<Longrightarrow> c \<noteq> CHR ''-'' \<and> c \<noteq> CHR ''{'' \<and> c \<noteq> CHR ''}'' \<and> c \<noteq> CHR ''_'' \<and> c \<noteq> CHR ''x'' \<and> c \<noteq> CHR ''X''
     \<and> c \<noteq> CHR ''u'' \<and> c \<noteq> CHR ''+'' \<and> \<not> is_space c"
  by (auto simp: hexy_def is_digit_def is_space_def char_code_def)

lemma hex_text_hexy: "list_all hexy (hex_text n v)"
  using hex_char_cases by (induction n arbitrary: v) (simp_all add: hexy_def)

lemma length_hex_text [simp]: "length (hex_text n v) = n"
  by (induction n arbitrary: v) simp_all

lemma hex_value_append:
  "hex_value acc (xs @ ys) = (case hex_value acc xs of None \<Rightarrow> None | Some a \<Rightarrow> hex_value a ys)"
  by (induction xs arbitrary: acc) (simp_all split: option.split)

lemma hex_value_text: "0 \<le> v \<Longrightarrow> v < 16 ^ n \<Longrightarrow> hex_value acc (hex_text n v) = Some (acc * 16 ^ n + v)"
proof (induction n arbitrary: v)
  case 0
  then show ?case by simp
next
  case (Suc n)
  then have "v div 16 < 16 ^ n" by simp
  with Suc have IH: "hex_value acc (hex_text n (v div 16)) = Some (acc * 16 ^ n + v div 16)" by simp
  have "hex_val (hex_char (v mod 16)) = Some (v mod 16)" using hex_char_cases [of "v mod 16"] by simp
  then show ?case using IH by (simp add: hex_value_append algebra_simps)
qed

lemma split_on_absent: "c \<notin> set s \<Longrightarrow> split_on c s = [s]"
  by (induction s) auto

lemma dropWhile_absent: "\<forall>c \<in> set s. \<not> P c \<Longrightarrow> dropWhile P s = s"
  by (cases s) simp_all

lemma starts_with_mem: "starts_with p s \<Longrightarrow> set p \<subseteq> set s"
  by (metis set_take_subset starts_with_def)

lemma remove_sub_absent: "x \<in> set p \<Longrightarrow> x \<notin> set s \<Longrightarrow> remove_sub p s = s"
  using starts_with_mem by (induction s) fastforce+

lemma int_base16_hexy:
  assumes "list_all hexy s" and "s \<noteq> []"
  shows "int_base16 s = hex_value 0 s"
proof -
  have not: "CHR ''-'' \<notin> set s" "CHR ''+'' \<notin> set s" "CHR ''_'' \<notin> set s" "CHR ''x'' \<notin> set s" "CHR ''X'' \<notin> set s"
    "\<forall>c \<in> set s. \<not> is_space c"
    using assms(1) hexy_not by (auto simp: list_all_iff)
  have "strip s = s" using not(6) by (simp add: strip_def dropWhile_absent)
  moreover have "\<not> starts_with ''-'' s" "\<not> starts_with ''+'' s" "\<not> starts_with ''0x'' s" "\<not> starts_with ''0X'' s"
    using not starts_with_mem by fastforce+
  moreover have "split_on (CHR ''_'') s = [s]" using not(3) by (rule split_on_absent)
  ultimately show ?thesis
    using assms(2) by (simp add: int_base16_def hex_unsigned_def hex_digits_def Let_def)
qed

lemma uuid_canonical:
  assumes "0 \<le> v" and "v < 2 ^ 128"
  shows "uuid_of (uuid_str v) = Some (uuid_str v)"
proof -
  let ?h = "hex_text 32 v"
  have h: "\<forall>c \<in> set ?h. hexy c" using hex_text_hexy by (simp add: list_all_iff)
  have parts: "set (uuid_str v) \<subseteq> insert (CHR ''-'') (set ?h)"
    unfolding uuid_str_def Let_def using set_take_subset set_drop_subset by (fastforce dest: in_set_takeD in_set_dropD)
  then have not: "CHR ''u'' \<notin> set (uuid_str v)" "CHR ''{'' \<notin> set (uuid_str v)" "CHR ''}'' \<notin> set (uuid_str v)"
    using h hexy_not by fastforce+
  have keep: "filter (\<lambda>c. c \<noteq> CHR ''-'') xs = xs" if "set xs \<subseteq> set ?h" for xs
    using that h hexy_not by (auto simp: filter_id_conv)
  have "filter (\<lambda>c. c \<noteq> CHR ''-'') (uuid_str v)
      = take 8 ?h @ take 4 (drop 8 ?h) @ take 4 (drop 12 ?h) @ take 4 (drop 16 ?h) @ drop 20 ?h"
    unfolding uuid_str_def Let_def
    by (simp add: keep set_take_subset set_drop_subset subset_trans [OF set_take_subset set_drop_subset])
  also have "\<dots> = ?h"
    by (rule nth_equalityI) (auto simp: nth_append nth_take nth_drop)
  finally have strip: "filter (\<lambda>c. c \<noteq> CHR ''-'') (uuid_str v) = ?h" .
  have "remove_sub ''uuid:'' (remove_sub ''urn:'' (uuid_str v)) = uuid_str v"
    using not(1) by (simp add: remove_sub_absent [of "CHR ''u''"])
  moreover have "strip_chars {CHR ''{'', CHR ''}''} (uuid_str v) = uuid_str v"
  proof -
    have "\<forall>c \<in> set (uuid_str v). \<not> c \<in> {CHR ''{'', CHR ''}''}" using not(2,3) by auto
    then show ?thesis unfolding strip_chars_def by (simp only: dropWhile_absent set_rev rev_rev_ident)
  qed
  moreover have "hex_text 32 v \<noteq> []" by (metis length_0_conv length_hex_text zero_neq_numeral)
  ultimately have "uuid_value (uuid_str v) = Some v"
    using assms hex_value_text [of v 32 0] int_base16_hexy [OF hex_text_hexy, of 32 v]
    by (simp add: uuid_value_def Let_def strip)
  then show ?thesis by (simp add: uuid_of_def)
qed

lemma uuid_value_range: "uuid_value text = Some v \<Longrightarrow> 0 \<le> v \<and> v < 2 ^ 128"
  by (simp add: uuid_value_def Let_def split: if_splits option.splits)

lemma uuid_of_canonical: "uuid_of text = Some u \<Longrightarrow> uuid_of u = Some u"
  using uuid_canonical uuid_value_range unfolding uuid_of_def by blast

end
