(* ===== verification/Shyam_Discovery.thy ===== *)
theory Shyam_Discovery
  imports Shyam_Ecosystem Shyam_Identity Shyam_Values
begin

section \<open>UDP discovery of peers\<close>

text \<open>
  \<open>discovery/service.py\<close>. A datagram is what decoding and \<open>json.loads\<close> make of its bytes. An accepted
  announcement starts a task that nothing keeps: it is pending until the event loop runs it, also
  after the service has been stopped. A peer in the table holds the values of the last announcement as they
  came, since only the first announcement is validated. The relation \<open>discovery_step\<close> interleaves datagrams,
  tasks, reaping, start and stop. The event loop's clock does not go back.
\<close>

subsection \<open>Datagrams\<close>

datatype datagram = Not_Utf8 | Not_Json | Json_Payload pyval

record announcement =
  an_node_id :: string
  an_node_name :: pyval
  an_address :: string
  an_port :: pyval
  an_protocol_version :: pyval
  an_metadata :: pyval

text \<open>
  \<open>handle_datagram\<close> up to the creation of the task: an exception that leaves it, nothing, or the
  announcement. \<open>UUID(x)\<close> of a value that is no text calls a method the value has not.
\<close>

definition parse_datagram ::
  "node_identity option \<Rightarrow> string \<Rightarrow> datagram \<Rightarrow> announcement option result" where
  "parse_datagram local remote_ip d =
     (case d of
        Json_Payload (PDict m) \<Rightarrow>
          (let i = dget_or m ''node_id'' PNone; name = dget_or m ''node_name'' PNone; port = dget_or m ''port'' PNone in
           if \<not> truthy i \<or> \<not> truthy name \<or> port = PNone then Inr None
           else (case i of
               PStr s \<Rightarrow>
                 (case uuid_of s of
                    None \<Rightarrow> Inr None
                  | Some u \<Rightarrow>
                      if (case local of None \<Rightarrow> False | Some me \<Rightarrow> ni_node_id me = u) then Inr None
                      else Inr (Some \<lparr>an_node_id = u, an_node_name = name, an_address = remote_ip, an_port = port,
                             an_protocol_version = dget_or m ''protocol_version'' (PStr ''0.2.0''),
                             an_metadata = dget_or m ''metadata'' (PDict [])\<rparr>))
             | _ \<Rightarrow> Inl (Exn (Builtin AttributeError) ''object has no attribute replace'')))
      | Json_Payload _ \<Rightarrow> Inl (Exn (Builtin AttributeError) ''object has no attribute get'')
      | _ \<Rightarrow> Inr None)"

subsection \<open>Peers\<close>

text \<open>
  A peer of the table, and the \<open>Peer\<close> that can be ingested: its name, version and metadata have
  their declared types. Its port is passed on as it is.
\<close>

record live_peer =
  lp_node_id :: string
  lp_node_name :: pyval
  lp_address :: string
  lp_port :: pyval
  lp_protocol_version :: pyval
  lp_discovered_at :: time
  lp_last_seen :: time
  lp_metadata :: pyval

definition typed_peer :: "live_peer \<Rightarrow> peer option" where
  "typed_peer l =
     (case (lp_node_name l, lp_protocol_version l, lp_metadata l) of
        (PStr n, PStr v, PDict m) \<Rightarrow>
          Some \<lparr>peer_node_id = lp_node_id l, peer_node_name = n, peer_address = lp_address l, peer_port = lp_port l,
                peer_protocol_version = v, peer_discovered_at = lp_discovered_at l,
                peer_last_seen = lp_last_seen l, peer_metadata = m\<rparr>
      | _ \<Rightarrow> None)"

datatype peer_event = PeerDiscoveredEvent live_peer | PeerUpdatedEvent live_peer
  | PeerLostEvent string pyval time

record discovery_service =
  dv_port :: int
  dv_bind_host :: string
  dv_broadcast_host :: string
  dv_expiry :: int
  dv_peers :: "(string, live_peer) dict"
  dv_pending :: "announcement list"
  dv_transport :: bool
  dv_running :: bool

definition new_discovery :: "int \<Rightarrow> int \<Rightarrow> discovery_service" where
  "new_discovery port expiry =
     \<lparr>dv_port = port, dv_bind_host = ''0.0.0.0'', dv_broadcast_host = ''255.255.255.255'', dv_expiry = expiry,
      dv_peers = [], dv_pending = [], dv_transport = False, dv_running = False\<rparr>"

text \<open>\<open>can_bind\<close> is the operating system's answer to \<open>bind\<close>.\<close>

definition start_discovery ::
  "(string \<Rightarrow> bool) \<Rightarrow> discovery_service \<Rightarrow> unit result \<times> discovery_service" where
  "start_discovery can_bind s =
     (if dv_running s then (Inr (), s)
      else
        let s1 = s\<lparr>dv_running := True\<rparr> in
        if can_bind (dv_bind_host s1) then (Inr (), s1\<lparr>dv_transport := True\<rparr>)
        else
          let s2 = s1\<lparr>dv_bind_host := ''127.0.0.1'', dv_broadcast_host := ''127.0.0.1''\<rparr> in
          if can_bind ''127.0.0.1'' then (Inr (), s2\<lparr>dv_transport := True\<rparr>)
          else (Inl (Exn (Builtin OSError) ''bind''), s2))"

definition stop_discovery :: "discovery_service \<Rightarrow> discovery_service" where
  "stop_discovery s =
     (if \<not> dv_running s then s else s\<lparr>dv_running := False, dv_transport := False, dv_peers := []\<rparr>)"

definition handle_datagram ::
  "node_identity option \<Rightarrow> string \<Rightarrow> datagram \<Rightarrow> discovery_service \<Rightarrow> unit result \<times> discovery_service" where
  "handle_datagram local remote_ip d s =
     (case parse_datagram local remote_ip d of
        Inl e \<Rightarrow> (Inl e, s)
      | Inr None \<Rightarrow> (Inr (), s)
      | Inr (Some a) \<Rightarrow> (Inr (), s\<lparr>dv_pending := dv_pending s @ [a]\<rparr>))"

text \<open>\<open>Peer(...)\<close>; \<open>ints\<close> is what pydantic accepts as an \<open>int\<close>.\<close>

definition mk_live_peer ::
  "(pyval \<Rightarrow> int option) \<Rightarrow> time \<Rightarrow> announcement \<Rightarrow> live_peer result" where
  "mk_live_peer ints now a =
     (case (read_str (an_node_name a), ints (an_port a), read_str (an_protocol_version a), read_dict (an_metadata a)) of
        (Some n, Some p, Some v, Some m) \<Rightarrow>
          Inr \<lparr>lp_node_id = an_node_id a, lp_node_name = PStr n, lp_address = an_address a, lp_port = PInt p,
               lp_protocol_version = PStr v, lp_discovered_at = now, lp_last_seen = now, lp_metadata = PDict m\<rparr>
      | _ \<Rightarrow> Inl (Exn (Builtin ValidationError) ''Peer''))"

definition peer_changed :: "live_peer \<Rightarrow> announcement \<Rightarrow> bool" where
  "peer_changed p a \<longleftrightarrow>
     \<not> py_eq (lp_node_name p) (an_node_name a) \<or> lp_address p \<noteq> an_address a \<or> \<not> py_eq (lp_port p) (an_port a)
     \<or> \<not> py_eq (lp_protocol_version p) (an_protocol_version a) \<or> \<not> py_eq (lp_metadata p) (an_metadata a)"

definition refreshed_peer :: "time \<Rightarrow> announcement \<Rightarrow> live_peer \<Rightarrow> live_peer" where
  "refreshed_peer now a p = p\<lparr>lp_last_seen := now, lp_node_name := an_node_name a, lp_address := an_address a,
     lp_port := an_port a, lp_protocol_version := an_protocol_version a, lp_metadata := an_metadata a\<rparr>"

definition update_peer ::
  "(pyval \<Rightarrow> int option) \<Rightarrow> time \<Rightarrow> announcement \<Rightarrow> discovery_service
     \<Rightarrow> peer_event list result \<times> discovery_service" where
  "update_peer ints now a s =
     (case dget (dv_peers s) (an_node_id a) of
        None \<Rightarrow>
          (case mk_live_peer ints now a of
             Inl e \<Rightarrow> (Inl e, s)
           | Inr p \<Rightarrow> (Inr [PeerDiscoveredEvent p], s\<lparr>dv_peers := dset (an_node_id a) p (dv_peers s)\<rparr>))
      | Some old \<Rightarrow>
          let p = refreshed_peer now a old in
          (Inr (if peer_changed old a then [PeerUpdatedEvent p] else []),
           s\<lparr>dv_peers := dset (an_node_id a) p (dv_peers s)\<rparr>))"

text \<open>One round of \<open>_reap_loop\<close>.\<close>

definition silent :: "int \<Rightarrow> time \<Rightarrow> live_peer \<Rightarrow> bool" where
  "silent expiry now p \<longleftrightarrow> now - lp_last_seen p > expiry"

definition reap :: "time \<Rightarrow> discovery_service \<Rightarrow> peer_event list \<times> discovery_service" where
  "reap now s =
     (let gone = filter (\<lambda>(i, p). silent (dv_expiry s) now p) (dv_peers s);
          left = fold (\<lambda>(i, p) d. ddel i d) gone (dv_peers s) in
      (map (\<lambda>(i, p). PeerLostEvent (lp_node_id p) (lp_node_name p) (lp_last_seen p)) gone,
       s\<lparr>dv_peers := left\<rparr>))"

text \<open>
  One round of \<open>_announce_loop\<close>: the payload, if one is sent. What the metadata provider raises
  counts as no metadata.
\<close>

definition announce ::
  "node_identity option \<Rightarrow> (string, pyval) dict result option \<Rightarrow> discovery_service \<Rightarrow> pyval option" where
  "announce local meta s =
     (case local of
        Some me \<Rightarrow>
          if dv_running s \<and> dv_transport s
          then Some (PDict
            [(''node_id'', PStr (ni_node_id me)), (''node_name'', PStr (ni_node_name me)),
             (''port'', PInt (dv_port s)), (''protocol_version'', PStr (ni_protocol_version me)),
             (''metadata'', PDict (case meta of Some (Inr m) \<Rightarrow> m | _ \<Rightarrow> []))])
          else None
      | None \<Rightarrow> None)"

subsection \<open>What a datagram does\<close>

definition announced :: "datagram \<Rightarrow> (string, pyval) dict option" where
  "announced d = (case d of Json_Payload (PDict m) \<Rightarrow>
     if truthy (dget_or m ''node_id'' PNone) \<and> truthy (dget_or m ''node_name'' PNone) \<and> dget_or m ''port'' PNone \<noteq> PNone
     then Some m else None | _ \<Rightarrow> None)"

lemma parse_datagram_announced:
  "announced d = Some m \<Longrightarrow> parse_datagram local ip d =
     (case dget_or m ''node_id'' PNone of
        PStr s \<Rightarrow> (case uuid_of s of None \<Rightarrow> Inr None
          | Some u \<Rightarrow> if (case local of None \<Rightarrow> False | Some me \<Rightarrow> ni_node_id me = u) then Inr None
              else Inr (Some \<lparr>an_node_id = u, an_node_name = dget_or m ''node_name'' PNone, an_address = ip,
                an_port = dget_or m ''port'' PNone,
                an_protocol_version = dget_or m ''protocol_version'' (PStr ''0.2.0''),
                an_metadata = dget_or m ''metadata'' (PDict [])\<rparr>))
      | _ \<Rightarrow> Inl (Exn (Builtin AttributeError) ''object has no attribute replace''))"
  by (auto simp: announced_def parse_datagram_def Let_def split: datagram.splits pyval.splits if_splits)

lemma parse_datagram_not_announced:
  "announced d = None \<Longrightarrow> parse_datagram local ip d =
     (case d of Json_Payload v \<Rightarrow> (case v of PDict _ \<Rightarrow> Inr None
          | _ \<Rightarrow> Inl (Exn (Builtin AttributeError) ''object has no attribute get''))
      | _ \<Rightarrow> Inr None)"
  by (auto simp: announced_def parse_datagram_def Let_def split: datagram.splits pyval.splits if_splits)

lemma parse_datagram_Some:
  assumes "parse_datagram local ip d = Inr (Some a)"
  shows "uuid_of (an_node_id a) = Some (an_node_id a) \<and> map_option ni_node_id local \<noteq> Some (an_node_id a)
     \<and> an_address a = ip \<and> truthy (an_node_name a) \<and> an_port a \<noteq> PNone"
proof (cases "announced d")
  case None
  with assms show ?thesis by (auto simp: parse_datagram_not_announced split: datagram.splits pyval.splits)
next
  case (Some m)
  from assms obtain s u where s: "dget_or m ''node_id'' PNone = PStr s" "uuid_of s = Some u"
    "\<not> (case local of None \<Rightarrow> False | Some me \<Rightarrow> ni_node_id me = u)" "an_node_id a = u" "an_address a = ip"
    "an_node_name a = dget_or m ''node_name'' PNone" "an_port a = dget_or m ''port'' PNone"
    by (auto simp: parse_datagram_announced [OF Some] split: pyval.splits option.splits if_splits)
  have "truthy (dget_or m ''node_name'' PNone)" "dget_or m ''port'' PNone \<noteq> PNone"
    using Some by (auto simp: announced_def split: datagram.splits pyval.splits if_splits)
  with s uuid_of_canonical [OF s(2)] show ?thesis by (auto split: option.splits)
qed

definition announces_node :: "node_identity option \<Rightarrow> datagram \<Rightarrow> string \<Rightarrow> bool" where
  "announces_node local d u \<longleftrightarrow> (\<exists>m i. announced d = Some m \<and> dget m ''node_id'' = Some (PStr i)
     \<and> uuid_of i = Some u \<and> map_option ni_node_id local \<noteq> Some u)"

definition breaks_handler :: "datagram \<Rightarrow> bool" where
  "breaks_handler d \<longleftrightarrow> (\<exists>v. d = Json_Payload v \<and> (\<nexists>m. v = PDict m))
     \<or> (\<exists>m. announced d = Some m \<and> (\<nexists>i. dget m ''node_id'' = Some (PStr i)))"

lemma parse_datagram_cases:
  "(\<exists>a. parse_datagram local ip d = Inr (Some a) \<and> announces_node local d (an_node_id a) \<and> \<not> breaks_handler d)
   \<or> parse_datagram local ip d = Inr None \<and> (\<nexists>u. announces_node local d u) \<and> \<not> breaks_handler d
   \<or> (\<exists>e. parse_datagram local ip d = Inl e \<and> exn_class e = Builtin AttributeError)
       \<and> (\<nexists>u. announces_node local d u) \<and> breaks_handler d"
proof (cases "announced d")
  case None
  then have no: "announces_node local d u = False" for u by (simp add: announces_node_def)
  show ?thesis
  proof (cases d)
    case (Json_Payload v)
    with None no show ?thesis by (cases v) (simp_all add: parse_datagram_not_announced breaks_handler_def)
  qed (use None no in \<open>simp_all add: parse_datagram_not_announced breaks_handler_def\<close>)
next
  case (Some m)
  then obtain m' where d: "d = Json_Payload (PDict m')"
    by (auto simp: announced_def split: datagram.splits pyval.splits)
  have "truthy (dget_or m ''node_id'' PNone)"
    using Some by (auto simp: announced_def split: datagram.splits pyval.splits if_splits)
  then obtain v where v: "dget m ''node_id'' = Some v" "dget_or m ''node_id'' PNone = v"
    by (cases "dget m ''node_id''") (simp_all add: dget_or_def)
  show ?thesis
  proof (cases "\<exists>i. v = PStr i")
    case False
    then have "parse_datagram local ip d = Inl (Exn (Builtin AttributeError) ''object has no attribute replace'')"
      unfolding parse_datagram_announced [OF Some] v(2) by (cases v) simp_all
    with False v Some show ?thesis by (simp add: announces_node_def breaks_handler_def)
  next
    case True
    then obtain i where i: "v = PStr i" by blast
    with v Some d have whole: "\<not> breaks_handler d" by (simp add: breaks_handler_def)
    have node: "announces_node local d u \<longleftrightarrow> uuid_of i = Some u \<and> map_option ni_node_id local \<noteq> Some u" for u
      using v i Some by (simp add: announces_node_def)
    show ?thesis unfolding node
      using whole by (cases local; cases "uuid_of i") (simp_all add: parse_datagram_announced [OF Some] v(2) i)
  qed
qed

text \<open>
  A datagram is taken in exactly when it is a JSON object with a name, a port and
  the text of a UUID that is not the node's own; then the service remembers one announcement, under the
  canonical text of that UUID and with the sender's address. Everything else leaves the state alone and is ignored, with two
  exceptions: a JSON value that is no object, and a complete announcement whose id is no text,
  raise \<open>AttributeError\<close> out of the handler.
\<close>

theorem datagram_outcome:
  "(\<forall>u. announces_node local d u \<longrightarrow>
      (\<exists>a. handle_datagram local ip d s = (Inr (), s\<lparr>dv_pending := dv_pending s @ [a]\<rparr>)
         \<and> an_node_id a = u \<and> an_address a = ip \<and> uuid_of u = Some u))
   \<and> (breaks_handler d \<longrightarrow> (\<exists>e. handle_datagram local ip d s = (Inl e, s) \<and> exn_class e = Builtin AttributeError))
   \<and> ((\<nexists>u. announces_node local d u) \<and> \<not> breaks_handler d \<longrightarrow> handle_datagram local ip d s = (Inr (), s))"
  using parse_datagram_cases [of local ip d]
proof (elim disjE exE conjE)
  fix a
  assume a: "parse_datagram local ip d = Inr (Some a)" "announces_node local d (an_node_id a)" "\<not> breaks_handler d"
  have "u = an_node_id a" if "announces_node local d u" for u
    using that a(2) by (auto simp: announces_node_def)
  moreover have "handle_datagram local ip d s = (Inr (), s\<lparr>dv_pending := dv_pending s @ [a]\<rparr>)"
    by (simp add: handle_datagram_def a(1))
  ultimately show ?thesis using a(2,3) parse_datagram_Some [OF a(1)] by blast
qed (simp_all add: handle_datagram_def)

definition me_1 :: node_identity where
  "me_1 = \<lparr>ni_node_id = uuid_str 1, ni_node_name = ''one'', ni_created_at = 0, ni_protocol_version = ''0.2.0''\<rparr>"

definition running_discovery :: discovery_service where
  "running_discovery = (new_discovery 54321 6000000)\<lparr>dv_running := True, dv_transport := True\<rparr>"

theorem datagram_outcome_witness:
  "\<exists>e. handle_datagram None ''10.0.0.9'' (Json_Payload (PList [])) running_discovery = (Inl e, running_discovery)
     \<and> exn_class e = Builtin AttributeError"
proof -
  have "breaks_handler (Json_Payload (PList []))" by (simp add: breaks_handler_def)
  with datagram_outcome [of None "Json_Payload (PList [])" "''10.0.0.9''" running_discovery] show ?thesis by blast
qed

subsection \<open>What an announcement does\<close>

lemma mk_live_peer_Inr:
  "mk_live_peer ints now a = Inr p \<Longrightarrow> typed_peer p \<noteq> None \<and> lp_node_id p = an_node_id a
     \<and> lp_address p = an_address a \<and> lp_discovered_at p = now \<and> lp_last_seen p = now"
  by (auto simp: mk_live_peer_def typed_peer_def split: option.splits)

lemma update_peer_get:
  assumes "update_peer ints now a s = (Inr evs, s')"
  shows "\<exists>p. dv_peers s' = dset (an_node_id a) p (dv_peers s) \<and> s' = s\<lparr>dv_peers := dv_peers s'\<rparr>
     \<and> lp_last_seen p = now \<and> lp_address p = an_address a
     \<and> (case dget (dv_peers s) (an_node_id a) of
          None \<Rightarrow> mk_live_peer ints now a = Inr p \<and> evs = [PeerDiscoveredEvent p]
        | Some old \<Rightarrow> p = refreshed_peer now a old
            \<and> evs = (if peer_changed old a then [PeerUpdatedEvent p] else []))"
  using assms mk_live_peer_Inr [of ints now a]
  by (auto simp: update_peer_def Let_def refreshed_peer_def split: option.splits sum.splits)

lemma update_peer_Inl:
  "update_peer ints now a s = (Inl e, s') \<Longrightarrow> s' = s \<and> dget (dv_peers s) (an_node_id a) = None
     \<and> mk_live_peer ints now a = Inl e"
  by (auto simp: update_peer_def Let_def split: option.splits sum.splits)

lemma fold_ddel_get:
  "dget (fold (\<lambda>(i, p) d. ddel i d) gone d) k = (if k \<in> fst ` set gone then None else dget d k)"
  by (induction gone arbitrary: d) auto

lemma fold_ddel_ok: "dict_ok d \<Longrightarrow> dict_ok (fold (\<lambda>(i, p) d. ddel i d) gone d)"
  by (induction gone arbitrary: d) auto

lemma reap_get:
  assumes "dict_ok (dv_peers s)"
  shows "dget (dv_peers (snd (reap now s))) i =
     (case dget (dv_peers s) i of None \<Rightarrow> None | Some p \<Rightarrow> if silent (dv_expiry s) now p then None else Some p)"
proof -
  let ?gone = "filter (\<lambda>(i, p). silent (dv_expiry s) now p) (dv_peers s)"
  have "i \<in> fst ` set ?gone \<longleftrightarrow> (\<exists>p. dget (dv_peers s) i = Some p \<and> silent (dv_expiry s) now p)"
    by (force simp: dict_ok_mem [OF assms])
  then show ?thesis by (auto simp: reap_def Let_def fold_ddel_get split: option.split)
qed

lemma reap_ok: "dict_ok (dv_peers s) \<Longrightarrow> dict_ok (dv_peers (snd (reap now s)))"
  by (simp add: reap_def Let_def fold_ddel_ok)

lemma reap_rest: "snd (reap now s) = s\<lparr>dv_peers := dv_peers (snd (reap now s))\<rparr>"
  by (simp add: reap_def Let_def)

text \<open>
  A node's announcement is read back by every other node, and ignored by the node itself: the payload
  broadcast with the metadata \<open>m\<close>, received from \<open>ip\<close> by a node with another identity, yields
  the announcement of exactly that identity; a node that does not know the peer then stores it with the fields
  announced, seen now, and publishes its discovery, whose peer has the declared types.
\<close>

theorem announcement_roundtrip:
  assumes sent: "announce (Some me) (Some (Inr m)) s = Some v"
    and id: "uuid_of (ni_node_id me) = Some (ni_node_id me)" and name: "ni_node_name me \<noteq> []"
    and ints: "\<And>i. ints (PInt i) = Some i"
    and other: "map_option ni_node_id local \<noteq> Some (ni_node_id me)"
    and fresh: "dget (dv_peers s2) (ni_node_id me) = None"
  shows "parse_datagram (Some me) ip (Json_Payload v) = Inr None
    \<and> (\<exists>a p s3. parse_datagram local ip (Json_Payload v) = Inr (Some a)
         \<and> update_peer ints now a s2 = (Inr [PeerDiscoveredEvent p], s3)
         \<and> dget (dv_peers s3) (ni_node_id me) = Some p
         \<and> typed_peer p = Some \<lparr>peer_node_id = ni_node_id me, peer_node_name = ni_node_name me, peer_address = ip,
              peer_port = PInt (dv_port s), peer_protocol_version = ni_protocol_version me, peer_discovered_at = now,
              peer_last_seen = now, peer_metadata = m\<rparr>)"
proof -
  let ?m = "[(''node_id'', PStr (ni_node_id me)), (''node_name'', PStr (ni_node_name me)), (''port'', PInt (dv_port s)),
     (''protocol_version'', PStr (ni_protocol_version me)), (''metadata'', PDict m)]"
  have v: "v = PDict ?m" using sent by (simp add: announce_def split: if_splits)
  have "ni_node_id me \<noteq> []"
  proof
    assume "ni_node_id me = []"
    with id have "length (uuid_str n) = 0" if "uuid_value [] = Some n" for n
      using that by (simp add: uuid_of_def)
    moreover have "uuid_value [] = None" by code_simp
    ultimately show False using id \<open>ni_node_id me = []\<close> by (simp add: uuid_of_def)
  qed
  then have ann: "announced (Json_Payload v) = Some ?m" using name by (simp add: v announced_def dget_or_def)
  note eval = parse_datagram_announced [OF ann]
  have self: "parse_datagram (Some me) ip (Json_Payload v) = Inr None" by (simp add: eval dget_or_def id)
  let ?a = "\<lparr>an_node_id = ni_node_id me, an_node_name = PStr (ni_node_name me), an_address = ip, an_port = PInt (dv_port s),
     an_protocol_version = PStr (ni_protocol_version me), an_metadata = PDict m\<rparr>"
  have parse: "parse_datagram local ip (Json_Payload v) = Inr (Some ?a)"
    using other by (cases local) (simp_all add: eval dget_or_def id)
  let ?p = "\<lparr>lp_node_id = ni_node_id me, lp_node_name = PStr (ni_node_name me), lp_address = ip, lp_port = PInt (dv_port s),
     lp_protocol_version = PStr (ni_protocol_version me), lp_discovered_at = now, lp_last_seen = now, lp_metadata = PDict m\<rparr>"
  have "update_peer ints now ?a s2 = (Inr [PeerDiscoveredEvent ?p], s2\<lparr>dv_peers := dset (ni_node_id me) ?p (dv_peers s2)\<rparr>)"
    by (simp add: update_peer_def fresh mk_live_peer_def ints)
  with self parse show ?thesis
    by (intro conjI exI [of _ ?a] exI [of _ ?p] exI [of _ "s2\<lparr>dv_peers := dset (ni_node_id me) ?p (dv_peers s2)\<rparr>"])
      (simp_all add: typed_peer_def)
qed

definition plain_ints :: "pyval \<Rightarrow> int option" where
  "plain_ints v = (case v of PInt i \<Rightarrow> Some i | _ \<Rightarrow> None)"

theorem announcement_roundtrip_witness:
  "\<exists>v a p s3. announce (Some me_1) (Some (Inr [(''has_zarya'', PBool True)])) running_discovery = Some v
     \<and> parse_datagram None ''10.0.0.1'' (Json_Payload v) = Inr (Some a)
     \<and> update_peer plain_ints 7 a running_discovery = (Inr [PeerDiscoveredEvent p], s3)
     \<and> lp_address p = ''10.0.0.1''"
proof -
  obtain v where v: "announce (Some me_1) (Some (Inr [(''has_zarya'', PBool True)])) running_discovery = Some v"
    by (simp add: announce_def running_discovery_def)
  have "uuid_of (ni_node_id me_1) = Some (ni_node_id me_1)" using uuid_canonical [of 1] by (simp add: me_1_def)
  moreover have "ni_node_name me_1 \<noteq> []" "map_option ni_node_id None \<noteq> Some (ni_node_id me_1)"
    "dget (dv_peers running_discovery) (ni_node_id me_1) = None"
    by (simp_all add: me_1_def running_discovery_def new_discovery_def)
  ultimately obtain a p s3 where "parse_datagram None ''10.0.0.1'' (Json_Payload v) = Inr (Some a)"
    "update_peer plain_ints 7 a running_discovery = (Inr [PeerDiscoveredEvent p], s3)"
    "typed_peer p = Some \<lparr>peer_node_id = ni_node_id me_1, peer_node_name = ni_node_name me_1, peer_address = ''10.0.0.1'',
              peer_port = PInt (dv_port running_discovery), peer_protocol_version = ni_protocol_version me_1,
              peer_discovered_at = 7, peer_last_seen = 7, peer_metadata = [(''has_zarya'', PBool True)]\<rparr>"
    using announcement_roundtrip [OF v, of plain_ints None running_discovery "''10.0.0.1''" 7]
    by (auto simp: plain_ints_def)
  with v show ?thesis by (auto simp: typed_peer_def split: pyval.splits)
qed

subsection \<open>The service over time\<close>

text \<open>
  The state is the clock and the service. A task runs at any time after its announcement, in any
  order; the reaping loop runs only while the service does.
\<close>

inductive discovery_step ::
  "node_identity option \<Rightarrow> (pyval \<Rightarrow> int option) \<Rightarrow> time \<times> discovery_service \<Rightarrow> time \<times> discovery_service \<Rightarrow> bool"
  for local ints where
  starts: "discovery_step local ints (t, s) (t, snd (start_discovery can_bind s))"
| stops: "discovery_step local ints (t, s) (t, stop_discovery s)"
| receives: "dv_transport s \<Longrightarrow> discovery_step local ints (t, s) (t, snd (handle_datagram local ip d s))"
| updates: "dv_pending s = xs @ a # ys \<Longrightarrow>
     discovery_step local ints (t, s) (t, snd (update_peer ints t a (s\<lparr>dv_pending := xs @ ys\<rparr>)))"
| reaps: "dv_running s \<Longrightarrow> discovery_step local ints (t, s) (t, snd (reap t s))"
| passes: "t \<le> t' \<Longrightarrow> discovery_step local ints (t, s) (t', s)"

inductive_cases discovery_stepE: "discovery_step local ints (t, s) u"

inductive discovery_reachable ::
  "node_identity option \<Rightarrow> (pyval \<Rightarrow> int option) \<Rightarrow> time \<times> discovery_service \<Rightarrow> bool" for local ints where
  initial: "discovery_reachable local ints (t, new_discovery port expiry)"
| step: "discovery_reachable local ints u \<Longrightarrow> discovery_step local ints u u' \<Longrightarrow> discovery_reachable local ints u'"

definition foreign_id :: "node_identity option \<Rightarrow> string \<Rightarrow> bool" where
  "foreign_id local i \<longleftrightarrow> uuid_of i = Some i \<and> map_option ni_node_id local \<noteq> Some i"

definition peers_ok :: "node_identity option \<Rightarrow> time \<Rightarrow> discovery_service \<Rightarrow> bool" where
  "peers_ok local t s \<longleftrightarrow> dict_ok (dv_peers s) \<and> list_all (\<lambda>a. foreign_id local (an_node_id a)) (dv_pending s)
     \<and> (\<forall>i p. dget (dv_peers s) i = Some p \<longrightarrow> lp_node_id p = i \<and> foreign_id local i
          \<and> lp_discovered_at p \<le> lp_last_seen p \<and> lp_last_seen p \<le> t)"

lemma peers_ok_update:
  assumes ok: "peers_ok local t s" and a: "foreign_id local (an_node_id a)"
  shows "peers_ok local t (snd (update_peer ints t a s))"
proof (cases "update_peer ints t a s")
  case (Pair r s')
  show ?thesis
  proof (cases r)
    case (Inl e)
    with Pair update_peer_Inl [of ints t a s e s'] ok show ?thesis by simp
  next
    case (Inr evs)
    from update_peer_get [OF Pair [unfolded Inr]] obtain p where
      p: "dv_peers s' = dset (an_node_id a) p (dv_peers s)" "dv_pending s' = dv_pending s" "lp_last_seen p = t"
      and old: "case dget (dv_peers s) (an_node_id a) of None \<Rightarrow> mk_live_peer ints t a = Inr p
        | Some old \<Rightarrow> p = refreshed_peer t a old"
      by (auto split: option.splits)
    have "lp_node_id p = an_node_id a \<and> lp_discovered_at p \<le> t"
    proof (cases "dget (dv_peers s) (an_node_id a)")
      case None
      with old mk_live_peer_Inr [of ints t a p] show ?thesis by simp
    next
      case (Some q)
      with ok have "lp_node_id q = an_node_id a" "lp_discovered_at q \<le> lp_last_seen q" "lp_last_seen q \<le> t"
        by (auto simp: peers_ok_def)
      with old Some show ?thesis by (simp add: refreshed_peer_def)
    qed
    with ok a p Pair show ?thesis by (auto simp: peers_ok_def)
  qed
qed

lemma peers_ok_step:
  assumes ok: "peers_ok local t s" and step: "discovery_step local ints (t, s) (t', s')"
  shows "peers_ok local t' s' \<and> t \<le> t'"
  using step
proof (cases rule: discovery_step.cases)
  case (starts can_bind)
  with ok show ?thesis by (simp add: start_discovery_def Let_def peers_ok_def)
next
  case stops
  with ok show ?thesis by (simp add: stop_discovery_def peers_ok_def)
next
  case (receives ip d)
  with ok parse_datagram_Some [of local ip d] show ?thesis
    by (auto simp: handle_datagram_def peers_ok_def foreign_id_def split: sum.split option.split)
next
  case (updates xs a ys)
  then have "peers_ok local t (s\<lparr>dv_pending := xs @ ys\<rparr>)" "foreign_id local (an_node_id a)"
    using ok by (simp_all add: peers_ok_def)
  from peers_ok_update [OF this] updates show ?thesis by simp
next
  case reaps
  have "dv_pending s' = dv_pending s" using reap_rest [of t s] reaps
    by (metis discovery_service.select_convs(6) discovery_service.surjective discovery_service.update_convs(5))
  with ok reaps reap_ok [of s t] reap_get [of s t] show ?thesis
    by (auto simp: peers_ok_def split: option.splits if_splits)
next
  case passes
  with ok show ?thesis by (fastforce simp: peers_ok_def)
qed

lemma discovery_reachable_ok: "discovery_reachable local ints u \<Longrightarrow> peers_ok local (fst u) (snd u)"
proof (induction rule: discovery_reachable.induct)
  case (initial t port expiry)
  then show ?case by (simp add: peers_ok_def new_discovery_def)
next
  case (step u u')
  then show ?case using peers_ok_step by (cases u; cases u') simp
qed


text \<open>A peer announced just before the service stops is tracked by the stopped service.\<close>

definition late_announcement :: announcement where
  "late_announcement = \<lparr>an_node_id = uuid_str 1, an_node_name = PStr ''one'', an_address = ''10.0.0.1'', an_port = PInt 1,
     an_protocol_version = PStr ''0.2.0'', an_metadata = PDict []\<rparr>"

lemma stopped_service_tracks:
  "\<exists>s. discovery_reachable None plain_ints (9, s) \<and> \<not> dv_running s \<and> dmem (uuid_str 1) (dv_peers s)"
proof -
  let ?r = "discovery_reachable None plain_ints"
  let ?s0 = "new_discovery 54321 6000000"
  let ?d = "Json_Payload (PDict [(''node_id'', PStr (uuid_str 1)), (''node_name'', PStr ''one''), (''port'', PInt 1)])"
  let ?s1 = "snd (start_discovery (\<lambda>h. True) ?s0)"
  let ?s2 = "?s1\<lparr>dv_pending := [late_announcement]\<rparr>"
  have id: "uuid_of (uuid_str 1) = Some (uuid_str 1)" by (rule uuid_canonical) simp_all
  then have "uuid_str 1 \<noteq> []" by (auto simp: uuid_of_def uuid_str_def Let_def)
  then have ann: "announced ?d = Some [(''node_id'', PStr (uuid_str 1)), (''node_name'', PStr ''one''), (''port'', PInt 1)]"
    by (simp add: announced_def dget_or_def)
  have s1: "dv_transport ?s1" "dv_running ?s1" "dv_pending ?s1 = []" by (simp_all add: start_discovery_def new_discovery_def)
  have "handle_datagram None ''10.0.0.1'' ?d ?s1 = (Inr (), ?s2)"
    by (simp add: handle_datagram_def parse_datagram_announced [OF ann] dget_or_def id s1 late_announcement_def)
  moreover have "?r (9, ?s1)"
    by (rule discovery_reachable.step [OF discovery_reachable.initial discovery_step.starts])
  ultimately have "?r (9, ?s2)"
    using discovery_reachable.step [OF _ discovery_step.receives [OF s1(1)]] by (metis snd_conv)
  then have "?r (9, stop_discovery ?s2)" by (rule discovery_reachable.step [OF _ discovery_step.stops])
  moreover have "dv_pending (stop_discovery ?s2) = [] @ late_announcement # []"
    using s1 by (simp add: stop_discovery_def)
  ultimately have "?r (9, snd (update_peer plain_ints 9 late_announcement ((stop_discovery ?s2)\<lparr>dv_pending := [] @ []\<rparr>)))"
    by (rule discovery_reachable.step [OF _ discovery_step.updates])
  moreover have "\<not> dv_running s' \<and> dmem (uuid_str 1) (dv_peers s')"
    if "\<not> dv_running s" "dv_peers s = []"
      "s' = snd (update_peer plain_ints 9 late_announcement (s\<lparr>dv_pending := [] @ []\<rparr>))" for s s'
    using that by (simp add: update_peer_def late_announcement_def mk_live_peer_def plain_ints_def dmem_keys)
  moreover have "\<not> dv_running (stop_discovery ?s2)" "dv_peers (stop_discovery ?s2) = []"
    using s1 by (simp_all add: stop_discovery_def)
  ultimately show ?thesis by blast
qed


end
