(* ===== verification/Shyam_Bootstrap.thy ===== *)
theory Shyam_Bootstrap
  imports Shyam_Lifecycle Shyam_Sync
begin

section \<open>Bootstrap and recovery of devices\<close>

text \<open>
  \<open>bootstrap/models.py\<close>, \<open>bootstrap/service.py\<close>, \<open>bootstrap/transport.py\<close> and
  \<open>bootstrap/errors.py\<close>: the authority's handling of a request, the client's handshake and the recovery scenarios,
  over the trust, identity and synchronisation services. The transport is an argument that answers a request; \<open>isoformat\<close> is
  \<open>datetime.isoformat\<close>. The clock is read once for each operation.
\<close>

subsection \<open>bootstrap/models.py\<close>

datatype bootstrap_state = B_UNINITIALIZED | B_IDENTITY_READY | B_BOOTSTRAP_REQUESTED | B_AUTHENTICATING
  | B_TRUST_ESTABLISHED | B_STATE_INITIALIZING | B_SYNCING | B_READY | B_FAILED | B_REJECTED | B_CANCELLED

fun bootstrap_state_value :: "bootstrap_state \<Rightarrow> string" where
  "bootstrap_state_value B_UNINITIALIZED = ''uninitialized''"
| "bootstrap_state_value B_IDENTITY_READY = ''identity_ready''"
| "bootstrap_state_value B_BOOTSTRAP_REQUESTED = ''bootstrap_requested''"
| "bootstrap_state_value B_AUTHENTICATING = ''authenticating''"
| "bootstrap_state_value B_TRUST_ESTABLISHED = ''trust_established''"
| "bootstrap_state_value B_STATE_INITIALIZING = ''state_initializing''"
| "bootstrap_state_value B_SYNCING = ''syncing''"
| "bootstrap_state_value B_READY = ''ready''"
| "bootstrap_state_value B_FAILED = ''failed''"
| "bootstrap_state_value B_REJECTED = ''rejected''"
| "bootstrap_state_value B_CANCELLED = ''cancelled''"

fun B_VALID_TRANSITIONS :: "bootstrap_state \<Rightarrow> bootstrap_state set" where
  "B_VALID_TRANSITIONS B_UNINITIALIZED = {B_IDENTITY_READY}"
| "B_VALID_TRANSITIONS B_IDENTITY_READY = {B_BOOTSTRAP_REQUESTED}"
| "B_VALID_TRANSITIONS B_BOOTSTRAP_REQUESTED = {B_AUTHENTICATING}"
| "B_VALID_TRANSITIONS B_AUTHENTICATING = {B_TRUST_ESTABLISHED, B_REJECTED, B_FAILED, B_CANCELLED}"
| "B_VALID_TRANSITIONS B_TRUST_ESTABLISHED = {B_STATE_INITIALIZING, B_FAILED, B_CANCELLED}"
| "B_VALID_TRANSITIONS B_STATE_INITIALIZING = {B_SYNCING, B_FAILED, B_CANCELLED}"
| "B_VALID_TRANSITIONS B_SYNCING = {B_READY, B_FAILED, B_CANCELLED}"
| "B_VALID_TRANSITIONS _ = {}"

datatype bootstrap_outcome = BO_SUCCESS | BO_REJECTED_REVOKED | BO_REJECTED_UNTRUSTED | BO_REJECTED_INVALID_IDENTITY
  | BO_REJECTED_SIGNATURE | BO_FAILED_TIMEOUT | BO_FAILED_SYNC | BO_FAILED_INTERNAL | BO_CANCELLED

record bootstrap_request =
  bq_request_id :: string
  bq_node_id :: string
  bq_public_key :: string
  bq_node_name :: string
  bq_protocol_version :: string
  bq_timestamp :: time
  bq_signature :: string
  bq_is_recovery :: bool
  bq_metadata :: "(string, pyval) dict"

record bootstrap_response =
  br_request_id :: string
  br_accepted :: bool
  br_authority_node_id :: string
  br_authority_public_key :: string
  br_rejection_reason :: string
  br_outcome :: bootstrap_outcome
  br_timestamp :: time

record bootstrap_session =
  bn_session_id :: string
  bn_state :: bootstrap_state
  bn_node_id :: string
  bn_authority_node_id :: string
  bn_outcome :: "bootstrap_outcome option"
  bn_error_detail :: string
  bn_created_at :: time
  bn_updated_at :: time

definition new_bootstrap_session :: "string \<Rightarrow> time \<Rightarrow> bootstrap_session" where
  "new_bootstrap_session sid now = \<lparr>bn_session_id = sid, bn_state = B_UNINITIALIZED, bn_node_id = [],
     bn_authority_node_id = [], bn_outcome = None, bn_error_detail = [], bn_created_at = now, bn_updated_at = now\<rparr>"

text \<open>The message also lists the allowed states, in no order that Python fixes; \<open>listed\<close> is that text.\<close>

definition b_transition ::
  "(bootstrap_state set \<Rightarrow> string) \<Rightarrow> time \<Rightarrow> bootstrap_state \<Rightarrow> bootstrap_session \<Rightarrow> bootstrap_session result" where
  "b_transition listed now t s =
     (if t \<notin> B_VALID_TRANSITIONS (bn_state s)
      then Inl (value_error (''Invalid bootstrap transition: '' @ bootstrap_state_value (bn_state s) @ '' -> ''
        @ bootstrap_state_value t @ ''. Allowed: '' @ listed (B_VALID_TRANSITIONS (bn_state s))))
      else Inr (s\<lparr>bn_state := t, bn_updated_at := now\<rparr>))"

definition b_is_terminal :: "bootstrap_session \<Rightarrow> bool" where
  "b_is_terminal s \<longleftrightarrow> bn_state s \<in> {B_READY, B_FAILED, B_REJECTED, B_CANCELLED}"

definition b_is_successful :: "bootstrap_session \<Rightarrow> bool" where
  "b_is_successful s \<longleftrightarrow> bn_state s = B_READY"

fun b_rank :: "bootstrap_state \<Rightarrow> nat" where
  "b_rank B_UNINITIALIZED = 0"
| "b_rank B_IDENTITY_READY = 1"
| "b_rank B_BOOTSTRAP_REQUESTED = 2"
| "b_rank B_AUTHENTICATING = 3"
| "b_rank B_TRUST_ESTABLISHED = 4"
| "b_rank B_STATE_INITIALIZING = 5"
| "b_rank B_SYNCING = 6"
| "b_rank _ = 7"

interpretation bootstrap_lc: lifecycle_map B_VALID_TRANSITIONS
  "\<lambda>s. s \<in> {B_READY, B_FAILED, B_REJECTED, B_CANCELLED}" b_rank 7
proof
  fix s t
  show "t \<in> B_VALID_TRANSITIONS s \<Longrightarrow> b_rank s < b_rank t" by (cases s) auto
  show "b_rank s \<le> 7" by (cases s) simp_all
  show "s \<in> {B_READY, B_FAILED, B_REJECTED, B_CANCELLED} = (B_VALID_TRANSITIONS s = {})" by (cases s) simp_all
qed

datatype recovery_scenario = STATE_LOST_IDENTITY_INTACT | IDENTITY_LOST | PARTIAL_STATE
  | INTERRUPTED_BOOTSTRAP | REVOKED_NODE | RECOVERY_UNKNOWN

record recovery_request =
  rq_request_id :: string
  rq_scenario :: recovery_scenario
  rq_existing_node_id :: string
  rq_public_key :: string

record recovery_result =
  rr_request_id :: string
  rr_success :: bool
  rr_scenario :: recovery_scenario
  rr_new_node_id :: string
  rr_detail :: string
  rr_timestamp :: time

subsection \<open>bootstrap/errors.py\<close>

definition bootstrap_error :: "string \<Rightarrow> exn" where
  "bootstrap_error m = Exn (Bootstrap_Exn BootstrapError) m"

definition bootstrap_rejected :: "string \<Rightarrow> string \<Rightarrow> exn" where
  "bootstrap_rejected n reason = Exn (Bootstrap_Exn BootstrapRejectedError)
     (''Bootstrap rejected for node '' @ quoted n @ '': '' @ reason)"

definition recovery_error :: "string \<Rightarrow> exn" where
  "recovery_error m = Exn (Bootstrap_Exn RecoveryError) m"

subsection \<open>bootstrap/service.py: the authority\<close>

definition signable :: "(time \<Rightarrow> string) \<Rightarrow> string \<Rightarrow> string \<Rightarrow> string \<Rightarrow> time \<Rightarrow> string" where
  "signable isoformat rid n key t = utf8_encode (rid @ '':'' @ n @ '':'' @ key @ '':'' @ isoformat t)"

definition rejection_response :: "bootstrap_request \<Rightarrow> string \<Rightarrow> bootstrap_outcome \<Rightarrow> time \<Rightarrow> bootstrap_response" where
  "rejection_response q reason out now = \<lparr>br_request_id = bq_request_id q, br_accepted = False, br_authority_node_id = [],
     br_authority_public_key = [], br_rejection_reason = reason, br_outcome = out, br_timestamp = now\<rparr>"

text \<open>The answer, the trust service, its disk and its events; \<open>auth_key\<close> is the key of the synchronisation service.\<close>

type_synonym authority_reply = "bootstrap_response result \<times> trust_service \<times> trust_disk \<times> trust_event list"

definition handle_incoming_request ::
  "'k crypto \<Rightarrow> (time \<Rightarrow> string) \<Rightarrow> time_codec \<Rightarrow> time \<Rightarrow> node_identity option \<Rightarrow> string option
     \<Rightarrow> bootstrap_request \<Rightarrow> trust_service \<Rightarrow> trust_disk \<Rightarrow> authority_reply" where
  "handle_incoming_request cy isoformat tc now local auth_key q ts dk =
     (let n = bq_node_id q; key = bq_public_key q;
          reject = (\<lambda>reason out. (Inr (rejection_response q reason out now), ts, dk, [])) in
      case b64decode (bq_signature q) of
        Inl e \<Rightarrow> reject (''Signature validation error: '' @ exn_msg e) BO_REJECTED_SIGNATURE
      | Inr sig \<Rightarrow>
          if \<not> verify_with_public_key cy key (signable isoformat (bq_request_id q) n key (bq_timestamp q)) sig
          then reject ''Cryptographic signature verification failed'' BO_REJECTED_SIGNATURE
          else (case get_record tc now dk n ts of
              Inl e \<Rightarrow> (Inl e, ts, dk, [])
            | Inr (r, ts') \<Rightarrow>
                if tr_status r = TRUST_REVOKED
                then (Inr (rejection_response q (''Node '' @ quoted n @ '' is REVOKED'') BO_REJECTED_REVOKED now), ts', dk, [])
                else (case grant_trust tc now n (Some key) REL_PEER
                             (str_or (bq_node_name q) (''node-'' @ take 8 n)) None ts' dk of
                    (Inl e, ts2, dk2, evs) \<Rightarrow> (Inl e, ts2, dk2, evs)
                  | (Inr _, ts2, dk2, evs) \<Rightarrow>
                      (Inr \<lparr>br_request_id = bq_request_id q, br_accepted = True,
                         br_authority_node_id = (case local of None \<Rightarrow> [] | Some me \<Rightarrow> ni_node_id me),
                         br_authority_public_key = (case auth_key of None \<Rightarrow> [] | Some k \<Rightarrow> k),
                         br_rejection_reason = [], br_outcome = BO_SUCCESS, br_timestamp = now\<rparr>, ts2, dk2, evs))))"

subsection \<open>bootstrap/service.py: the client\<close>

record 'k bootstrap_world =
  bw_sessions :: "(string, bootstrap_session) dict"
  bw_trust :: trust_service
  bw_disk :: trust_disk
  bw_sync :: "'k sync_service option"

definition put_session :: "bootstrap_session \<Rightarrow> 'k bootstrap_world \<Rightarrow> 'k bootstrap_world" where
  "put_session s w = w\<lparr>bw_sessions := dset (bn_session_id s) s (bw_sessions w)\<rparr>"

definition client_request ::
  "'k crypto \<Rightarrow> (time \<Rightarrow> string) \<Rightarrow> bootstrap_session \<Rightarrow> node_identity \<Rightarrow> 'k \<Rightarrow> bootstrap_request" where
  "client_request cy isoformat s me k =
     (let key = public_key_b64 cy k; t = bn_created_at s in
      \<lparr>bq_request_id = bn_session_id s, bq_node_id = ni_node_id me, bq_public_key = key,
       bq_node_name = ni_node_name me, bq_protocol_version = ''0.2.0'', bq_timestamp = t,
       bq_signature = b64encode (cy_sign cy k (signable isoformat (bn_session_id s) (ni_node_id me) key t)),
       bq_is_recovery = False, bq_metadata = []\<rparr>)"

fun advance ::
  "(bootstrap_state set \<Rightarrow> string) \<Rightarrow> time \<Rightarrow> bootstrap_state list \<Rightarrow> bootstrap_session \<Rightarrow> bootstrap_session result" where
  "advance listed now [] s = Inr s"
| "advance listed now (t # ts) s =
     (case b_transition listed now t s of Inl e \<Rightarrow> Inl e | Inr s' \<Rightarrow> advance listed now ts s')"

text \<open>
  The part after the answer: a session that ends is stored, one that is left by an exception of the
  trust service is not. Incrementing the local version raises nothing, so its handler is not entered.
\<close>

definition finish_client ::
  "(bootstrap_state set \<Rightarrow> string) \<Rightarrow> time_codec \<Rightarrow> time \<Rightarrow> string \<Rightarrow> 'k sync_service \<Rightarrow> bootstrap_response
     \<Rightarrow> bootstrap_session \<Rightarrow> 'k bootstrap_world \<Rightarrow> bootstrap_session result \<times> 'k bootstrap_world" where
  "finish_client listed tc now node sy resp s w =
     (if \<not> br_accepted resp
      then (case advance listed now [B_REJECTED] s of
              Inl e \<Rightarrow> (Inl e, w)
            | Inr s' \<Rightarrow> (Inl (bootstrap_rejected node (br_rejection_reason resp)), put_session s' w))
      else (case advance listed now [B_TRUST_ESTABLISHED] s of
          Inl e \<Rightarrow> (Inl e, w)
        | Inr s' \<Rightarrow>
            (case grant_trust tc now (br_authority_node_id resp) (Some (br_authority_public_key resp)) REL_INFRASTRUCTURE
                    ''Bootstrap Authority'' None (bw_trust w) (bw_disk w) of
               (Inl e, ts, dk, evs) \<Rightarrow> (Inl e, w\<lparr>bw_trust := ts, bw_disk := dk\<rparr>)
             | (Inr _, ts, dk, evs) \<Rightarrow>
                 let w' = w\<lparr>bw_trust := ts, bw_disk := dk\<rparr> in
                 (case advance listed now [B_STATE_INITIALIZING, B_SYNCING, B_READY] s' of
                    Inl e \<Rightarrow> (Inl e, w')
                  | Inr s'' \<Rightarrow> (Inr s'', put_session s'' (w'\<lparr>bw_sync := Some (increment_local_version sy)\<rparr>))))))"

definition execute_client_bootstrap ::
  "'k crypto \<Rightarrow> (time \<Rightarrow> string) \<Rightarrow> (bootstrap_state set \<Rightarrow> string) \<Rightarrow> time_codec \<Rightarrow> time \<Rightarrow> string \<Rightarrow> node_identity option
     \<Rightarrow> (bootstrap_request \<Rightarrow> bootstrap_response result) \<Rightarrow> 'k bootstrap_world
     \<Rightarrow> bootstrap_session result \<times> 'k bootstrap_world" where
  "execute_client_bootstrap cy isoformat listed tc now sid local send w =
     (let s0 = new_bootstrap_session sid now; w0 = put_session s0 w in
      case advance listed now [B_IDENTITY_READY, B_BOOTSTRAP_REQUESTED] s0 of
        Inl e \<Rightarrow> (Inl e, w0)
      | Inr s1 \<Rightarrow>
          (case local of
             None \<Rightarrow> (Inl (bootstrap_error ''Local logical identity is missing''), w0)
           | Some me \<Rightarrow>
               (case bw_sync w of
                  None \<Rightarrow> (Inl (bootstrap_error ''SyncService is not initialized''), w0)
                | Some sy \<Rightarrow>
                    (case advance listed now [B_AUTHENTICATING] s1 of
                       Inl e \<Rightarrow> (Inl e, w0)
                     | Inr s2 \<Rightarrow>
                         (case send (client_request cy isoformat s2 me (sy_keypair sy)) of
                            Inl e \<Rightarrow>
                              (case advance listed now [B_FAILED] s2 of
                                 Inl x \<Rightarrow> (Inl x, w0)
                               | Inr s3 \<Rightarrow> (Inl (bootstrap_error (''Transport transmission failed: '' @ exn_msg e)), put_session s3 w0))
                          | Inr resp \<Rightarrow> finish_client listed tc now (ni_node_id me) sy resp s2 w0)))))"

subsection \<open>bootstrap/service.py: recovery\<close>

definition recover_device ::
  "time_codec \<Rightarrow> string \<Rightarrow> time \<Rightarrow> string \<Rightarrow> recovery_request \<Rightarrow> identity_manager \<times> id_disk \<times> 'k sync_service option
     \<Rightarrow> recovery_result result \<times> identity_manager \<times> id_disk \<times> 'k sync_service option" where
  "recover_device tc fresh now host q st =
     (case st of (im, dk, sync) \<Rightarrow>
        let res = (\<lambda>ok n detail. \<lparr>rr_request_id = rq_request_id q, rr_success = ok, rr_scenario = rq_scenario q,
                     rr_new_node_id = n, rr_detail = detail, rr_timestamp = now\<rparr>) in
        case rq_scenario q of
          IDENTITY_LOST \<Rightarrow>
            (case create_identity tc fresh now host (im_custom_node_name im) dk of
               (Inl e, dk') \<Rightarrow> (Inl e, im, dk', sync)
             | (Inr i, dk') \<Rightarrow> (Inr (res True (ni_node_id i)
                   ''Identity lost. Generated fresh cryptographic identity and enrollment path.''),
                 im\<lparr>im_identity := Some i\<rparr>, dk', sync))
        | STATE_LOST_IDENTITY_INTACT \<Rightarrow>
            (case sync of
               None \<Rightarrow> (Inl (recovery_error ''SyncService is not active. Cannot execute recovery.''), st)
             | Some sy \<Rightarrow> (Inr (res True (rq_existing_node_id q)
                   ''Identity intact. Re-synchronized version maps and restored facts.''),
                 im, dk, Some (increment_local_version sy)))
        | _ \<Rightarrow> (Inr (res False [] ''Unsupported or unknown recovery scenario''), st))"

subsection \<open>What the authority decides\<close>

definition request_verifies :: "'k crypto \<Rightarrow> (time \<Rightarrow> string) \<Rightarrow> bootstrap_request \<Rightarrow> bool" where
  "request_verifies cy isoformat q \<longleftrightarrow> (\<exists>sig. b64decode (bq_signature q) = Inr sig
     \<and> verify_with_public_key cy (bq_public_key q)
           (signable isoformat (bq_request_id q) (bq_node_id q) (bq_public_key q) (bq_timestamp q)) sig)"

text \<open>The service has been initialised, as the runtime does before it creates the bootstrap service.\<close>

definition trust_ready :: "trust_service \<Rightarrow> trust_disk \<Rightarrow> bool" where
  "trust_ready ts dk \<longleftrightarrow> ts_initialized ts \<and> dict_ok (ts_records ts) \<and> td_write_error dk = None"

lemma get_record_ready:
  "trust_ready ts dk \<Longrightarrow> get_record tc now dk n ts = Inr (dget_or (ts_records ts) n (unknown_record now n), ts)"
  by (simp add: get_record_def trust_initialize_def trust_ready_def)

lemma grant_ready:
  assumes "codec_ok tc" and "trust_ready ts dk"
  shows "\<exists>r ts' dk' evs. grant_trust tc now n key rel al meta ts dk = (Inr r, ts', dk', evs)
    \<and> r = granted_record now n key rel al meta (dget (ts_records ts) n) \<and> dget (ts_records ts') n = Some r
    \<and> trust_ready ts' dk' \<and> synced tc ts' dk'
    \<and> trusted_in (ts_records ts') = (trusted_in (ts_records ts))(n := True)"
proof -
  let ?r = "granted_record now n key rel al meta (dget (ts_records ts) n)"
  obtain res ts' dk' evs where g: "grant_trust tc now n key rel al meta ts dk = (res, ts', dk', evs)" by (metis prod_cases4)
  have ready: "dict_ok (ts_records ts)" "td_write_error dk = None" "ts_initialized ts"
    using assms(2) by (simp_all add: trust_ready_def)
  from g have st: "store_record tc n ?r (TrustGrantedEvent n (tr_public_key ?r) (tr_relationship ?r) (tr_alias ?r)) ts dk
      = (res, ts', dk', evs)" by (simp add: grant_trust_def Let_def)
  from store_record_ok [OF assms(1) ready(1,2) st] have ok: "synced tc ts' dk'"
    "trusted_in (ts_records ts') = (trusted_in (ts_records ts))(n := True)" "td_write_error dk' = None" "ts_initialized ts'"
    using ready(3) by simp_all
  have "res = Inr ?r" "ts_records ts' = dset n ?r (ts_records ts)"
    using st ready(2) by (auto simp: store_record_def trust_save_def Let_def)
  with g ok show ?thesis by (auto simp: trust_ready_def synced_def)
qed

lemma granted_key: "tr_public_key (granted_record now n (Some key) rel al meta x) =
    (if key \<noteq> [] then Some key else (case x of None \<Rightarrow> Some key | Some r \<Rightarrow> tr_public_key r))"
  by (simp add: granted_record_def with_status_def opt_or_def truthy_opt_def split: option.split)

text \<open>
  C20. The authority accepts a request exactly when its signature verifies under the key it carries
  itself and its node is not revoked; a node it has never seen, and one it knows under
  another key, are accepted alike. An accepted node is trusted from then on, in memory and on disk, and the key
  of the request is the one pinned for it; a request that is refused changes nothing, and the
  outcome tells which of the two checks failed.
\<close>

theorem bootstrap_request_outcome:
  assumes codec: "codec_ok tc" and ready: "trust_ready ts dk" and key: "bq_public_key q \<noteq> []"
  shows "\<exists>resp ts' dk' evs. handle_incoming_request cy isoformat tc now local auth_key q ts dk = (Inr resp, ts', dk', evs)
    \<and> br_request_id resp = bq_request_id q
    \<and> br_accepted resp = (request_verifies cy isoformat q
          \<and> tr_status (dget_or (ts_records ts) (bq_node_id q) (unknown_record now (bq_node_id q))) \<noteq> TRUST_REVOKED)
    \<and> (if br_accepted resp
       then br_outcome resp = BO_SUCCESS \<and> synced tc ts' dk'
         \<and> trusted_in (ts_records ts') = (trusted_in (ts_records ts))(bq_node_id q := True)
         \<and> (\<exists>r. dget (ts_records ts') (bq_node_id q) = Some r \<and> tr_public_key r = Some (bq_public_key q))
       else ts' = ts \<and> dk' = dk \<and> evs = []
         \<and> br_outcome resp = (if request_verifies cy isoformat q then BO_REJECTED_REVOKED else BO_REJECTED_SIGNATURE))"
proof (cases "request_verifies cy isoformat q")
  case False
  then obtain reason where "handle_incoming_request cy isoformat tc now local auth_key q ts dk
      = (Inr (rejection_response q reason BO_REJECTED_SIGNATURE now), ts, dk, [])"
    by (cases "b64decode (bq_signature q)") (simp_all add: handle_incoming_request_def Let_def request_verifies_def)
  with False show ?thesis
    by (intro exI [of _ "rejection_response q reason BO_REJECTED_SIGNATURE now"] exI [of _ ts] exI [of _ dk]
        exI [of _ "[]"]) (simp add: rejection_response_def)
next
  case True
  then obtain sig where sig: "b64decode (bq_signature q) = Inr sig"
    "verify_with_public_key cy (bq_public_key q)
           (signable isoformat (bq_request_id q) (bq_node_id q) (bq_public_key q) (bq_timestamp q)) sig"
    by (auto simp: request_verifies_def)
  obtain r ts' dk' evs where
    g: "grant_trust tc now (bq_node_id q) (Some (bq_public_key q)) REL_PEER
           (str_or (bq_node_name q) (''node-'' @ take 8 (bq_node_id q))) None ts dk = (Inr r, ts', dk', evs)"
    "dget (ts_records ts') (bq_node_id q) = Some r" "synced tc ts' dk'"
    "trusted_in (ts_records ts') = (trusted_in (ts_records ts))(bq_node_id q := True)"
    and r: "r = granted_record now (bq_node_id q) (Some (bq_public_key q)) REL_PEER
           (str_or (bq_node_name q) (''node-'' @ take 8 (bq_node_id q))) None (dget (ts_records ts) (bq_node_id q))"
    using grant_ready [OF codec ready] by blast
  have "tr_public_key r = Some (bq_public_key q)" using key by (simp add: r granted_key)
  with True sig g show ?thesis
    by (simp add: handle_incoming_request_def Let_def get_record_ready [OF ready] rejection_response_def)
qed

lemma client_request_verifies:
  "crypto_ok cy \<Longrightarrow> request_verifies cy isoformat (client_request cy isoformat s me k)"
  by (simp add: request_verifies_def client_request_def Let_def b64_roundtrip verify_with_public_key_def
      public_key_b64_def crypto_ok_def)

text \<open>
  C21. Any key pair can take over any node that is not revoked. The request that
  a holder of \<open>k\<close> makes in the name of \<open>n\<close> is accepted and replaces the key pinned for
  \<open>n\<close>; from then on every envelope of \<open>n\<close> under another key, the owner's among them, is rejected, and
  every envelope signed with \<open>k\<close> in the name of \<open>n\<close> is authenticated.
\<close>

theorem bootstrap_takes_over_node:
  assumes cy: "crypto_ok cy" and codec: "codec_ok tc" and ready: "trust_ready ts dk"
    and victim: "tr_status (dget_or (ts_records ts) (ni_node_id me) (unknown_record now (ni_node_id me))) \<noteq> TRUST_REVOKED"
    and key: "public_key_b64 cy k \<noteq> []"
    and run: "handle_incoming_request cy isoformat tc now local auth_key (client_request cy isoformat s me k) ts dk
      = (res, ts', dk', evs)"
  shows "\<exists>resp r. res = Inr resp \<and> br_accepted resp \<and> dget (ts_records ts') (ni_node_id me) = Some r
    \<and> (\<forall>e. se_sender_node_id e = ni_node_id me \<longrightarrow>
         (se_sender_public_key e \<noteq> public_key_b64 cy k \<longrightarrow>
            fst (snd (judge_envelope cy tc e r)) = SYNC_REJECTED_INVALID_SIGNATURE \<and> \<not> fst (judge_envelope cy tc e r))
         \<and> fst (judge_envelope cy tc (sign_envelope cy tc (e\<lparr>se_sender_public_key := public_key_b64 cy k\<rparr>) k) r))"
proof -
  let ?q = "client_request cy isoformat s me k"
  have q: "bq_node_id ?q = ni_node_id me" "bq_public_key ?q = public_key_b64 cy k"
    by (simp_all add: client_request_def Let_def)
  obtain r ts2 dk2 evs2 where
    g: "grant_trust tc now (ni_node_id me) (Some (public_key_b64 cy k)) REL_PEER
           (str_or (bq_node_name ?q) (''node-'' @ take 8 (ni_node_id me))) None ts dk = (Inr r, ts2, dk2, evs2)"
    "dget (ts_records ts2) (ni_node_id me) = Some r"
    and r: "r = granted_record now (ni_node_id me) (Some (public_key_b64 cy k)) REL_PEER
           (str_or (bq_node_name ?q) (''node-'' @ take 8 (ni_node_id me))) None (dget (ts_records ts) (ni_node_id me))"
    using grant_ready [OF codec ready] by blast
  obtain sig where sig: "b64decode (bq_signature ?q) = Inr sig"
    "verify_with_public_key cy (public_key_b64 cy k)
       (signable isoformat (bq_request_id ?q) (ni_node_id me) (public_key_b64 cy k) (bq_timestamp ?q)) sig"
    using client_request_verifies [OF cy, of isoformat s me k] by (auto simp: request_verifies_def q)
  from run sig g victim obtain resp where resp: "res = Inr resp" "br_accepted resp" "ts' = ts2"
    by (auto simp: handle_incoming_request_def Let_def q get_record_ready [OF ready])
  have pinned: "tr_public_key r = Some (public_key_b64 cy k)" "tr_is_trusted r"
    using key by (simp_all add: r granted_key)
  then have trusted: "\<not> tr_is_revoked r" by (simp add: tr_is_trusted_def tr_is_revoked_def)
  note judge = judge_envelope_def Let_def pinned trusted truthy_opt_def opt_or_def key
  have "fst (snd (judge_envelope cy tc e r)) = SYNC_REJECTED_INVALID_SIGNATURE \<and> \<not> fst (judge_envelope cy tc e r)"
    if "se_sender_public_key e \<noteq> public_key_b64 cy k" for e
    using that by (simp add: judge)
  moreover have "fst (judge_envelope cy tc (sign_envelope cy tc (e\<lparr>se_sender_public_key := public_key_b64 cy k\<rparr>) k) r)" for e
    using key cy by (simp add: judge sign_envelope_def b64_roundtrip verify_with_public_key_def crypto_ok_def
        get_signable_bytes_def envelope_dump_def b64_roundtrip [unfolded public_key_b64_def] public_key_b64_def)
  ultimately show ?thesis using resp g(2) by blast
qed

definition owner_1 :: node_identity where
  "owner_1 = \<lparr>ni_node_id = ''b'', ni_node_name = ''owner'', ni_created_at = 0, ni_protocol_version = ''0.2.0''\<rparr>"

lemma trusting_ready: "trust_ready (trusting n key) empty_disk"
  by (simp add: trust_ready_def trusting_def empty_disk_def new_trust_service_def dict_ok_def)

theorem bootstrap_request_outcome_witness:
  "\<exists>resp ts' dk' evs. handle_incoming_request toy_crypto (\<lambda>t. []) unary_codec 3 None None
        (client_request toy_crypto (\<lambda>t. []) (new_bootstrap_session ''s'' 1) owner_1 ''k'')
        (new_trust_service True\<lparr>ts_initialized := True\<rparr>) empty_disk = (Inr resp, ts', dk', evs)
     \<and> br_accepted resp \<and> trusted_in (ts_records ts') ''b''"
proof -
  let ?q = "client_request toy_crypto (\<lambda>t. []) (new_bootstrap_session ''s'' 1) owner_1 ''k''"
  let ?ts = "new_trust_service True\<lparr>ts_initialized := True\<rparr>"
  have ready: "trust_ready ?ts empty_disk" by (simp add: trust_ready_def empty_disk_def new_trust_service_def dict_ok_def)
  have q: "bq_node_id ?q = ''b''" "bq_public_key ?q \<noteq> []"
    by (simp_all add: client_request_def Let_def owner_1_def public_key_b64_def toy_crypto_def)
  have "request_verifies toy_crypto (\<lambda>t. []) ?q" by (rule client_request_verifies [OF toy_crypto_ok])
  moreover have "tr_status (dget_or (ts_records ?ts) ''b'' (unknown_record 3 ''b'')) \<noteq> TRUST_REVOKED"
    by (simp add: new_trust_service_def dget_or_def unknown_record_def)
  ultimately show ?thesis
    using bootstrap_request_outcome [OF unary_codec_ok ready q(2), of toy_crypto "\<lambda>t. []" 3 None None] q(1)
    by (auto simp: fun_upd_def)
qed

theorem bootstrap_takes_over_node_witness:
  "\<exists>resp ts' dk' evs r. handle_incoming_request toy_crypto (\<lambda>t. []) unary_codec 3 None None
        (client_request toy_crypto (\<lambda>t. []) (new_bootstrap_session ''s'' 1) owner_1 ''thief'')
        (trusting ''b'' (Some (b64encode ''owner''))) empty_disk = (Inr resp, ts', dk', evs)
     \<and> br_accepted resp \<and> dget (ts_records ts') ''b'' = Some r
     \<and> \<not> fst (judge_envelope toy_crypto unary_codec
          (create_sync_envelope toy_crypto unary_codec 1 ''m'' ''t'' (new_sync_service ''b'' ''owner'' True 10)) r)"
proof -
  let ?ts = "trusting ''b'' (Some (b64encode ''owner''))"
  let ?e = "create_sync_envelope toy_crypto unary_codec 1 ''m'' ''t'' (new_sync_service ''b'' ''owner'' True 10)"
  obtain res ts' dk' evs where run: "handle_incoming_request toy_crypto (\<lambda>t. []) unary_codec 3 None None
        (client_request toy_crypto (\<lambda>t. []) (new_bootstrap_session ''s'' 1) owner_1 ''thief'') ?ts empty_disk
      = (res, ts', dk', evs)" by (metis prod_cases4)
  have "tr_status (dget_or (ts_records ?ts) (ni_node_id owner_1) (unknown_record 3 (ni_node_id owner_1))) \<noteq> TRUST_REVOKED"
    by (simp add: trusting_def owner_1_def dget_or_def unknown_record_def)
  moreover have "public_key_b64 toy_crypto ''thief'' \<noteq> []" by (simp add: public_key_b64_def toy_crypto_def)
  ultimately obtain resp r where r: "res = Inr resp" "br_accepted resp" "dget (ts_records ts') ''b'' = Some r"
    and e: "\<And>e. se_sender_node_id e = ''b'' \<Longrightarrow> se_sender_public_key e \<noteq> public_key_b64 toy_crypto ''thief''
      \<Longrightarrow> \<not> fst (judge_envelope toy_crypto unary_codec e r)"
    using bootstrap_takes_over_node [OF toy_crypto_ok unary_codec_ok trusting_ready _ _ run] by (auto simp: owner_1_def)
  have "se_sender_node_id ?e = ''b''" "se_sender_public_key ?e = b64encode ''owner''"
    by (simp_all add: create_sync_envelope_def sign_envelope_def new_sync_service_def public_key_b64_def toy_crypto_def)
  moreover have "b64encode ''owner'' \<noteq> public_key_b64 toy_crypto ''thief''"
    using b64_roundtrip [of "''owner''"] b64_roundtrip [of "''thief''"] by (auto simp: public_key_b64_def toy_crypto_def)
  ultimately have "\<not> fst (judge_envelope toy_crypto unary_codec ?e r)" using e [of ?e] by simp
  with run r show ?thesis by blast
qed

subsection \<open>The client's session\<close>

lemmas session_eval = b_transition_def new_bootstrap_session_def

definition in_state :: "bootstrap_state \<Rightarrow> string \<Rightarrow> time \<Rightarrow> bootstrap_session" where
  "in_state st sid now = (new_bootstrap_session sid now)\<lparr>bn_state := st\<rparr>"

lemma advance_start:
  "advance listed now [B_IDENTITY_READY, B_BOOTSTRAP_REQUESTED] (new_bootstrap_session sid now)
     = Inr (in_state B_BOOTSTRAP_REQUESTED sid now)"
  by (simp add: session_eval in_state_def)

lemma advance_authenticating:
  "advance listed now [B_AUTHENTICATING] (in_state B_BOOTSTRAP_REQUESTED sid now) = Inr (in_state B_AUTHENTICATING sid now)"
  by (simp add: session_eval in_state_def)

lemma advance_answered:
  "advance listed now [B_FAILED] (in_state B_AUTHENTICATING sid now) = Inr (in_state B_FAILED sid now)"
  "advance listed now [B_REJECTED] (in_state B_AUTHENTICATING sid now) = Inr (in_state B_REJECTED sid now)"
  "advance listed now [B_TRUST_ESTABLISHED] (in_state B_AUTHENTICATING sid now) = Inr (in_state B_TRUST_ESTABLISHED sid now)"
  "advance listed now [B_STATE_INITIALIZING, B_SYNCING, B_READY] (in_state B_TRUST_ESTABLISHED sid now)
     = Inr (in_state B_READY sid now)"
  by (simp_all add: session_eval in_state_def)

lemma in_state_sel [simp]:
  "bn_session_id (in_state st sid now) = sid" "bn_state (in_state st sid now) = st"
  "bn_created_at (in_state st sid now) = now"
  by (simp_all add: in_state_def new_bootstrap_session_def)

lemma put_session_sel [simp]:
  "bw_trust (put_session s w) = bw_trust w" "bw_disk (put_session s w) = bw_disk w"
  "bw_sync (put_session s w) = bw_sync w" "bw_sessions (put_session s w) = dset (bn_session_id s) s (bw_sessions w)"
  by (simp_all add: put_session_def)

text \<open>The handshake, with the transitions worked out.\<close>

lemma client_eval:
  "execute_client_bootstrap cy isoformat listed tc now sid local send w =
     (let w0 = put_session (new_bootstrap_session sid now) w in
      case local of None \<Rightarrow> (Inl (bootstrap_error ''Local logical identity is missing''), w0)
      | Some me \<Rightarrow> (case bw_sync w of None \<Rightarrow> (Inl (bootstrap_error ''SyncService is not initialized''), w0)
        | Some sy \<Rightarrow> (case send (client_request cy isoformat (in_state B_AUTHENTICATING sid now) me (sy_keypair sy)) of
            Inl e \<Rightarrow> (Inl (bootstrap_error (''Transport transmission failed: '' @ exn_msg e)),
              put_session (in_state B_FAILED sid now) w0)
          | Inr resp \<Rightarrow>
              if \<not> br_accepted resp
              then (Inl (bootstrap_rejected (ni_node_id me) (br_rejection_reason resp)), put_session (in_state B_REJECTED sid now) w0)
              else (case grant_trust tc now (br_authority_node_id resp) (Some (br_authority_public_key resp)) REL_INFRASTRUCTURE
                      ''Bootstrap Authority'' None (bw_trust w) (bw_disk w) of
                 (Inl e, ts, dk, evs) \<Rightarrow> (Inl e, w0\<lparr>bw_trust := ts, bw_disk := dk\<rparr>)
               | (Inr _, ts, dk, evs) \<Rightarrow> (Inr (in_state B_READY sid now),
                   put_session (in_state B_READY sid now)
                     (w0\<lparr>bw_trust := ts, bw_disk := dk, bw_sync := Some (increment_local_version sy)\<rparr>))))))"
  by (simp add: execute_client_bootstrap_def advance_start advance_authenticating advance_answered finish_client_def
      Let_def del: advance.simps split: option.split sum.split prod.split)

lemma grant_error: "grant_trust tc now n key rel al meta ts dk = (Inl e, ts', dk', evs) \<Longrightarrow> \<exists>m. e = trust_store_error m"
  by (auto simp: grant_trust_def store_record_def trust_save_def Let_def split: prod.splits sum.splits option.splits)

text \<open>
  Whatever the transport answers, the handshake ends: it succeeds exactly with a READY session,
  which is the one remembered; it fails with a \<open>BootstrapError\<close> or an error of the trust store, and then
  the remembered session is FAILED, REJECTED or still UNINITIALIZED. The trust of the
  device changes only when a response has accepted it, and its version only on success.
\<close>

theorem client_bootstrap_outcome:
  "case execute_client_bootstrap cy isoformat listed tc now sid local send w of (res, w') \<Rightarrow>
     \<exists>s. dget (bw_sessions w') sid = Some s
       \<and> (case res of
            Inr x \<Rightarrow> x = s \<and> b_is_successful s
              \<and> (\<exists>sy. bw_sync w = Some sy \<and> bw_sync w' = Some (increment_local_version sy))
          | Inl e \<Rightarrow> bn_state s \<in> {B_UNINITIALIZED, B_FAILED, B_REJECTED} \<and> bw_sync w' = bw_sync w
              \<and> (isinst e (Bootstrap_Exn BootstrapError) \<or> (\<exists>m. e = trust_store_error m)))
       \<and> ((bw_trust w', bw_disk w') = (bw_trust w, bw_disk w)
          \<or> (\<exists>me sy resp. local = Some me \<and> bw_sync w = Some sy \<and> br_accepted resp
               \<and> send (client_request cy isoformat (in_state B_AUTHENTICATING sid now) me (sy_keypair sy)) = Inr resp))"
proof -
  have base: "bn_session_id (new_bootstrap_session sid now) = sid" "bn_state (new_bootstrap_session sid now) = B_UNINITIALIZED"
    by (simp_all add: new_bootstrap_session_def)
  have errs: "isinst (bootstrap_error m) (Bootstrap_Exn BootstrapError)"
    "isinst (bootstrap_rejected n m) (Bootstrap_Exn BootstrapError)" for m n
    by (simp_all add: bootstrap_error_def bootstrap_rejected_def exn_simps)
  show ?thesis
    unfolding client_eval Let_def
    by (auto simp: base errs b_is_successful_def split: option.split sum.split prod.split dest: grant_error)
qed

text \<open>
  C22. A handshake between a device and an authority that has not revoked it enrols both: the client's session
  ends READY, the client trusts the authority under its key, and the authority trusts the
  client under the key the client signs with.
\<close>

theorem bootstrap_enrols_both:
  assumes cy: "crypto_ok cy" and codec: "codec_ok tc"
    and client: "trust_ready (bw_trust w) (bw_disk w)" "bw_sync w = Some sy" "public_key_b64 cy (sy_keypair sy) \<noteq> []"
    and auth: "trust_ready ts dk" "akey \<noteq> []"
    and known: "tr_status (dget_or (ts_records ts) (ni_node_id me) (unknown_record now (ni_node_id me))) \<noteq> TRUST_REVOKED"
    and send: "send = (\<lambda>q. fst (handle_incoming_request cy isoformat tc now (Some home) (Some akey) q ts dk))"
  shows "\<exists>s w' resp ts' dk' evs r a.
      execute_client_bootstrap cy isoformat listed tc now sid (Some me) send w = (Inr s, w') \<and> b_is_successful s
    \<and> handle_incoming_request cy isoformat tc now (Some home) (Some akey)
        (client_request cy isoformat (in_state B_AUTHENTICATING sid now) me (sy_keypair sy)) ts dk = (Inr resp, ts', dk', evs)
    \<and> dget (ts_records ts') (ni_node_id me) = Some r \<and> tr_is_trusted r
    \<and> tr_public_key r = Some (public_key_b64 cy (sy_keypair sy))
    \<and> dget (ts_records (bw_trust w')) (ni_node_id home) = Some a \<and> tr_is_trusted a \<and> tr_public_key a = Some akey
    \<and> tr_relationship a = REL_INFRASTRUCTURE"
proof -
  let ?q = "client_request cy isoformat (in_state B_AUTHENTICATING sid now) me (sy_keypair sy)"
  have q: "bq_node_id ?q = ni_node_id me" "bq_public_key ?q = public_key_b64 cy (sy_keypair sy)"
    by (simp_all add: client_request_def Let_def)
  obtain r ts' dk' evs where
    g: "grant_trust tc now (ni_node_id me) (Some (public_key_b64 cy (sy_keypair sy))) REL_PEER
           (str_or (bq_node_name ?q) (''node-'' @ take 8 (ni_node_id me))) None ts dk = (Inr r, ts', dk', evs)"
    "dget (ts_records ts') (ni_node_id me) = Some r"
    and r: "r = granted_record now (ni_node_id me) (Some (public_key_b64 cy (sy_keypair sy))) REL_PEER
           (str_or (bq_node_name ?q) (''node-'' @ take 8 (ni_node_id me))) None (dget (ts_records ts) (ni_node_id me))"
    using grant_ready [OF codec auth(1)] by blast
  obtain sig where sig: "b64decode (bq_signature ?q) = Inr sig"
    "verify_with_public_key cy (public_key_b64 cy (sy_keypair sy))
       (signable isoformat (bq_request_id ?q) (ni_node_id me) (public_key_b64 cy (sy_keypair sy)) (bq_timestamp ?q)) sig"
    using client_request_verifies [OF cy, of isoformat "in_state B_AUTHENTICATING sid now" me "sy_keypair sy"]
    by (auto simp: request_verifies_def q)
  define resp where "resp = \<lparr>br_request_id = bq_request_id ?q, br_accepted = True,
      br_authority_node_id = ni_node_id home, br_authority_public_key = akey,
      br_rejection_reason = [], br_outcome = BO_SUCCESS, br_timestamp = now\<rparr>"
  have reply: "handle_incoming_request cy isoformat tc now (Some home) (Some akey) ?q ts dk = (Inr resp, ts', dk', evs)"
    using sig g known by (simp add: handle_incoming_request_def Let_def q get_record_ready [OF auth(1)] resp_def)
  obtain a ts2 dk2 evs2 where
    a: "grant_trust tc now (ni_node_id home) (Some akey) REL_INFRASTRUCTURE ''Bootstrap Authority'' None
           (bw_trust w) (bw_disk w) = (Inr a, ts2, dk2, evs2)" "dget (ts_records ts2) (ni_node_id home) = Some a"
    and a_def: "a = granted_record now (ni_node_id home) (Some akey) REL_INFRASTRUCTURE ''Bootstrap Authority'' None
           (dget (ts_records (bw_trust w)) (ni_node_id home))"
    using grant_ready [OF codec client(1)] by blast
  have "\<exists>w'. execute_client_bootstrap cy isoformat listed tc now sid (Some me) send w = (Inr (in_state B_READY sid now), w')
      \<and> bw_trust w' = ts2"
    using a(1) reply client(2) by (simp add: client_eval Let_def send) (simp add: resp_def)
  then obtain w' where "execute_client_bootstrap cy isoformat listed tc now sid (Some me) send w = (Inr (in_state B_READY sid now), w')"
    "bw_trust w' = ts2" by blast
  moreover have "tr_relationship a = REL_INFRASTRUCTURE"
    by (simp add: a_def granted_record_def with_status_def split: option.split)
  ultimately show ?thesis
    using reply g(2) a(2) client(3) auth(2)
    by (intro exI [of _ "in_state B_READY sid now"] exI [of _ w'] exI [of _ resp] exI [of _ ts'] exI [of _ dk'] exI [of _ evs]
        exI [of _ r] exI [of _ a]) (simp add: b_is_successful_def r a_def granted_key)
qed

definition joining :: "string bootstrap_world" where
  "joining = \<lparr>bw_sessions = [], bw_trust = new_trust_service True\<lparr>ts_initialized := True\<rparr>, bw_disk = empty_disk,
     bw_sync = Some (new_sync_service ''b'' ''kb'' True 10)\<rparr>"

definition authority_1 :: node_identity where
  "authority_1 = owner_1\<lparr>ni_node_id := ''home''\<rparr>"

theorem bootstrap_enrols_both_witness:
  "\<exists>s w' a. execute_client_bootstrap toy_crypto (\<lambda>t. []) (\<lambda>x. []) unary_codec 3 ''s'' (Some owner_1)
      (\<lambda>q. fst (handle_incoming_request toy_crypto (\<lambda>t. []) unary_codec 3 (Some authority_1) (Some ''key'') q
              (trusting ''c'' None) empty_disk)) joining = (Inr s, w')
     \<and> bn_state s = B_READY \<and> dget (ts_records (bw_trust w')) ''home'' = Some a \<and> tr_is_trusted a"
proof -
  have w: "trust_ready (bw_trust joining) (bw_disk joining)" "bw_sync joining = Some (new_sync_service ''b'' ''kb'' True 10)"
    "public_key_b64 toy_crypto (sy_keypair (new_sync_service ''b'' ''kb'' True 10)) \<noteq> []"
    by (simp_all add: joining_def trust_ready_def empty_disk_def new_trust_service_def dict_ok_def new_sync_service_def
        public_key_b64_def toy_crypto_def)
  have "tr_status (dget_or (ts_records (trusting ''c'' None)) (ni_node_id owner_1) (unknown_record 3 (ni_node_id owner_1)))
      \<noteq> TRUST_REVOKED"
    by (simp add: trusting_def owner_1_def dget_or_def unknown_record_def)
  from bootstrap_enrols_both [OF toy_crypto_ok unary_codec_ok w trusting_ready _ this refl,
      where akey = "''key''" and listed = "\<lambda>x. []" and sid = "''s''" and isoformat = "\<lambda>t. []" and home = authority_1]
  obtain s w' a where "execute_client_bootstrap toy_crypto (\<lambda>t. []) (\<lambda>x. []) unary_codec 3 ''s'' (Some owner_1)
      (\<lambda>q. fst (handle_incoming_request toy_crypto (\<lambda>t. []) unary_codec 3 (Some authority_1) (Some ''key'') q
              (trusting ''c'' None) empty_disk)) joining = (Inr s, w')"
    "b_is_successful s" "dget (ts_records (bw_trust w')) (ni_node_id authority_1) = Some a" "tr_is_trusted a" by blast
  then show ?thesis by (auto simp: authority_1_def b_is_successful_def)
qed

text \<open>
  Recovery by scenario: a lost identity is replaced by a fresh one unless it cannot be written,
  with keys and synchronisation untouched; lost state advances the local version by one when there is a
  synchronisation service and raises \<open>RecoveryError\<close> otherwise; every other scenario reports failure and changes nothing.
\<close>

theorem recovery_outcome:
  "case recover_device tc fresh now host q (im, dk, sync) of (res, im', dk', sync') \<Rightarrow>
     (case rq_scenario q of
        IDENTITY_LOST \<Rightarrow> sync' = sync \<and> id_private_file dk' = id_private_file dk \<and> id_public_file dk' = id_public_file dk
          \<and> (case id_node_error dk of
               Some m \<Rightarrow> res = Inl (identity_error m) \<and> im' = im \<and> dk' = dk
             | None \<Rightarrow> \<exists>r. res = Inr r \<and> rr_success r \<and> rr_new_node_id r = fresh
                 \<and> map_option ni_node_id (im_identity im') = Some fresh)
      | STATE_LOST_IDENTITY_INTACT \<Rightarrow> im' = im \<and> dk' = dk
          \<and> (case sync of
               None \<Rightarrow> sync' = None \<and> (\<exists>e. res = Inl e \<and> exn_class e = Bootstrap_Exn RecoveryError)
             | Some sy \<Rightarrow> (\<exists>r sy'. res = Inr r \<and> rr_success r \<and> sync' = Some sy'
                 \<and> get_version (sy_version_map sy') (sy_local_node_id sy') = get_version (sy_version_map sy) (sy_local_node_id sy) + 1))
      | _ \<Rightarrow> (im', dk', sync') = (im, dk, sync) \<and> (\<exists>r. res = Inr r \<and> \<not> rr_success r))"
proof (cases "rq_scenario q")
  case IDENTITY_LOST
  then show ?thesis
    by (cases "id_node_error dk") (simp_all add: recover_device_def create_identity_def Let_def)
next
  case STATE_LOST_IDENTITY_INTACT
  then show ?thesis
    by (cases sync) (simp_all add: recover_device_def recovery_error_def increment_local_version_def Let_def
        get_version_def with_update_def dget_or_def)
qed (simp_all add: recover_device_def Let_def)

end
