(* ===== verification/Shyam_Readiness.thy ===== *)
theory Shyam_Readiness
  imports Shyam_Flux Shyam_Zarya
begin

section \<open>Readiness of the ecosystem\<close>

text \<open>
  \<open>core/readiness.py\<close>. The tracker polls the two gateways through their provider contract, registers a gateway's
  provider and capabilities when it becomes READY, and derives one readiness from the states of the
  enabled components. \<open>evaluate_gateway\<close> is the common body of \<open>_evaluate_zarya\<close> and
  \<open>_evaluate_flux\<close>. What the gateways answer during a poll are their clients. The polling loop is a sequence of polls.
\<close>

subsection \<open>States\<close>

datatype component_state = COMP_READY | COMP_STARTING | COMP_DEGRADED | COMP_UNKNOWN | COMP_UNAVAILABLE | COMP_FAILED

fun component_state_value :: "component_state \<Rightarrow> string" where
  "component_state_value COMP_UNKNOWN = ''unknown''"
| "component_state_value COMP_STARTING = ''starting''"
| "component_state_value COMP_READY = ''ready''"
| "component_state_value COMP_DEGRADED = ''degraded''"
| "component_state_value COMP_UNAVAILABLE = ''unavailable''"
| "component_state_value COMP_FAILED = ''failed''"

text \<open>The states by how far they are from ready.\<close>

fun distance :: "component_state \<Rightarrow> nat" where
  "distance COMP_READY = 0"
| "distance COMP_STARTING = 1"
| "distance COMP_DEGRADED = 2"
| "distance COMP_UNKNOWN = 3"
| "distance COMP_UNAVAILABLE = 4"
| "distance COMP_FAILED = 5"

lemma distance_inj [simp]: "distance x = distance y \<longleftrightarrow> x = y"
  by (cases x; cases y) simp_all

instantiation component_state :: linorder
begin

definition less_eq_component_state :: "component_state \<Rightarrow> component_state \<Rightarrow> bool" where
  "x \<le> y \<longleftrightarrow> distance x \<le> distance y"

definition less_component_state :: "component_state \<Rightarrow> component_state \<Rightarrow> bool" where
  "x < y \<longleftrightarrow> distance x < distance y"

instance
  by standard (auto simp: less_eq_component_state_def less_component_state_def)

end

datatype ecosystem_readiness = ECO_STARTING | ECO_READY | ECO_DEGRADED | ECO_UNAVAILABLE

record component_snapshot =
  sn_component :: string
  sn_state :: component_state
  sn_last_checked_at :: time
  sn_error :: "string option"
  sn_metadata :: "(string, pyval) dict"

record readiness_snapshot =
  rs_readiness :: ecosystem_readiness
  rs_components :: "(string, component_snapshot) dict"
  rs_evaluated_at :: time
  rs_is_ready :: bool
  rs_details :: string

text \<open>The events a poll publishes, those of the registries among them.\<close>

datatype readiness_event =
    ComponentReadinessChangedEvent string component_state component_state "string option"
  | EcosystemReadinessChangedEvent ecosystem_readiness ecosystem_readiness "(string, component_state) dict"
  | Registry_Provider provider_event
  | Registry_Capability capability_event

subsection \<open>The tracker\<close>

record readiness_tracker =
  rt_zarya_enabled :: bool
  rt_flux_enabled :: bool
  rt_components :: "(string, component_snapshot) dict"
  rt_readiness :: ecosystem_readiness
  rt_running :: bool

text \<open>The services it observes and updates; each may be absent.\<close>

record readiness_world =
  rw_zarya :: "zarya_provider option"
  rw_flux :: "flux_provider option"
  rw_providers :: "provider_registry option"
  rw_capabilities :: "capability_registry option"

definition observed :: "string \<Rightarrow> component_state \<Rightarrow> time \<Rightarrow> component_snapshot" where
  "observed name st now = \<lparr>sn_component = name, sn_state = st, sn_last_checked_at = now, sn_error = None, sn_metadata = []\<rparr>"

definition new_readiness_tracker :: "bool \<Rightarrow> bool \<Rightarrow> time \<Rightarrow> readiness_tracker" where
  "new_readiness_tracker zarya flux now =
     \<lparr>rt_zarya_enabled = zarya, rt_flux_enabled = flux,
      rt_components = [(''node'', observed ''node'' COMP_STARTING now)]
        @ (if zarya then [(''zarya'', observed ''zarya'' COMP_STARTING now)] else [])
        @ (if flux then [(''flux'', observed ''flux'' COMP_STARTING now)] else []),
      rt_readiness = ECO_STARTING, rt_running = False\<rparr>"

definition rt_is_ready :: "readiness_tracker \<Rightarrow> bool" where
  "rt_is_ready t \<longleftrightarrow> rt_readiness t = ECO_READY"

definition state_of :: "readiness_tracker \<Rightarrow> string \<Rightarrow> component_state" where
  "state_of t name = (case dget (rt_components t) name of None \<Rightarrow> COMP_UNKNOWN | Some s \<Rightarrow> sn_state s)"

definition put_component :: "component_snapshot \<Rightarrow> readiness_tracker \<Rightarrow> readiness_tracker" where
  "put_component s t = t\<lparr>rt_components := dset (sn_component s) s (rt_components t)\<rparr>"

definition set_node_ready :: "time \<Rightarrow> readiness_tracker \<Rightarrow> readiness_tracker \<times> readiness_event list" where
  "set_node_ready now t =
     (let old = state_of t ''node'' in
      (put_component (observed ''node'' COMP_READY now) t,
       if old \<noteq> COMP_READY then [ComponentReadinessChangedEvent ''node'' old COMP_READY None] else []))"

text \<open>The state of a gateway, and the gateway after it has been asked.\<close>

definition check_gateway ::
  "('s \<Rightarrow> bool) \<Rightarrow> ('c \<Rightarrow> 's \<Rightarrow> bool result \<times> 's) \<Rightarrow> ('c \<Rightarrow> 's \<Rightarrow> availability \<times> 's) \<Rightarrow> 'c \<Rightarrow> 's
     \<Rightarrow> (component_state \<times> string option) \<times> 's" where
  "check_gateway connected connect refresh c s =
     (if \<not> connected s
      then (case connect c s of
              (Inl e, s') \<Rightarrow> ((COMP_FAILED, Some (exn_msg e)), s')
            | (Inr True, s') \<Rightarrow> ((COMP_READY, None), s')
            | (Inr False, s') \<Rightarrow> ((COMP_UNAVAILABLE, None), s'))
      else (case refresh c s of (a, s') \<Rightarrow>
              ((if a = AVAILABLE then COMP_READY else if a = REGISTERED then COMP_STARTING else COMP_UNAVAILABLE, None), s')))"

fun register_all ::
  "capability list \<Rightarrow> capability_registry \<times> readiness_event list
     \<Rightarrow> (capability_registry \<times> readiness_event list) result" where
  "register_all [] acc = Inr acc"
| "register_all (c # cs) (r, evs) =
     (case cr_register r c True of Inl e \<Rightarrow> Inl e
      | Inr (r', es) \<Rightarrow> register_all cs (r', evs @ map Registry_Capability es))"

text \<open>\<open>_on_zarya_ready\<close> and \<open>_on_flux_ready\<close>: the registries are updated one after the other.\<close>

definition on_gateway_ready ::
  "provider result \<Rightarrow> capability list \<Rightarrow> readiness_world \<Rightarrow> readiness_event list result \<times> readiness_world" where
  "on_gateway_ready descriptor caps w =
     (case (case rw_providers w of
              None \<Rightarrow> Inr (None, [])
            | Some r \<Rightarrow> (case descriptor of Inl e \<Rightarrow> Inl e
                | Inr p \<Rightarrow> (case pr_register r p True of Inl e \<Rightarrow> Inl e
                    | Inr (r', es) \<Rightarrow> Inr (Some r', map Registry_Provider es)))) of
        Inl e \<Rightarrow> (Inl e, w)
      | Inr (pr, evs) \<Rightarrow>
          let w1 = w\<lparr>rw_providers := pr\<rparr> in
          (case rw_capabilities w1 of
             None \<Rightarrow> (Inr evs, w1)
           | Some r \<Rightarrow> (case register_all caps (r, evs) of
               Inl e \<Rightarrow> (Inl e, w1)
             | Inr (r', evs') \<Rightarrow> (Inr evs', w1\<lparr>rw_capabilities := Some r'\<rparr>))))"

text \<open>What follows the check; \<open>w\<close> holds the gateway after it.\<close>

definition evaluate_gateway ::
  "string \<Rightarrow> time \<Rightarrow> component_state \<times> string option \<Rightarrow> (string, pyval) dict \<Rightarrow> provider result \<Rightarrow> capability list
     \<Rightarrow> readiness_tracker \<Rightarrow> readiness_world
     \<Rightarrow> readiness_event list result \<times> readiness_tracker \<times> readiness_world" where
  "evaluate_gateway name now checked meta descriptor caps t w =
     (let old = state_of t name; (new, err) = checked;
          (res, w') = (if new = COMP_READY \<and> old \<noteq> COMP_READY then on_gateway_ready descriptor caps w else (Inr [], w)) in
      case res of
        Inl e \<Rightarrow> (Inl e, t, w')
      | Inr evs \<Rightarrow>
          (Inr (evs @ (if old \<noteq> new then [ComponentReadinessChangedEvent name old new err] else [])),
           put_component \<lparr>sn_component = name, sn_state = new, sn_last_checked_at = now, sn_error = err,
                          sn_metadata = meta\<rparr> t, w'))"

definition evaluate_zarya ::
  "zarya_client \<Rightarrow> time \<Rightarrow> zarya_provider \<Rightarrow> readiness_tracker \<Rightarrow> readiness_world
     \<Rightarrow> readiness_event list result \<times> readiness_tracker \<times> readiness_world" where
  "evaluate_zarya c now z t w =
     (case check_gateway zp_is_connected zp_connect zp_refresh_status c z of (checked, z') \<Rightarrow>
        evaluate_gateway ''zarya'' now checked [] (zp_descriptor z') (zp_discovered_capabilities z') t
          (w\<lparr>rw_zarya := Some z'\<rparr>))"

definition flux_meta :: "component_state \<times> string option \<Rightarrow> flux_provider \<Rightarrow> (string, pyval) dict" where
  "flux_meta checked f =
     (if fst checked \<noteq> COMP_FAILED \<and> truthy_opt (fp_peer_id f)
      then [(''peer_id'', PStr (the (fp_peer_id f)))] else [])"

definition evaluate_flux ::
  "flux_client \<Rightarrow> time \<Rightarrow> flux_provider \<Rightarrow> readiness_tracker \<Rightarrow> readiness_world
     \<Rightarrow> readiness_event list result \<times> readiness_tracker \<times> readiness_world" where
  "evaluate_flux c now f t w =
     (case check_gateway fp_is_connected fp_connect fp_refresh_status c f of (checked, f') \<Rightarrow>
        evaluate_gateway ''flux'' now checked (flux_meta checked f') (fp_descriptor f') (fp_capability_definitions f') t
          (w\<lparr>rw_flux := Some f'\<rparr>))"

definition active_states :: "readiness_tracker \<Rightarrow> component_state list" where
  "active_states t =
     (if rt_zarya_enabled t \<and> dmem ''zarya'' (rt_components t) then [state_of t ''zarya''] else [])
     @ (if rt_flux_enabled t \<and> dmem ''flux'' (rt_components t) then [state_of t ''flux''] else [])"

definition derive_readiness :: "readiness_tracker \<Rightarrow> ecosystem_readiness" where
  "derive_readiness t =
     (if state_of t ''node'' \<noteq> COMP_READY then ECO_STARTING
      else let ss = active_states t in
        if ss = [] then ECO_READY
        else if list_all (\<lambda>s. s = COMP_READY) ss then ECO_READY
        else if list_ex (\<lambda>s. s = COMP_READY) ss then ECO_DEGRADED
        else if list_ex (\<lambda>s. s = COMP_STARTING) ss then ECO_STARTING
        else ECO_DEGRADED)"

definition evaluate_ecosystem :: "readiness_tracker \<Rightarrow> readiness_event list \<times> readiness_tracker" where
  "evaluate_ecosystem t =
     (let old = rt_readiness t; new = derive_readiness t in
      (if old \<noteq> new
       then [EcosystemReadinessChangedEvent old new (map (\<lambda>(k, s). (k, sn_state s)) (rt_components t))] else [],
       t\<lparr>rt_readiness := new\<rparr>))"

text \<open>The two parts of a poll, each skipped when its gateway is absent or disabled.\<close>

definition poll_zarya ::
  "zarya_client \<Rightarrow> time \<Rightarrow> readiness_tracker \<Rightarrow> readiness_world
     \<Rightarrow> readiness_event list result \<times> readiness_tracker \<times> readiness_world" where
  "poll_zarya zc now t w = (case rw_zarya w of
      Some z \<Rightarrow> if rt_zarya_enabled t then evaluate_zarya zc now z t w else (Inr [], t, w) | None \<Rightarrow> (Inr [], t, w))"

definition poll_flux ::
  "flux_client \<Rightarrow> time \<Rightarrow> readiness_tracker \<Rightarrow> readiness_world
     \<Rightarrow> readiness_event list result \<times> readiness_tracker \<times> readiness_world" where
  "poll_flux fc now t w = (case rw_flux w of
      Some f \<Rightarrow> if rt_flux_enabled t then evaluate_flux fc now f t w else (Inr [], t, w) | None \<Rightarrow> (Inr [], t, w))"

definition poll_all ::
  "zarya_client \<Rightarrow> flux_client \<Rightarrow> time \<Rightarrow> readiness_tracker \<Rightarrow> readiness_world
     \<Rightarrow> readiness_event list result \<times> readiness_tracker \<times> readiness_world" where
  "poll_all zc fc now t w =
     (case poll_zarya zc now t w of
        (Inl e, t1, w1) \<Rightarrow> (Inl e, t1, w1)
      | (Inr evs1, t1, w1) \<Rightarrow>
          (case poll_flux fc now t1 w1 of
             (Inl e, t2, w2) \<Rightarrow> (Inl e, t2, w2)
           | (Inr evs2, t2, w2) \<Rightarrow>
               (case evaluate_ecosystem t2 of (evs3, t3) \<Rightarrow> (Inr (evs1 @ evs2 @ evs3), t3, w2))))"

definition build_snapshot :: "time \<Rightarrow> readiness_tracker \<Rightarrow> readiness_snapshot" where
  "build_snapshot now t =
     \<lparr>rs_readiness = rt_readiness t, rs_components = rt_components t, rs_evaluated_at = now, rs_is_ready = rt_is_ready t,
      rs_details = join_with '', ''
        (map (\<lambda>(name, s). name @ '': '' @ upper (component_state_value (sn_state s))) (rt_components t))\<rparr>"

definition poll_now ::
  "zarya_client \<Rightarrow> flux_client \<Rightarrow> time \<Rightarrow> readiness_tracker \<Rightarrow> readiness_world
     \<Rightarrow> readiness_snapshot result \<times> readiness_tracker \<times> readiness_world" where
  "poll_now zc fc now t w =
     (case poll_all zc fc now t w of
        (Inl e, t', w') \<Rightarrow> (Inl e, t', w')
      | (Inr evs, t', w') \<Rightarrow> (Inr (build_snapshot now t'), t', w'))"

text \<open>\<open>start\<close>: a poll that raises leaves the tracker marked as running, without its loop.\<close>

definition start_tracker ::
  "zarya_client \<Rightarrow> flux_client \<Rightarrow> time \<Rightarrow> readiness_tracker \<Rightarrow> readiness_world
     \<Rightarrow> readiness_event list result \<times> readiness_tracker \<times> readiness_world" where
  "start_tracker zc fc now t w =
     (if rt_running t then (Inr [], t, w) else poll_all zc fc now (t\<lparr>rt_running := True\<rparr>) w)"

definition stop_tracker :: "readiness_tracker \<Rightarrow> readiness_tracker" where
  "stop_tracker t = t\<lparr>rt_running := False\<rparr>"

subsection \<open>The readiness of the ecosystem\<close>

text \<open>The specification: all components ready; else the best one decides.\<close>

definition aggregate :: "component_state set \<Rightarrow> ecosystem_readiness" where
  "aggregate S = (if S = {} \<or> Max S = COMP_READY then ECO_READY
                  else if Min S = COMP_STARTING then ECO_STARTING else ECO_DEGRADED)"

lemma ready_least [simp]: "COMP_READY \<le> s"
  by (simp add: less_eq_component_state_def)

lemma starting_least: "s \<noteq> COMP_READY \<Longrightarrow> COMP_STARTING \<le> s"
  by (cases s) (simp_all add: less_eq_component_state_def)

lemma Max_ready: "finite S \<Longrightarrow> S \<noteq> {} \<Longrightarrow> Max S = COMP_READY \<longleftrightarrow> (\<forall>s \<in> S. s = COMP_READY)"
proof
  assume S: "finite S" "S \<noteq> {}" and "Max S = COMP_READY"
  then have "s \<le> COMP_READY" if "s \<in> S" for s using Max_ge [OF S(1) that] by simp
  then show "\<forall>s \<in> S. s = COMP_READY" by (auto intro: antisym)
next
  assume S: "finite S" "S \<noteq> {}" and "\<forall>s \<in> S. s = COMP_READY"
  then show "Max S = COMP_READY" using Max_in [OF S] by blast
qed

lemma Min_starting:
  assumes "finite S" "S \<noteq> {}"
  shows "Min S = COMP_STARTING \<longleftrightarrow> COMP_READY \<notin> S \<and> COMP_STARTING \<in> S"
proof
  assume "Min S = COMP_STARTING"
  moreover have "Min S \<in> S" using assms by (rule Min_in)
  moreover have "COMP_READY \<in> S \<Longrightarrow> Min S \<le> COMP_READY" using assms(1) by (rule Min_le)
  ultimately show "COMP_READY \<notin> S \<and> COMP_STARTING \<in> S"
    by (metis antisym component_state.distinct(1) ready_least)
next
  assume a: "COMP_READY \<notin> S \<and> COMP_STARTING \<in> S"
  then have "COMP_STARTING \<le> s" if "s \<in> S" for s using that by (intro starting_least) blast
  with a show "Min S = COMP_STARTING" using assms by (intro Min_eqI) auto
qed

lemma derive_aggregate:
  "derive_readiness t = (if state_of t ''node'' \<noteq> COMP_READY then ECO_STARTING else aggregate (set (active_states t)))"
proof (cases "active_states t = []")
  case True
  then show ?thesis by (simp add: derive_readiness_def aggregate_def)
next
  case False
  then have S: "finite (set (active_states t))" "set (active_states t) \<noteq> {}" by simp_all
  show ?thesis
    using False by (auto simp: derive_readiness_def aggregate_def Let_def Max_ready [OF S] Min_starting [OF S]
        list_all_iff list_ex_iff)
qed

subsection \<open>One gateway\<close>

context gateway
begin

lemma check_ready:
  assumes "check_gateway connected connect refresh c s = ((COMP_READY, err), s')"
  shows "connected s' \<and> err = None"
  using assms connect_result [of c s True s'] refresh_lost [of c s]
  by (auto simp: check_gateway_def split: if_splits prod.splits sum.splits bool.splits)

lemma check_unavailable:
  assumes "check_gateway connected connect refresh c s = ((st, err), s')" and "\<not> connected s'"
  shows "st = COMP_UNAVAILABLE \<or> st = COMP_FAILED"
  using assms connect_result [of c s True s'] refresh_lost [of c s]
  by (auto simp: check_gateway_def split: if_splits prod.splits sum.splits bool.splits)

end

lemma register_all_eq: "\<exists>es. register_all cs (r, evs) = Inr (fold cr_store cs r, evs @ es)"
proof (induction cs arbitrary: r evs)
  case Nil
  then show ?case by simp
next
  case (Cons c cs)
  obtain es where "cr_register r c True = Inr (cr_store c r, es)" by (simp add: cr_register_def Let_def)
  then show ?case using Cons [of "cr_store c r" "evs @ map Registry_Capability es"] by auto
qed

lemma fold_store_contains:
  "cr_ok r \<Longrightarrow> cr_ok (fold cr_store cs r)
     \<and> (\<forall>c \<in> set cs. cr_contains (fold cr_store cs r) (cap_id c))
     \<and> (\<forall>i. cr_contains r i \<longrightarrow> cr_contains (fold cr_store cs r) i)"
proof (induction cs arbitrary: r)
  case Nil
  then show ?case by simp
next
  case (Cons c cs)
  have "cr_ok (cr_store c r)" using Cons.prems by (rule cr.inv_insert)
  from Cons.IH [OF this] show ?case by (auto simp: cr_contains_def cr_store_def dmem_def)
qed

text \<open>The registries once a gateway has been registered.\<close>

definition registered_gateway :: "provider \<Rightarrow> capability list \<Rightarrow> readiness_world \<Rightarrow> readiness_world" where
  "registered_gateway p caps w = w\<lparr>rw_providers := map_option (pr_store p) (rw_providers w),
     rw_capabilities := map_option (fold cr_store caps) (rw_capabilities w)\<rparr>"

lemma on_gateway_ready_eq:
  "\<exists>evs. on_gateway_ready (Inr p) caps w = (Inr evs, registered_gateway p caps w)"
proof -
  have caps: "\<exists>es. register_all caps (r, evs) = Inr (fold cr_store caps r, es)" for r evs
    using register_all_eq [of caps r evs] by blast
  obtain evs where "on_gateway_ready (Inr p) caps w = (case rw_capabilities w of
      None \<Rightarrow> (Inr evs, w\<lparr>rw_providers := map_option (pr_store p) (rw_providers w)\<rparr>)
    | Some r \<Rightarrow> (case register_all caps (r, evs) of Inl e \<Rightarrow> (Inl e, w\<lparr>rw_providers := map_option (pr_store p) (rw_providers w)\<rparr>)
        | Inr (r', evs') \<Rightarrow> (Inr evs', w\<lparr>rw_providers := map_option (pr_store p) (rw_providers w),
            rw_capabilities := Some r'\<rparr>)))"
  proof (cases "rw_providers w")
    case None
    then show ?thesis by (intro that [of "[]"]) (simp add: on_gateway_ready_def Let_def split: option.split sum.split)
  next
    case (Some r)
    obtain es where "pr_register r p True = Inr (pr_store p r, es)" using pr_register_overwrite by blast
    with Some show ?thesis by (intro that [of "map Registry_Provider es"])
      (simp add: on_gateway_ready_def Let_def split: option.split sum.split)
  qed
  moreover obtain es where "register_all caps (r, evs) = Inr (fold cr_store caps r, es r)" for r
    using caps [of _ evs] by metis
  ultimately show ?thesis by (cases "rw_capabilities w") (auto simp: registered_gateway_def)
qed

lemma on_gateway_ready_raises: "on_gateway_ready (Inl e) caps w = (Inl e', w') \<Longrightarrow> w' = w"
  by (auto simp: on_gateway_ready_def Let_def split: option.splits sum.splits prod.splits)

subsection \<open>Polls\<close>

lemma put_component_state [simp]:
  "state_of (put_component s t) k = (if k = sn_component s then sn_state s else state_of t k)"
  "rt_readiness (put_component s t) = rt_readiness t"
  "rt_zarya_enabled (put_component s t) = rt_zarya_enabled t" "rt_flux_enabled (put_component s t) = rt_flux_enabled t"
  "rt_running (put_component s t) = rt_running t"
  by (simp_all add: put_component_def state_of_def)

lemma put_component_mem [simp]:
  "dmem k (rt_components (put_component s t)) \<longleftrightarrow> k = sn_component s \<or> dmem k (rt_components t)"
  by (simp add: put_component_def)

text \<open>
  What evaluating one gateway does, with the registries written out: the state of the component is
  the checked one, and only a component that becomes ready changes the registries.
\<close>

definition evaluated ::
  "string \<Rightarrow> time \<Rightarrow> component_state \<times> string option \<Rightarrow> (string, pyval) dict \<Rightarrow> readiness_tracker \<Rightarrow> readiness_tracker" where
  "evaluated name now checked meta t = put_component \<lparr>sn_component = name, sn_state = fst checked,
     sn_last_checked_at = now, sn_error = snd checked, sn_metadata = meta\<rparr> t"

lemma evaluate_gateway_unchanged:
  "fst checked \<noteq> COMP_READY \<or> state_of t name = COMP_READY \<Longrightarrow>
     evaluate_gateway name now checked meta descriptor caps t w =
       (Inr (if state_of t name \<noteq> fst checked
             then [ComponentReadinessChangedEvent name (state_of t name) (fst checked) (snd checked)] else []),
        evaluated name now checked meta t, w)"
  by (auto simp: evaluate_gateway_def evaluated_def Let_def split: prod.split)

lemma evaluate_gateway_raises:
  "fst checked = COMP_READY \<Longrightarrow> state_of t name \<noteq> COMP_READY \<Longrightarrow> descriptor = Inl e \<Longrightarrow> rw_providers w \<noteq> None \<Longrightarrow>
     evaluate_gateway name now checked meta descriptor caps t w = (Inl e, t, w)"
  by (auto simp: evaluate_gateway_def Let_def on_gateway_ready_def split: prod.split)

lemma evaluate_gateway_registers:
  assumes "fst checked = COMP_READY" "state_of t name \<noteq> COMP_READY"
  shows "\<exists>evs. evaluate_gateway name now checked meta (Inr p) caps t w
     = (Inr evs, evaluated name now checked meta t, registered_gateway p caps w)"
  using assms on_gateway_ready_eq [of p caps w] by (auto simp: evaluate_gateway_def evaluated_def Let_def split: prod.split)

lemma evaluate_gateway_Inr:
  assumes run: "evaluate_gateway name now checked meta descriptor caps t w = (Inr evs, t', w')"
  shows "t' = evaluated name now checked meta t
    \<and> (if fst checked = COMP_READY \<and> state_of t name \<noteq> COMP_READY
       then (\<exists>p. descriptor = Inr p \<and> w' = registered_gateway p caps w)
          \<or> (\<exists>e. descriptor = Inl e \<and> rw_providers w = None)
       else w' = w)"
proof (cases "fst checked = COMP_READY \<and> state_of t name \<noteq> COMP_READY")
  case False
  with run evaluate_gateway_unchanged [of checked t name now meta descriptor caps w] show ?thesis by auto
next
  case True
  have t': "t' = evaluated name now checked meta t"
    using run by (auto simp: evaluate_gateway_def evaluated_def Let_def split: prod.splits sum.splits if_splits)
  show ?thesis
  proof (cases descriptor)
    case (Inl e)
    with run True evaluate_gateway_raises [of checked t name descriptor e w now meta caps] t' show ?thesis
      by (cases "rw_providers w") auto
  next
    case (Inr p)
    with run True evaluate_gateway_registers [of checked t name now meta p caps w] t' show ?thesis by auto
  qed
qed

lemma evaluate_gateway_Inl:
  "evaluate_gateway name now checked meta descriptor caps t w = (Inl e, t', w') \<Longrightarrow> t' = t"
  by (auto simp: evaluate_gateway_def Let_def split: prod.splits sum.splits if_splits)

lemma evaluated_sel [simp]:
  "state_of (evaluated name now checked meta t) k = (if k = name then fst checked else state_of t k)"
  "rt_readiness (evaluated name now checked meta t) = rt_readiness t"
  "rt_zarya_enabled (evaluated name now checked meta t) = rt_zarya_enabled t"
  "rt_flux_enabled (evaluated name now checked meta t) = rt_flux_enabled t"
  "rt_running (evaluated name now checked meta t) = rt_running t"
  "dmem k (rt_components (evaluated name now checked meta t)) \<longleftrightarrow> k = name \<or> dmem k (rt_components t)"
  by (simp_all add: evaluated_def)

lemma evaluate_zarya_Inr:
  assumes "evaluate_zarya c now z t w = (Inr evs, t', w')"
  shows "\<exists>checked z'. check_gateway zp_is_connected zp_connect zp_refresh_status c z = (checked, z')
    \<and> t' = evaluated ''zarya'' now checked [] t \<and> rw_zarya w' = Some z' \<and> rw_flux w' = rw_flux w
    \<and> (if fst checked = COMP_READY \<and> state_of t ''zarya'' \<noteq> COMP_READY
       then (\<exists>p. zp_descriptor z' = Inr p
               \<and> w' = registered_gateway p (zp_discovered_capabilities z') (w\<lparr>rw_zarya := Some z'\<rparr>))
          \<or> rw_providers w = None
       else w' = w\<lparr>rw_zarya := Some z'\<rparr>)"
proof -
  obtain checked z' where c: "check_gateway zp_is_connected zp_connect zp_refresh_status c z = (checked, z')" by (metis prod.collapse)
  with assms have "evaluate_gateway ''zarya'' now checked [] (zp_descriptor z') (zp_discovered_capabilities z') t
      (w\<lparr>rw_zarya := Some z'\<rparr>) = (Inr evs, t', w')" by (simp add: evaluate_zarya_def)
  note run = this
  note e = evaluate_gateway_Inr [OF this]
  have "rw_zarya w' = Some z' \<and> rw_flux w' = rw_flux w"
    using run by (auto simp: evaluate_gateway_def on_gateway_ready_def Let_def
        split: prod.splits sum.splits if_splits option.splits)
  with c e show ?thesis by auto
qed

lemma evaluate_flux_Inr:
  assumes "evaluate_flux c now f t w = (Inr evs, t', w')"
  shows "\<exists>checked f'. check_gateway fp_is_connected fp_connect fp_refresh_status c f = (checked, f')
    \<and> t' = evaluated ''flux'' now checked (flux_meta checked f') t \<and> rw_flux w' = Some f' \<and> rw_zarya w' = rw_zarya w
    \<and> (if fst checked = COMP_READY \<and> state_of t ''flux'' \<noteq> COMP_READY
       then (\<exists>p. fp_descriptor f' = Inr p
               \<and> w' = registered_gateway p (fp_capability_definitions f') (w\<lparr>rw_flux := Some f'\<rparr>))
          \<or> rw_providers w = None
       else w' = w\<lparr>rw_flux := Some f'\<rparr>)"
proof -
  obtain checked f' where c: "check_gateway fp_is_connected fp_connect fp_refresh_status c f = (checked, f')" by (metis prod.collapse)
  with assms have "evaluate_gateway ''flux'' now checked (flux_meta checked f') (fp_descriptor f')
      (fp_capability_definitions f') t (w\<lparr>rw_flux := Some f'\<rparr>) = (Inr evs, t', w')" by (simp add: evaluate_flux_def)
  note run = this
  note e = evaluate_gateway_Inr [OF this]
  have "rw_flux w' = Some f' \<and> rw_zarya w' = rw_zarya w"
    using run by (auto simp: evaluate_gateway_def on_gateway_ready_def Let_def
        split: prod.splits sum.splits if_splits option.splits)
  with c e show ?thesis by auto
qed

text \<open>What a poll keeps, also when it raises.\<close>

definition tracker_ok :: "readiness_tracker \<Rightarrow> bool" where
  "tracker_ok t \<longleftrightarrow> rt_readiness t \<noteq> ECO_UNAVAILABLE
     \<and> (rt_zarya_enabled t \<longrightarrow> dmem ''zarya'' (rt_components t)) \<and> (rt_flux_enabled t \<longrightarrow> dmem ''flux'' (rt_components t))"

definition same_setup :: "readiness_tracker \<Rightarrow> readiness_tracker \<Rightarrow> bool" where
  "same_setup t t' \<longleftrightarrow> rt_zarya_enabled t' = rt_zarya_enabled t \<and> rt_flux_enabled t' = rt_flux_enabled t
     \<and> rt_readiness t' = rt_readiness t \<and> (\<forall>k. dmem k (rt_components t) \<longrightarrow> dmem k (rt_components t'))
     \<and> state_of t' ''node'' = state_of t ''node''"

lemma same_setup_refl [simp]: "same_setup t t"
  by (simp add: same_setup_def)

lemma same_setup_evaluated: "name \<noteq> ''node'' \<Longrightarrow> same_setup t (evaluated name now checked meta t)"
  by (simp add: same_setup_def)

lemma evaluate_zarya_setup: "evaluate_zarya c now z t w = (res, t', w') \<Longrightarrow> same_setup t t'"
proof (cases res)
  case (Inl e)
  moreover assume "evaluate_zarya c now z t w = (res, t', w')"
  ultimately have "t' = t" by (auto simp: evaluate_zarya_def split: prod.splits dest!: evaluate_gateway_Inl)
  then show ?thesis by simp
next
  case (Inr evs)
  moreover assume "evaluate_zarya c now z t w = (res, t', w')"
  ultimately show ?thesis using evaluate_zarya_Inr [of c now z t w evs t' w'] by (auto simp: same_setup_evaluated)
qed

lemma evaluate_flux_setup: "evaluate_flux c now f t w = (res, t', w') \<Longrightarrow> same_setup t t'"
proof (cases res)
  case (Inl e)
  moreover assume "evaluate_flux c now f t w = (res, t', w')"
  ultimately have "t' = t" by (auto simp: evaluate_flux_def split: prod.splits dest!: evaluate_gateway_Inl)
  then show ?thesis by simp
next
  case (Inr evs)
  moreover assume "evaluate_flux c now f t w = (res, t', w')"
  ultimately show ?thesis using evaluate_flux_Inr [of c now f t w evs t' w'] by (auto simp: same_setup_evaluated)
qed

lemma same_setup_trans: "same_setup t t1 \<Longrightarrow> same_setup t1 t2 \<Longrightarrow> same_setup t t2"
  by (simp add: same_setup_def)

lemma poll_part_setup:
  "poll_zarya zc now t w = (res, t', w') \<Longrightarrow> same_setup t t'"
  "poll_flux fc now t w = (res, t', w') \<Longrightarrow> same_setup t t'"
  by (auto simp: poll_zarya_def poll_flux_def split: option.splits if_splits
      dest: evaluate_zarya_setup evaluate_flux_setup)

lemma poll_all_cases:
  assumes "poll_all zc fc now t w = (res, t', w')"
  shows "(\<exists>e. res = Inl e \<and> same_setup t t')
    \<or> (\<exists>evs evs1 evs2 t1 w1 t2. res = Inr evs \<and> poll_zarya zc now t w = (Inr evs1, t1, w1)
         \<and> poll_flux fc now t1 w1 = (Inr evs2, t2, w') \<and> same_setup t t1 \<and> same_setup t1 t2
         \<and> t' = t2\<lparr>rt_readiness := derive_readiness t2\<rparr>)"
proof -
  obtain r1 t1 w1 where 1: "poll_zarya zc now t w = (r1, t1, w1)" by (metis prod_cases3)
  obtain r2 t2 w2 where 2: "poll_flux fc now t1 w1 = (r2, t2, w2)" by (metis prod_cases3)
  note s = poll_part_setup(1) [OF 1] poll_part_setup(2) [OF 2]
  have "poll_all zc fc now t w = (case r1 of Inl e \<Rightarrow> (Inl e, t1, w1)
      | Inr evs1 \<Rightarrow> (case r2 of Inl e \<Rightarrow> (Inl e, t2, w2)
        | Inr evs2 \<Rightarrow> (Inr (evs1 @ evs2 @ fst (evaluate_ecosystem t2)), snd (evaluate_ecosystem t2), w2)))"
    by (simp add: poll_all_def 1 2 split: sum.split prod.split)
  with assms 1 2 s same_setup_trans [OF s] show ?thesis
    by (auto simp: evaluate_ecosystem_def Let_def split: sum.splits)
qed

subsection \<open>Properties\<close>

text \<open>Any sequence of operations, with whatever the gateways answer and other services change in between.\<close>

inductive tracker_step :: "readiness_tracker \<Rightarrow> readiness_tracker \<Rightarrow> bool" where
  polls: "poll_all zc fc now t w = (res, t', w') \<Longrightarrow> tracker_step t t'"
| starts: "start_tracker zc fc now t w = (res, t', w') \<Longrightarrow> tracker_step t t'"
| stops: "tracker_step t (stop_tracker t)"
| readies: "tracker_step t (fst (set_node_ready now t))"

inductive_cases tracker_stepE: "tracker_step t t'"

inductive tracker_reachable :: "readiness_tracker \<Rightarrow> bool" where
  initial: "tracker_reachable (new_readiness_tracker zarya flux now)"
| step: "tracker_reachable t \<Longrightarrow> tracker_step t t' \<Longrightarrow> tracker_reachable t'"

lemma state_of_readiness [simp]: "state_of (t\<lparr>rt_readiness := x\<rparr>) k = state_of t k"
  by (simp add: state_of_def)

lemma derive_not_unavailable: "derive_readiness t \<noteq> ECO_UNAVAILABLE"
  by (simp add: derive_aggregate aggregate_def)

lemma same_setup_ok: "same_setup t t' \<Longrightarrow> tracker_ok t \<Longrightarrow> tracker_ok t'"
  by (simp add: same_setup_def tracker_ok_def)

lemma poll_all_ok:
  assumes "poll_all zc fc now t w = (res, t', w')" and ok: "tracker_ok t"
  shows "tracker_ok t'"
  using poll_all_cases [OF assms(1)]
proof (elim disjE exE conjE)
  fix e assume "same_setup t t'"
  then show ?thesis using ok by (rule same_setup_ok)
next
  fix t1 t2
  assume "same_setup t t1" "same_setup t1 t2" "t' = t2\<lparr>rt_readiness := derive_readiness t2\<rparr>"
  then have "tracker_ok t2" using ok same_setup_ok by blast
  with \<open>t' = _\<close> show ?thesis using derive_not_unavailable by (simp add: tracker_ok_def)
qed

lemma tracker_step_ok: "tracker_step t t' \<Longrightarrow> tracker_ok t \<Longrightarrow> tracker_ok t'"
proof (elim tracker_stepE)
  fix zc fc now w res w'
  assume "start_tracker zc fc now t w = (res, t', w')" and ok: "tracker_ok t"
  moreover have "tracker_ok (t\<lparr>rt_running := True\<rparr>)" using ok by (simp add: tracker_ok_def)
  ultimately show "tracker_ok t'" using poll_all_ok by (auto simp: start_tracker_def split: if_splits)
next
  fix zc fc now w res w'
  assume "poll_all zc fc now t w = (res, t', w')" "tracker_ok t"
  then show "tracker_ok t'" by (rule poll_all_ok)
qed (simp_all add: stop_tracker_def tracker_ok_def set_node_ready_def Let_def)

lemma tracker_reachable_ok: "tracker_reachable t \<Longrightarrow> tracker_ok t"
proof (induction rule: tracker_reachable.induct)
  case (initial zarya flux now)
  then show ?case by (simp add: tracker_ok_def new_readiness_tracker_def dmem_keys)
next
  case (step t t')
  then show ?case using tracker_step_ok by blast
qed

subsection \<open>The events of a poll\<close>

text \<open>The events about readiness, without those of the registries; and the event that a change of a component is due.\<close>

definition readiness_changes :: "readiness_event list \<Rightarrow> readiness_event list" where
  "readiness_changes evs = filter (\<lambda>e. case e of Registry_Provider _ \<Rightarrow> False | Registry_Capability _ \<Rightarrow> False | _ \<Rightarrow> True) evs"

definition component_error :: "readiness_tracker \<Rightarrow> string \<Rightarrow> string option" where
  "component_error t name = (case dget (rt_components t) name of None \<Rightarrow> None | Some s \<Rightarrow> sn_error s)"

definition change_of :: "string \<Rightarrow> readiness_tracker \<Rightarrow> readiness_tracker \<Rightarrow> readiness_event list" where
  "change_of name t t' =
     (if state_of t' name \<noteq> state_of t name
      then [ComponentReadinessChangedEvent name (state_of t name) (state_of t' name) (component_error t' name)] else [])"

definition same_components :: "string \<Rightarrow> readiness_tracker \<Rightarrow> readiness_tracker \<Rightarrow> bool" where
  "same_components name t t' \<longleftrightarrow> (\<forall>k. k \<noteq> name \<longrightarrow> dget (rt_components t') k = dget (rt_components t) k)"

lemma readiness_changes_append [simp]: "readiness_changes (xs @ ys) = readiness_changes xs @ readiness_changes ys"
  by (simp add: readiness_changes_def)

lemma registry_changes [simp]:
  "readiness_changes (map Registry_Provider es) = []" "readiness_changes (map Registry_Capability cs) = []" "readiness_changes [] = []"
  by (simp_all add: readiness_changes_def filter_empty_conv)

lemma register_all_changes: "register_all cs (r, evs) = Inr (r', evs') \<Longrightarrow> readiness_changes evs' = readiness_changes evs"
  by (induction cs arbitrary: r evs) (fastforce split: sum.splits prod.splits)+

lemma on_gateway_ready_changes: "on_gateway_ready descriptor caps w = (Inr evs, w') \<Longrightarrow> readiness_changes evs = []"
  by (auto simp: on_gateway_ready_def Let_def split: option.splits sum.splits prod.splits dest!: register_all_changes)

lemma evaluate_gateway_changes:
  assumes "evaluate_gateway name now checked meta descriptor caps t w = (Inr evs, t', w')"
  shows "readiness_changes evs = change_of name t t' \<and> same_components name t t'"
proof -
  obtain new err where checked: "checked = (new, err)" by (cases checked)
  let ?c = "\<lparr>sn_component = name, sn_state = new, sn_last_checked_at = now, sn_error = err, sn_metadata = meta\<rparr>"
  obtain regs where evs: "evs = regs @ (if state_of t name \<noteq> new then [ComponentReadinessChangedEvent name (state_of t name) new err] else [])"
    and regs: "readiness_changes regs = []" and t': "t' = put_component ?c t"
    using assms by (auto simp: evaluate_gateway_def checked Let_def dest!: on_gateway_ready_changes split: if_splits sum.splits prod.splits)
  have "state_of t' name = new" "component_error t' name = err" "same_components name t t'"
    by (simp_all add: t' put_component_def state_of_def component_error_def same_components_def)
  with regs show ?thesis by (auto simp: evs change_of_def readiness_changes_def)
qed

lemma same_components_refl: "same_components name t t"
  by (simp add: same_components_def)

lemma no_change: "change_of name t t = []"
  by (simp add: change_of_def)

lemma poll_part_changes:
  "poll_zarya zc now t w = (Inr evs, t', w') \<Longrightarrow> readiness_changes evs = change_of ''zarya'' t t' \<and> same_components ''zarya'' t t'"
  "poll_flux fc now t w = (Inr evs, t', w') \<Longrightarrow> readiness_changes evs = change_of ''flux'' t t' \<and> same_components ''flux'' t t'"
  by (auto simp: poll_zarya_def poll_flux_def evaluate_zarya_def evaluate_flux_def no_change same_components_refl
      dest: evaluate_gateway_changes split: option.splits if_splits prod.splits)

lemma poll_all_changes:
  assumes "poll_all zc fc now t w = (Inr evs, t', w')"
  shows "readiness_changes evs = change_of ''zarya'' t t' @ change_of ''flux'' t t'
    @ (if rt_readiness t' \<noteq> rt_readiness t
       then [EcosystemReadinessChangedEvent (rt_readiness t) (rt_readiness t') (map (\<lambda>(k, s). (k, sn_state s)) (rt_components t'))] else [])"
proof -
  obtain evs1 t1 w1 evs2 t2 where 1: "poll_zarya zc now t w = (Inr evs1, t1, w1)" and 2: "poll_flux fc now t1 w1 = (Inr evs2, t2, w')"
    and evs: "evs = evs1 @ evs2 @ fst (evaluate_ecosystem t2)" and t': "t' = snd (evaluate_ecosystem t2)"
    using assms by (auto simp: poll_all_def split: sum.splits prod.splits)
  have "rt_readiness t2 = rt_readiness t"
    using poll_part_setup(1) [OF 1] poll_part_setup(2) [OF 2] by (simp add: same_setup_def)
  moreover have "change_of ''zarya'' t t1 = change_of ''zarya'' t t2" "change_of ''flux'' t1 t2 = change_of ''flux'' t t2"
    using poll_part_changes(1) [OF 1] poll_part_changes(2) [OF 2]
    by (simp_all add: same_components_def change_of_def state_of_def component_error_def)
  moreover have "change_of k t (t2\<lparr>rt_readiness := x\<rparr>) = change_of k t t2" for k x
    by (simp add: change_of_def state_of_def component_error_def)
  ultimately show ?thesis
    using poll_part_changes(1) [OF 1] poll_part_changes(2) [OF 2]
    by (auto simp: evs t' evaluate_ecosystem_def Let_def) (simp_all add: readiness_changes_def)
qed

text \<open>
  C23. After every poll that does not raise, the readiness is STARTING until the node is ready,
  and then what the least and the greatest of the states of the enabled components say in the order
  ready, starting, and the rest: READY when all are ready, STARTING when the best is only starting, DEGRADED otherwise. A poll that raises
  leaves the readiness of the last one. UNAVAILABLE, which the type provides for, is never the readiness of a tracker.
  Besides those of the registries, the events are one for each of the two components whose state changed, with its old and new state and its
  error, and then one for the ecosystem, if its readiness changed, with the old and the new readiness and the states of all components.
\<close>

theorem readiness_is_aggregate:
  assumes reach: "tracker_reachable t" and poll: "poll_all zc fc now t w = (res, t', w')"
  shows "rt_readiness t' =
      (case res of Inl e \<Rightarrow> rt_readiness t
       | Inr evs \<Rightarrow> if state_of t' ''node'' \<noteq> COMP_READY then ECO_STARTING
           else aggregate ((if rt_zarya_enabled t then {state_of t' ''zarya''} else {})
                          \<union> (if rt_flux_enabled t then {state_of t' ''flux''} else {})))
    \<and> rt_readiness t' \<noteq> ECO_UNAVAILABLE \<and> tracker_reachable t'
    \<and> (case res of Inl e \<Rightarrow> True
       | Inr evs \<Rightarrow> readiness_changes evs =
           (if state_of t' ''zarya'' \<noteq> state_of t ''zarya''
            then [ComponentReadinessChangedEvent ''zarya'' (state_of t ''zarya'') (state_of t' ''zarya'') (component_error t' ''zarya'')]
            else [])
         @ (if state_of t' ''flux'' \<noteq> state_of t ''flux''
            then [ComponentReadinessChangedEvent ''flux'' (state_of t ''flux'') (state_of t' ''flux'') (component_error t' ''flux'')]
            else [])
         @ (if rt_readiness t' \<noteq> rt_readiness t
            then [EcosystemReadinessChangedEvent (rt_readiness t) (rt_readiness t')
                    (map (\<lambda>(k, s). (k, sn_state s)) (rt_components t'))] else []))"
proof -
  have ok: "tracker_ok t" using reach by (rule tracker_reachable_ok)
  have "rt_readiness t' =
      (case res of Inl e \<Rightarrow> rt_readiness t
       | Inr evs \<Rightarrow> if state_of t' ''node'' \<noteq> COMP_READY then ECO_STARTING
           else aggregate ((if rt_zarya_enabled t then {state_of t' ''zarya''} else {})
                          \<union> (if rt_flux_enabled t then {state_of t' ''flux''} else {})))"
    using poll_all_cases [OF poll]
  proof (elim disjE exE conjE)
    fix e assume "res = Inl e" "same_setup t t'"
    then show ?thesis by (simp add: same_setup_def)
  next
    fix evs evs1 evs2 t1 w1 t2
    assume r: "res = Inr evs" and s: "same_setup t t1" "same_setup t1 t2"
      and t': "t' = t2\<lparr>rt_readiness := derive_readiness t2\<rparr>"
    have s2: "same_setup t t2" using s by (rule same_setup_trans)
    then have "tracker_ok t2" using ok by (rule same_setup_ok)
    then have "set (active_states t2) = (if rt_zarya_enabled t then {state_of t2 ''zarya''} else {})
        \<union> (if rt_flux_enabled t then {state_of t2 ''flux''} else {})"
      using s2 by (auto simp: active_states_def tracker_ok_def same_setup_def)
    then show ?thesis by (simp add: r t' derive_aggregate)
  qed
  moreover have "tracker_ok t'" using poll_all_ok [OF poll ok] .
  moreover have "tracker_reachable t'" using reach poll by (blast intro: tracker_reachable.step tracker_step.polls)
  moreover note poll_all_changes [of zc fc now t w _ t' w', unfolded change_of_def]
  ultimately show ?thesis using poll by (cases res) (simp_all add: tracker_ok_def)
qed

text \<open>
  What a poll says of a gateway. A component is READY only when its provider is connected, and a provider that is not
  connected after the poll is UNAVAILABLE or FAILED. A gateway that becomes READY is registered with its descriptor and all its
  capabilities. In every other case the poll leaves both registries alone; so a gateway that was READY and is lost
  keeps its entries, whatever availability they state.
\<close>

theorem poll_follows_gateways:
  assumes z: "evaluate_zarya zc now z t w = (Inr evs, t', w')"
    and f: "evaluate_flux fc now f t w = (Inr evs2, t2, w2)"
  shows "(\<exists>z'. rw_zarya w' = Some z' \<and> (state_of t' ''zarya'' = COMP_READY \<longrightarrow> zp_is_connected z')
        \<and> (\<not> zp_is_connected z' \<longrightarrow> state_of t' ''zarya'' \<in> {COMP_UNAVAILABLE, COMP_FAILED})
        \<and> (if state_of t ''zarya'' \<noteq> COMP_READY \<and> state_of t' ''zarya'' = COMP_READY
           then (\<exists>p. zp_descriptor z' = Inr p
                   \<and> w' = registered_gateway p (zp_discovered_capabilities z') (w\<lparr>rw_zarya := Some z'\<rparr>))
              \<or> rw_providers w = None
           else w' = w\<lparr>rw_zarya := Some z'\<rparr>))
    \<and> (\<exists>f'. rw_flux w2 = Some f' \<and> (state_of t2 ''flux'' = COMP_READY \<longrightarrow> fp_is_connected f')
        \<and> (\<not> fp_is_connected f' \<longrightarrow> state_of t2 ''flux'' \<in> {COMP_UNAVAILABLE, COMP_FAILED})
        \<and> (if state_of t ''flux'' \<noteq> COMP_READY \<and> state_of t2 ''flux'' = COMP_READY
           then (\<exists>p. fp_descriptor f' = Inr p
                   \<and> w2 = registered_gateway p (fp_capability_definitions f') (w\<lparr>rw_flux := Some f'\<rparr>))
              \<or> rw_providers w = None
           else w2 = w\<lparr>rw_flux := Some f'\<rparr>))"
proof -
  from evaluate_zarya_Inr [OF z] obtain checked z' where
    zc: "check_gateway zp_is_connected zp_connect zp_refresh_status zc z = (checked, z')"
    and zt: "t' = evaluated ''zarya'' now checked [] t" "rw_zarya w' = Some z'"
    and zw: "if fst checked = COMP_READY \<and> state_of t ''zarya'' \<noteq> COMP_READY
       then (\<exists>p. zp_descriptor z' = Inr p
               \<and> w' = registered_gateway p (zp_discovered_capabilities z') (w\<lparr>rw_zarya := Some z'\<rparr>))
          \<or> rw_providers w = None
       else w' = w\<lparr>rw_zarya := Some z'\<rparr>" by blast
  from evaluate_flux_Inr [OF f] obtain checked2 f' where
    fc: "check_gateway fp_is_connected fp_connect fp_refresh_status fc f = (checked2, f')"
    and ft: "t2 = evaluated ''flux'' now checked2 (flux_meta checked2 f') t" "rw_flux w2 = Some f'"
    and fw: "if fst checked2 = COMP_READY \<and> state_of t ''flux'' \<noteq> COMP_READY
       then (\<exists>p. fp_descriptor f' = Inr p
               \<and> w2 = registered_gateway p (fp_capability_definitions f') (w\<lparr>rw_flux := Some f'\<rparr>))
          \<or> rw_providers w = None
       else w2 = w\<lparr>rw_flux := Some f'\<rparr>" by blast
  have "fst checked = COMP_READY \<Longrightarrow> zp_is_connected z'"
    "\<not> zp_is_connected z' \<Longrightarrow> fst checked \<in> {COMP_UNAVAILABLE, COMP_FAILED}"
    using zarya.check_ready [of zc z _ z'] zarya.check_unavailable [of zc z _ _ z'] zc by (cases checked; simp)+
  moreover have "fst checked2 = COMP_READY \<Longrightarrow> fp_is_connected f'"
    "\<not> fp_is_connected f' \<Longrightarrow> fst checked2 \<in> {COMP_UNAVAILABLE, COMP_FAILED}"
    using flux.check_ready [of fc f _ f'] flux.check_unavailable [of fc f _ _ f'] fc by (cases checked2; simp)+
  ultimately show ?thesis using zt zw ft fw by (simp add: conj_commute)
qed

subsection \<open>Concrete polls\<close>

definition sample_world :: readiness_world where
  "sample_world = \<lparr>rw_zarya = Some new_zarya_provider, rw_flux = None, rw_providers = Some (new_provider_registry True),
     rw_capabilities = Some (new_capability_registry True)\<rparr>"

definition sample_tracker :: readiness_tracker where
  "sample_tracker = fst (set_node_ready 1 (new_readiness_tracker True False 0))"

definition silent_flux_client :: flux_client where
  "silent_flux_client = 
     \<lparr>fc_get_identity = Inl (Exn (Builtin OSError) ''down''), fc_get_status = Inl (Exn (Builtin OSError) ''down''),
      fc_get_peers = Inl (Exn (Builtin OSError) ''down''), fc_get_peer = (\<lambda>_. Inl (Exn (Builtin OSError) ''down'')),
      fc_connect_peer = (\<lambda>_. Inl (Exn (Builtin OSError) ''down'')),
      fc_initiate_transfer = (\<lambda>_ _ _ _. Inl (Exn (Builtin OSError) ''down'')),
      fc_get_transfer_status = (\<lambda>_. Inl (Exn (Builtin OSError) ''down'')),
      fc_cancel_transfer = (\<lambda>_. Inl (Exn (Builtin OSError) ''down''))\<rparr>"

lemma sample_poll:
  "(case poll_all sample_zarya_client silent_flux_client 5 sample_tracker sample_world of (res, t', w') \<Rightarrow>
     \<not> isl res \<and> state_of t' ''zarya'' = COMP_READY \<and> state_of t' ''node'' = COMP_READY
     \<and> map (\<lambda>(k, s). (k, sn_state s)) (rt_components t') = [(''node'', COMP_READY), (''zarya'', COMP_READY)])"
  by code_simp

lemma sample_tracker_reachable: "tracker_reachable sample_tracker"
  unfolding sample_tracker_def by (rule tracker_reachable.step [OF tracker_reachable.initial tracker_step.readies])

theorem readiness_is_aggregate_witness:
  "\<exists>evs t' w'. poll_all sample_zarya_client silent_flux_client 5 sample_tracker sample_world = (Inr evs, t', w')
     \<and> rt_readiness t' = ECO_READY
     \<and> EcosystemReadinessChangedEvent ECO_STARTING ECO_READY [(''node'', COMP_READY), (''zarya'', COMP_READY)] \<in> set evs"
proof -
  obtain res t' w' where run: "poll_all sample_zarya_client silent_flux_client 5 sample_tracker sample_world = (res, t', w')"
    by (metis prod_cases3)
  with sample_poll obtain evs where res: "res = Inr evs" "state_of t' ''zarya'' = COMP_READY" "state_of t' ''node'' = COMP_READY"
      "map (\<lambda>(k, s). (k, sn_state s)) (rt_components t') = [(''node'', COMP_READY), (''zarya'', COMP_READY)]"
    by (cases res) auto
  have enabled: "rt_zarya_enabled sample_tracker" "\<not> rt_flux_enabled sample_tracker" "rt_readiness sample_tracker = ECO_STARTING"
    by (simp_all add: sample_tracker_def set_node_ready_def new_readiness_tracker_def Let_def put_component_def)
  note spec = readiness_is_aggregate [OF sample_tracker_reachable run]
  from spec [THEN conjunct1] enabled res have ready: "rt_readiness t' = ECO_READY" by (simp add: aggregate_def)
  have "readiness_changes evs \<noteq> [] \<and> last (readiness_changes evs)
      = EcosystemReadinessChangedEvent ECO_STARTING ECO_READY [(''node'', COMP_READY), (''zarya'', COMP_READY)]"
    using spec [THEN conjunct2, THEN conjunct2, THEN conjunct2] unfolding res(1,4) sum.case enabled(3) ready by simp
  then have "EcosystemReadinessChangedEvent ECO_STARTING ECO_READY [(''node'', COMP_READY), (''zarya'', COMP_READY)]
      \<in> set (readiness_changes evs)" by (metis last_in_set)
  then have "EcosystemReadinessChangedEvent ECO_STARTING ECO_READY [(''node'', COMP_READY), (''zarya'', COMP_READY)] \<in> set evs"
    by (simp add: readiness_changes_def)
  with run res(1) ready show ?thesis by blast
qed

text \<open>A connected gateway whose status request fails after it was READY.\<close>

definition lost_zarya :: zarya_provider where
  "lost_zarya = new_zarya_provider\<lparr>zp_is_connected := True\<rparr>"

definition dead_zarya_client :: zarya_client where
  "dead_zarya_client = sample_zarya_client\<lparr>zcl_get_status := Inl zp_not_connected\<rparr>"

definition ready_tracker :: readiness_tracker where
  "ready_tracker = put_component (observed ''zarya'' COMP_READY 1) (new_readiness_tracker True True 0)"

definition stale_provider :: provider where
  "stale_provider = \<lparr>prov_id = PROVIDER_ID_ZARYA, prov_name = ''Zarya'', prov_version = ''1.0.0'', prov_description = [],
     prov_capabilities = [''zarya.work.execute''], prov_metadata = [], prov_availability = AVAILABLE\<rparr>"

definition stale_world :: readiness_world where
  "stale_world = sample_world\<lparr>rw_providers := Some (pr_store stale_provider (new_provider_registry True))\<rparr>"

theorem poll_follows_gateways_witness:
  "\<exists>evs t' w'. evaluate_zarya dead_zarya_client 9 lost_zarya ready_tracker stale_world = (Inr evs, t', w')
     \<and> state_of t' ''zarya'' = COMP_UNAVAILABLE \<and> map_option (\<lambda>r. pr_get r PROVIDER_ID_ZARYA) (rw_providers w') = Some (Some stale_provider)"
proof -
  have "check_gateway zp_is_connected zp_connect zp_refresh_status dead_zarya_client lost_zarya
      = ((COMP_UNAVAILABLE, None), lost_zarya\<lparr>zp_is_connected := False\<rparr>)"
    by (simp add: check_gateway_def zp_refresh_status_def dead_zarya_client_def lost_zarya_def)
  then obtain evs t' w' where
    z: "evaluate_zarya dead_zarya_client 9 lost_zarya ready_tracker stale_world = (Inr evs, t', w')"
    and st: "state_of t' ''zarya'' = COMP_UNAVAILABLE"
    by (simp add: evaluate_zarya_def evaluate_gateway_unchanged)
  have "check_gateway fp_is_connected fp_connect fp_refresh_status silent_flux_client new_flux_provider
      = ((COMP_FAILED, Some ''down''), new_flux_provider)"
    by (simp add: check_gateway_def fp_connect_def fp_connect_failed_def silent_flux_client_def new_flux_provider_def exn_simps)
  then obtain evs2 t2 w2 where
    f: "evaluate_flux silent_flux_client 9 new_flux_provider ready_tracker stale_world = (Inr evs2, t2, w2)"
    by (simp add: evaluate_flux_def evaluate_gateway_unchanged)
  from poll_follows_gateways [OF z f] st have "\<exists>z'. w' = stale_world\<lparr>rw_zarya := Some z'\<rparr>" by auto
  moreover have "pr_get (pr_store stale_provider (new_provider_registry True)) PROVIDER_ID_ZARYA = Some stale_provider"
    by (simp add: pr_get_def pr_store_def stale_provider_def)
  ultimately show ?thesis using z st by (auto simp: stale_world_def)
qed

end
