(* ===== verification/Shyam_Runtime.thy ===== *)
theory Shyam_Runtime
  imports Shyam_Readiness Shyam_Context Shyam_Discovery Shyam_Bootstrap Shyam_Continuity Shyam_Composite Shyam_Executors
begin

section \<open>The runtime\<close>

text \<open>
  \<open>core/config.py\<close> and \<open>core/runtime.py\<close>. The runtime owns the registries, the two gateway
  providers and the services, and wires them together. The record holds each shared object
  once; what a service sees of the others is a view on it (\<open>ecosystem_of\<close>, \<open>world_of\<close>).
  The handlers the services subscribe are kept in two buses, one for each set of handlers, as their
  event classes are disjoint. What the outside answers during a start (files, gateways,
  the socket, fresh identifiers) is a record \<open>host\<close>; \<open>rn_log\<close> are the published events.
\<close>

subsection \<open>core/config.py\<close>

text \<open>Intervals are microseconds, as time stamps are.\<close>

record settings =
  st_environment :: string
  st_data_directory :: string
  st_log_level :: string
  st_runtime_name :: string
  st_discovery_enabled :: bool
  st_discovery_port :: int
  st_discovery_interval :: int
  st_discovery_expiry :: int
  st_zarya_enabled :: bool
  st_zarya_url :: string
  st_zarya_token :: "string option"
  st_flux_enabled :: bool
  st_flux_url :: string
  st_readiness_poll_interval :: int

definition default_settings :: "string \<Rightarrow> settings" where
  "default_settings home =
     \<lparr>st_environment = ''local'', st_data_directory = home @ ''/.shyam'', st_log_level = ''INFO'',
      st_runtime_name = ''shyam-core'', st_discovery_enabled = True, st_discovery_port = 54321,
      st_discovery_interval = 2000000, st_discovery_expiry = 6000000, st_zarya_enabled = True,
      st_zarya_url = ''http://127.0.0.1:8765/ecosystem/v1'', st_zarya_token = None, st_flux_enabled = True,
      st_flux_url = ''http://127.0.0.1:9100/flux/v1'', st_readiness_poll_interval = 3000000\<rparr>"

subsection \<open>The announced metadata\<close>

text \<open>\<open>str.replace\<close> of a text that is not empty.\<close>

fun str_replace :: "string \<Rightarrow> string \<Rightarrow> string \<Rightarrow> string" where
  "str_replace old new [] = []"
| "str_replace old new (c # cs) =
     (if starts_with old (c # cs) then new @ str_replace old new (drop (length old - 1) cs)
      else c # str_replace old new cs)"

text \<open>\<open>lan\<close> is the address of the outgoing interface, \<open>None\<close> where asking for it raises.\<close>

definition resolve_lan_url :: "string option \<Rightarrow> string \<Rightarrow> string" where
  "resolve_lan_url lan url =
     (if \<not> substring ''127.0.0.1'' url \<and> \<not> substring ''localhost'' url then url
      else (case lan of None \<Rightarrow> url
            | Some ip \<Rightarrow> str_replace ''localhost'' ip (str_replace ''127.0.0.1'' ip url)))"

definition discovery_metadata :: "settings \<Rightarrow> string option \<Rightarrow> flux_provider \<Rightarrow> (string, pyval) dict" where
  "discovery_metadata st lan f =
     (if st_zarya_enabled st \<and> st_zarya_url st \<noteq> []
      then [(''zarya_url'', PStr (resolve_lan_url lan (st_zarya_url st))), (''has_zarya'', PBool True)] else [])
     @ (if st_flux_enabled st \<and> st_flux_url st \<noteq> []
        then (''flux_url'', PStr (resolve_lan_url lan (st_flux_url st)))
             # (case fp_peer_id f of Some i \<Rightarrow> if i \<noteq> [] then [(''flux_peer_id'', PStr i)] else [] | None \<Rightarrow> [])
        else [])"

subsection \<open>The state of a runtime\<close>

datatype runtime_event =
    Runtime_Started | Runtime_Error string | Runtime_Stopping | Runtime_Stopped
  | Identity_Ready string string string
  | Trust_Event trust_event | Registry_Event registry_event
  | Readiness_Event readiness_event | Ecosystem_Event ecosystem_event

text \<open>The three handlers \<open>start\<close> subscribes to the events of the UDP discovery.\<close>

datatype peer_handler = On_Udp_Peer_Discovered | On_Udp_Peer_Updated | On_Udp_Peer_Lost

record 'k runtime =
  rn_settings :: settings
  rn_state :: runtime_state
  rn_fabric :: fabric
  rn_registry :: ecosystem_registry
  rn_context :: context_service
  rn_context_bus :: "context_handler bus"
  rn_peer_bus :: "peer_handler bus"
  rn_trust :: trust_service
  rn_sync :: "'k sync_service option"
  rn_bootstrap :: "(string, bootstrap_session) dict option"
  rn_continuity :: "continuity_service option"
  rn_zarya :: zarya_provider
  rn_flux :: flux_provider
  rn_tracker :: readiness_tracker
  rn_composites :: composite_registry
  rn_identity :: "identity_manager option"
  rn_keys :: "('k \<times> crypto_identity) option"
  rn_discovery :: "discovery_service option"
  rn_ecosystem :: "node_identity option"
  rn_id_disk :: id_disk
  rn_trust_disk :: trust_disk
  rn_log :: "runtime_event list"

definition initial_store :: state_store where
  "initial_store = \<lparr>ss_version = 0, ss_discovery = None, ss_active_work = [], ss_activity = [],
     ss_max_activity = nat MAX_ACTIVITY_ENTRIES\<rparr>"

lemma initial_store: "new_state_store MAX_ACTIVITY_ENTRIES = Inr initial_store"
  by (simp add: new_state_store_def initial_store_def MAX_ACTIVITY_ENTRIES_def)

text \<open>The constructor; the two disks are what the data directory holds.\<close>

definition new_runtime :: "settings \<Rightarrow> string \<Rightarrow> time \<Rightarrow> id_disk \<Rightarrow> trust_disk \<Rightarrow> 'k runtime" where
  "new_runtime st rid now di dt =
     \<lparr>rn_settings = st, rn_state = new_runtime_state rid now,
      rn_fabric = \<lparr>fab_capabilities = new_capability_registry True, fab_providers = new_provider_registry True,
                   fab_instances = [], fab_sources = None\<rparr>,
      rn_registry = new_ecosystem_registry True,
      rn_context = \<lparr>xs_store = initial_store, xs_subscribed = False\<rparr>,
      rn_context_bus = [], rn_peer_bus = [], rn_trust = new_trust_service True,
      rn_sync = None, rn_bootstrap = None, rn_continuity = None,
      rn_zarya = new_zarya_provider, rn_flux = new_flux_provider,
      rn_tracker = new_readiness_tracker (st_zarya_enabled st) (st_flux_enabled st) now,
      rn_composites = [], rn_identity = None, rn_keys = None,
      rn_discovery = None, rn_ecosystem = None, rn_id_disk = di, rn_trust_disk = dt, rn_log = []\<rparr>"

definition log_events :: "runtime_event list \<Rightarrow> 'k runtime \<Rightarrow> 'k runtime" where
  "log_events evs rt = rt\<lparr>rn_log := rn_log rt @ evs\<rparr>"

subsection \<open>The view of the ecosystem\<close>

definition ecosystem_of :: "node_identity \<Rightarrow> 'k runtime \<Rightarrow> ecosystem_service" where
  "ecosystem_of i rt =
     \<lparr>es_local_node_id = ni_node_id i, es_local_node_name = ni_node_name i,
      es_local_protocol_version = ni_protocol_version i,
      es_providers = fab_providers (rn_fabric rt), es_capabilities = fab_capabilities (rn_fabric rt),
      es_registry = rn_registry rt, es_zarya = Some (rn_zarya rt), es_flux = Some (rn_flux rt),
      es_stale_threshold = st_discovery_expiry (rn_settings rt)\<rparr>"

text \<open>
  The registry as the discovery service leaves it after one registration, with what its events
  do to the context service, whose handlers run before the registration returns.
\<close>

definition put_nodes :: "time \<Rightarrow> ecosystem_service \<times> ecosystem_event list \<Rightarrow> 'k runtime \<Rightarrow> 'k runtime" where
  "put_nodes now sevs rt = (case sevs of (s, evs) \<Rightarrow>
     let x = rn_context rt in
     log_events (map Ecosystem_Event evs)
       (rt\<lparr>rn_registry := es_registry s,
           rn_context := (if xs_subscribed x
             then x\<lparr>xs_store := deliver_all (map (\<lambda>e. (es_registry s, now, now, Node_Event e)) evs) (xs_store x)\<rparr>
             else x)\<rparr>))"

definition discover_local :: "time \<Rightarrow> node_identity \<Rightarrow> 'k runtime \<Rightarrow> exn option \<times> 'k runtime" where
  "discover_local now i rt =
     (case discover_local_node (ecosystem_of i rt) now of
        Inl e \<Rightarrow> (Some e, rt)
      | Inr (s, evs, _) \<Rightarrow> (None, put_nodes now (s, evs) rt))"

fun register_flux_peers :: "time \<Rightarrow> node_identity \<Rightarrow> flux_peer_info list \<Rightarrow> 'k runtime \<Rightarrow> 'k runtime" where
  "register_flux_peers now i [] rt = rt"
| "register_flux_peers now i (p # ps) rt =
     (let s = ecosystem_of i rt in
      register_flux_peers now i ps (put_nodes now (register_in s (flux_peer_node s now p)) rt))"

definition discover_flux :: "flux_client \<Rightarrow> time \<Rightarrow> node_identity \<Rightarrow> 'k runtime \<Rightarrow> 'k runtime" where
  "discover_flux fc now i rt =
     (if \<not> fp_is_connected (rn_flux rt) then rt
      else (case fp_discover_peers fc (rn_flux rt) of
              Inl _ \<Rightarrow> rt
            | Inr peers \<Rightarrow> register_flux_peers now i peers rt))"

text \<open>\<open>now\<close> and \<open>now'\<close> are the two readings of the clock.\<close>

definition get_ecosystem_snapshot ::
  "flux_client \<Rightarrow> time \<Rightarrow> time \<Rightarrow> 'k runtime \<Rightarrow> snapshot result \<times> 'k runtime" where
  "get_ecosystem_snapshot fc now now' rt =
     (case rn_ecosystem rt of
        None \<Rightarrow> (Inr (create_snapshot (rn_registry rt) now []), rt)
      | Some i \<Rightarrow>
          (case discover_local now i rt of
             (Some e, rt1) \<Rightarrow> (Inl e, rt1)
           | (None, rt1) \<Rightarrow>
               let rt2 = discover_flux fc now' i rt1 in
               (Inr (create_snapshot (rn_registry rt2) now' (ni_node_id i)), rt2)))"

definition store_snapshot :: "snapshot \<Rightarrow> 'k runtime \<Rightarrow> 'k runtime" where
  "store_snapshot snap rt = rt\<lparr>rn_context := (rn_context rt)\<lparr>xs_store :=
     update_discovery snap (xs_store (rn_context rt))\<rparr>\<rparr>"

definition get_ecosystem_state ::
  "flux_client \<Rightarrow> time \<Rightarrow> time \<Rightarrow> 'k runtime \<Rightarrow> ecosystem_state result \<times> 'k runtime" where
  "get_ecosystem_state fc now now' rt =
     (case get_ecosystem_snapshot fc now now' rt of
        (Inl e, rt1) \<Rightarrow> (Inl e, rt1)
      | (Inr snap, rt1) \<Rightarrow> let rt2 = store_snapshot snap rt1 in (Inr (get_state now' (xs_store (rn_context rt2))), rt2))"

definition get_ecosystem_context ::
  "flux_client \<Rightarrow> time \<Rightarrow> time \<Rightarrow> 'k runtime \<Rightarrow> ecosystem_context result \<times> 'k runtime" where
  "get_ecosystem_context fc now now' rt =
     (case get_ecosystem_snapshot fc now now' rt of
        (Inl e, rt1) \<Rightarrow> (Inl e, rt1)
      | (Inr snap, rt1) \<Rightarrow> let rt2 = store_snapshot snap rt1 in (Inr (get_context now' (xs_store (rn_context rt2))), rt2))"

definition navigate_here ::
  "flux_client \<Rightarrow> time \<Rightarrow> time \<Rightarrow> nav_request \<Rightarrow> 'k runtime \<Rightarrow> nav_result result \<times> 'k runtime" where
  "navigate_here fc now now' q rt =
     (case get_ecosystem_snapshot fc now now' rt of
        (Inl e, rt1) \<Rightarrow> (Inl e, rt1)
      | (Inr snap, rt1) \<Rightarrow> (Inr (navigate q snap), rt1))"

text \<open>The properties \<open>sync\<close> and \<open>bootstrap\<close>.\<close>

definition not_initialized :: "string \<Rightarrow> exn" where
  "not_initialized what = Exn (Builtin RuntimeError)
     (what @ '' is not initialized. Runtime must be started first.'')"

definition sync_of :: "'k runtime \<Rightarrow> 'k sync_service result" where
  "sync_of rt = (case rn_sync rt of None \<Rightarrow> Inl (not_initialized ''SyncService'') | Some s \<Rightarrow> Inr s)"

definition bootstrap_of :: "'k runtime \<Rightarrow> (string, bootstrap_session) dict result" where
  "bootstrap_of rt = (case rn_bootstrap rt of None \<Rightarrow> Inl (not_initialized ''BootstrapService'') | Some b \<Rightarrow> Inr b)"

definition is_running :: "'k runtime \<Rightarrow> bool" where
  "is_running rt \<longleftrightarrow> rs_status (rn_state rt) = RUNNING"

subsection \<open>The handlers of the UDP events\<close>

text \<open>
  A handler returns what it raises, which the bus drops. A peer that is not typed (its announcement was
  refreshed with values of other types) is not taken in: building its node raises.
\<close>

definition with_ecosystem ::
  "(ecosystem_service \<Rightarrow> ecosystem_service \<times> ecosystem_event list) \<Rightarrow> time \<Rightarrow> 'k runtime \<Rightarrow> 'k runtime" where
  "with_ecosystem op now rt =
     (case rn_ecosystem rt of None \<Rightarrow> rt | Some i \<Rightarrow> put_nodes now (op (ecosystem_of i rt)) rt)"

definition on_peer_seen :: "time \<Rightarrow> live_peer \<Rightarrow> 'k runtime \<Rightarrow> 'k runtime" where
  "on_peer_seen now l rt =
     (case typed_peer l of
        None \<Rightarrow> rt
      | Some p \<Rightarrow> with_ecosystem (\<lambda>s. case ingest_udp_peer s p of (s', evs, _) \<Rightarrow> (s', evs)) now rt)"

definition on_peer_lost :: "time \<Rightarrow> string \<Rightarrow> 'k runtime \<Rightarrow> 'k runtime" where
  "on_peer_lost now n = with_ecosystem (\<lambda>s. handle_udp_peer_lost s n) now"

fun run_peer_handler :: "time \<Rightarrow> peer_handler \<Rightarrow> peer_event \<Rightarrow> 'k runtime \<Rightarrow> 'k runtime" where
  "run_peer_handler now On_Udp_Peer_Discovered (PeerDiscoveredEvent l) rt = on_peer_seen now l rt"
| "run_peer_handler now On_Udp_Peer_Updated (PeerUpdatedEvent l) rt = on_peer_seen now l rt"
| "run_peer_handler now On_Udp_Peer_Lost (PeerLostEvent n name seen) rt = on_peer_lost now n rt"
| "run_peer_handler now _ _ rt = rt"

fun peer_event_class :: "peer_event \<Rightarrow> string" where
  "peer_event_class (PeerDiscoveredEvent _) = ''PeerDiscoveredEvent''"
| "peer_event_class (PeerUpdatedEvent _) = ''PeerUpdatedEvent''"
| "peer_event_class (PeerLostEvent _ _ _) = ''PeerLostEvent''"

definition peer_subscriptions :: "(string \<times> peer_handler) list" where
  "peer_subscriptions =
     [(''PeerDiscoveredEvent'', On_Udp_Peer_Discovered), (''PeerUpdatedEvent'', On_Udp_Peer_Updated),
      (''PeerLostEvent'', On_Udp_Peer_Lost)]"

text \<open>
  What a publication of the discovery service does: the handlers subscribed to its class run one
  after the other. No class of the three is a subclass of another.
\<close>

definition publish_peer :: "time \<Rightarrow> peer_event \<Rightarrow> 'k runtime \<Rightarrow> 'k runtime" where
  "publish_peer now e rt =
     fold (\<lambda>h. run_peer_handler now h e) (dget_or (rn_peer_bus rt) (peer_event_class e) []) rt"

text \<open>
  A task of the discovery service runs: the oldest or any other announcement that is pending.
  \<open>reap_peers\<close> is a round of its reaping loop.
\<close>

definition run_announcement ::
  "(pyval \<Rightarrow> int option) \<Rightarrow> time \<Rightarrow> announcement \<Rightarrow> 'k runtime \<Rightarrow> 'k runtime" where
  "run_announcement ints now a rt =
     (case rn_discovery rt of
        None \<Rightarrow> rt
      | Some d \<Rightarrow> (case update_peer ints now a d of
          (Inl e, d') \<Rightarrow> rt\<lparr>rn_discovery := Some d'\<rparr>
        | (Inr evs, d') \<Rightarrow> fold (publish_peer now) evs (rt\<lparr>rn_discovery := Some d'\<rparr>)))"

definition reap_peers :: "time \<Rightarrow> 'k runtime \<Rightarrow> 'k runtime" where
  "reap_peers now rt =
     (case rn_discovery rt of
        None \<Rightarrow> rt
      | Some d \<Rightarrow> (case reap now d of (evs, d') \<Rightarrow> fold (publish_peer now) evs (rt\<lparr>rn_discovery := Some d'\<rparr>)))"

subsection \<open>Starting\<close>

text \<open>
  What the outside answers while a runtime starts: the error of \<open>mkdir\<close>, the identifiers and the
  key pair that would be generated, the gateways and the socket.
\<close>

record 'k host =
  ho_crypto :: "'k crypto"
  ho_uuid :: "pyval \<Rightarrow> string option"
  ho_codec :: time_codec
  ho_mkdir_error :: "string option"
  ho_fresh_id :: string
  ho_fresh_key :: 'k
  ho_hostname :: string
  ho_zarya :: zarya_client
  ho_flux :: flux_client
  ho_can_bind :: "string \<Rightarrow> bool"

text \<open>
  A step of \<open>start\<close> reads the clock once, changes the runtime and may raise. Steps run in order until
  one raises; the step with number \<open>k\<close> reads \<open>clock k\<close>.
\<close>

type_synonym 'k start_step = "time \<Rightarrow> 'k runtime \<Rightarrow> exn option \<times> 'k runtime"

fun run_steps_until :: "(nat \<Rightarrow> time) \<Rightarrow> nat \<Rightarrow> 'k start_step list \<Rightarrow> 'k runtime \<Rightarrow> exn option \<times> 'k runtime" where
  "run_steps_until clock k [] rt = (None, rt)"
| "run_steps_until clock k (f # fs) rt =
     (case f (clock k) rt of
        (Some e, rt') \<Rightarrow> (Some e, rt')
      | (None, rt') \<Rightarrow> run_steps_until clock (Suc k) fs rt')"

definition start_trust :: "'k host \<Rightarrow> node_identity \<Rightarrow> crypto_identity \<Rightarrow> 'k start_step" where
  "start_trust ho i c now rt =
     (case trust_initialize (ho_codec ho) now (rn_trust_disk rt) (rn_trust rt) of
        Inl e \<Rightarrow> (Some e, rt)
      | Inr ts \<Rightarrow>
          (case grant_trust (ho_codec ho) now (ni_node_id i) (Some (ci_public_key c)) REL_PERSONAL
                  (ni_node_name i) (Some [(''is_local'', PBool True)]) ts (rn_trust_disk rt) of
             (res, ts', dk, evs) \<Rightarrow>
               ((case res of Inl e \<Rightarrow> Some e | Inr _ \<Rightarrow> None),
                log_events (map Trust_Event evs) (rt\<lparr>rn_trust := ts', rn_trust_disk := dk\<rparr>))))"

definition start_services :: "node_identity \<Rightarrow> 'k \<Rightarrow> 'k start_step" where
  "start_services i k now rt =
     (None, log_events [Identity_Ready (ni_node_id i) (ni_node_name i) (ni_protocol_version i)]
        (rt\<lparr>rn_sync := Some (new_sync_service (ni_node_id i) k True 1000),
            rn_bootstrap := Some [], rn_continuity := Some new_continuity_service\<rparr>))"

definition start_inspect :: "'k start_step" where
  "start_inspect now rt =
     (case mk_capability ''shyam.runtime.inspect'' ''Runtime Introspection'' ''1.0.0''
             ''Inspect local Shyam node status, identity, and capabilities'' [] AVAILABLE of
        Inl e \<Rightarrow> (Some e, rt)
      | Inr c \<Rightarrow>
          (case cr_register (fab_capabilities (rn_fabric rt)) c True of
             Inl e \<Rightarrow> (Some e, rt)
           | Inr (r, evs) \<Rightarrow> (None, log_events (map (Registry_Event \<circ> CapEv) evs)
               (rt\<lparr>rn_fabric := (rn_fabric rt)\<lparr>fab_capabilities := r\<rparr>\<rparr>))))"

definition start_fabric :: "'k start_step" where
  "start_fabric now rt =
     (case fabric_start (rn_fabric rt) of
        Inl e \<Rightarrow> (Some e, rt)
      | Inr (f, evs) \<Rightarrow> (None, log_events (map Registry_Event evs) (rt\<lparr>rn_fabric := f\<rparr>)))"

text \<open>The registries and gateways as the readiness tracker sees them.\<close>

definition world_of :: "'k runtime \<Rightarrow> readiness_world" where
  "world_of rt = \<lparr>rw_zarya = Some (rn_zarya rt), rw_flux = Some (rn_flux rt),
     rw_providers = Some (fab_providers (rn_fabric rt)), rw_capabilities = Some (fab_capabilities (rn_fabric rt))\<rparr>"

definition put_world :: "readiness_world \<Rightarrow> 'k runtime \<Rightarrow> 'k runtime" where
  "put_world w rt =
     (case (rw_zarya w, rw_flux w, rw_providers w, rw_capabilities w) of
        (Some z, Some f, Some p, Some c) \<Rightarrow>
          rt\<lparr>rn_zarya := z, rn_flux := f, rn_fabric := (rn_fabric rt)\<lparr>fab_providers := p, fab_capabilities := c\<rparr>\<rparr>
      | _ \<Rightarrow> rt)"

text \<open>
  The registration of a gateway that answered: its descriptor, then its capabilities, as when the
  readiness tracker finds it ready.
\<close>

definition integrate :: "provider result \<Rightarrow> capability list \<Rightarrow> 'k runtime \<Rightarrow> exn option \<times> 'k runtime" where
  "integrate descriptor caps rt =
     (case on_gateway_ready descriptor caps (world_of rt) of
        (Inl e, w) \<Rightarrow> (Some e, put_world w rt)
      | (Inr evs, w) \<Rightarrow> (None, log_events (map Readiness_Event evs) (put_world w rt)))"

definition start_zarya :: "zarya_client \<Rightarrow> 'k start_step" where
  "start_zarya zc now rt =
     (if \<not> st_zarya_enabled (rn_settings rt) then (None, rt)
      else (case zp_connect zc (rn_zarya rt) of
              (Inl e, z) \<Rightarrow> (Some e, rt\<lparr>rn_zarya := z\<rparr>)
            | (Inr True, z) \<Rightarrow> integrate (zp_descriptor z) (zp_discovered_capabilities z) (rt\<lparr>rn_zarya := z\<rparr>)
            | (Inr False, z) \<Rightarrow> (None, rt\<lparr>rn_zarya := z\<rparr>)))"

definition start_flux :: "flux_client \<Rightarrow> 'k start_step" where
  "start_flux fc now rt =
     (if \<not> st_flux_enabled (rn_settings rt) then (None, rt)
      else (case fp_connect fc (rn_flux rt) of
              (Inl e, f) \<Rightarrow> (Some e, rt\<lparr>rn_flux := f\<rparr>)
            | (Inr True, f) \<Rightarrow> integrate (fp_descriptor f) (fp_capability_definitions f) (rt\<lparr>rn_flux := f\<rparr>)
            | (Inr False, f) \<Rightarrow> (None, rt\<lparr>rn_flux := f\<rparr>)))"

definition start_ecosystem :: "node_identity \<Rightarrow> 'k start_step" where
  "start_ecosystem i now rt = discover_local now i (rt\<lparr>rn_ecosystem := Some i\<rparr>)"

definition start_listening :: "'k start_step" where
  "start_listening now rt =
     (let b = fold (\<lambda>(ty, h) b. subscribe b ty h) peer_subscriptions (rn_peer_bus rt) in
      case start_context (rn_registry rt) now (rn_context rt) (rn_context_bus rt) of
        (x, cb) \<Rightarrow> (None, rt\<lparr>rn_peer_bus := b, rn_context := x, rn_context_bus := cb\<rparr>))"

definition start_peers :: "(string \<Rightarrow> bool) \<Rightarrow> 'k start_step" where
  "start_peers can_bind now rt =
     (if \<not> st_discovery_enabled (rn_settings rt) then (None, rt)
      else (case start_discovery can_bind
                   (new_discovery (st_discovery_port (rn_settings rt)) (st_discovery_expiry (rn_settings rt))) of
              (res, d) \<Rightarrow> ((case res of Inl e \<Rightarrow> Some e | Inr _ \<Rightarrow> None), rt\<lparr>rn_discovery := Some d\<rparr>)))"

text \<open>The steps once the node has an identity and a key pair.\<close>

definition service_steps :: "'k host \<Rightarrow> node_identity \<Rightarrow> 'k \<Rightarrow> crypto_identity \<Rightarrow> 'k start_step list" where
  "service_steps ho i k c =
     [start_trust ho i c, start_services i k, start_inspect, start_fabric, start_zarya (ho_zarya ho),
      start_flux (ho_flux ho), start_ecosystem i, start_listening, start_peers (ho_can_bind ho)]"

text \<open>The body of the \<open>try\<close> block.\<close>

definition start_body :: "'k host \<Rightarrow> (nat \<Rightarrow> time) \<Rightarrow> 'k runtime \<Rightarrow> exn option \<times> 'k runtime" where
  "start_body ho clock rt =
     (case ho_mkdir_error ho of
        Some m \<Rightarrow> (Some (os_error m), rt)
      | None \<Rightarrow>
          (case get_or_create_identity (ho_uuid ho) (ho_codec ho) (ho_fresh_id ho) (clock 0) (ho_hostname ho)
                  (new_identity_manager (Some (st_runtime_name (rn_settings rt)))) (rn_id_disk rt) of
             (res, im, dk) \<Rightarrow>
               let rt1 = rt\<lparr>rn_identity := Some im, rn_id_disk := dk\<rparr> in
               (case res of
                  Inl e \<Rightarrow> (Some e, rt1)
                | Inr i \<Rightarrow>
                    (case load_or_create_keypair (ho_crypto ho) (ho_uuid ho) (ho_codec ho) (clock 1) (ho_fresh_key ho)
                            (ni_node_id i) (rn_id_disk rt1) of
                       (Inl e, dk') \<Rightarrow> (Some e, rt1\<lparr>rn_id_disk := dk'\<rparr>)
                     | (Inr (k, c), dk') \<Rightarrow>
                         run_steps_until clock 2 (service_steps ho i k c)
                           (rt1\<lparr>rn_id_disk := dk', rn_keys := Some (k, c)\<rparr>)))))"

text \<open>
  A change of the lifecycle state. \<open>start_tracking\<close> is what follows the \<open>try\<close> block: whatever it
  raises leaves the runtime INITIALIZING.
\<close>

definition set_status ::
  "time \<Rightarrow> lifecycle_state \<Rightarrow> string option \<Rightarrow> 'k runtime \<Rightarrow> exn option \<times> 'k runtime" where
  "set_status now s err rt =
     (case transition_to now (rn_state rt) s err of Inl e \<Rightarrow> (Some e, rt) | Inr st \<Rightarrow> (None, rt\<lparr>rn_state := st\<rparr>))"

definition start_tracking :: "'k host \<Rightarrow> time \<Rightarrow> 'k runtime \<Rightarrow> exn option \<times> 'k runtime" where
  "start_tracking ho now rt =
     (case set_node_ready now (rn_tracker rt) of
        (t, evs) \<Rightarrow>
          (case start_tracker (ho_zarya ho) (ho_flux ho) now t (world_of rt) of
             (res, t', w) \<Rightarrow>
               let rt' = log_events (map Readiness_Event evs) (put_world w (rt\<lparr>rn_tracker := t'\<rparr>)) in
               (case res of
                  Inl e \<Rightarrow> (Some e, rt')
                | Inr evs' \<Rightarrow>
                    (case set_status now RUNNING None (log_events (map Readiness_Event evs') rt') of
                       (Some e, rt2) \<Rightarrow> (Some e, rt2)
                     | (None, rt2) \<Rightarrow> (None, log_events [Runtime_Started] rt2)))))"

definition start :: "'k host \<Rightarrow> (nat \<Rightarrow> time) \<Rightarrow> 'k runtime \<Rightarrow> exn option \<times> 'k runtime" where
  "start ho clock rt =
     (if rs_status (rn_state rt) \<noteq> CREATED
      then (Some (invalid_state_transition (rs_status (rn_state rt)) INITIALIZING), rt)
      else (case set_status (clock 0) INITIALIZING None rt of
              (Some e, rt1) \<Rightarrow> (Some e, rt1)
            | (None, rt1) \<Rightarrow>
                (case start_body ho clock rt1 of
                   (Some e, rt2) \<Rightarrow>
                     (case set_status (clock 11) ERROR (Some (exn_msg e)) rt2 of
                        (Some e', rt3) \<Rightarrow> (Some e', rt3)
                      | (None, rt3) \<Rightarrow> (Some e, log_events [Runtime_Error (exn_msg e)] rt3))
                 | (None, rt2) \<Rightarrow> start_tracking ho (clock 11) rt2)))"

subsection \<open>Stopping\<close>

text \<open>None of the four services raises when it is stopped.\<close>

definition stop_services :: "'k runtime \<Rightarrow> 'k runtime" where
  "stop_services rt =
     (case stop_context (rn_context rt) (rn_context_bus rt) of
        (x, cb) \<Rightarrow> rt\<lparr>rn_tracker := stop_tracker (rn_tracker rt), rn_context := x, rn_context_bus := cb,
                     rn_fabric := fabric_stop (rn_fabric rt),
                     rn_discovery := map_option stop_discovery (rn_discovery rt)\<rparr>)"

definition stop :: "time \<Rightarrow> 'k runtime \<Rightarrow> exn option \<times> 'k runtime" where
  "stop now rt =
     (if rs_status (rn_state rt) = STOPPED then (None, rt)
      else
        let rt1 = stop_services rt in
        case (if rs_status (rn_state rt1) \<noteq> ERROR
              then (case set_status now STOPPING None rt1 of
                      (Some e, rt2) \<Rightarrow> (Some e, rt2)
                    | (None, rt2) \<Rightarrow> (None, log_events [Runtime_Stopping] rt2))
              else (None, rt1)) of
          (Some e, rt2) \<Rightarrow> (Some e, rt2)
        | (None, rt2) \<Rightarrow>
            (case set_status now STOPPED None rt2 of
               (Some e, rt3) \<Rightarrow> (Some e, rt3)
             | (None, rt3) \<Rightarrow> (None, log_events [Runtime_Stopped] rt3)))"

subsection \<open>The lifecycle of a runtime\<close>

abbreviation status :: "'k runtime \<Rightarrow> lifecycle_state" where
  "status rt \<equiv> rs_status (rn_state rt)"

lemma set_status_ok:
  "s \<in> VALID_TRANSITIONS (status rt) \<Longrightarrow>
     \<exists>st. set_status now s err rt = (None, rt\<lparr>rn_state := st\<rparr>) \<and> transition_to now (rn_state rt) s err = Inr st
       \<and> rs_status st = s"
  using transition_to_iff [of now "rn_state rt" s err] transition_to_ok
  by (fastforce simp: set_status_def)

lemma set_status_refused:
  "s \<notin> VALID_TRANSITIONS (status rt) \<Longrightarrow>
     set_status now s err rt = (Some (invalid_state_transition (status rt) s), rt)"
  by (simp add: set_status_def transition_to_def validate_transition_def)

text \<open>No step touches the lifecycle state or the settings.\<close>

lemma log_events_simps [simp]:
  "rn_state (log_events evs rt) = rn_state rt" "rn_settings (log_events evs rt) = rn_settings rt"
  "rn_fabric (log_events evs rt) = rn_fabric rt" "rn_registry (log_events evs rt) = rn_registry rt"
  "rn_context (log_events evs rt) = rn_context rt" "rn_trust (log_events evs rt) = rn_trust rt"
  "rn_sync (log_events evs rt) = rn_sync rt" "rn_keys (log_events evs rt) = rn_keys rt"
  "rn_identity (log_events evs rt) = rn_identity rt" "rn_ecosystem (log_events evs rt) = rn_ecosystem rt"
  "rn_discovery (log_events evs rt) = rn_discovery rt" "rn_peer_bus (log_events evs rt) = rn_peer_bus rt"
  "rn_context_bus (log_events evs rt) = rn_context_bus rt" "rn_zarya (log_events evs rt) = rn_zarya rt"
  "rn_flux (log_events evs rt) = rn_flux rt" "rn_continuity (log_events evs rt) = rn_continuity rt" "rn_tracker (log_events evs rt) = rn_tracker rt"
  "rn_trust_disk (log_events evs rt) = rn_trust_disk rt" "rn_log (log_events evs rt) = rn_log rt @ evs"
  by (simp_all add: log_events_def)

text \<open>What a step of \<open>start\<close> may not change; \<open>only_fabric\<close> holds of what changes the registries and gateways only.\<close>

definition same_life :: "'k runtime \<Rightarrow> 'k runtime \<Rightarrow> bool" where
  "same_life rt rt' \<longleftrightarrow> rn_state rt' = rn_state rt \<and> rn_settings rt' = rn_settings rt \<and> rn_keys rt' = rn_keys rt
     \<and> rn_identity rt' = rn_identity rt \<and> rn_tracker rt' = rn_tracker rt"

definition only_fabric :: "'k runtime \<Rightarrow> 'k runtime \<Rightarrow> bool" where
  "only_fabric rt rt' \<longleftrightarrow> same_life rt rt' \<and> rn_trust rt' = rn_trust rt \<and> rn_sync rt' = rn_sync rt
     \<and> rn_ecosystem rt' = rn_ecosystem rt \<and> rn_registry rt' = rn_registry rt \<and> rn_context rt' = rn_context rt
     \<and> rn_peer_bus rt' = rn_peer_bus rt \<and> rn_discovery rt' = rn_discovery rt \<and> rn_continuity rt' = rn_continuity rt
     \<and> fab_instances (rn_fabric rt') = fab_instances (rn_fabric rt) \<and> fab_sources (rn_fabric rt') = fab_sources (rn_fabric rt)"

lemma same_life_trans: "same_life rt rt1 \<Longrightarrow> same_life rt1 rt2 \<Longrightarrow> same_life rt rt2"
  by (simp add: same_life_def)

lemma only_fabric_refl: "only_fabric rt rt"
  by (simp add: only_fabric_def same_life_def)

lemma put_world_only: "only_fabric rt (put_world w rt)"
  by (auto simp: put_world_def only_fabric_def same_life_def split: option.splits)

lemma log_only: "only_fabric rt (log_events evs rt)"
  by (simp add: only_fabric_def same_life_def)

lemma only_fabric_trans: "only_fabric rt rt1 \<Longrightarrow> only_fabric rt1 rt2 \<Longrightarrow> only_fabric rt rt2"
  by (simp add: only_fabric_def same_life_def)

lemma integrate_only: "integrate d caps rt = (res, rt') \<Longrightarrow> only_fabric rt rt'"
  unfolding integrate_def
  by (auto intro: put_world_only only_fabric_trans [OF put_world_only log_only] split: prod.splits sum.splits)

lemma gateway_steps_only:
  "start_zarya zc now rt = (res, rt') \<Longrightarrow> only_fabric rt rt'"
  "start_flux fc now rt = (res, rt') \<Longrightarrow> only_fabric rt rt'"
proof -
  have z: "only_fabric rt (rt\<lparr>rn_zarya := z\<rparr>)" for z by (simp add: only_fabric_def same_life_def)
  have f: "only_fabric rt (rt\<lparr>rn_flux := f\<rparr>)" for f by (simp add: only_fabric_def same_life_def)
  show "start_zarya zc now rt = (res, rt') \<Longrightarrow> only_fabric rt rt'"
    by (auto simp: start_zarya_def only_fabric_refl z
        intro: only_fabric_trans [OF z integrate_only] split: if_splits prod.splits sum.splits bool.splits)
  show "start_flux fc now rt = (res, rt') \<Longrightarrow> only_fabric rt rt'"
    by (auto simp: start_flux_def only_fabric_refl f
        intro: only_fabric_trans [OF f integrate_only] split: if_splits prod.splits sum.splits bool.splits)
qed

lemma put_nodes_life: "same_life rt (put_nodes now sevs rt)"
  by (cases sevs) (simp add: put_nodes_def Let_def same_life_def)

lemma discover_local_life: "discover_local now i rt = (res, rt') \<Longrightarrow> same_life rt rt'"
  using put_nodes_life by (fastforce simp: discover_local_def same_life_def split: sum.splits prod.splits)

lemma start_trust_life: "start_trust ho i c now rt = (res, rt') \<Longrightarrow> same_life rt rt'"
  by (auto simp: start_trust_def same_life_def split: sum.splits prod.splits)

lemma start_inspect_life: "start_inspect now rt = (res, rt') \<Longrightarrow> same_life rt rt'"
  by (auto simp: start_inspect_def same_life_def split: sum.splits prod.splits)

lemma start_fabric_life: "start_fabric now rt = (res, rt') \<Longrightarrow> same_life rt rt'"
  by (auto simp: start_fabric_def same_life_def split: sum.splits prod.splits)

lemma start_listening_life: "start_listening now rt = (res, rt') \<Longrightarrow> same_life rt rt'"
  by (auto simp: start_listening_def Let_def same_life_def split: prod.splits)

lemma start_peers_life: "start_peers can_bind now rt = (res, rt') \<Longrightarrow> same_life rt rt'"
  by (auto simp: start_peers_def same_life_def split: if_splits prod.splits)

lemma start_ecosystem_life: "start_ecosystem i now rt = (res, rt') \<Longrightarrow> same_life rt rt'"
  unfolding start_ecosystem_def by (drule discover_local_life) (simp add: same_life_def)

lemma start_services_life: "start_services i k now rt = (res, rt') \<Longrightarrow> same_life rt rt'"
  by (auto simp: start_services_def same_life_def)

lemma only_fabric_life: "only_fabric rt rt' \<Longrightarrow> same_life rt rt'"
  by (simp add: only_fabric_def)

lemmas step_lives = discover_local_life start_trust_life start_inspect_life start_fabric_life start_listening_life
  start_peers_life start_ecosystem_life start_services_life gateway_steps_only [THEN only_fabric_life]

lemma service_steps_life:
  "f \<in> set (service_steps ho i k c) \<Longrightarrow> f now rt = (res, rt') \<Longrightarrow> same_life rt rt'"
  by (auto simp: service_steps_def intro: step_lives)

lemma run_steps_life:
  "(\<And>f now rt res rt'. f \<in> set fs \<Longrightarrow> f now rt = (res, rt') \<Longrightarrow> same_life rt rt') \<Longrightarrow>
     run_steps_until clock n fs rt = (res, rt') \<Longrightarrow> same_life rt rt'"
proof (induction fs arbitrary: n rt)
  case Nil
  then show ?case by (simp add: same_life_def)
next
  case (Cons f fs)
  obtain r rt1 where f: "f (clock n) rt = (r, rt1)" by (cases "f (clock n) rt")
  have "same_life rt rt1" using Cons.prems(1) [of f "clock n" rt r rt1] f by simp
  moreover have "same_life rt1 rt'" if "r = None"
  proof (rule Cons.IH)
    show "same_life rt rt'" if "g \<in> set fs" "g now rt = (res, rt')" for g now rt res rt'
      using Cons.prems(1) [of g now rt res rt'] that by simp
    show "run_steps_until clock (Suc n) fs rt1 = (res, rt')" using Cons.prems(2) f that by simp
  qed
  ultimately show ?case using Cons.prems(2) f by (cases r) (auto intro: same_life_trans)
qed

lemma run_services_life:
  "run_steps_until clock n (service_steps ho i k c) rt = (res, rt') \<Longrightarrow> same_life rt rt'"
  by (rule run_steps_life) (rule service_steps_life)

lemma start_body_state: "start_body ho clock rt = (res, rt') \<Longrightarrow> rn_state rt' = rn_state rt"
  by (auto simp: start_body_def Let_def same_life_def dest!: run_services_life split: option.splits prod.splits sum.splits)

lemma put_world_state [simp]: "rn_state (put_world w rt) = rn_state rt"
  using put_world_only [of rt w] by (simp add: only_fabric_def same_life_def)

text \<open>What the poll that ends a start answers.\<close>

definition first_poll :: "'k host \<Rightarrow> time \<Rightarrow> 'k runtime \<Rightarrow> readiness_event list result" where
  "first_poll ho now rt =
     fst (start_tracker (ho_zarya ho) (ho_flux ho) now (fst (set_node_ready now (rn_tracker rt))) (world_of rt))"

lemma start_tracking_cases:
  assumes init: "status rt = INITIALIZING" and run: "start_tracking ho now rt = (res, rt')"
  shows "case res of
      None \<Rightarrow> status rt' = RUNNING \<and> rs_started_at (rn_state rt') = Some now \<and> last (rn_log rt') = Runtime_Started
        \<and> rs_error_detail (rn_state rt') = rs_error_detail (rn_state rt)
    | Some e \<Rightarrow> rn_state rt' = rn_state rt \<and> first_poll ho now rt = Inl e"
proof -
  obtain t evs where t: "set_node_ready now (rn_tracker rt) = (t, evs)" by (meson surj_pair)
  obtain r t' w where p: "start_tracker (ho_zarya ho) (ho_flux ho) now t (world_of rt) = (r, t', w)" by (meson prod_cases3)
  show ?thesis
    using run init by (cases r)
      (auto simp: start_tracking_def t p first_poll_def Let_def set_status_def transition_to_def validate_transition_def)
qed

lemma stop_services_state [simp]: "rn_state (stop_services rt) = rn_state rt" "rn_log (stop_services rt) = rn_log rt"
  by (simp_all add: stop_services_def split: prod.split)

text \<open>What \<open>stop\<close> stops.\<close>

definition services_off :: "'k runtime \<Rightarrow> bool" where
  "services_off rt \<longleftrightarrow> \<not> rt_running (rn_tracker rt) \<and> \<not> xs_subscribed (rn_context rt)
     \<and> fab_instances (rn_fabric rt) = [] \<and> (\<forall>d. rn_discovery rt = Some d \<longrightarrow> \<not> dv_running d)"

lemma stop_discovery_off: "\<not> dv_running (stop_discovery d)"
  by (simp add: stop_discovery_def)

lemma stop_services_off: "services_off (stop_services rt)"
  using stop_discovery_off by (auto simp: stop_services_def services_off_def stop_context_def stop_tracker_def
      fabric_stop_def split: prod.splits if_splits)

lemma services_off_status [simp]: "services_off (rt\<lparr>rn_state := st\<rparr>) = services_off rt"
  by (simp add: services_off_def)

lemma services_off_log [simp]: "services_off (log_events evs rt) = services_off rt"
  by (simp add: services_off_def)

lemma stop_runs:
  assumes "status rt \<in> {INITIALIZING, RUNNING, ERROR}"
  shows "\<exists>rt'. stop now rt = (None, rt') \<and> status rt' = STOPPED \<and> services_off rt'
    \<and> last (rn_log rt') = Runtime_Stopped"
proof -
  let ?rt = "stop_services rt"
  have stopped: "\<exists>rt3. (case set_status now STOPPED None rt2 of (Some e, rt3) \<Rightarrow> (Some e, rt3)
        | (None, rt3) \<Rightarrow> (None, log_events [Runtime_Stopped] rt3)) = (None, rt3) \<and> status rt3 = STOPPED
        \<and> services_off rt3 \<and> last (rn_log rt3) = Runtime_Stopped"
    if "status rt2 \<in> {STOPPING, ERROR}" "services_off rt2" for rt2 :: "'a runtime"
    using that set_status_ok [of STOPPED rt2 now None] by auto
  show ?thesis
  proof (cases "status rt = ERROR")
    case True
    then show ?thesis using stopped [of ?rt] stop_services_off [of rt] by (simp add: stop_def Let_def)
  next
    case False
    with assms obtain st where st: "set_status now STOPPING None ?rt = (None, ?rt\<lparr>rn_state := st\<rparr>)" "rs_status st = STOPPING"
      using set_status_ok [of STOPPING ?rt now None] by auto
    from stopped [of "log_events [Runtime_Stopping] (?rt\<lparr>rn_state := st\<rparr>)"] st False assms stop_services_off [of rt]
    show ?thesis by (auto simp: stop_def Let_def)
  qed
qed

text \<open>
  \<open>stop\<close> is not idempotent for a runtime that was never started: it raises, after it has stopped
  the services.
\<close>

lemma stop_created_raises:
  "status rt = CREATED \<Longrightarrow> stop now rt = (Some (invalid_state_transition CREATED STOPPING), stop_services rt)"
  by (simp add: stop_def Let_def set_status_refused)

text \<open>
  C5. Starting a runtime. A runtime that was started before refuses, unchanged. Otherwise
  the start either succeeds and leaves the runtime RUNNING with its start time, or raises: what one of
  the start's steps raised leaves it in ERROR with the message recorded and published, but
  what the first readiness poll raised leaves it INITIALIZING, with no error recorded. In every case \<open>stop\<close>
  then ends in STOPPED with all services off, and a second \<open>stop\<close> does nothing.
\<close>

theorem runtime_start_outcome:
  assumes run: "start ho clock rt = (res, rt')"
  shows "if status rt \<noteq> CREATED
    then res = Some (invalid_state_transition (status rt) INITIALIZING) \<and> rt' = rt
    else (case res of
        None \<Rightarrow> status rt' = RUNNING \<and> rs_started_at (rn_state rt') = Some (clock 11)
          \<and> last (rn_log rt') = Runtime_Started
      | Some e \<Rightarrow> (status rt' = ERROR \<and> rs_error_detail (rn_state rt') = Some (exn_msg e)
            \<and> last (rn_log rt') = Runtime_Error (exn_msg e))
          \<or> (status rt' = INITIALIZING \<and> rs_error_detail (rn_state rt') = rs_error_detail (rn_state rt)
            \<and> (\<exists>rt2. first_poll ho (clock 11) rt2 = Inl e)))
      \<and> (\<exists>rt3. stop now rt' = (None, rt3) \<and> status rt3 = STOPPED \<and> services_off rt3 \<and> stop now' rt3 = (None, rt3))"
proof (cases "status rt = CREATED")
  case False
  with run have "res = Some (invalid_state_transition (status rt) INITIALIZING)" "rt' = rt" by (auto simp: start_def)
  with False show ?thesis by simp
next
  case True
  then obtain st where st: "set_status (clock 0) INITIALIZING None rt = (None, rt\<lparr>rn_state := st\<rparr>)" "rs_status st = INITIALIZING"
    "rs_error_detail st = rs_error_detail (rn_state rt)"
    using set_status_ok [of INITIALIZING rt "clock 0" None] by (auto simp: transition_to_def validate_transition_def)
  obtain r rt2 where body: "start_body ho clock (rt\<lparr>rn_state := st\<rparr>) = (r, rt2)" by (meson surj_pair)
  from start_body_state [OF this] st(2,3) have init: "status rt2 = INITIALIZING"
    "rs_error_detail (rn_state rt2) = rs_error_detail (rn_state rt)" by simp_all
  have "status rt' \<in> {INITIALIZING, RUNNING, ERROR} \<and> (case res of
        None \<Rightarrow> status rt' = RUNNING \<and> rs_started_at (rn_state rt') = Some (clock 11) \<and> last (rn_log rt') = Runtime_Started
      | Some e \<Rightarrow> (status rt' = ERROR \<and> rs_error_detail (rn_state rt') = Some (exn_msg e)
            \<and> last (rn_log rt') = Runtime_Error (exn_msg e))
          \<or> (status rt' = INITIALIZING \<and> rs_error_detail (rn_state rt') = rs_error_detail (rn_state rt)
            \<and> (\<exists>rt2. first_poll ho (clock 11) rt2 = Inl e)))"
  proof (cases r)
    case None
    then have "start_tracking ho (clock 11) rt2 = (res, rt')" using run True st body by (simp add: start_def)
    from start_tracking_cases [OF init(1) this] init show ?thesis by (cases res) auto
  next
    case (Some e)
    then show ?thesis
      using run True st body set_status_ok [of ERROR rt2 "clock 11" "Some (exn_msg e)"] init
      by (auto simp: start_def transition_to_def validate_transition_def)
  qed
  moreover have "stop now' rt3 = (None, rt3)" if "status rt3 = STOPPED" for rt3 :: "'a runtime"
    using that by (simp add: stop_def)
  ultimately show ?thesis using True stop_runs [of rt' now] by auto
qed

subsection \<open>A concrete start\<close>

text \<open>A host without gateways; the node is local only.\<close>

definition quiet_settings :: settings where
  "quiet_settings = (default_settings ''/home'')\<lparr>st_zarya_enabled := False, st_flux_enabled := False,
     st_discovery_enabled := False\<rparr>"

definition quiet_host :: "string host" where
  "quiet_host = \<lparr>ho_crypto = toy_crypto, ho_uuid = read_str, ho_codec = unary_codec, ho_mkdir_error = None,
     ho_fresh_id = ''me'', ho_fresh_key = ''key'', ho_hostname = ''box'', ho_zarya = sample_zarya_client,
     ho_flux = silent_flux_client, ho_can_bind = (\<lambda>_. True)\<rparr>"

definition quiet_runtime :: "string runtime" where
  "quiet_runtime = new_runtime quiet_settings ''r'' 0 new_id_disk empty_disk"

lemma quiet_start_facts:
  "(case start quiet_host int quiet_runtime of (e, rt) \<Rightarrow> (e, map_option fst (rn_keys rt))) = (None, Some ''key'')"
  by code_simp

lemma quiet_start: "fst (start quiet_host int quiet_runtime) = None"
  using quiet_start_facts by (simp split: prod.splits)

theorem runtime_start_outcome_witness:
  "\<exists>rt' rt3. start quiet_host int quiet_runtime = (None, rt') \<and> status rt' = RUNNING
     \<and> rs_started_at (rn_state rt') = Some 11 \<and> stop 20 rt' = (None, rt3) \<and> status rt3 = STOPPED"
proof -
  obtain rt' where run: "start quiet_host int quiet_runtime = (None, rt')"
    using quiet_start by (cases "start quiet_host int quiet_runtime") simp
  have "status quiet_runtime = CREATED" by (simp add: quiet_runtime_def new_runtime_def new_runtime_state_def)
  with runtime_start_outcome [OF run, of 20 21] run show ?thesis by auto
qed

end
