(* ===== verification/Shyam_Node.thy ===== *)
theory Shyam_Node
  imports Shyam_Runtime
begin

section \<open>What holds in every running node\<close>

text \<open>
  Invariants of the runtime of \<open>core/runtime.py\<close> over every sequence of its own operations: which
  providers its registries and its view of the ecosystem can hold, what a successful start leaves,
  and which providers a workflow can run on. The operations are the steps of \<open>runtime_step\<close>.
\<close>

subsection \<open>What the gateways do to the registries\<close>

definition FILE_CAPABILITIES :: "string list" where
  "FILE_CAPABILITIES = [''file.read'', ''file.write'', ''file.list'']"

definition FLUX_CAPABILITIES :: "string list" where
  "FLUX_CAPABILITIES = map cap_id FLUX_CAPABILITY_DEFINITIONS"

text \<open>The descriptors a gateway can register, and the providers a registry can hold.\<close>

definition gateway_desc :: "provider \<Rightarrow> bool" where
  "gateway_desc p \<longleftrightarrow> prov_id p = PROVIDER_ID_ZARYA
     \<or> prov_id p = PROVIDER_ID_FLUX \<and> set (prov_capabilities p) \<subseteq> set FLUX_CAPABILITIES"

definition known_provider :: "provider \<Rightarrow> bool" where
  "known_provider p \<longleftrightarrow> gateway_desc p \<or> prov_id p = ''local.filesystem'' \<and> prov_capabilities p = FILE_CAPABILITIES"

lemma gateway_ids [simp]:
  "PROVIDER_ID_ZARYA \<noteq> ''local.filesystem''" "PROVIDER_ID_FLUX \<noteq> ''local.filesystem''"
  "PROVIDER_ID_ZARYA \<noteq> PROVIDER_ID_FLUX"
  by (simp_all add: PROVIDER_ID_ZARYA_def PROVIDER_ID_FLUX_def)

lemma zp_descriptor_gateway: "zp_descriptor z = Inr p \<Longrightarrow> gateway_desc p"
  by (simp add: gateway_desc_def zarya.descriptor_id)

lemma fp_descriptor_gateway:
  assumes "fp_descriptor f = Inr p"
  shows "gateway_desc p"
proof -
  have off: "prov_capabilities p = []" if "flux_disconnected_descriptor = Inr p"
    using flux_disconnected_ok by (auto simp: that)
  show ?thesis
    using assms flux.descriptor_id [of f p] off
    by (auto simp: gateway_desc_def FLUX_CAPABILITIES_def fp_descriptor_def flux_map_to_shyam_provider_def
        dest!: mk_provider_Inr split: if_splits option.splits)
qed

text \<open>The changes of a readiness world that the gateways can cause, in any number.\<close>

inductive gateways_update :: "readiness_world \<Rightarrow> readiness_world \<Rightarrow> bool" for w where
  same: "gateways_update w w"
| zarya: "gateways_update w w' \<Longrightarrow> gateways_update w (w'\<lparr>rw_zarya := Some z\<rparr>)"
| flux: "gateways_update w w' \<Longrightarrow> gateways_update w (w'\<lparr>rw_flux := Some f\<rparr>)"
| registers: "gateways_update w w' \<Longrightarrow> gateway_desc p \<Longrightarrow> gateways_update w (registered_gateway p caps w')"

lemma gateways_update_trans: "gateways_update w1 w2 \<Longrightarrow> gateways_update w0 w1 \<Longrightarrow> gateways_update w0 w2"
  by (induction rule: gateways_update.induct) (auto intro: gateways_update.intros)

lemma on_gateway_ready_update:
  assumes "rw_providers w \<noteq> None" and "\<And>p. descriptor = Inr p \<Longrightarrow> gateway_desc p"
    and "on_gateway_ready descriptor caps w = (res, w')"
  shows "gateways_update w w'"
proof (cases descriptor)
  case (Inl e)
  with assms have "w' = w" by (auto simp: on_gateway_ready_def Let_def)
  then show ?thesis by (simp add: gateways_update.same)
next
  case (Inr p)
  with assms(3) on_gateway_ready_eq [of p caps w] have "w' = registered_gateway p caps w" by auto
  then show ?thesis using assms(2) [OF Inr] by (auto intro: gateways_update.intros)
qed

lemma evaluate_gateway_update:
  assumes "rw_providers w \<noteq> None" and "\<And>p. descriptor = Inr p \<Longrightarrow> gateway_desc p"
    and "evaluate_gateway name now checked meta descriptor caps t w = (res, t', w')"
  shows "gateways_update w w'"
proof -
  obtain r w1 where r: "on_gateway_ready descriptor caps w = (r, w1)" by (meson surj_pair)
  note up = on_gateway_ready_update [OF assms(1) assms(2) r]
  show ?thesis
    using assms(3) r up gateways_update.same
    by (auto simp: evaluate_gateway_def Let_def split: prod.splits sum.splits if_splits)
qed

lemma poll_zarya_update:
  assumes "rw_providers w \<noteq> None" and "poll_zarya zc now t w = (res, t', w')"
  shows "gateways_update w w'"
proof -
  have "gateways_update w w'" if z: "evaluate_zarya zc now z t w = (res, t', w')" for z
  proof -
    obtain checked z' where c: "check_gateway zp_is_connected zp_connect zp_refresh_status zc z = (checked, z')"
      by (metis prod.collapse)
    have "gateways_update (w\<lparr>rw_zarya := Some z'\<rparr>) w'"
      by (rule evaluate_gateway_update) (use assms(1) z c zp_descriptor_gateway in \<open>auto simp: evaluate_zarya_def\<close>)
    then show ?thesis by (rule gateways_update_trans) (intro gateways_update.intros)
  qed
  then show ?thesis using assms(2)
    by (auto simp: poll_zarya_def gateways_update.same split: option.splits if_splits)
qed

lemma poll_flux_update:
  assumes "rw_providers w \<noteq> None" and "poll_flux fc now t w = (res, t', w')"
  shows "gateways_update w w'"
proof -
  have "gateways_update w w'" if f: "evaluate_flux fc now f t w = (res, t', w')" for f
  proof -
    obtain checked f' where c: "check_gateway fp_is_connected fp_connect fp_refresh_status fc f = (checked, f')"
      by (metis prod.collapse)
    have "gateways_update (w\<lparr>rw_flux := Some f'\<rparr>) w'"
      by (rule evaluate_gateway_update) (use assms(1) f c fp_descriptor_gateway in \<open>auto simp: evaluate_flux_def\<close>)
    then show ?thesis by (rule gateways_update_trans) (intro gateways_update.intros)
  qed
  then show ?thesis using assms(2)
    by (auto simp: poll_flux_def gateways_update.same split: option.splits if_splits)
qed

lemma gateways_update_some:
  "gateways_update w w' \<Longrightarrow> rw_providers w \<noteq> None \<Longrightarrow> rw_capabilities w \<noteq> None \<Longrightarrow> rw_zarya w \<noteq> None
     \<Longrightarrow> rw_flux w \<noteq> None \<Longrightarrow> rw_providers w' \<noteq> None \<and> rw_capabilities w' \<noteq> None \<and> rw_zarya w' \<noteq> None \<and> rw_flux w' \<noteq> None"
  by (induction rule: gateways_update.induct) (auto simp: registered_gateway_def)

lemma poll_all_update:
  assumes w: "rw_providers w \<noteq> None" and run: "poll_all zc fc now t w = (res, t', w')"
  shows "gateways_update w w'"
proof -
  obtain r1 t1 w1 where 1: "poll_zarya zc now t w = (r1, t1, w1)" by (meson prod_cases3)
  obtain r2 t2 w2 where 2: "poll_flux fc now t1 w1 = (r2, t2, w2)" by (meson prod_cases3)
  note up1 = poll_zarya_update [OF w 1]
  have keep: "gateways_update w v \<Longrightarrow> rw_providers v \<noteq> None" for v
    by (induction rule: gateways_update.induct) (auto simp: registered_gateway_def w)
  note up2 = poll_flux_update [OF keep [OF up1] 2]
  have "w' = w1 \<or> w' = w2" using run 1 2 by (auto simp: poll_all_def split: sum.splits prod.splits)
  then show ?thesis using up1 gateways_update_trans [OF up2 up1] by auto
qed

text \<open>What such a change keeps of the registries.\<close>

definition providers_known :: "provider_registry \<Rightarrow> bool" where
  "providers_known r \<longleftrightarrow> pr_ok r \<and> (\<forall>k p. pr_get r k = Some p \<longrightarrow> known_provider p)"

lemma providers_known_store: "providers_known r \<Longrightarrow> known_provider p \<Longrightarrow> providers_known (pr_store p r)"
  by (auto simp: providers_known_def pr.inv_insert pr.lookup_insert split: if_splits)

lemma gateways_update_keeps:
  assumes "gateways_update w w'" and "rw_providers w = Some r" and "rw_capabilities w = Some c"
    and "providers_known r" and "cr_ok c"
  shows "\<exists>r' c'. rw_providers w' = Some r' \<and> rw_capabilities w' = Some c' \<and> providers_known r' \<and> cr_ok c'
     \<and> pr_get r' ''local.filesystem'' = pr_get r ''local.filesystem'' \<and> (\<forall>i. cr_contains c i \<longrightarrow> cr_contains c' i)"
  using assms
proof (induction rule: gateways_update.induct)
  case (registers w' p caps)
  then obtain r' c' where w': "rw_providers w' = Some r'" "rw_capabilities w' = Some c'" "providers_known r'" "cr_ok c'"
    "pr_get r' ''local.filesystem'' = pr_get r ''local.filesystem''" "\<forall>i. cr_contains c i \<longrightarrow> cr_contains c' i" by blast
  have "prov_id p \<noteq> ''local.filesystem''" using registers.hyps(2) by (metis gateway_desc_def gateway_ids(1,2))
  moreover have "providers_known (pr_store p r')"
    using w'(3) registers.hyps(2) by (simp add: providers_known_store known_provider_def)
  ultimately show ?case
    using w' fold_store_contains [OF w'(4), of caps] pr.lookup_insert [of r' p "''local.filesystem''"]
    by (auto simp: registered_gateway_def providers_known_def)
qed auto

definition fabric_ok :: "fabric \<Rightarrow> bool" where
  "fabric_ok f \<longleftrightarrow> providers_known (fab_providers f) \<and> cr_ok (fab_capabilities f) \<and> fab_sources f = None"

text \<open>What every step that only talks to gateways does to the fabric.\<close>

definition fabric_grows :: "fabric \<Rightarrow> fabric \<Rightarrow> bool" where
  "fabric_grows f f' \<longleftrightarrow> (fabric_ok f \<longrightarrow> fabric_ok f'
     \<and> pr_get (fab_providers f') ''local.filesystem'' = pr_get (fab_providers f) ''local.filesystem''
     \<and> (\<forall>i. cr_contains (fab_capabilities f) i \<longrightarrow> cr_contains (fab_capabilities f') i))"

lemma fabric_grows_refl [simp]: "fabric_grows f f"
  by (simp add: fabric_grows_def)

lemma fabric_grows_trans: "fabric_grows f g \<Longrightarrow> fabric_grows g h \<Longrightarrow> fabric_grows f h"
  by (simp add: fabric_grows_def)

lemma put_world_grows:
  assumes "gateways_update (world_of rt) w"
  shows "fabric_grows (rn_fabric rt) (rn_fabric (put_world w rt))"
proof -
  have "rw_zarya w \<noteq> None" "rw_flux w \<noteq> None" using gateways_update_some [OF assms] by (simp_all add: world_of_def)
  then show ?thesis
    using gateways_update_keeps [OF assms, of "fab_providers (rn_fabric rt)" "fab_capabilities (rn_fabric rt)"]
    by (auto simp: world_of_def fabric_grows_def fabric_ok_def put_world_def)
qed

lemma integrate_grows:
  assumes "\<And>p. d = Inr p \<Longrightarrow> gateway_desc p" and "integrate d caps rt = (res, rt')"
  shows "fabric_grows (rn_fabric rt) (rn_fabric rt')"
proof -
  obtain r w where w: "on_gateway_ready d caps (world_of rt) = (r, w)" by (meson surj_pair)
  have "gateways_update (world_of rt) w"
    by (rule on_gateway_ready_update [OF _ assms(1) w]) (auto simp: world_of_def)
  from put_world_grows [OF this] assms(2) w show ?thesis by (auto simp: integrate_def split: sum.splits)
qed

lemma start_zarya_grows: "start_zarya zc now rt = (res, rt') \<Longrightarrow> fabric_grows (rn_fabric rt) (rn_fabric rt')"
  by (auto simp: start_zarya_def split: if_splits prod.splits sum.splits bool.splits
      dest!: integrate_grows [rotated] intro: zp_descriptor_gateway)

lemma start_flux_grows: "start_flux fc now rt = (res, rt') \<Longrightarrow> fabric_grows (rn_fabric rt) (rn_fabric rt')"
  by (auto simp: start_flux_def split: if_splits prod.splits sum.splits bool.splits
      dest!: integrate_grows [rotated] intro: fp_descriptor_gateway)

subsection \<open>What a successful start leaves\<close>

lemma run_steps_until_None:
  "run_steps_until clock k (f # fs) rt = (None, rt') \<longleftrightarrow>
     (\<exists>rt1. f (clock k) rt = (None, rt1) \<and> run_steps_until clock (Suc k) fs rt1 = (None, rt'))"
  by (auto split: prod.splits option.splits)

lemma start_trust_ok:
  assumes "start_trust ho i c now rt = (None, rt')"
  shows "\<exists>ts dk evs r. rt' = rt\<lparr>rn_trust := ts, rn_trust_disk := dk, rn_log := evs\<rparr>
    \<and> dget (ts_records ts) (ni_node_id i) = Some r \<and> tr_is_trusted r \<and> ts_initialized ts
    \<and> (ci_public_key c \<noteq> [] \<longrightarrow> tr_public_key r = Some (ci_public_key c))"
proof -
  obtain ts where ts: "trust_initialize (ho_codec ho) now (rn_trust_disk rt) (rn_trust rt) = Inr ts"
    using assms by (auto simp: start_trust_def split: sum.splits)
  let ?r = "granted_record now (ni_node_id i) (Some (ci_public_key c)) REL_PERSONAL (ni_node_name i)
    (Some [(''is_local'', PBool True)]) (dget (ts_records ts) (ni_node_id i))"
  obtain res ts' dk evs where g: "grant_trust (ho_codec ho) now (ni_node_id i) (Some (ci_public_key c)) REL_PERSONAL
      (ni_node_name i) (Some [(''is_local'', PBool True)]) ts (rn_trust_disk rt) = (res, ts', dk, evs)"
    by (metis prod_cases4)
  then have "ts' = ts\<lparr>ts_records := dset (ni_node_id i) ?r (ts_records ts)\<rparr>"
    by (auto simp: grant_trust_def store_record_def Let_def split: prod.splits sum.splits)
  moreover have "ts_initialized ts" using ts by (auto simp: trust_initialize_def split: if_splits sum.splits)
  moreover have "rt' = rt\<lparr>rn_trust := ts', rn_trust_disk := dk, rn_log := rn_log rt @ map Trust_Event evs\<rparr>"
    using assms ts g by (simp add: start_trust_def log_events_def)
  ultimately show ?thesis
    by (intro exI [of _ ts'] exI [of _ dk] exI [of _ "rn_log rt @ map Trust_Event evs"] exI [of _ ?r])
      (simp add: granted_key)
qed

lemma start_inspect_ok:
  assumes "start_inspect now rt = (None, rt')" and "fabric_ok (rn_fabric rt)"
  shows "\<exists>f evs. rt' = rt\<lparr>rn_fabric := f, rn_log := evs\<rparr> \<and> fabric_ok f
    \<and> cr_contains (fab_capabilities f) ''shyam.runtime.inspect''"
proof -
  obtain c where c: "mk_capability ''shyam.runtime.inspect'' ''Runtime Introspection'' ''1.0.0''
      ''Inspect local Shyam node status, identity, and capabilities'' [] AVAILABLE = Inr c"
    using assms(1) by (auto simp: start_inspect_def split: sum.splits)
  have id: "cap_id c = ''shyam.runtime.inspect''" using c by (auto simp: mk_capability_iff)
  have "cr_ok (cr_store c (fab_capabilities (rn_fabric rt)))" using assms(2) by (simp add: fabric_ok_def cr.inv_insert)
  moreover obtain es where "cr_register (fab_capabilities (rn_fabric rt)) c True
      = Inr (cr_store c (fab_capabilities (rn_fabric rt)), es)" by (simp add: cr_register_def Let_def)
  ultimately show ?thesis using assms c id
    by (auto simp: start_inspect_def log_events_def fabric_ok_def cr_contains_def cr_store_def dmem_def)
qed

lemma add_missing_ok: "cr_ok r \<Longrightarrow> cr_ok (add_missing cs r)"
  by (induction cs r rule: add_missing.induct) (simp_all add: cr.inv_insert)

lemma add_missing_contains: "cr_contains r i \<Longrightarrow> cr_contains (add_missing cs r) i"
  by (simp add: cr_contains_get add_missing_get)

lemma started_filesystem_known:
  "known_provider (started_desc LocalFilesystemProvider)" "known_provider (lp_descriptor LocalFilesystemProvider)"
  by (simp_all add: known_provider_def started_desc_def LocalFilesystemProvider_def FILE_CAPABILITIES_def
      FILESYSTEM_CAPABILITY_DEFINITIONS_def)

lemma fabric_start_ok:
  assumes ok: "fabric_ok f" and run: "fabric_start f = Inr (f', evs)"
  shows "fabric_ok f' \<and> pr_get (fab_providers f') ''local.filesystem'' = Some (started_desc LocalFilesystemProvider)
    \<and> (\<forall>i. cr_contains (fab_capabilities f) i \<longrightarrow> cr_contains (fab_capabilities f') i)"
proof -
  let ?L = LocalFilesystemProvider
  have "build_provider_list f = [?L]" using ok by (simp add: fabric_ok_def build_provider_list_def)
  with run start_provider_eq [of ?L f "[]"] have f': "f' = f\<lparr>
      fab_capabilities := add_missing (lp_capability_definitions ?L) (fab_capabilities f),
      fab_providers := pr_store (started_desc ?L) (pr_store (lp_descriptor ?L) (fab_providers f)),
      fab_instances := dset (prov_id (lp_descriptor ?L)) ?L (fab_instances f)\<rparr>"
    by (auto simp: fabric_start_def)
  have "providers_known (fab_providers f')"
    using ok started_filesystem_known by (simp add: f' fabric_ok_def providers_known_store)
  moreover have "pr_get (fab_providers f') ''local.filesystem'' = Some (started_desc ?L)"
    using ok by (simp add: f' fabric_ok_def providers_known_def pr.lookup_insert pr.inv_insert LocalFilesystemProvider_def)
  ultimately show ?thesis using ok by (auto simp: f' fabric_ok_def add_missing_ok add_missing_contains)
qed

text \<open>The local node after its discovery shows the providers of the fabric.\<close>

definition shows_files :: "disc_node \<Rightarrow> bool" where
  "shows_files n \<longleftrightarrow> dn_is_local n \<and> dn_state n = NODE_AVAILABLE
     \<and> (\<exists>dp. dget (dn_providers n) ''local.filesystem'' = Some dp
          \<and> dp_capability_ids dp = FILE_CAPABILITIES \<and> dp_status dp = AVAILABLE)"

lemma discover_local_cases:
  assumes "discover_local now i rt = (None, rt')"
  shows "\<exists>s evs n. discover_local_node (ecosystem_of i rt) now = Inr (s, evs, n) \<and> rt' = put_nodes now (s, evs) rt"
  using assms by (auto simp: discover_local_def split: sum.splits)

lemma discover_local_node_cases:
  assumes "discover_local_node s now = Inr (s', evs, n)"
  shows "\<exists>provs. local_providers s now = Inr provs \<and> register_in s n = (s', evs) \<and> dn_providers n = provs
     \<and> dn_node_id n = es_local_node_id s \<and> dn_is_local n \<and> dn_state n = NODE_AVAILABLE"
  using assms by (auto simp: discover_local_node_def Let_def split: sum.splits prod.splits)

lemma register_first:
  "register_in s n = (s', evs) \<Longrightarrow> er_nodes (es_registry s) = [] \<Longrightarrow> er_nodes (es_registry s') = [(dn_node_id n, n)]"
  by (auto simp: register_in_def register_node_def er_get_node_def er_defs Let_def)

lemma discover_local_shows_files:
  assumes "discover_local now i rt = (None, rt')" and ok: "fabric_ok (rn_fabric rt)" "er_nodes (rn_registry rt) = []"
    and fs: "pr_get (fab_providers (rn_fabric rt)) ''local.filesystem'' = Some (started_desc LocalFilesystemProvider)"
  shows "\<exists>n. er_nodes (rn_registry rt') = [(ni_node_id i, n)] \<and> dn_node_id n = ni_node_id i \<and> shows_files n"
proof -
  obtain s evs n where run: "discover_local_node (ecosystem_of i rt) now = Inr (s, evs, n)" and rt': "rt' = put_nodes now (s, evs) rt"
    using discover_local_cases [OF assms(1)] by blast
  from discover_local_node_cases [OF run] obtain provs where p: "local_providers (ecosystem_of i rt) now = Inr provs"
    and reg: "register_in (ecosystem_of i rt) n = (s, evs)" and n: "dn_providers n = provs"
    "dn_node_id n = ni_node_id i" "dn_is_local n" "dn_state n = NODE_AVAILABLE" by (auto simp: ecosystem_of_def)
  have "\<exists>dp. dget provs ''local.filesystem'' = Some dp \<and> mirrors dp (started_desc LocalFilesystemProvider)"
    using local_providers_get [OF _ _ p] ok fs by (simp add: ecosystem_of_def fabric_ok_def providers_known_def)
  then have "shows_files n"
    using n by (auto simp: shows_files_def mirrors_def started_desc_def LocalFilesystemProvider_def
        FILE_CAPABILITIES_def FILESYSTEM_CAPABILITY_DEFINITIONS_def)
  moreover have "er_nodes (es_registry s) = [(ni_node_id i, n)]"
    using register_first [OF reg] ok(2) n by (simp add: ecosystem_of_def)
  ultimately show ?thesis using n(2) by (auto simp: rt' put_nodes_def Let_def)
qed

text \<open>What the two last phases of a start, the steps that only talk to gateways, and the tracker leave alone.\<close>

definition rest_same :: "'k runtime \<Rightarrow> 'k runtime \<Rightarrow> bool" where
  "rest_same rt rt' \<longleftrightarrow> rn_settings rt' = rn_settings rt \<and> rn_keys rt' = rn_keys rt \<and> rn_identity rt' = rn_identity rt
     \<and> rn_trust rt' = rn_trust rt \<and> rn_sync rt' = rn_sync rt \<and> rn_ecosystem rt' = rn_ecosystem rt
     \<and> rn_registry rt' = rn_registry rt \<and> rn_context rt' = rn_context rt \<and> rn_peer_bus rt' = rn_peer_bus rt
     \<and> rn_discovery rt' = rn_discovery rt \<and> rn_continuity rt' = rn_continuity rt"

lemma only_fabric_rest: "only_fabric rt rt' \<Longrightarrow> rest_same rt rt'"
  by (simp add: only_fabric_def same_life_def rest_same_def)

lemma set_status_frame: "set_status now s err rt = (res, rt') \<Longrightarrow> \<exists>st. rt' = rt\<lparr>rn_state := st\<rparr>"
  by (auto simp: set_status_def split: sum.splits intro: exI [of _ "rn_state rt"])

lemma start_tracking_frame:
  assumes "start_tracking ho now rt = (res, rt')"
  shows "rest_same rt rt' \<and> fabric_grows (rn_fabric rt) (rn_fabric rt')"
proof -
  obtain t evs where t: "set_node_ready now (rn_tracker rt) = (t, evs)" by (meson surj_pair)
  obtain r t' w where p: "start_tracker (ho_zarya ho) (ho_flux ho) now t (world_of rt) = (r, t', w)" by (meson prod_cases3)
  have "gateways_update (world_of rt) w"
    using p poll_all_update [of "world_of rt"]
    by (auto simp: start_tracker_def world_of_def gateways_update.same split: if_splits)
  then have w: "gateways_update (world_of (rt\<lparr>rn_tracker := t'\<rparr>)) w" by (simp add: world_of_def)
  have r: "rest_same (rt\<lparr>rn_tracker := t'\<rparr>) (put_world w (rt\<lparr>rn_tracker := t'\<rparr>))"
    by (rule only_fabric_rest [OF put_world_only])
  have g: "fabric_grows (rn_fabric rt) (rn_fabric (put_world w (rt\<lparr>rn_tracker := t'\<rparr>)))"
    using put_world_grows [OF w] by simp
  show ?thesis
    using assms r g by (auto simp: start_tracking_def t p Let_def rest_same_def dest!: set_status_frame
        split: sum.splits prod.splits option.splits)
qed

lemma identity_loaded: "get_or_create_identity uuid tc fresh now host im dk = (Inr i, im', dk') \<Longrightarrow> im_identity im' = Some i"
  by (auto simp: get_or_create_identity_def split: option.splits prod.splits sum.splits if_splits)

lemma keypair_for_node:
  "load_or_create_keypair cy uuid tc now fresh n dk = (Inr (k, c), dk') \<Longrightarrow> ci_node_id c = n"
  by (auto simp: load_or_create_keypair_def load_keypair_def to_crypto_identity_def Let_def
      split: option.splits key_file.splits json_file.splits if_splits)

lemma start_listening_ok:
  assumes "start_listening now rt = (None, rt')"
  shows "\<exists>b x cb. rt' = rt\<lparr>rn_peer_bus := b, rn_context := x, rn_context_bus := cb\<rparr> \<and> xs_subscribed x
    \<and> (\<forall>(ty, h) \<in> set peer_subscriptions. h \<in> set (dget_or b ty []))"
proof -
  let ?b = "fold (\<lambda>(ty, h) b. subscribe b ty h) peer_subscriptions (rn_peer_bus rt)"
  have sub: "h' \<in> set (dget_or (subscribe b ty h) ty' []) \<longleftrightarrow> h' \<in> set (dget_or b ty' []) \<or> ty' = ty \<and> h' = h" for b ty h ty' h'
    by (auto simp: subscribe_def Let_def dget_or_def split: if_splits option.splits)
  have "\<forall>(ty, h) \<in> set peer_subscriptions. h \<in> set (dget_or ?b ty [])"
    by (simp add: peer_subscriptions_def sub)
  moreover obtain x cb where x: "start_context (rn_registry rt) now (rn_context rt) (rn_context_bus rt) = (x, cb)" by (meson surj_pair)
  moreover have "xs_subscribed x" using x by (auto simp: start_context_def split: if_splits)
  ultimately show ?thesis
    using assms by (intro exI [of _ ?b] exI [of _ x] exI [of _ cb]) (simp add: start_listening_def Let_def)
qed

definition hears_nobody :: "discovery_service \<Rightarrow> bool" where
  "hears_nobody d \<longleftrightarrow> dv_peers d = [] \<and> dv_pending d = []"

lemma start_peers_ok:
  assumes "start_peers can_bind now rt = (None, rt')"
  shows "\<exists>d. rt' = rt\<lparr>rn_discovery := d\<rparr> \<and> (st_discovery_enabled (rn_settings rt) \<longrightarrow> (\<exists>v. d = Some v \<and> dv_running v \<and> dv_transport v))
    \<and> (d = rn_discovery rt \<or> (\<exists>v. d = Some v \<and> hears_nobody v))"
proof (cases "st_discovery_enabled (rn_settings rt)")
  case False
  with assms show ?thesis by (intro exI [of _ "rn_discovery rt"]) (simp add: start_peers_def)
next
  case True
  then show ?thesis
    using assms by (auto simp: start_peers_def start_discovery_def new_discovery_def hears_nobody_def Let_def split: if_splits)
qed

text \<open>The conclusion of the services' part of a start, before the first poll.\<close>

definition services_up :: "node_identity \<Rightarrow> 'k \<Rightarrow> crypto_identity \<Rightarrow> 'k runtime \<Rightarrow> bool" where
  "services_up i k c rt \<longleftrightarrow>
     rn_ecosystem rt = Some i \<and> sync_of rt = Inr (new_sync_service (ni_node_id i) k True 1000)
     \<and> (\<exists>r. dget (ts_records (rn_trust rt)) (ni_node_id i) = Some r \<and> tr_is_trusted r
          \<and> (ci_public_key c \<noteq> [] \<longrightarrow> tr_public_key r = Some (ci_public_key c)))
     \<and> ts_initialized (rn_trust rt) \<and> rn_continuity rt = Some new_continuity_service
     \<and> (\<exists>n. er_nodes (rn_registry rt) = [(ni_node_id i, n)] \<and> dn_node_id n = ni_node_id i \<and> shows_files n)
     \<and> xs_subscribed (rn_context rt)
     \<and> (\<forall>(ty, h) \<in> set peer_subscriptions. h \<in> set (dget_or (rn_peer_bus rt) ty []))
     \<and> (st_discovery_enabled (rn_settings rt) \<longrightarrow> (\<exists>v. rn_discovery rt = Some v \<and> dv_running v \<and> dv_transport v))
     \<and> (\<forall>v. rn_discovery rt = Some v \<longrightarrow> hears_nobody v)"

definition fabric_up :: "fabric \<Rightarrow> bool" where
  "fabric_up f \<longleftrightarrow> fabric_ok f \<and> cr_contains (fab_capabilities f) ''shyam.runtime.inspect''
     \<and> pr_get (fab_providers f) ''local.filesystem'' = Some (started_desc LocalFilesystemProvider)"

lemma fabric_grows_up: "fabric_up f \<Longrightarrow> fabric_grows f f' \<Longrightarrow> fabric_up f'"
  by (simp add: fabric_up_def fabric_grows_def)

lemma services_up_rest: "services_up i k c rt \<Longrightarrow> rest_same rt rt' \<Longrightarrow> services_up i k c rt'"
  by (simp add: services_up_def rest_same_def sync_of_def)

lemma only_fabric_same: "only_fabric rt rt' \<Longrightarrow> rest_same rt rt'"
  by (rule only_fabric_rest)

lemma service_steps_up:
  assumes run: "run_steps_until clock m (service_steps ho i k c) rt0 = (None, rt)"
    and ok: "fabric_ok (rn_fabric rt0)" "er_nodes (rn_registry rt0) = []" "rn_discovery rt0 = None"
  shows "services_up i k c rt \<and> fabric_up (rn_fabric rt) \<and> rn_keys rt = rn_keys rt0 \<and> rn_identity rt = rn_identity rt0"
proof -
  have life: "rn_keys rt = rn_keys rt0 \<and> rn_identity rt = rn_identity rt0 \<and> rn_settings rt = rn_settings rt0"
    using run_services_life [OF run] by (simp add: same_life_def)
  from run obtain t1 t2 t3 t4 t5 t6 t7 t8 t9 r1 r2 r3 r4 r5 r6 r7 r8 where
    s1: "start_trust ho i c t1 rt0 = (None, r1)" and s2: "start_services i k t2 r1 = (None, r2)"
    and s3: "start_inspect t3 r2 = (None, r3)" and s4: "start_fabric t4 r3 = (None, r4)"
    and s5: "start_zarya (ho_zarya ho) t5 r4 = (None, r5)" and s6: "start_flux (ho_flux ho) t6 r5 = (None, r6)"
    and s7: "start_ecosystem i t7 r6 = (None, r7)" and s8: "start_listening t8 r7 = (None, r8)"
    and s9: "start_peers (ho_can_bind ho) t9 r8 = (None, rt)"
    unfolding service_steps_def run_steps_until_None run_steps_until.simps(1) prod.inject by blast
  from start_trust_ok [OF s1] obtain ts dk l r where r1: "r1 = rt0\<lparr>rn_trust := ts, rn_trust_disk := dk, rn_log := l\<rparr>"
    and trust: "dget (ts_records ts) (ni_node_id i) = Some r" "tr_is_trusted r"
      "ci_public_key c \<noteq> [] \<longrightarrow> tr_public_key r = Some (ci_public_key c)" "ts_initialized ts" by blast
  from s2 have r2: "rn_sync r2 = Some (new_sync_service (ni_node_id i) k True 1000)" "rn_trust r2 = ts"
    "rn_fabric r2 = rn_fabric rt0" "rn_registry r2 = rn_registry rt0" "rn_continuity r2 = Some new_continuity_service"
    "rn_discovery r2 = None" using ok(3) by (auto simp: start_services_def r1)
  from start_inspect_ok [OF s3] ok(1) r2 obtain f3 l3 where r3: "r3 = r2\<lparr>rn_fabric := f3, rn_log := l3\<rparr>" "fabric_ok f3"
    "cr_contains (fab_capabilities f3) ''shyam.runtime.inspect''" by auto
  from s4 obtain f4 l4 evs where r4: "r4 = r3\<lparr>rn_fabric := f4, rn_log := l4\<rparr>" and f4: "fabric_start f3 = Inr (f4, evs)"
    by (auto simp: start_fabric_def log_events_def r3 split: sum.splits)
  from fabric_start_ok [OF r3(2) f4] r3(3) have up4: "fabric_up f4" by (simp add: fabric_up_def)
  have up5: "fabric_up (rn_fabric r5)" using fabric_grows_up [OF _ start_zarya_grows [OF s5]] up4 by (simp add: r4)
  have up6: "fabric_up (rn_fabric r6)" by (rule fabric_grows_up [OF up5 start_flux_grows [OF s6]])
  have same: "rest_same r4 r6"
    using gateway_steps_only(1) [OF s5] gateway_steps_only(2) [OF s6] only_fabric_trans only_fabric_rest by blast
  let ?r6 = "r6\<lparr>rn_ecosystem := Some i\<rparr>"
  have reg6: "er_nodes (rn_registry r6) = []"
    and keep6: "rn_trust r6 = ts" "rn_sync r6 = rn_sync r2" "rn_continuity r6 = rn_continuity r2" "rn_discovery r6 = None"
    using same ok(2) r2(6) by (simp_all add: rest_same_def r4 r3 r2)
  from s7 have d7: "discover_local t7 i ?r6 = (None, r7)" by (simp add: start_ecosystem_def)
  from discover_local_shows_files [OF d7] up6 reg6 obtain n where
    n: "er_nodes (rn_registry r7) = [(ni_node_id i, n)]" "dn_node_id n = ni_node_id i" "shows_files n" by (auto simp: fabric_up_def)
  have r7: "rn_fabric r7 = rn_fabric r6" "rn_trust r7 = ts" "rn_sync r7 = rn_sync r2" "rn_ecosystem r7 = Some i"
    "rn_continuity r7 = rn_continuity r2" "rn_discovery r7 = None"
    using discover_local_cases [OF d7] keep6 by (auto simp: put_nodes_def Let_def)
  from start_listening_ok [OF s8] obtain b x cb where r8: "r8 = r7\<lparr>rn_peer_bus := b, rn_context := x, rn_context_bus := cb\<rparr>"
    and up8: "xs_subscribed x" "\<forall>(ty, h) \<in> set peer_subscriptions. h \<in> set (dget_or b ty [])" by blast
  from start_peers_ok [OF s9] obtain d where rt: "rt = r8\<lparr>rn_discovery := d\<rparr>"
    and d: "st_discovery_enabled (rn_settings r8) \<longrightarrow> (\<exists>v. d = Some v \<and> dv_running v \<and> dv_transport v)"
      "d = rn_discovery r8 \<or> (\<exists>v. d = Some v \<and> hears_nobody v)" by blast
  have "fabric_up (rn_fabric rt)" using up6 by (simp add: rt r8 r7)
  moreover have "services_up i k c rt"
    using n trust up8 d r2(1,5) by (auto simp: services_up_def sync_of_def rt r8 r7)
  ultimately show ?thesis using life by simp
qed

lemma start_leaves:
  fixes rt :: "'k runtime"
  assumes run: "start ho clock (new_runtime st rid now di dt) = (None, rt)"
  shows "\<exists>i im k c. rn_identity rt = Some im \<and> im_identity im = Some i \<and> rn_keys rt = Some (k, c)
    \<and> ci_node_id c = ni_node_id i \<and> is_running rt \<and> services_up i k c rt \<and> fabric_up (rn_fabric rt)"
proof -
  let ?rt0 = "new_runtime st rid now di dt :: 'k runtime"
  have created: "status ?rt0 = CREATED" by (simp add: new_runtime_def new_runtime_state_def)
  then obtain s where s: "set_status (clock 0) INITIALIZING None ?rt0 = (None, ?rt0\<lparr>rn_state := s\<rparr>)" "rs_status s = INITIALIZING"
    using set_status_ok [of INITIALIZING ?rt0 "clock 0" None] by auto
  obtain rt2 where body: "start_body ho clock (?rt0\<lparr>rn_state := s\<rparr>) = (None, rt2)"
    and track: "start_tracking ho (clock 11) rt2 = (None, rt)"
    using run s(1) created by (auto simp: start_def split: prod.splits option.splits)
  obtain i im dk k c dk' where id: "get_or_create_identity (ho_uuid ho) (ho_codec ho) (ho_fresh_id ho) (clock 0) (ho_hostname ho)
       (new_identity_manager (Some (st_runtime_name st))) di = (Inr i, im, dk)"
    and key: "load_or_create_keypair (ho_crypto ho) (ho_uuid ho) (ho_codec ho) (clock 1) (ho_fresh_key ho) (ni_node_id i) dk
       = (Inr (k, c), dk')"
    and steps: "run_steps_until clock 2 (service_steps ho i k c) (?rt0\<lparr>rn_state := s, rn_identity := Some im, rn_id_disk := dk',
       rn_keys := Some (k, c)\<rparr>) = (None, rt2)"
    using body by (auto simp: start_body_def Let_def new_runtime_def split: option.splits prod.splits sum.splits)
  let ?rtA = "?rt0\<lparr>rn_state := s, rn_identity := Some im, rn_id_disk := dk', rn_keys := Some (k, c)\<rparr>"
  have "fabric_ok (rn_fabric ?rtA)" "er_nodes (rn_registry ?rtA) = []" "rn_discovery ?rtA = None"
    by (simp_all add: new_runtime_def fabric_ok_def providers_known_def new_provider_registry_def
        new_capability_registry_def new_ecosystem_registry_def pr_defs cr_ok_def er_ok_def keyed_def dict_ok_def)
  from service_steps_up [OF steps this] have up: "services_up i k c rt2" "fabric_up (rn_fabric rt2)"
    "rn_keys rt2 = Some (k, c)" "rn_identity rt2 = Some im" by simp_all
  have init: "status rt2 = INITIALIZING" using start_body_state [OF body] s(2) by simp
  from start_tracking_cases [OF init track] have "is_running rt" by (simp add: is_running_def)
  with start_tracking_frame [OF track] up identity_loaded [OF id] keypair_for_node [OF key] show ?thesis
    by (intro exI [of _ i] exI [of _ im] exI [of _ k] exI [of _ c])
      (auto simp: rest_same_def intro: fabric_grows_up services_up_rest)
qed

text \<open>
  C4. What a start that succeeds leaves, from a new runtime and whatever the gateways answer, where no announcement
  is taken in while it awaits them: one identity
  and a key pair for it; trust in the node's own key, in memory; synchronisation under that identity and key; the
  inspection capability and the file provider registered and AVAILABLE; the local node as the only one of the ecosystem,
  AVAILABLE, with the file capabilities; a continuity service without attempts; the context and the UDP handlers subscribed; and the
  discovery service listening when it is enabled, with no peer known.
\<close>

theorem started_node:
  fixes rt :: "'k runtime"
  assumes run: "start ho clock (new_runtime st rid now di dt) = (None, rt)"
  shows "\<exists>i im k c. rn_identity rt = Some im \<and> im_identity im = Some i \<and> rn_keys rt = Some (k, c)
    \<and> ci_node_id c = ni_node_id i \<and> is_running rt \<and> services_up i k c rt \<and> fabric_up (rn_fabric rt)"
  using assms by (rule start_leaves)

theorem started_node_witness:
  "\<exists>rt i im c. start quiet_host int quiet_runtime = (None, rt) \<and> is_running rt
     \<and> rn_identity rt = Some im \<and> im_identity im = Some i \<and> services_up i ''key'' c rt"
proof -
  obtain rt where run: "start quiet_host int quiet_runtime = (None, rt)"
    using quiet_start by (cases "start quiet_host int quiet_runtime") simp
  with quiet_start_facts have "map_option fst (rn_keys rt) = Some ''key''" by simp
  with started_node [OF run [unfolded quiet_runtime_def]] run show ?thesis by auto
qed

end
