(* ===== verification/Shyam_Targets.thy ===== *)
theory Shyam_Targets
  imports Shyam_Node
begin

section \<open>Where the work of a node can run\<close>

text \<open>
  The workflow engine of a runtime, wired as \<open>core/runtime.py\<close> wires it, over every state a
  runtime can reach. The runtime's executors are registered for \<open>local.filesystem\<close>,
  \<open>zarya.sovereign\<close> and \<open>flux.connectivity\<close>; the providers its ecosystem can show are
  \<open>local.filesystem\<close>, \<open>zarya.agent\<close>, \<open>flux.connectivity\<close>, \<open>flux.peer\<close> and \<open>shyam.peer\<close>.
\<close>

subsection \<open>An engine that keeps an invariant of its world\<close>

text \<open>A completed step ran on a target of \<open>T\<close>, through the executor of its provider.\<close>

definition ran_by :: "'w engine \<Rightarrow> (nav_candidate \<Rightarrow> bool) \<Rightarrow> step_result \<Rightarrow> bool" where
  "ran_by eng T r \<longleftrightarrow> (sr_state r = STEP_COMPLETED \<longrightarrow>
     (\<exists>c ex d w w' out. sr_target r = Some c \<and> T c \<and> ex_get (we_executors eng) (nc_provider_id c) = Inr ex
        \<and> ex c d w = (Inr out, w')))"

text \<open>
  The engine's contract with its surroundings: what it calls keeps \<open>I\<close>, and the targets it is given
  satisfy \<open>T\<close>.
\<close>

locale invariant_engine =
  fixes eng :: "'w engine" and I :: "'w \<Rightarrow> bool" and T :: "nav_candidate \<Rightarrow> bool"
  assumes navigator_keeps: "I w \<Longrightarrow> we_navigator eng q w = (r, w') \<Longrightarrow> I w'"
    and navigator_targets: "I w \<Longrightarrow> we_navigator eng q w = (Inr nav, w') \<Longrightarrow> nr_selected nav = Some c \<Longrightarrow> T c"
    and executor_keeps: "I w \<Longrightarrow> ex_get (we_executors eng) pid = Inr ex \<Longrightarrow> ex c d w = (r', w') \<Longrightarrow> I w'"
    and deliver_keeps: "I w \<Longrightarrow> I (we_deliver eng e w)"
begin

abbreviation ran :: "step_result \<Rightarrow> bool" where "ran \<equiv> ran_by eng T"

lemma ran_unexecuted [simp]: "state \<noteq> STEP_COMPLETED \<Longrightarrow> ran (unexecuted step state err)"
  by (simp add: ran_by_def unexecuted_def)

lemma publish_keeps [simp]: "I (fst st) \<Longrightarrow> I (fst (wf_publish eng e st))"
  by (auto simp: wf_publish_def deliver_keeps split: prod.split)

lemma failed_step_keeps:
  "I (fst st) \<Longrightarrow> failed_step eng wid wname step started fin target err st = (r, st') \<Longrightarrow>
     I (fst st') \<and> (\<forall>x. r = Inr x \<longrightarrow> ran x)"
  by (auto simp: failed_step_def Let_def ran_by_def)

lemma execute_step_keeps:
  assumes I: "I (fst st)" and run: "execute_step eng wid wname step st = (r, st')"
  shows "I (fst st') \<and> (\<forall>x. r = Inr x \<longrightarrow> ran x)"
proof -
  let ?st1 = "wf_publish eng (WorkflowStepStartedEvent wid wname (ws_step_id step) (ws_capability step) None) st"
  have I1: "I (fst ?st1)" using I by simp
  show ?thesis
  proof (cases "mk_nav_request (ws_capability step) (ws_constraints step)")
    case (Inl e)
    with run I1 show ?thesis by (auto simp: execute_step_def Let_def split: prod.splits)
  next
    case (Inr q)
    obtain a w2 where a: "we_navigator eng q (fst ?st1) = (a, w2)" by (meson surj_pair)
    have I2: "I w2" by (rule navigator_keeps [OF I1 a])
    consider (raised) e where "a = Inl e" | (none) nav where "a = Inr nav" "nr_selected nav = None"
      | (found) nav c where "a = Inr nav" "nr_selected nav = Some c" by (cases a) auto
    then show ?thesis
    proof cases
      case (found nav c)
      have T: "T c" using navigator_targets [OF I1 a [unfolded found(1)] found(2)] .
      show ?thesis
      proof (cases "ex_get (we_executors eng) (nc_provider_id c)")
        case (Inl e)
        with run Inr a found I2 show ?thesis
          by (auto simp: execute_step_def Let_def split: prod.splits dest!: failed_step_keeps [rotated])
      next
        case ex: (Inr ex)
        obtain out w3 where o: "ex c (ws_input_data step) w2 = (out, w3)" by (meson surj_pair)
        have I3: "I w3" by (rule executor_keeps [OF I2 ex o])
        have "ran x" if "out = Inr y" "sr_target x = Some c" for x y
          unfolding ran_by_def using T ex o that by blast
        then show ?thesis
          using run Inr a found ex o I3
          by (cases out) (auto simp: execute_step_def Let_def split: prod.splits dest!: failed_step_keeps [rotated])
      qed
    qed (use run Inr a I2 in \<open>auto simp: execute_step_def Let_def split: prod.splits dest!: failed_step_keeps [rotated]\<close>)
  qed
qed

lemma cancel_remaining_keeps:
  "I (fst st) \<Longrightarrow> cancel_remaining eng wid wname steps st = (rs, st') \<Longrightarrow> I (fst st') \<and> list_all ran rs"
proof (induction steps arbitrary: st rs)
  case Nil
  then show ?case by simp
next
  case (Cons step steps)
  from Cons.prems(2) obtain rs1 where rest: "cancel_remaining eng wid wname steps (wf_publish eng
      (WorkflowStepSkippedEvent wid wname (ws_step_id step) (ws_capability step)
        (''Workflow cancelled: '' @ ct_reason (we_token eng (fst st)))) st) = (rs1, st')"
    and rs: "rs = unexecuted step STEP_CANCELLED (ct_reason (we_token eng (fst st))) # rs1"
    by (auto simp: Let_def split: prod.splits)
  from Cons.IH [OF _ rest] Cons.prems(1) show ?case by (simp add: rs)
qed

lemma run_steps_keeps:
  "I (fst st) \<Longrightarrow> list_all ran (lv_results v) \<Longrightarrow> run_steps eng wid wname steps v st = (r, st') \<Longrightarrow>
     I (fst st') \<and> (\<forall>v'. r = Inr v' \<longrightarrow> list_all ran (lv_results v'))"
proof (induction steps arbitrary: v st)
  case Nil
  then show ?case by auto
next
  case (Cons step steps)
  show ?case
  proof (cases "ct_cancelled (we_token eng (fst st))")
    case True
    obtain rs st1 where rem: "cancel_remaining eng wid wname (step # steps) st = (rs, st1)" by (meson surj_pair)
    with Cons.prems True cancel_remaining_keeps [OF Cons.prems(1) rem] show ?thesis
      by (auto simp del: cancel_remaining.simps)
  next
    case live: False
    show ?thesis
    proof (cases "lv_failed v")
      case True
      have "list_all ran (lv_results (v\<lparr>lv_results := lv_results v
          @ [unexecuted step STEP_SKIPPED ''Skipped due to earlier step failure'']\<rparr>))"
        using Cons.prems(2) by simp
      then show ?thesis
        by (rule Cons.IH [OF publish_keeps [OF Cons.prems(1)]]) (use Cons.prems(3) live True in simp)
    next
      case False
      obtain x st1 where x: "execute_step eng wid wname step st = (x, st1)" by (meson surj_pair)
      from execute_step_keeps [OF Cons.prems(1) x] have k: "I (fst st1)" "\<forall>y. x = Inr y \<longrightarrow> ran y" by auto
      show ?thesis
      proof (cases x)
        case (Inl e)
        then have "r = Inl e" "st' = st1" using Cons.prems(3) live False x by simp_all
        with k show ?thesis by simp
      next
        case (Inr y)
        let ?v = "v\<lparr>lv_results := lv_results v @ [y]\<rparr>"
        have v: "list_all ran (lv_results (f ?v))" if "lv_results (f ?v) = lv_results ?v" for f :: "loop_vars \<Rightarrow> loop_vars"
          unfolding that using Cons.prems(2) k(2) Inr by simp
        show ?thesis
        proof (cases "sr_is_success y")
          case True
          show ?thesis
            by (rule Cons.IH [OF k(1) v [of id]]) (use Cons.prems(3) live False x Inr True in simp_all)
        next
          case failed: False
          let ?err = "str_or (case sr_error y of None \<Rightarrow> [] | Some m \<Rightarrow> m) (''Step '' @ quoted (ws_step_id step) @ '' failed'')"
          show ?thesis
            by (rule Cons.IH [OF publish_keeps [OF k(1)] v [of "\<lambda>u. u\<lparr>lv_failed := True, lv_error := Some ?err\<rparr>"]])
              (use Cons.prems(3) live False x Inr failed in \<open>simp_all add: Let_def\<close>)
        qed
      qed
    qed
  qed
qed

theorem run_workflow_keeps:
  assumes I: "I (fst st)" and run: "run_workflow eng wfl st = (r, st')"
  shows "I (fst st') \<and> (\<forall>x. r = Inr x \<longrightarrow> list_all ran (wr_step_results x))"
proof -
  let ?st1 = "wf_publish eng (WorkflowStartedEvent (wf_workflow_id wfl) (wf_name wfl) (length (wf_steps wfl))) st"
  obtain y st2 where y: "run_steps eng (wf_workflow_id wfl) (wf_name wfl) (wf_steps wfl)
      \<lparr>lv_results = [], lv_failed = False, lv_error = None, lv_cancelled = False\<rparr> ?st1 = (y, st2)" by (meson surj_pair)
  have k: "I (fst st2) \<and> (\<forall>v'. y = Inr v' \<longrightarrow> list_all ran (lv_results v'))"
    by (rule run_steps_keeps [OF _ _ y]) (simp_all add: I)
  have un: "list_all ran (map (\<lambda>step. unexecuted step STEP_CANCELLED why) steps)" for why steps
    by (simp add: list_all_iff)
  show ?thesis
    using run I k un y
    by (auto simp: run_workflow_def wf_finish_def Let_def split: if_splits sum.splits)
qed

text \<open>The laws do not speak of the cancellation token, which an invocation of a composite replaces.\<close>

lemma retoken: "invariant_engine (eng\<lparr>we_token := tok\<rparr>) I T"
  by unfold_locales (auto intro: navigator_keeps navigator_targets executor_keeps deliver_keeps)

lemma ran_retoken [simp]: "ran_by (eng\<lparr>we_token := tok\<rparr>) T = ran_by eng T"
  by (simp add: ran_by_def fun_eq_iff)

definition all_ran :: "(composite_result + exec_context \<times> step_result list) result \<Rightarrow> bool" where
  "all_ran r \<longleftrightarrow> (case r of Inl e \<Rightarrow> True | Inr (Inl c) \<Rightarrow> list_all ran (cpr_step_results c)
     | Inr (Inr (ctx, rs)) \<Rightarrow> list_all ran rs)"

lemma invoke_steps_keeps:
  "ce_engine ce = eng \<Longrightarrow> I (fst st) \<Longrightarrow> list_all ran rs \<Longrightarrow> invoke_steps ce token cid ss ctx rs st = (r, st') \<Longrightarrow>
     I (fst st') \<and> all_ran r"
proof (induction ss arbitrary: ctx rs st)
  case Nil
  then show ?case by (auto simp: all_ran_def)
next
  case (Cons s ss)
  let ?eng = "eng\<lparr>we_token := (case token of None \<Rightarrow> (\<lambda>_. new_token) | Some t \<Rightarrow> t)\<rparr>"
  show ?case
  proof (cases "ct_cancelled (case token of None \<Rightarrow> new_token | Some t \<Rightarrow> t (fst st))")
    case True
    with Cons.prems show ?thesis by (auto simp: all_ran_def Let_def)
  next
    case live: False
    show ?thesis
    proof (cases "resolve_step_bindings s ctx")
      case (Inl e)
      with live Cons.prems show ?thesis by (auto simp: all_ran_def Let_def)
    next
      case ins: (Inr ins)
      show ?thesis
      proof (cases "step_workflow (ce_uuid ce (fst st)) cid s ins")
        case (Inl e)
        with live ins Cons.prems show ?thesis by (auto simp: all_ran_def Let_def)
      next
        case wfl: (Inr w)
        obtain x st1 where x: "run_workflow ?eng w st = (x, st1)" by (meson surj_pair)
        from invariant_engine.run_workflow_keeps [OF retoken Cons.prems(2) x]
        have k: "I (fst st1)" "\<And>y. x = Inr y \<Longrightarrow> list_all ran (wr_step_results y)" by auto
        show ?thesis
        proof (cases x)
          case (Inl e)
          with live ins wfl x k(1) Cons.prems(1,4) show ?thesis by (auto simp: all_ran_def Let_def)
        next
          case wr: (Inr wr)
          show ?thesis
          proof (cases "wr_step_results wr")
            case Nil
            with live ins wfl x wr k(1) Cons.prems(1,4) show ?thesis by (auto simp: all_ran_def Let_def)
          next
            case first: (Cons y ys)
            with k(2) [OF wr] have y: "ran y" by simp
            show ?thesis
            proof (cases "sr_is_success y")
              case True
              show ?thesis
                by (rule Cons.IH [OF Cons.prems(1) k(1)])
                  (use y Cons.prems live ins wfl x wr first True in \<open>simp_all add: Let_def\<close>)
            next
              case False
              with y live ins wfl x wr first k(1) Cons.prems(1,3,4) show ?thesis by (auto simp: all_ran_def Let_def)
            qed
          qed
        qed
      qed
    qed
  qed
qed

lemma invoke_keeps:
  assumes "ce_engine ce = eng" and "I (fst st)" and "invoke ce cid ins token st = (r, st')"
  shows "I (fst st') \<and> (\<forall>x. r = Inr x \<longrightarrow> list_all ran (cpr_step_results x))"
proof -
  have steps: "I (fst st1) \<and> all_ran y" if "invoke_steps ce token cid ss ctx [] st = (y, st1)" for ss ctx y st1
    using invoke_steps_keeps [OF assms(1,2) _ that] by simp
  show ?thesis
    using assms(2,3) by (auto simp: invoke_def all_ran_def split: sum.splits prod.splits dest!: steps)
qed

end

subsection \<open>What the ecosystem of a runtime can show\<close>

definition disc_ok :: "bool \<Rightarrow> disc_provider \<Rightarrow> bool" where
  "disc_ok local p \<longleftrightarrow>
     dp_provider_id p = ''local.filesystem'' \<and> local \<and> set (dp_capability_ids p) \<subseteq> set FILE_CAPABILITIES
     \<or> dp_provider_id p = PROVIDER_ID_FLUX \<and> set (dp_capability_ids p) \<subseteq> set FLUX_CAPABILITIES
     \<or> dp_provider_id p \<in> {PROVIDER_ID_ZARYA, ''flux.peer'', ''shyam.peer''}"

definition node_ok :: "disc_node \<Rightarrow> bool" where
  "node_ok n \<longleftrightarrow> (\<forall>p \<in> set (dvals (dn_providers n)). disc_ok (dn_is_local n) p)"

definition nodes_ok :: "ecosystem_registry \<Rightarrow> bool" where
  "nodes_ok r \<longleftrightarrow> er_ok r \<and> (\<forall>i n. er_get_node r i = Some n \<longrightarrow> node_ok n)"

definition node_inv :: "'k runtime \<Rightarrow> bool" where
  "node_inv rt \<longleftrightarrow> fabric_ok (rn_fabric rt) \<and> nodes_ok (rn_registry rt)"

lemma dvals_dset: "set (dvals (dset k v d)) \<subseteq> insert v (set (dvals d))"
  by (induction d) auto

lemma known_provider_disc:
  assumes "known_provider p" and "map cap_id models = prov_capabilities p"
  shows "disc_ok True (from_provider p models now)"
proof -
  have "dp_provider_id (from_provider p models now) = prov_id p" by (simp add: from_provider_def Let_def)
  with assms(1) from_provider_ids [OF assms(2)] show ?thesis
    by (auto simp: known_provider_def gateway_desc_def disc_ok_def)
qed

lemma registered_providers_disc:
  "cr_ok r \<Longrightarrow> \<forall>p \<in> set ps. known_provider p \<Longrightarrow> \<forall>p \<in> set (dvals d). disc_ok True p \<Longrightarrow>
     registered_providers r now ps d = Inr d' \<Longrightarrow> \<forall>p \<in> set (dvals d'). disc_ok True p"
proof (induction ps arbitrary: d)
  case Nil
  then show ?case by simp
next
  case (Cons p ps)
  then obtain models where m: "capability_models r (prov_availability p) (prov_capabilities p) = Inr models"
    and rest: "registered_providers r now ps (dset (prov_id p) (from_provider p models now) d) = Inr d'"
    by (auto split: sum.splits)
  have "disc_ok True (from_provider p models now)"
    using known_provider_disc [OF _ capability_models_ids [OF Cons.prems(1) m]] Cons.prems(2) by simp
  then have "\<forall>q \<in> set (dvals (dset (prov_id p) (from_provider p models now) d)). disc_ok True q"
    using Cons.prems(3) dvals_dset [of "prov_id p" "from_provider p models now" d] by blast
  from Cons.IH [OF Cons.prems(1) _ this rest] Cons.prems(2) show ?case by simp
qed

lemma add_gateway_disc:
  assumes "add_gateway conn desc caps now d = Inr d'" and "\<forall>p \<in> set (dvals d). disc_ok True p"
    and "\<And>p. conn \<Longrightarrow> desc = Inr p \<Longrightarrow> disc_ok True (from_provider p caps now)"
  shows "\<forall>p \<in> set (dvals d'). disc_ok True p"
  using assms dvals_dset by (fastforce simp: add_gateway_def split: if_splits sum.splits)

lemma local_providers_disc:
  assumes ok: "fabric_ok (rn_fabric rt)" and run: "local_providers (ecosystem_of i rt) now = Inr provs"
  shows "\<forall>p \<in> set (dvals provs). disc_ok True p"
proof -
  let ?s = "ecosystem_of i rt" and ?z = "rn_zarya rt" and ?f = "rn_flux rt"
  obtain d1 d2 where d1: "registered_providers (es_capabilities ?s) now (pr_list_all (es_providers ?s)) [] = Inr d1"
    and d2: "add_gateway (zp_is_connected ?z) (zp_descriptor ?z) (zp_discovered_capabilities ?z) now d1 = Inr d2"
    and d3: "add_gateway (fp_is_connected ?f) (fp_descriptor ?f) (fp_capability_definitions ?f) now d2 = Inr provs"
    using run by (auto simp: local_providers_def ecosystem_of_def split: sum.splits)
  have regs: "\<forall>p \<in> set (pr_list_all (es_providers ?s)). known_provider p"
    using ok pr.lookup_key [of "es_providers ?s"] by (fastforce simp: fabric_ok_def providers_known_def ecosystem_of_def)
  have "cr_ok (es_capabilities ?s)" using ok by (simp add: fabric_ok_def ecosystem_of_def)
  from registered_providers_disc [OF this regs _ d1] have 1: "\<forall>p \<in> set (dvals d1). disc_ok True p" by simp
  have z: "disc_ok True (from_provider p caps now)" if "zp_descriptor ?z = Inr p" for p caps
    using zarya.descriptor_id [OF that] by (simp add: disc_ok_def from_provider_def Let_def)
  have f: "disc_ok True (from_provider p (fp_capability_definitions ?f) now)" if "fp_is_connected ?f" "fp_descriptor ?f = Inr p" for p
    using flux.descriptor_id [OF that(2)] that(1)
    by (auto simp: disc_ok_def from_provider_def Let_def fp_capability_definitions_def FLUX_CAPABILITIES_def
        dp_capability_ids_def from_capability_def FLUX_CAPABILITY_DEFINITIONS_def)
  show ?thesis by (rule add_gateway_disc [OF d3 add_gateway_disc [OF d2 1 z] f])
qed

lemma udp_node_ok: "node_ok (udp_peer_node s p)"
  by (auto simp: node_ok_def udp_peer_node_def Let_def disc_ok_def PROVIDER_ID_ZARYA_def)

lemma flux_node_ok: "node_ok (flux_peer_node s now p)"
  by (simp add: node_ok_def flux_peer_node_def Let_def disc_ok_def)

lemma register_in_keeps:
  assumes "node_inv rt" and "register_in (ecosystem_of i rt) n = (s, evs)" and "node_ok n"
  shows "node_inv (put_nodes now (s, evs) rt)"
proof -
  have "er_ok (es_registry (ecosystem_of i rt))" using assms(1) by (simp add: node_inv_def nodes_ok_def ecosystem_of_def)
  from register_in_get [OF this assms(2)] assms(1,3) have "nodes_ok (es_registry s)"
    by (simp add: node_inv_def nodes_ok_def ecosystem_of_def)
  with assms(1) show ?thesis by (simp add: node_inv_def put_nodes_def Let_def)
qed

lemma discover_local_keeps:
  assumes I: "node_inv rt" and run: "discover_local now i rt = (r, rt')"
  shows "node_inv rt'"
proof (cases r)
  case (Some e)
  with run have "rt' = rt" by (auto simp: discover_local_def split: sum.splits)
  with I show ?thesis by simp
next
  case None
  with run obtain s evs n where d: "discover_local_node (ecosystem_of i rt) now = Inr (s, evs, n)"
    and rt': "rt' = put_nodes now (s, evs) rt" using discover_local_cases by blast
  from discover_local_node_cases [OF d] obtain provs where p: "local_providers (ecosystem_of i rt) now = Inr provs"
    and n: "register_in (ecosystem_of i rt) n = (s, evs)" "dn_providers n = provs" "dn_is_local n" by blast
  have "node_ok n" using local_providers_disc [OF _ p] I n by (simp add: node_ok_def node_inv_def)
  from register_in_keeps [OF I n(1) this] show ?thesis by (simp add: rt')
qed

lemma register_flux_peers_keeps: "node_inv rt \<Longrightarrow> node_inv (register_flux_peers now i ps rt)"
proof (induction ps arbitrary: rt)
  case Nil
  then show ?case by simp
next
  case (Cons p ps)
  obtain s evs where r: "register_in (ecosystem_of i rt) (flux_peer_node (ecosystem_of i rt) now p) = (s, evs)" by (meson surj_pair)
  from Cons.IH [OF register_in_keeps [OF Cons.prems r flux_node_ok]] show ?case by (simp add: Let_def r)
qed

lemma get_ecosystem_snapshot_keeps:
  assumes "node_inv rt" and "get_ecosystem_snapshot fc now now' rt = (r, rt')"
  shows "node_inv rt'"
proof (cases "rn_ecosystem rt")
  case None
  with assms show ?thesis by (auto simp: get_ecosystem_snapshot_def)
next
  case (Some i)
  obtain x rt1 where x: "discover_local now i rt = (x, rt1)" by (meson surj_pair)
  note I = discover_local_keeps [OF assms(1) x]
  have "node_inv (discover_flux fc now' i rt1)"
    using I register_flux_peers_keeps [OF I] by (simp add: discover_flux_def split: sum.split)
  with I Some assms(2) x show ?thesis
    by (cases x) (auto simp: get_ecosystem_snapshot_def Let_def)
qed

subsection \<open>Every operation of a runtime keeps it\<close>

definition same_view :: "'k runtime \<Rightarrow> 'k runtime \<Rightarrow> bool" where
  "same_view rt rt' \<longleftrightarrow> rn_fabric rt' = rn_fabric rt \<and> rn_registry rt' = rn_registry rt"

lemma same_view_keeps: "node_inv rt \<Longrightarrow> same_view rt rt' \<Longrightarrow> node_inv rt'"
  by (simp add: node_inv_def same_view_def)

lemma grown_keeps:
  "node_inv rt \<Longrightarrow> fabric_grows (rn_fabric rt) (rn_fabric rt') \<Longrightarrow> rn_registry rt' = rn_registry rt \<Longrightarrow> node_inv rt'"
  by (simp add: node_inv_def fabric_grows_def)

lemma start_zarya_keeps:
  assumes I: "node_inv rt" and run: "start_zarya zc now rt = (r, rt')"
  shows "node_inv rt'"
  by (rule grown_keeps [OF I start_zarya_grows [OF run]]) (use gateway_steps_only(1) [OF run] in \<open>simp add: only_fabric_def\<close>)

lemma start_flux_keeps:
  assumes I: "node_inv rt" and run: "start_flux fc now rt = (r, rt')"
  shows "node_inv rt'"
  by (rule grown_keeps [OF I start_flux_grows [OF run]]) (use gateway_steps_only(2) [OF run] in \<open>simp add: only_fabric_def\<close>)

lemma start_inspect_keeps: "node_inv rt \<Longrightarrow> start_inspect now rt = (r, rt') \<Longrightarrow> node_inv rt'"
  using start_inspect_ok [of now rt rt']
  by (cases r) (auto simp: node_inv_def start_inspect_def split: sum.splits prod.splits)

lemma start_fabric_keeps: "node_inv rt \<Longrightarrow> start_fabric now rt = (r, rt') \<Longrightarrow> node_inv rt'"
  by (auto simp: node_inv_def start_fabric_def dest: fabric_start_ok split: sum.splits prod.splits)

lemma start_ecosystem_keeps:
  assumes "node_inv rt" and "start_ecosystem i now rt = (r, rt')"
  shows "node_inv rt'"
  by (rule discover_local_keeps [of "rt\<lparr>rn_ecosystem := Some i\<rparr>"]) (use assms in \<open>auto simp: start_ecosystem_def node_inv_def\<close>)

lemma plain_steps_view:
  "start_trust ho i c now rt = (r, rt') \<Longrightarrow> same_view rt rt'" "start_services i k now rt = (r, rt') \<Longrightarrow> same_view rt rt'"
  "start_listening now rt = (r, rt') \<Longrightarrow> same_view rt rt'" "start_peers can_bind now rt = (r, rt') \<Longrightarrow> same_view rt rt'"
  by (auto simp: start_trust_def start_services_def start_listening_def start_peers_def same_view_def Let_def
      split: sum.splits prod.splits if_splits)

lemma service_steps_keep:
  "f \<in> set (service_steps ho i k c) \<Longrightarrow> node_inv rt \<Longrightarrow> f now rt = (r, rt') \<Longrightarrow> node_inv rt'"
  by (auto simp: service_steps_def intro: start_zarya_keeps start_flux_keeps start_inspect_keeps start_fabric_keeps start_ecosystem_keeps
      same_view_keeps plain_steps_view)

lemma run_steps_until_keeps:
  assumes "\<And>f now rt r rt'. f \<in> set fs \<Longrightarrow> node_inv rt \<Longrightarrow> f now rt = (r, rt') \<Longrightarrow> node_inv rt'"
  shows "node_inv rt \<Longrightarrow> run_steps_until clock m fs rt = (r, rt') \<Longrightarrow> node_inv rt'"
  using assms
proof (induction fs arbitrary: m rt)
  case Nil
  then show ?case by simp
next
  case (Cons f fs)
  obtain x rt1 where f: "f (clock m) rt = (x, rt1)" by (meson surj_pair)
  have I: "node_inv rt1" using Cons.prems(3) [of f rt "clock m" x rt1] Cons.prems(1) f by simp
  show ?case
  proof (cases x)
    case None
    show ?thesis
    proof (rule Cons.IH [OF I])
      show "run_steps_until clock (Suc m) fs rt1 = (r, rt')" using Cons.prems(2) f None by simp
      show "node_inv rt'" if "g \<in> set fs" "node_inv rt" "g now rt = (r, rt')" for g now rt r rt'
        using Cons.prems(3) [of g rt now r rt'] that by simp
    qed
  next
    case (Some e)
    with Cons.prems(2) f I show ?thesis by simp
  qed
qed

lemma run_services_keep:
  "node_inv rt \<Longrightarrow> run_steps_until clock m (service_steps ho i k c) rt = (r, rt') \<Longrightarrow> node_inv rt'"
  by (rule run_steps_until_keeps [rotated]) (auto intro: service_steps_keep)

lemma node_inv_update [simp]:
  "node_inv (rt\<lparr>rn_state := x1\<rparr>) = node_inv rt" "node_inv (rt\<lparr>rn_identity := x2\<rparr>) = node_inv rt"
  "node_inv (rt\<lparr>rn_id_disk := x3\<rparr>) = node_inv rt" "node_inv (rt\<lparr>rn_keys := x4\<rparr>) = node_inv rt"
  "node_inv (rt\<lparr>rn_discovery := x5\<rparr>) = node_inv rt" "node_inv (rt\<lparr>rn_tracker := x6\<rparr>) = node_inv rt"
  "node_inv (rt\<lparr>rn_context := x7\<rparr>) = node_inv rt" "node_inv (log_events evs rt) = node_inv rt"
  by (simp_all add: node_inv_def)

lemma start_body_keeps: "node_inv rt \<Longrightarrow> start_body ho clock rt = (r, rt') \<Longrightarrow> node_inv rt'"
  by (auto simp: start_body_def Let_def split: option.splits prod.splits sum.splits intro: run_services_keep [rotated])

lemma start_tracking_keeps: "node_inv rt \<Longrightarrow> start_tracking ho now rt = (r, rt') \<Longrightarrow> node_inv rt'"
  using start_tracking_frame by (blast intro: grown_keeps dest: rest_same_def [THEN iffD1])

lemma start_keeps:
  assumes I: "node_inv rt" and run: "start ho clock rt = (r, rt')"
  shows "node_inv rt'"
proof -
  obtain x rt1 where x: "set_status (clock 0) INITIALIZING None rt = (x, rt1)" by (meson surj_pair)
  obtain y rt2 where y: "start_body ho clock rt1 = (y, rt2)" by (meson surj_pair)
  have I1: "node_inv rt1" using set_status_frame [OF x] I by auto
  have I2: "node_inv rt2" by (rule start_body_keeps [OF I1 y])
  show ?thesis
    using run x y I I1 I2 by (auto simp: start_def intro: start_tracking_keeps dest!: set_status_frame
        split: if_splits option.splits prod.splits)
qed

lemma stop_keeps:
  assumes "node_inv rt" and "stop now rt = (r, rt')"
  shows "node_inv rt'"
proof -
  have "node_inv (stop_services rt)" using assms(1)
    by (simp add: stop_services_def node_inv_def fabric_stop_def fabric_ok_def split: prod.split)
  then show ?thesis
    using assms by (auto simp: stop_def Let_def dest!: set_status_frame split: if_splits option.splits prod.splits)
qed

lemma with_ecosystem_keeps:
  assumes I: "node_inv rt"
    and op: "\<And>i s evs. op (ecosystem_of i rt) = (s, evs) \<Longrightarrow> node_inv (put_nodes now (s, evs) rt)"
  shows "node_inv (with_ecosystem op now rt)"
  using assms by (auto simp: with_ecosystem_def split: option.split prod.splits) (metis surj_pair)

lemma on_peer_seen_keeps: "node_inv rt \<Longrightarrow> node_inv (on_peer_seen now l rt)"
  unfolding on_peer_seen_def
  by (cases "typed_peer l") (auto simp: ingest_udp_peer_def Let_def intro!: with_ecosystem_keeps
      intro: register_in_keeps udp_node_ok split: prod.splits)

lemma on_peer_lost_keeps:
  assumes I: "node_inv rt"
  shows "node_inv (on_peer_lost now n rt)"
  unfolding on_peer_lost_def
proof (rule with_ecosystem_keeps [OF I])
  fix i s evs
  assume run: "handle_udp_peer_lost (ecosystem_of i rt) n = (s, evs)"
  have same: "node_inv (put_nodes now (ecosystem_of i rt, []) rt)"
    using I by (simp add: put_nodes_def Let_def ecosystem_of_def node_inv_def)
  show "node_inv (put_nodes now (s, evs) rt)"
  proof (cases "er_get_node (rn_registry rt) n")
    case None
    with run same show ?thesis by (simp add: handle_udp_peer_lost_def ecosystem_of_def)
  next
    case (Some d)
    have "node_ok (with_state NODE_UNAVAILABLE d)"
      using I Some by (auto simp: node_inv_def nodes_ok_def node_ok_def with_state_def)
    with Some run same register_in_keeps [OF I] show ?thesis
      by (auto simp: handle_udp_peer_lost_def ecosystem_of_def split: if_splits)
  qed
qed

lemma publish_peer_keeps: "node_inv rt \<Longrightarrow> node_inv (publish_peer now e rt)"
proof -
  have h: "node_inv rt \<Longrightarrow> node_inv (run_peer_handler now h e rt)" for h and rt :: "'a runtime"
    by (cases h; cases e) (simp_all add: on_peer_seen_keeps on_peer_lost_keeps)
  show "node_inv rt \<Longrightarrow> node_inv (publish_peer now e rt)"
    unfolding publish_peer_def by (rule fold_invariant [where Q = "\<lambda>_. True"]) (simp_all add: h)
qed

lemma publish_peers_keep: "node_inv rt \<Longrightarrow> node_inv (fold (publish_peer now) evs rt)"
  by (rule fold_invariant [where Q = "\<lambda>_. True"]) (simp_all add: publish_peer_keeps)

subsection \<open>The states of a runtime\<close>

text \<open>A round of the tracker's polling loop, in a runtime.\<close>

definition poll_gateways :: "zarya_client \<Rightarrow> flux_client \<Rightarrow> time \<Rightarrow> 'k runtime \<Rightarrow> 'k runtime" where
  "poll_gateways zc fc now rt =
     (case poll_all zc fc now (rn_tracker rt) (world_of rt) of
        (res, t, w) \<Rightarrow> log_events (case res of Inl e \<Rightarrow> [] | Inr evs \<Rightarrow> map Readiness_Event evs) (put_world w (rt\<lparr>rn_tracker := t\<rparr>)))"

text \<open>
  The operations, in any order and with any answers from outside. The steps of a start, between which it awaits, are also taken
  alone, so that others may come between them. \<open>other\<close> covers every operation
  that leaves the two registries of providers and capabilities and the ecosystem registry alone:
  trust, synchronisation, enrolment, continuity, the context.
\<close>

inductive runtime_step :: "'k runtime \<Rightarrow> 'k runtime \<Rightarrow> bool" where
  starts: "start ho clock rt = (r, rt') \<Longrightarrow> runtime_step rt rt'"
| starts_part: "f \<in> set (service_steps ho i k c) \<Longrightarrow> f now rt = (r, rt') \<Longrightarrow> runtime_step rt rt'"
| starts_tracking: "start_tracking ho now rt = (r, rt') \<Longrightarrow> runtime_step rt rt'"
| stops: "stop now rt = (r, rt') \<Longrightarrow> runtime_step rt rt'"
| receives: "rn_discovery rt = Some d \<Longrightarrow> dv_transport d \<Longrightarrow> handle_datagram me ip dg d = (x, d') \<Longrightarrow>
     runtime_step rt (rt\<lparr>rn_discovery := Some d'\<rparr>)"
| announces: "rn_discovery rt = Some d \<Longrightarrow> dv_pending d = as @ a # bs \<Longrightarrow>
     runtime_step rt (run_announcement ints now a (rt\<lparr>rn_discovery := Some (d\<lparr>dv_pending := as @ bs\<rparr>)\<rparr>))"
| reaps: "rn_discovery rt = Some d \<Longrightarrow> dv_running d \<Longrightarrow> runtime_step rt (reap_peers now rt)"
| polls: "rt_running (rn_tracker rt) \<Longrightarrow> runtime_step rt (poll_gateways zc fc now rt)"
| looks: "get_ecosystem_snapshot fc now now' rt = (x, rt') \<Longrightarrow> runtime_step rt rt'"
| other: "same_view rt rt' \<Longrightarrow> runtime_step rt rt'"

inductive runtime_reachable :: "'k runtime \<Rightarrow> bool" where
  created: "runtime_reachable (new_runtime st rid now di dt)"
| steps: "runtime_reachable rt \<Longrightarrow> runtime_step rt rt' \<Longrightarrow> runtime_reachable rt'"

inductive_cases runtime_stepE: "runtime_step rt rt'"

lemma new_runtime_inv: "node_inv (new_runtime st rid now di dt)"
  by (simp add: node_inv_def new_runtime_def fabric_ok_def providers_known_def new_provider_registry_def nodes_ok_def
      new_capability_registry_def new_ecosystem_registry_def pr_defs cr_ok_def er_defs keyed_def dict_ok_def)

lemma run_announcement_keeps: "node_inv rt \<Longrightarrow> node_inv (run_announcement ints now a rt)"
  by (auto simp: run_announcement_def publish_peers_keep split: option.split prod.split sum.split)

lemma reap_peers_keeps: "node_inv rt \<Longrightarrow> node_inv (reap_peers now rt)"
  by (auto simp: reap_peers_def publish_peers_keep split: option.split prod.split)

lemma poll_gateways_keeps:
  assumes I: "node_inv rt"
  shows "node_inv (poll_gateways zc fc now rt)"
proof -
  obtain r t w where p: "poll_all zc fc now (rn_tracker rt) (world_of rt) = (r, t, w)" by (meson prod_cases3)
  let ?rt = "rt\<lparr>rn_tracker := t\<rparr>"
  have "gateways_update (world_of ?rt) w"
    using poll_all_update [OF _ p] by (simp add: world_of_def)
  note grows = put_world_grows [OF this]
  have "rn_registry (put_world w ?rt) = rn_registry ?rt" using put_world_only [of ?rt w] by (simp add: only_fabric_def)
  with grows I have "node_inv (put_world w ?rt)" using grown_keeps [of ?rt] by simp
  then show ?thesis by (simp add: poll_gateways_def p)
qed

lemma runtime_step_keeps: "runtime_step rt rt' \<Longrightarrow> node_inv rt \<Longrightarrow> node_inv rt'"
proof (induction rule: runtime_step.induct)
  case (starts ho clock rt r rt')
  show ?case by (rule start_keeps [OF starts(2,1)])
next
  case (starts_part f ho i k c now rt r rt')
  show ?case by (rule service_steps_keep [OF starts_part(1,3,2)])
next
  case (starts_tracking ho now rt r rt')
  show ?case by (rule start_tracking_keeps [OF starts_tracking(2,1)])
next
  case (stops now rt r rt')
  show ?case by (rule stop_keeps [OF stops(2,1)])
next
  case (receives rt d me ip dg x d')
  then show ?case by (simp only: node_inv_update)
next
  case (announces rt d as a bs ints now)
  then show ?case by (simp only: node_inv_update run_announcement_keeps)
next
  case (reaps rt d now)
  show ?case by (rule reap_peers_keeps [OF reaps(3)])
next
  case (polls rt zc fc now)
  show ?case by (rule poll_gateways_keeps [OF polls(2)])
next
  case (looks fc now now' rt x rt')
  show ?case by (rule get_ecosystem_snapshot_keeps [OF looks(2,1)])
next
  case (other rt rt')
  show ?case by (rule same_view_keeps [OF other(2,1)])
qed

lemma reachable_inv: "runtime_reachable rt \<Longrightarrow> node_inv rt"
  by (induction rule: runtime_reachable.induct) (auto intro: new_runtime_inv runtime_step_keeps)

subsection \<open>The engine of a runtime\<close>

text \<open>What is outside a runtime while a workflow runs, as functions of the state \<open>'f\<close> of the machine.\<close>

record 'f outside =
  ou_now :: "'f \<Rightarrow> time"
  ou_zarya :: "'f \<Rightarrow> zarya_client"
  ou_flux :: "'f \<Rightarrow> flux_client"
  ou_files :: "'f file_system"
  ou_token :: "'f \<Rightarrow> cancel_token"

definition runtime_executors :: "'f outside \<Rightarrow> ('k runtime \<times> 'f) executor_registry" where
  "runtime_executors ou =
     ex_register (ex_register (ex_register []
       ''local.filesystem'' (\<lambda>c d (rt, f). case local_fs_execute (ou_files ou) c d f of (r, f') \<Rightarrow> (r, (rt, f'))))
       ''zarya.sovereign'' (\<lambda>c d (rt, f). (zarya_execute (ou_zarya ou f) (rn_zarya rt) c d, (rt, f))))
       ''flux.connectivity'' (\<lambda>c d (rt, f). (flux_execute (ou_flux ou f) (rn_flux rt) c d, (rt, f)))"

definition hear_work :: "time \<Rightarrow> workflow_event \<Rightarrow> 'k runtime \<Rightarrow> 'k runtime" where
  "hear_work now e rt =
     (let x = rn_context rt in
      rt\<lparr>rn_context := (if xs_subscribed x
        then x\<lparr>xs_store := context_on_event (rn_registry rt) now now (Work_Event e) (xs_store x)\<rparr> else x)\<rparr>)"

definition runtime_engine :: "'f outside \<Rightarrow> ('k runtime \<times> 'f) engine" where
  "runtime_engine ou =
     \<lparr>we_navigator = (\<lambda>q (rt, f). case navigate_here (ou_flux ou f) (ou_now ou f) (ou_now ou f) q rt of (r, rt') \<Rightarrow> (r, (rt', f))),
      we_executors = runtime_executors ou, we_bus = True,
      we_deliver = (\<lambda>e (rt, f). (hear_work (ou_now ou f) e rt, f)),
      we_token = (\<lambda>(rt, f). ou_token ou f), we_now = (\<lambda>(rt, f). ou_now ou f)\<rparr>"

definition run_workflow_here ::
  "'f outside \<Rightarrow> workflow \<Rightarrow> 'k runtime \<times> 'f \<Rightarrow> wf_result result \<times> ('k runtime \<times> 'f) \<times> workflow_event list" where
  "run_workflow_here ou w rf = run_workflow (runtime_engine ou) w (rf, [])"

definition invoke_composite_here ::
  "'f outside \<Rightarrow> ('f \<Rightarrow> string) \<Rightarrow> string \<Rightarrow> (string, pyval) dict \<Rightarrow> ('k runtime \<times> 'f \<Rightarrow> cancel_token) option
     \<Rightarrow> 'k runtime \<times> 'f \<Rightarrow> composite_result result \<times> ('k runtime \<times> 'f) run_state" where
  "invoke_composite_here ou uuid cid ins token rf =
     invoke \<lparr>ce_engine = runtime_engine ou, ce_registry = rn_composites (fst rf), ce_uuid = (\<lambda>(rt, f). uuid f)\<rparr>
       cid ins token (rf, [])"

subsection \<open>Only file operations run\<close>

definition known_target :: "nav_candidate \<Rightarrow> bool" where
  "known_target c \<longleftrightarrow>
     nc_provider_id c = ''local.filesystem'' \<and> nc_is_local c \<and> nc_capability_id c \<in> set FILE_CAPABILITIES
     \<or> nc_provider_id c = PROVIDER_ID_FLUX \<and> nc_capability_id c \<in> set FLUX_CAPABILITIES
     \<or> nc_provider_id c \<in> {PROVIDER_ID_ZARYA, ''flux.peer'', ''shyam.peer''}"

lemma snapshot_nodes:
  "get_ecosystem_snapshot fc now now' rt = (Inr snap, rt') \<Longrightarrow> snap_nodes snap = er_nodes (rn_registry rt')"
  by (auto simp: get_ecosystem_snapshot_def create_snapshot_def Let_def split: option.splits prod.splits)

lemma candidate_known:
  assumes ok: "nodes_ok r" and snap: "snap_nodes snap = er_nodes r" and c: "c \<in> set (discover_candidates snap cid)"
  shows "known_target c"
proof -
  obtain n p dc where n: "n \<in> set (dvals (er_nodes r))" and p: "p \<in> set (dvals (dn_providers n))"
    and dc: "dc \<in> set (dp_capabilities p)" and c: "c = mk_candidate n p dc"
    using c unfolding discover_candidates_mem snap by blast
  have "dict_ok (er_nodes r)" using ok by (simp add: nodes_ok_def er_ok_def keyed_def)
  then obtain i where "er_get_node r i = Some n" using n unfolding er_get_node_def by (blast dest: dvals_mem [THEN iffD1])
  with ok p have "disc_ok (dn_is_local n) p" by (auto simp: nodes_ok_def node_ok_def)
  moreover have "dc_capability_id dc \<in> set (dp_capability_ids p)" using dc by (simp add: dp_capability_ids_def)
  ultimately show ?thesis by (auto simp: disc_ok_def known_target_def c mk_candidate_def)
qed

lemma navigate_here_cases:
  assumes "navigate_here fc now now' q rt = (r, rt')"
  shows "\<exists>x. get_ecosystem_snapshot fc now now' rt = (x, rt') \<and> (\<forall>nav. r = Inr nav \<longrightarrow> (\<exists>snap. x = Inr snap \<and> nav = navigate q snap))"
  using assms by (auto simp: navigate_here_def split: prod.splits sum.splits)

interpretation node_engine: invariant_engine "runtime_engine ou" "\<lambda>(rt :: 'k runtime, f :: 'f). node_inv rt" known_target
  for ou :: "'f outside"
proof
  fix w w' :: "'k runtime \<times> 'f" and q r nav c pid d e and r' :: "pyval result" and ex :: "('k runtime \<times> 'f) executor"
  assume I: "case w of (rt, f) \<Rightarrow> node_inv rt"
  obtain rt f where w: "w = (rt, f)" by (cases w)
  have nav: "\<exists>rt'. w' = (rt', f) \<and> navigate_here (ou_flux ou f) (ou_now ou f) (ou_now ou f) q rt = (a, rt')"
    if "we_navigator (runtime_engine ou) q w = (a, w')" for a
    using that by (auto simp: runtime_engine_def w split: prod.splits)
  show "case w' of (rt, f) \<Rightarrow> node_inv rt" if run: "we_navigator (runtime_engine ou) q w = (r, w')"
    using nav [OF run] navigate_here_cases get_ecosystem_snapshot_keeps I unfolding w by fastforce
  show "known_target c" if run: "we_navigator (runtime_engine ou) q w = (Inr nav, w')" and sel: "nr_selected nav = Some c"
  proof -
    from nav [OF run] obtain rt' snap where s: "get_ecosystem_snapshot (ou_flux ou f) (ou_now ou f) (ou_now ou f) rt = (Inr snap, rt')"
      and n: "nav = navigate q snap" using navigate_here_cases by blast
    from get_ecosystem_snapshot_keeps [OF _ s] I have "nodes_ok (rn_registry rt')" by (simp add: w node_inv_def)
    moreover have "c \<in> set (discover_candidates snap (nq_capability q))" using sel hybrid.nav_candidate by (simp add: n)
    ultimately show ?thesis using candidate_known snapshot_nodes [OF s] by blast
  qed
  show "case w' of (rt, f) \<Rightarrow> node_inv rt"
    if "ex_get (we_executors (runtime_engine ou)) pid = Inr ex" "ex c d w = (r', w')"
    using that I by (auto simp: runtime_engine_def runtime_executors_def ex_get_def ex_register_def w
        split: if_splits prod.splits)
  show "case we_deliver (runtime_engine ou) e w of (rt, f) \<Rightarrow> node_inv rt"
    using I by (simp add: runtime_engine_def w hear_work_def Let_def)
qed

text \<open>No advertised Flux capability is one the Flux adapter can run.\<close>

lemma flux_never_runs:
  "nc_capability_id c \<in> set FLUX_CAPABILITIES \<Longrightarrow> flux_execute fc fp c d \<noteq> Inr out"
  by (auto simp: FLUX_CAPABILITIES_def FLUX_CAPABILITY_DEFINITIONS_def flux_execute_def flux_dispatch_def)

lemma ran_on_files:
  fixes ou :: "'f outside"
  assumes "ran_by (runtime_engine ou :: ('k runtime \<times> 'f) engine) known_target sr" and "sr_state sr = STEP_COMPLETED"
  shows "\<exists>c. sr_target sr = Some c \<and> nc_provider_id c = ''local.filesystem'' \<and> nc_is_local c
    \<and> nc_capability_id c \<in> set FILE_CAPABILITIES"
proof -
  let ?eng = "runtime_engine ou :: ('k runtime \<times> 'f) engine"
  from assms obtain c ex d x x' out where c: "sr_target sr = Some c" "known_target c"
    and ex: "ex_get (we_executors ?eng) (nc_provider_id c) = Inr ex" "ex c d x = (Inr out, x')"
    by (auto simp: ran_by_def)
  from ex have "nc_provider_id c = ''local.filesystem'' \<or> nc_provider_id c = ''zarya.sovereign''
      \<or> nc_provider_id c = PROVIDER_ID_FLUX \<and> (\<exists>fc fp d. flux_execute fc fp c d = Inr out)"
    by (auto simp: runtime_engine_def runtime_executors_def ex_get_def ex_register_def PROVIDER_ID_FLUX_def
        split: if_splits prod.splits) blast
  with c flux_never_runs show ?thesis
    by (auto simp: known_target_def PROVIDER_ID_ZARYA_def PROVIDER_ID_FLUX_def)
qed

text \<open>The same for a composite capability of the runtime.\<close>

lemma only_file_composites_complete:
  fixes rt :: "'k runtime" and ou :: "'f outside"
  assumes "runtime_reachable rt"
    and "invoke_composite_here ou uuid cid ins token (rt, f) = (Inr r, st)"
    and "sr \<in> set (cpr_step_results r)" and "sr_state sr = STEP_COMPLETED"
  shows "\<exists>c. sr_target sr = Some c \<and> nc_provider_id c = ''local.filesystem'' \<and> nc_is_local c
    \<and> nc_capability_id c \<in> set FILE_CAPABILITIES"
proof (rule ran_on_files)
  show "ran_by (runtime_engine ou :: ('k runtime \<times> 'f) engine) known_target sr"
    using node_engine.invoke_keeps [OF _ _ assms(2) [unfolded invoke_composite_here_def]] reachable_inv [OF assms(1)] assms(3)
    by (auto simp: list_all_iff)
qed (rule assms(4))

text \<open>
  C3. The workflows of a node can complete nothing but file operations on the node itself. In every
  state a runtime can reach, whatever gateways are connected and peers announced, a step of a
  workflow completes only on the provider \<open>local.filesystem\<close> of the local node, for one of its three
  capabilities: Zarya's provider is \<open>zarya.agent\<close> but its executor is registered as
  \<open>zarya.sovereign\<close>, the Flux executor runs none of the capabilities that Flux advertises, and
  the providers of other nodes have no executor.
\<close>

theorem only_file_steps_complete:
  fixes rt :: "'k runtime" and ou :: "'f outside"
  assumes "runtime_reachable rt"
    and "run_workflow_here ou w (rt, f) = (Inr r, st)"
    and "sr \<in> set (wr_step_results r)" and "sr_state sr = STEP_COMPLETED"
  shows "\<exists>c. sr_target sr = Some c \<and> nc_provider_id c = ''local.filesystem'' \<and> nc_is_local c
    \<and> nc_capability_id c \<in> set FILE_CAPABILITIES"
proof (rule ran_on_files)
  show "ran_by (runtime_engine ou :: ('k runtime \<times> 'f) engine) known_target sr"
    using node_engine.run_workflow_keeps [OF _ assms(2) [unfolded run_workflow_here_def]] reachable_inv [OF assms(1)] assms(3)
    by (auto simp: list_all_iff)
qed (rule assms(4))

text \<open>A running node that reads a file: the step of the workflow completes.\<close>

definition file_outside :: "(string, string) dict outside" where
  "file_outside = \<lparr>ou_now = (\<lambda>f. 9), ou_zarya = (\<lambda>f. sample_zarya_client), ou_flux = (\<lambda>f. silent_flux_client),
     ou_files = text_store, ou_token = (\<lambda>f. new_token)\<rparr>"

definition read_workflow :: workflow where
  "read_workflow = \<lparr>wf_workflow_id = ''w'', wf_name = ''read'', wf_description = [],
     wf_steps = [\<lparr>ws_step_id = ''s'', ws_capability = ''file.read'', ws_constraints = default_constraints,
       ws_input_data = [(''path'', PStr ''a'')], ws_description = []\<rparr>], wf_metadata = []\<rparr>"

definition read_outcome :: "(step_state \<times> string option) list" where
  "read_outcome = (case run_workflow_here file_outside read_workflow (snd (start quiet_host int quiet_runtime), [(''a'', ''hi'')]) of
     (Inl e, st) \<Rightarrow> [] | (Inr r, st) \<Rightarrow> map (\<lambda>s. (sr_state s, map_option nc_provider_id (sr_target s))) (wr_step_results r))"

lemma read_completes: "read_outcome = [(STEP_COMPLETED, Some ''local.filesystem'')]"
  by code_simp

theorem only_file_steps_complete_witness:
  "\<exists>(rt :: string runtime) r st sr c. runtime_reachable rt
     \<and> run_workflow_here file_outside read_workflow (rt, [(''a'', ''hi'')]) = (Inr r, st)
     \<and> wr_step_results r = [sr] \<and> sr_state sr = STEP_COMPLETED
     \<and> sr_target sr = Some c \<and> nc_is_local c \<and> nc_capability_id c \<in> set FILE_CAPABILITIES"
proof -
  let ?rt = "snd (start quiet_host int quiet_runtime)"
  have reach: "runtime_reachable ?rt"
    unfolding quiet_runtime_def by (rule steps [OF created starts]) (rule prod.collapse [symmetric])
  obtain x st where run: "run_workflow_here file_outside read_workflow (?rt, [(''a'', ''hi'')]) = (x, st)"
    by (meson surj_pair)
  with read_completes obtain r sr where x: "x = Inr r" and sr: "wr_step_results r = [sr]" "sr_state sr = STEP_COMPLETED"
    by (cases x) (auto simp: read_outcome_def)
  from only_file_steps_complete [OF reach run [unfolded x], of sr] sr obtain c
    where "sr_target sr = Some c" "nc_is_local c" "nc_capability_id c \<in> set FILE_CAPABILITIES" by auto
  with reach run [unfolded x] sr show ?thesis by blast
qed

end
