(* ===== verification/Shyam_Surface.thy ===== *)
theory Shyam_Surface
  imports Shyam_Targets Shyam_Continuity
begin

section \<open>The human surface\<close>

text \<open>
  \<open>surface/parser.py\<close>, \<open>surface/models.py\<close>, \<open>surface/presenter.py\<close>, \<open>surface/input.py\<close> and
  \<open>surface/coordinator.py\<close>, over the runtime. Texts for the user are constructors, since most hold
  characters outside the strings of the model; what the user types is such a string, so \<open>lower\<close> is
  that of ASCII letters. Awaiting the continuity service suspends a request: \<open>handle_request\<close> is a request that
  nothing else interleaves with, \<open>surface_step\<close> interleaves requests and readiness events.
\<close>

subsection \<open>surface/models.py\<close>

datatype surface_state = SURFACE_IDLE | SURFACE_LISTENING | SURFACE_UNDERSTANDING | SURFACE_EXECUTING
  | SURFACE_COMPLETED | SURFACE_FAILED | SURFACE_DEGRADED

datatype user_intent = CONTINUE_WORK | UNKNOWN_INTENT

record interaction_request =
  ir_text :: string
  ir_source :: string

datatype surface_message = Msg_Done | Msg_Moving | Msg_Could_Not_Continue | Msg_Not_Sure | Msg_Not_Ready

record interaction_response =
  rp_message :: surface_message
  rp_state :: surface_state
  rp_detail :: "string option"

subsection \<open>surface/parser.py\<close>

definition CONTINUE_SIGNALS :: "string list" where
  "CONTINUE_SIGNALS = [''continue'', ''resume'', ''move'', ''transfer'', ''pick up'', ''handoff'']"

definition OBJECT_SIGNALS :: "string list" where
  "OBJECT_SIGNALS = [''work'', ''task'', ''project'', ''this'', ''it'', ''laptop'', ''device'', ''computer'', ''machine'',
     ''phone'', ''tablet'']"

definition matches_continue_work :: "string \<Rightarrow> bool" where
  "matches_continue_work text \<longleftrightarrow>
     list_ex (\<lambda>sig. substring sig text) CONTINUE_SIGNALS \<and> list_ex (\<lambda>sig. substring sig text) OBJECT_SIGNALS"

definition parse_intent :: "string \<Rightarrow> user_intent" where
  "parse_intent text =
     (let normalised = strip (lower text) in
      if normalised = [] then UNKNOWN_INTENT
      else if matches_continue_work normalised then CONTINUE_WORK else UNKNOWN_INTENT)"

subsection \<open>surface/presenter.py\<close>

datatype readiness_text = Text_Ready | Text_Getting_Ready | Text_Some_Unavailable | Text_Unavailable

fun readiness_message :: "ecosystem_readiness \<Rightarrow> readiness_text" where
  "readiness_message ECO_READY = Text_Ready"
| "readiness_message ECO_STARTING = Text_Getting_Ready"
| "readiness_message ECO_DEGRADED = Text_Some_Unavailable"
| "readiness_message ECO_UNAVAILABLE = Text_Unavailable"

definition success_response :: interaction_response where
  "success_response = \<lparr>rp_message = Msg_Done, rp_state = SURFACE_COMPLETED, rp_detail = None\<rparr>"

definition executing_response :: interaction_response where
  "executing_response = \<lparr>rp_message = Msg_Moving, rp_state = SURFACE_EXECUTING, rp_detail = None\<rparr>"

definition failure_response :: "string option \<Rightarrow> interaction_response" where
  "failure_response detail = \<lparr>rp_message = Msg_Could_Not_Continue, rp_state = SURFACE_FAILED, rp_detail = detail\<rparr>"

definition unknown_intent_response :: interaction_response where
  "unknown_intent_response = \<lparr>rp_message = Msg_Not_Sure, rp_state = SURFACE_IDLE, rp_detail = None\<rparr>"

definition degraded_response :: interaction_response where
  "degraded_response = \<lparr>rp_message = Msg_Not_Ready, rp_state = SURFACE_DEGRADED, rp_detail = None\<rparr>"

subsection \<open>surface/input.py\<close>

definition create_request :: "string \<Rightarrow> interaction_request" where
  "create_request text = \<lparr>ir_text = text, ir_source = ''text''\<rparr>"

text \<open>The prompt and the transcription, where one is configured, may raise.\<close>

definition get_text_request :: "string result option \<Rightarrow> interaction_request result" where
  "get_text_request prompt = (case prompt of
      Some (Inr text) \<Rightarrow> Inr (create_request text)
    | Some (Inl e) \<Rightarrow> Inl e
    | None \<Rightarrow> Inl (Exn (Builtin NotImplementedError) ''No prompt function configured for TextInputAdapter.''))"

definition create_request_from_transcription :: "string \<Rightarrow> interaction_request" where
  "create_request_from_transcription text = \<lparr>ir_text = text, ir_source = ''voice''\<rparr>"

definition transcribe_and_create :: "('audio \<Rightarrow> string result) option \<Rightarrow> 'audio \<Rightarrow> interaction_request result" where
  "transcribe_and_create stt audio = (case stt of
      None \<Rightarrow> Inl (Exn (Builtin RuntimeError) ''No STT transcriber configured in VoiceInputAdapter.'')
    | Some f \<Rightarrow> (case f audio of Inl e \<Rightarrow> Inl e | Inr text \<Rightarrow> Inr (create_request_from_transcription text)))"

subsection \<open>surface/coordinator.py\<close>

record coordinator =
  sc_state :: surface_state
  sc_subscribed :: bool

definition new_coordinator :: coordinator where
  "new_coordinator = \<lparr>sc_state = SURFACE_IDLE, sc_subscribed = False\<rparr>"

definition start_coordinator :: "ecosystem_readiness \<Rightarrow> coordinator \<Rightarrow> coordinator" where
  "start_coordinator ready sc =
     sc\<lparr>sc_subscribed := True, sc_state := (if ready \<noteq> ECO_READY then SURFACE_DEGRADED else SURFACE_IDLE)\<rparr>"

definition on_readiness_changed :: "ecosystem_readiness \<Rightarrow> coordinator \<Rightarrow> coordinator" where
  "on_readiness_changed ready sc =
     (if ready = ECO_READY
      then if sc_state sc = SURFACE_DEGRADED then sc\<lparr>sc_state := SURFACE_IDLE\<rparr> else sc
      else if sc_state sc \<in> {SURFACE_IDLE, SURFACE_DEGRADED} then sc\<lparr>sc_state := SURFACE_DEGRADED\<rparr> else sc)"

definition get_status_message :: "'k runtime \<Rightarrow> readiness_text" where
  "get_status_message rt = readiness_message (rt_readiness (rn_tracker rt))"

definition SURFACE_WORK_ID :: string where
  "SURFACE_WORK_ID = ''work-active-surface''"

definition surface_payload :: "(string, pyval) dict" where
  "surface_payload =
     [(''format_version'', PStr ''n3-portable-v1''), (''work_id'', PStr SURFACE_WORK_ID), (''intent'', PStr ''continue_work''),
      (''plan_reference'', PDict [(''steps'', PList [PDict [(''id'', PStr ''step-1''), (''tool'', PStr ''systemInfo''),
         (''args'', PDict []), (''unverified_ok'', PBool True),
         (''description'', PStr ''Continue active human task slice'')]])]),
      (''outcome'', PStr ''IN_PROGRESS''), (''lifecycle_status'', PStr ''ACTIVE''), (''platform'', PStr ''windows''),
      (''artifact_references'', PList [])]"

text \<open>The extra argument \<open>capability\<close> of the constraints is ignored by the model class.\<close>

definition surface_continuity_request :: "string \<Rightarrow> continuity_request result" where
  "surface_continuity_request source =
     mk_continuity_request SURFACE_WORK_ID source surface_payload [] default_constraints ''COPY''"

text \<open>The services of a runtime, as its continuity service calls them; \<open>at\<close> is the client of a remote service.\<close>

definition continuity_env_of :: "'k host \<Rightarrow> (string \<Rightarrow> zarya_client) \<Rightarrow> time \<Rightarrow> 'k runtime \<Rightarrow> continuity_env" where
  "continuity_env_of ho at now rt =
     \<lparr>cv_snapshot = create_snapshot (rn_registry rt) now [],
      cv_trust = (\<lambda>n. map_sum id fst (get_record (ho_codec ho) now (rn_trust_disk rt) n (rn_trust rt))),
      cv_flux_client = ho_flux ho, cv_flux = rn_flux rt, cv_zarya_client = ho_zarya ho,
      cv_zarya_at = at, cv_zarya = rn_zarya rt, cv_now = now\<rparr>"

fun continuity_outcome_value :: "continuity_outcome \<Rightarrow> string" where
  "continuity_outcome_value CO_SUCCESS = ''success''"
| "continuity_outcome_value CO_FAILED = ''failed''"
| "continuity_outcome_value CO_CANCELLED = ''cancelled''"
| "continuity_outcome_value CO_UNSUPPORTED = ''unsupported''"
| "continuity_outcome_value CO_UNKNOWN = ''unknown''"

text \<open>What the answer of the continuity service becomes; the new state is that of the response.\<close>

definition session_outcome :: "continuity_session \<Rightarrow> continuity_outcome option" where
  "session_outcome s = (case cn_result s of
      Some r \<Rightarrow> Some (cres_outcome r)
    | None \<Rightarrow> if cn_state s = C_COMPLETED then Some CO_SUCCESS else None)"

definition continuity_response :: "continuity_session result \<Rightarrow> interaction_response" where
  "continuity_response r = (case r of
      Inl e \<Rightarrow> failure_response (Some (exn_msg e))
    | Inr s \<Rightarrow>
        if session_outcome s = Some CO_SUCCESS then success_response
        else failure_response (Some (''Continuity failed: '' @
          (case session_outcome s of None \<Rightarrow> ''None'' | Some out \<Rightarrow> continuity_outcome_value out))))"

text \<open>The part before the service is awaited: a response, or the request to the service.\<close>

definition begin_continue_work ::
  "'k host \<Rightarrow> time \<Rightarrow> 'k runtime \<Rightarrow> (interaction_response + continuity_request) result \<times> 'k runtime" where
  "begin_continue_work ho now rt =
     (case rn_continuity rt of
        None \<Rightarrow> (Inr (Inl (failure_response (Some ''Continuity service is not available.''))), rt)
      | Some _ \<Rightarrow>
          let (source, rt1) =
            (case rn_identity rt of
               None \<Rightarrow> (Inr ''unknown'', rt)
             | Some im \<Rightarrow>
                 (case get_or_create_identity (ho_uuid ho) (ho_codec ho) (ho_fresh_id ho) now (ho_hostname ho) im
                         (rn_id_disk rt) of
                    (x, im', dk) \<Rightarrow> (map_sum id ni_node_id x, rt\<lparr>rn_identity := Some im', rn_id_disk := dk\<rparr>))) in
          ((case source of
              Inl e \<Rightarrow> Inl e
            | Inr i \<Rightarrow> (case surface_continuity_request i of Inl e \<Rightarrow> Inl e | Inr q \<Rightarrow> Inr (Inr q))), rt1))"

definition handle_continue_work ::
  "'k host \<Rightarrow> (string \<Rightarrow> zarya_client) \<Rightarrow> string \<Rightarrow> time \<Rightarrow> coordinator \<Rightarrow> 'k runtime
     \<Rightarrow> interaction_response result \<times> coordinator \<times> 'k runtime" where
  "handle_continue_work ho at cid now sc rt =
     (let sc1 = sc\<lparr>sc_state := SURFACE_EXECUTING\<rparr>;
          answer = (\<lambda>resp rt. (Inr resp, sc1\<lparr>sc_state := rp_state resp\<rparr>, rt)) in
      case begin_continue_work ho now rt of
        (Inl e, rt1) \<Rightarrow> (Inl e, sc1, rt1)
      | (Inr (Inl resp), rt1) \<Rightarrow> answer resp rt1
      | (Inr (Inr q), rt1) \<Rightarrow>
          (case rn_continuity rt1 of
             None \<Rightarrow> answer (failure_response (Some ''Continuity service is not available.'')) rt1
           | Some v \<Rightarrow>
               (case request_continuity (continuity_env_of ho at now rt1) cid q v of
                  (r, v') \<Rightarrow> answer (continuity_response r) (rt1\<lparr>rn_continuity := Some v'\<rparr>))))"

definition handle_request ::
  "'k host \<Rightarrow> (string \<Rightarrow> zarya_client) \<Rightarrow> string \<Rightarrow> time \<Rightarrow> interaction_request \<Rightarrow> coordinator \<Rightarrow> 'k runtime
     \<Rightarrow> interaction_response result \<times> coordinator \<times> 'k runtime" where
  "handle_request ho at cid now q sc rt =
     (if rt_readiness (rn_tracker rt) \<noteq> ECO_READY
      then (Inr degraded_response, sc\<lparr>sc_state := SURFACE_DEGRADED\<rparr>, rt)
      else (case parse_intent (ir_text q) of
              UNKNOWN_INTENT \<Rightarrow> (Inr unknown_intent_response, sc, rt)
            | CONTINUE_WORK \<Rightarrow> handle_continue_work ho at cid now sc rt))"

subsection \<open>What a request comes to\<close>

definition surface_q :: "string \<Rightarrow> continuity_request" where
  "surface_q source = \<lparr>cq_work_id = SURFACE_WORK_ID, cq_source_device_id = source, cq_portable_work = surface_payload,
     cq_artifact_paths = [], cq_target_constraints = default_constraints, cq_continuity_intent = ''COPY''\<rparr>"

lemma surface_request_valid: "surface_continuity_request source = Inr (surface_q source)"
proof -
  have "strip SURFACE_WORK_ID = SURFACE_WORK_ID" "upper ''COPY'' = ''COPY''" by code_simp+
  then show ?thesis
    by (simp add: surface_continuity_request_def mk_continuity_request_def surface_q_def) (simp add: SURFACE_WORK_ID_def)
qed

definition working :: "continuity_service \<Rightarrow> bool" where
  "working v \<longleftrightarrow> (\<exists>old x. get_session v old = Some x \<and> cq_work_id (cn_request x) = SURFACE_WORK_ID
     \<and> \<not> c_is_terminal (cn_state x))"

lemma begin_working:
  assumes reach: "continuity_reachable v" and q: "cq_work_id q = SURFACE_WORK_ID"
    and live: "working v"
  shows "\<exists>e. begin_continuity cid now q v = Inl e"
proof -
  from live obtain old x where x: "get_session v old = Some x" "cq_work_id (cn_request x) = SURFACE_WORK_ID"
    "\<not> c_is_terminal (cn_state x)" unfolding working_def by blast
  from sessions_okD [OF reachable_ok [OF reach] x(1)] x q show ?thesis
    by (simp add: begin_continuity_def get_session_def)
qed

text \<open>Every piece of work is registered with an attempt for it.\<close>

lemma reachable_works:
  "continuity_reachable v \<Longrightarrow> dget (co_work_continuities v) w = Some i \<Longrightarrow>
     \<exists>x. get_session v i = Some x \<and> cq_work_id (cn_request x) = w"
proof (induction arbitrary: w i rule: continuity_reachable.induct)
  case initial
  then show ?case by (simp add: new_continuity_service_def)
next
  case (steps v v')
  from steps(2) show ?case
  proof (cases rule: continuity_step.cases)
    case (begins cid now q s)
    note b = begin_continuity_Inr(1,2) [OF begins(1)]
    have get: "get_session v' j = (if j = cid then Some s else get_session v j)" for j
      by (simp add: b get_session_def store_session_def new_session_def)
    show ?thesis
    proof (cases "w = cq_work_id q")
      case True
      with steps.prems b have "i = cid" by simp
      with True get b(1) show ?thesis by (simp add: new_session_def)
    next
      case False
      with steps.prems b(2) have "dget (co_work_continuities v) w = Some i" by simp
      from steps.IH [OF this] begins(3) get show ?thesis by auto
    qed
  next
    case (advances cid s env s')
    note ok = sessions_okD [OF reachable_ok [OF steps(1)] advances(2)]
    from ok(3) advances(3) have "cn_state s \<in> c_rests" by blast
    from c_next_progress [OF this, of env] advances(4) have "cn_continuity_id s' = cid" "cn_request s' = cn_request s"
      using ok(1) by (auto simp: c_moved_def)
    with steps.IH [of w i] steps.prems advances(1,2) show ?thesis by auto
  qed
qed

lemma begin_refused:
  assumes "begin_continuity cid now q v = Inl e" and "continuity_reachable v" and "cq_work_id q = SURFACE_WORK_ID"
  shows "working v"
  using assms(1,3) reachable_works [OF assms(2)]
  by (fastforce simp: begin_continuity_def get_session_def working_def Let_def split: option.splits if_splits)

text \<open>What the continuity service answers to a request for the surface's work.\<close>

definition answered ::
  "continuity_env \<Rightarrow> string \<Rightarrow> string \<Rightarrow> continuity_service \<Rightarrow> continuity_session result \<Rightarrow> continuity_service \<Rightarrow> bool" where
  "answered env cid i v r v' \<longleftrightarrow> continuity_reachable v'
     \<and> (if working v then v' = v \<and> isl r
        else (\<exists>s. r = Inr s \<and> get_session v' cid = Some s
          \<and> run_pipeline env (new_session cid (cv_now env) (surface_q i)) = Inr s
          \<and> cn_state s = pipeline_end env cid (surface_q i) \<and> session_outcome s = Some (outcome_of (cn_state s))))"

lemma surface_continuity:
  assumes reach: "continuity_reachable v" and fresh: "cid \<noteq> []" "get_session v cid = None"
  shows "\<exists>r v'. request_continuity env cid (surface_q i) v = (r, v') \<and> answered env cid i v r v'"
proof -
  have q: "cq_work_id (surface_q i) = SURFACE_WORK_ID" by (simp add: surface_q_def)
  obtain r v' where run: "request_continuity env cid (surface_q i) v = (r, v')" by (meson surj_pair)
  note spec = request_result [OF reach fresh, where env = env and q = "surface_q i", unfolded run]
  show ?thesis
  proof (cases "working v")
    case True
    from begin_working [OF reach q True] obtain e where "begin_continuity cid (cv_now env) (surface_q i) v = Inl e" by blast
    with run have "r = Inl e" "v' = v" by (simp_all add: request_continuity_def)
    with run reach True show ?thesis by (simp add: answered_def)
  next
    case False
    with begin_refused [OF _ reach q] obtain p where "begin_continuity cid (cv_now env) (surface_q i) v = Inr p"
      by (metis sum.exhaust)
    moreover obtain s0 v0 where "p = (s0, v0)" by (cases p)
    moreover from this have s0: "s0 = new_session cid (cv_now env) (surface_q i)"
      using begin_continuity_Inr(1) calculation by blast
    moreover obtain s where pipe: "run_pipeline env (new_session cid (cv_now env) (surface_q i)) = Inr s"
      using pipeline_result [of env cid "cv_now env" "surface_q i"] by blast
    ultimately have s: "r = Inr s" using run by (simp add: request_continuity_def)
    with spec have fin: "continuity_reachable v'" "get_session v' cid = Some s" "c_is_terminal (cn_state s)"
      "cn_state s = pipeline_end env cid (surface_q i)" by (auto simp only: prod.case sum.case)
    from request_settled [OF run [unfolded s] fin(3)] have "session_outcome s = Some (outcome_of (cn_state s))"
      by (auto simp: session_outcome_def)
    with run s fin False pipe show ?thesis by (simp add: answered_def)
  qed
qed

text \<open>With an identity and a continuity service, the request reaches the service.\<close>

lemma continue_work_reaches:
  assumes "rn_continuity rt = Some v" and "rn_identity rt = Some im" "im_identity im = Some i"
  shows "begin_continue_work ho now rt = (Inr (Inr (surface_q (ni_node_id i))), rt)"
proof -
  have "rt\<lparr>rn_identity := Some im, rn_id_disk := rn_id_disk rt\<rparr> = rt" using assms(2) by (cases rt) simp
  with assms show ?thesis
    by (simp add: begin_continue_work_def get_or_create_identity_def surface_request_valid Let_def)
qed

lemma continue_work_answer:
  assumes service: "rn_continuity rt = Some v" "continuity_reachable v"
    and fresh: "cid \<noteq> []" "get_session v cid = None"
    and identity: "rn_identity rt = Some im" "im_identity im = Some i"
  shows "\<exists>r v'. handle_continue_work ho at cid now sc rt
      = (Inr (continuity_response r), sc\<lparr>sc_state := rp_state (continuity_response r)\<rparr>, rt\<lparr>rn_continuity := Some v'\<rparr>)
    \<and> answered (continuity_env_of ho at now rt) cid (ni_node_id i) v r v'"
proof -
  obtain r v' where r: "request_continuity (continuity_env_of ho at now rt) cid (surface_q (ni_node_id i)) v = (r, v')"
    and spec: "answered (continuity_env_of ho at now rt) cid (ni_node_id i) v r v'"
    using surface_continuity [OF service(2) fresh] by blast
  have "handle_continue_work ho at cid now sc rt =
      (Inr (continuity_response r), sc\<lparr>sc_state := rp_state (continuity_response r)\<rparr>, rt\<lparr>rn_continuity := Some v'\<rparr>)"
    using continue_work_reaches [OF service(1) identity] service(1) r by (simp add: handle_continue_work_def Let_def)
  with spec show ?thesis by blast
qed

fun_cases outcome_successE: "outcome_of st = CO_SUCCESS"

lemma succeeds_iff: "outcome_of st = CO_SUCCESS \<longleftrightarrow> st = C_COMPLETED"
  by (auto elim: outcome_successE)

lemma response_done_iff:
  "continuity_response r = success_response \<longleftrightarrow> (\<exists>s. r = Inr s \<and> session_outcome s = Some CO_SUCCESS)"
  by (auto simp: continuity_response_def success_response_def failure_response_def split: sum.splits)

text \<open>
  C7. What a request of the user comes to, on a node with an identity and a continuity service. It never
  raises. While the ecosystem is not READY it is answered as not ready and changes nothing but the visible
  state; text without a signal of each kind is answered as not understood and changes nothing. Otherwise the visible state
  is that of the response: a failure without any change of the service while an earlier attempt is
  unfinished, and else \<open>Done\<close> exactly when the new attempt ends COMPLETED, with the outcome of the attempt as
  the detail of a failure.
\<close>

theorem surface_request_outcome:
  assumes service: "rn_continuity rt = Some v" "continuity_reachable v"
    and fresh: "cid \<noteq> []" "get_session v cid = None"
    and identity: "rn_identity rt = Some im" "im_identity im = Some i"
  shows "\<exists>resp sc' rt'. handle_request ho at cid now q sc rt = (Inr resp, sc', rt')
    \<and> (if rt_readiness (rn_tracker rt) \<noteq> ECO_READY
       then resp = degraded_response \<and> sc' = sc\<lparr>sc_state := SURFACE_DEGRADED\<rparr> \<and> rt' = rt
       else if parse_intent (ir_text q) = UNKNOWN_INTENT then resp = unknown_intent_response \<and> sc' = sc \<and> rt' = rt
       else sc' = sc\<lparr>sc_state := rp_state resp\<rparr>
         \<and> (if working v then rp_state resp = SURFACE_FAILED \<and> rt' = rt
            else (\<exists>v' s st. rt' = rt\<lparr>rn_continuity := Some v'\<rparr> \<and> continuity_reachable v' \<and> get_session v' cid = Some s
              \<and> st = pipeline_end (continuity_env_of ho at now rt) cid (surface_q (ni_node_id i)) \<and> cn_state s = st
              \<and> resp = (if st = C_COMPLETED then success_response
                        else failure_response (Some (''Continuity failed: '' @ continuity_outcome_value (outcome_of st)))))))"
proof -
  let ?env = "continuity_env_of ho at now rt"
  let ?q = "surface_q (ni_node_id i)"
  obtain r v' where work: "handle_continue_work ho at cid now sc rt
      = (Inr (continuity_response r), sc\<lparr>sc_state := rp_state (continuity_response r)\<rparr>, rt\<lparr>rn_continuity := Some v'\<rparr>)"
    and spec: "answered ?env cid (ni_node_id i) v r v'"
    using continue_work_answer [OF assms] by blast
  then have v': "continuity_reachable v'" by (simp add: answered_def)
  show ?thesis
  proof (cases "working v")
    case True
    with spec have v: "v' = v" "isl r" by (simp_all add: answered_def)
    then have "rt\<lparr>rn_continuity := Some v'\<rparr> = rt" "rp_state (continuity_response r) = SURFACE_FAILED"
      using service(1) by (cases rt; auto simp: continuity_response_def failure_response_def isl_def)+
    with True work show ?thesis
      by (cases "parse_intent (ir_text q)") (simp_all add: handle_request_def)
  next
    case False
    with spec obtain s where s: "r = Inr s" "get_session v' cid = Some s" "cn_state s = pipeline_end ?env cid ?q"
      "session_outcome s = Some (outcome_of (cn_state s))" by (auto simp: answered_def)
    then have "continuity_response r = (if cn_state s = C_COMPLETED then success_response
        else failure_response (Some (''Continuity failed: '' @ continuity_outcome_value (outcome_of (cn_state s)))))"
      by (simp add: continuity_response_def succeeds_iff)
    moreover have "rp_state success_response = SURFACE_COMPLETED" by (simp add: success_response_def)
    ultimately show ?thesis
      using False work s v' by (cases "parse_intent (ir_text q)") (auto simp: handle_request_def)
  qed
qed

lemma done_verified:
  assumes reach: "runtime_reachable rt"
    and service: "rn_continuity rt = Some v" "continuity_reachable v"
    and fresh: "cid \<noteq> []" "get_session v cid = None"
    and identity: "rn_identity rt = Some im" "im_identity im = Some i"
    and said: "handle_request ho at cid now q sc rt = (Inr success_response, sc', rt')"
  shows "\<exists>m p dc (t :: continuity_target) (s :: continuity_session) rec ts client r v'.
      er_get_node (rn_registry rt) (tg_node_id t) = Some m \<and> p \<in> set (dvals (dn_providers m)) \<and> dc \<in> set (dp_capabilities p)
    \<and> dc_capability_id dc = ''zarya.work.continue'' \<and> eligible default_constraints (mk_candidate m p dc)
    \<and> tg_provider_id t = dp_provider_id p \<and> dp_provider_id p \<in> {PROVIDER_ID_ZARYA, ''flux.peer'', ''shyam.peer''}
    \<and> announced_url m p = (case tg_zarya_url t of None \<Rightarrow> PNone | Some u \<Rightarrow> PStr u)
    \<and> get_record (ho_codec ho) now (rn_trust_disk rt) (tg_node_id t) (rn_trust rt) = Inr (rec, ts) \<and> tr_is_trusted rec
    \<and> (if truthy_opt (tg_zarya_url t) then client = at (the (tg_zarya_url t))
       else client = ho_zarya ho \<and> zp_is_connected (rn_zarya rt))
    \<and> zcl_continue_work client surface_payload (ni_node_id i) cid = Inr r \<and> zc_outcome r = VERIFIED_SUCCESS
    \<and> rn_continuity rt' = Some v' \<and> get_session v' cid = Some s \<and> cn_state s = C_COMPLETED
    \<and> cn_request s = surface_q (ni_node_id i) \<and> cn_target s = Some t \<and> cn_operation_id s = Some (zc_operation_id r)"
proof -
  let ?env = "continuity_env_of ho at now rt"
  let ?q = "surface_q (ni_node_id i)"
  obtain x v' where work: "handle_continue_work ho at cid now sc rt
      = (Inr (continuity_response x), sc\<lparr>sc_state := rp_state (continuity_response x)\<rparr>, rt\<lparr>rn_continuity := Some v'\<rparr>)"
    and spec: "answered ?env cid (ni_node_id i) v x v'"
    using continue_work_answer [OF service fresh identity] by blast
  have answered: "continuity_response x = success_response" and rt': "rt' = rt\<lparr>rn_continuity := Some v'\<rparr>"
    using said work by (auto simp: handle_request_def degraded_response_def unknown_intent_response_def success_response_def
        split: if_splits user_intent.splits)
  obtain s where s: "get_session v' cid = Some s" "run_pipeline ?env (new_session cid (cv_now ?env) ?q) = Inr s"
    and ended: "cn_state s = C_COMPLETED"
    using spec answered by (auto simp: answered_def response_done_iff isl_def split: if_splits dest: succeeds_iff [THEN iffD1, OF sym])
  with pipeline_result [of ?env cid "cv_now ?env" ?q] obtain t0 rec r where t0: "c_target_of ?env ?q = Inr t0"
    and target: "cn_target s = Some (t0\<lparr>tg_trust_verified := True\<rparr>)"
    and trust: "cv_trust ?env (tg_device_id t0) = Inr rec" "tr_is_trusted rec"
    and reply: "target_reply ?env cid ?q t0 = Inr r" "zc_outcome r = VERIFIED_SUCCESS"
    and op: "cn_operation_id s = Some (zc_operation_id r)" by auto
  let ?t = "t0\<lparr>tg_trust_verified := True\<rparr>"
  obtain m p dc where m: "m \<in> set (dvals (snap_nodes (cv_snapshot ?env)))" "p \<in> set (dvals (dn_providers m))"
      "dc \<in> set (dp_capabilities p)" "dc_capability_id dc = ''zarya.work.continue''"
    and best: "eligible default_constraints (mk_candidate m p dc)"
    and ids: "tg_node_id t0 = dn_node_id m" "tg_device_id t0 = dn_node_id m" "tg_provider_id t0 = dp_provider_id p"
    and url: "announced_url m p = (case tg_zarya_url t0 of None \<Rightarrow> PNone | Some u \<Rightarrow> PStr u)"
    using c_target_of_provider [OF t0] by (auto simp: surface_q_def)
  have nodes: "snap_nodes (cv_snapshot ?env) = er_nodes (rn_registry rt)"
    by (simp add: continuity_env_of_def create_snapshot_def)
  have I: "nodes_ok (rn_registry rt)" using reachable_inv [OF reach] by (simp add: node_inv_def)
  have "mk_candidate m p dc \<in> set (discover_candidates (cv_snapshot ?env) ''zarya.work.continue'')"
    using m by (auto simp: discover_candidates_mem simp del: set_map)
  from candidate_known [OF I nodes this] m(4) have prov: "dp_provider_id p \<in> {PROVIDER_ID_ZARYA, ''flux.peer'', ''shyam.peer''}"
    by (auto simp: known_target_def mk_candidate_def FILE_CAPABILITIES_def FLUX_CAPABILITIES_def FLUX_CAPABILITY_DEFINITIONS_def)
  have node: "er_get_node (rn_registry rt) (dn_node_id m) = Some m"
  proof -
    have ok: "er_ok (rn_registry rt)" using I by (simp add: nodes_ok_def)
    then have dict: "dict_ok (er_nodes (rn_registry rt))" by (simp add: er_ok_def keyed_def)
    from m(1) obtain k where "er_get_node (rn_registry rt) k = Some m"
      unfolding nodes dvals_mem [OF dict] er_get_node_def by blast
    with er_get_id [OF ok this] show ?thesis by simp
  qed
  obtain ts where rec: "get_record (ho_codec ho) now (rn_trust_disk rt) (dn_node_id m) (rn_trust rt) = Inr (rec, ts)"
    using trust(1) ids(2) by (cases "get_record (ho_codec ho) now (rn_trust_disk rt) (dn_node_id m) (rn_trust rt)")
      (auto simp: continuity_env_of_def)
  obtain client where via: "if truthy_opt (tg_zarya_url t0) then client = at (the (tg_zarya_url t0))
       else client = ho_zarya ho \<and> zp_is_connected (rn_zarya rt)"
    and answer: "zcl_continue_work client surface_payload (ni_node_id i) cid = Inr r"
    using reply(1) by atomize_elim (auto simp: target_reply_def zp_continue_work_def continuity_env_of_def surface_q_def
        truthy_opt_def split: if_splits)
  have asked: "cn_request s = ?q" using pipeline_keeps [OF s(2)] by simp
  show ?thesis
    using node m(2,3,4) best ids prov url rec trust(2) via answer reply(2) rt' s(1) ended asked target op
    by (intro exI [of _ m] exI [of _ p] exI [of _ dc] exI [of _ ?t] exI [of _ s] exI [of _ rec] exI [of _ ts] exI [of _ client]
        exI [of _ r] exI [of _ v'] conjI) simp_all
qed

text \<open>
  C6. What \<open>Done\<close> means. In every state a runtime can reach, the surface reports that work was continued
  only when the session of this request completed on its target: a usable provider of \<open>zarya.work.continue\<close>, which is Zarya's
  gateway or one of another node, on a node of the ecosystem that the trust records call TRUSTED. The client that
  replied with the verified success, whose operation the session records, is the one at the address that this provider or this node
  announces. Where they announce none, it is the own gateway, which then is connected, although the target may be another node.
\<close>

theorem surface_done_is_verified:
  assumes reach: "runtime_reachable rt"
    and service: "rn_continuity rt = Some v" "continuity_reachable v"
    and fresh: "cid \<noteq> []" "get_session v cid = None"
    and identity: "rn_identity rt = Some im" "im_identity im = Some i"
    and said: "handle_request ho at cid now q sc rt = (Inr success_response, sc', rt')"
  shows "\<exists>m p dc (t :: continuity_target) (s :: continuity_session) rec ts client r v'.
      er_get_node (rn_registry rt) (tg_node_id t) = Some m \<and> p \<in> set (dvals (dn_providers m)) \<and> dc \<in> set (dp_capabilities p)
    \<and> dc_capability_id dc = ''zarya.work.continue'' \<and> eligible default_constraints (mk_candidate m p dc)
    \<and> tg_provider_id t = dp_provider_id p \<and> dp_provider_id p \<in> {PROVIDER_ID_ZARYA, ''flux.peer'', ''shyam.peer''}
    \<and> announced_url m p = (case tg_zarya_url t of None \<Rightarrow> PNone | Some u \<Rightarrow> PStr u)
    \<and> get_record (ho_codec ho) now (rn_trust_disk rt) (tg_node_id t) (rn_trust rt) = Inr (rec, ts) \<and> tr_is_trusted rec
    \<and> (if truthy_opt (tg_zarya_url t) then client = at (the (tg_zarya_url t))
       else client = ho_zarya ho \<and> zp_is_connected (rn_zarya rt))
    \<and> zcl_continue_work client surface_payload (ni_node_id i) cid = Inr r \<and> zc_outcome r = VERIFIED_SUCCESS
    \<and> rn_continuity rt' = Some v' \<and> get_session v' cid = Some s \<and> cn_state s = C_COMPLETED
    \<and> cn_request s = surface_q (ni_node_id i) \<and> cn_target s = Some t \<and> cn_operation_id s = Some (zc_operation_id r)"
  using assms by (rule done_verified)

subsection \<open>Interleaved requests\<close>

text \<open>
  Requests that are suspended in the continuity service, and readiness events, in any order. A request that asked has
  not yet been registered; a running one has its own attempt, which advances with whatever the other services answer then.
  The tracker's new readiness and the coordinator's handler of its event are one step: the moment between them, in which a request already sees
  the new readiness while the old state is shown, is left out.
\<close>

datatype request_phase = ASKED | RUNNING_ATTEMPT

record surface_world =
  su_coordinator :: coordinator
  su_ready :: ecosystem_readiness
  su_service :: continuity_service
  su_pending :: "(string, request_phase) dict"

definition show_state :: "surface_state \<Rightarrow> surface_world \<Rightarrow> surface_world" where
  "show_state st w = w\<lparr>su_coordinator := (su_coordinator w)\<lparr>sc_state := st\<rparr>\<rparr>"

definition answer_request :: "string \<Rightarrow> continuity_session result \<Rightarrow> surface_world \<Rightarrow> surface_world" where
  "answer_request cid r w = show_state (rp_state (continuity_response r)) (w\<lparr>su_pending := ddel cid (su_pending w)\<rparr>)"

inductive surface_step :: "surface_world \<Rightarrow> surface_world \<Rightarrow> bool" where
  readiness: "surface_step w (w\<lparr>su_ready := r, su_coordinator := on_readiness_changed r (su_coordinator w)\<rparr>)"
| refused: "su_ready w \<noteq> ECO_READY \<Longrightarrow> surface_step w (show_state SURFACE_DEGRADED w)"
| asks: "su_ready w = ECO_READY \<Longrightarrow> cid \<noteq> [] \<Longrightarrow> get_session (su_service w) cid = None \<Longrightarrow> \<not> dmem cid (su_pending w) \<Longrightarrow>
     surface_step w (show_state SURFACE_EXECUTING (w\<lparr>su_pending := dset cid ASKED (su_pending w)\<rparr>))"
| repeated: "dget (su_pending w) cid = Some ASKED \<Longrightarrow> begin_continuity cid now (surface_q src) (su_service w) = Inl e \<Longrightarrow>
     surface_step w (answer_request cid (Inl e) w)"
| enters: "dget (su_pending w) cid = Some ASKED \<Longrightarrow> begin_continuity cid now (surface_q src) (su_service w) = Inr (s, v') \<Longrightarrow>
     surface_step w (w\<lparr>su_service := v', su_pending := dset cid RUNNING_ATTEMPT (su_pending w)\<rparr>)"
| advances: "dget (su_pending w) cid = Some RUNNING_ATTEMPT \<Longrightarrow> get_session (su_service w) cid = Some s \<Longrightarrow>
     \<not> c_is_terminal (cn_state s) \<Longrightarrow> c_next env s = Inr s' \<Longrightarrow>
     surface_step w (w\<lparr>su_service := store_session s' (su_service w)\<rparr>)"
| answers: "dget (su_pending w) cid = Some RUNNING_ATTEMPT \<Longrightarrow> get_session (su_service w) cid = Some s \<Longrightarrow>
     c_is_terminal (cn_state s) \<Longrightarrow> surface_step w (answer_request cid (Inr s) w)"

text \<open>The surface of a node, from its start.\<close>

inductive surface_reachable :: "surface_world \<Rightarrow> bool" where
  starts: "surface_reachable \<lparr>su_coordinator = start_coordinator r new_coordinator, su_ready = r,
     su_service = new_continuity_service, su_pending = []\<rparr>"
| steps: "surface_reachable w \<Longrightarrow> surface_step w w' \<Longrightarrow> surface_reachable w'"

inductive_cases surface_stepE: "surface_step w w'"

text \<open>What the visible state tells.\<close>

definition visible_ok :: "surface_world \<Rightarrow> bool" where
  "visible_ok w \<longleftrightarrow> (case sc_state (su_coordinator w) of
      SURFACE_EXECUTING \<Rightarrow> su_pending w \<noteq> []
    | SURFACE_DEGRADED \<Rightarrow> su_ready w \<noteq> ECO_READY
    | SURFACE_LISTENING \<Rightarrow> False | SURFACE_UNDERSTANDING \<Rightarrow> False | _ \<Rightarrow> True)"

definition pending_ok :: "surface_world \<Rightarrow> bool" where
  "pending_ok w \<longleftrightarrow> dict_ok (su_pending w)
     \<and> (\<forall>cid. dget (su_pending w) cid = Some ASKED \<longrightarrow> cid \<noteq> [] \<and> get_session (su_service w) cid = None)
     \<and> (\<forall>cid. dget (su_pending w) cid = Some RUNNING_ATTEMPT \<longrightarrow> (\<exists>s. get_session (su_service w) cid = Some s
          \<and> cq_work_id (cn_request s) = SURFACE_WORK_ID \<and> settled s))"

definition surface_inv :: "surface_world \<Rightarrow> bool" where
  "surface_inv w \<longleftrightarrow> continuity_reachable (su_service w) \<and> visible_ok w \<and> pending_ok w"

lemma response_state: "rp_state (continuity_response r) \<in> {SURFACE_COMPLETED, SURFACE_FAILED}"
  by (simp add: continuity_response_def success_response_def failure_response_def split: sum.split)

lemma dset_not_empty [simp]: "dset k v d \<noteq> []"
  by (cases d) auto

lemma surface_q_work [simp]: "cq_work_id (surface_q i) = SURFACE_WORK_ID"
  by (simp add: surface_q_def)

lemma readiness_visible:
  "visible_ok w \<Longrightarrow> visible_ok (w\<lparr>su_ready := r, su_coordinator := on_readiness_changed r (su_coordinator w)\<rparr>)"
  by (cases "sc_state (su_coordinator w)") (auto simp: visible_ok_def on_readiness_changed_def)

lemma answer_keeps:
  assumes "surface_inv w"
  shows "surface_inv (answer_request cid r w)"
  using assms response_state [of r]
  by (auto simp: surface_inv_def visible_ok_def pending_ok_def answer_request_def show_state_def)

lemma enters_pending:
  assumes ok: "pending_ok w" and cid: "dget (su_pending w) cid = Some ASKED"
    and run: "begin_continuity cid now (surface_q src) (su_service w) = Inr (s, v')"
  shows "pending_ok (w\<lparr>su_service := v', su_pending := dset cid RUNNING_ATTEMPT (su_pending w)\<rparr>)"
proof -
  note b = begin_continuity_Inr(1,2) [OF run]
  have get: "get_session v' i = (if i = cid then Some s else get_session (su_service w) i)" for i
    by (simp add: b get_session_def store_session_def new_session_def)
  have "settled s" "cq_work_id (cn_request s) = SURFACE_WORK_ID" by (simp_all add: b(1) settled_def new_session_def)
  with ok show ?thesis unfolding pending_ok_def by (auto simp: get)
qed

lemma advances_pending:
  assumes ok: "pending_ok w" and reach: "continuity_reachable (su_service w)"
    and s: "dget (su_pending w) cid = Some RUNNING_ATTEMPT" "get_session (su_service w) cid = Some s" "\<not> c_is_terminal (cn_state s)"
    and run: "c_next env s = Inr s'"
  shows "pending_ok (w\<lparr>su_service := store_session s' (su_service w)\<rparr>)"
proof -
  note oks = sessions_okD [OF reachable_ok [OF reach] s(2)]
  from oks(3) s(3) have "cn_state s \<in> c_rests" by blast
  from c_next_progress [OF this, of env] run have same: "cn_continuity_id s' = cid" "cn_request s' = cn_request s"
    using oks(1) by (auto simp: c_moved_def)
  have "settled s'" "cq_work_id (cn_request s') = SURFACE_WORK_ID"
    using ok s same c_next_settled [OF _ run] by (auto simp: pending_ok_def)
  with ok s(1) same show ?thesis unfolding pending_ok_def by auto
qed

lemma surface_step_keeps: "surface_step w w' \<Longrightarrow> surface_inv w \<Longrightarrow> surface_inv w'"
proof (induction rule: surface_step.induct)
  case (readiness w r)
  then show ?case using readiness_visible by (simp add: surface_inv_def pending_ok_def)
next
  case (refused w)
  then show ?case by (simp add: surface_inv_def visible_ok_def pending_ok_def show_state_def)
next
  case (asks w cid)
  then show ?case by (auto simp: surface_inv_def visible_ok_def pending_ok_def show_state_def)
next
  case (repeated w cid now src e)
  then show ?case by (simp add: answer_keeps)
next
  case (enters w cid now src s v')
  then have "cid \<noteq> []" "get_session (su_service w) cid = None" by (auto simp: surface_inv_def pending_ok_def)
  with enters have "continuity_reachable v'" using continuity_step.begins by (auto simp: surface_inv_def)
  with enters enters_pending show ?case by (auto simp: surface_inv_def visible_ok_def split: surface_state.splits)
next
  case (advances w cid s env s')
  then have "continuity_reachable (store_session s' (su_service w))"
    using continuity_step.advances by (auto simp: surface_inv_def)
  with advances advances_pending show ?case by (auto simp: surface_inv_def visible_ok_def split: surface_state.splits)
next
  case (answers w cid s)
  then show ?case by (simp add: answer_keeps)
qed

lemma surface_reachable_inv: "surface_reachable w \<Longrightarrow> surface_inv w"
proof (induction rule: surface_reachable.induct)
  case (starts r)
  then show ?case
    by (auto simp: surface_inv_def visible_ok_def pending_ok_def start_coordinator_def new_coordinator_def dict_ok_def)
qed (rule surface_step_keeps)

text \<open>How far a request is from its answer.\<close>

definition request_left :: "surface_world \<Rightarrow> string \<Rightarrow> nat" where
  "request_left w cid = (case dget (su_pending w) cid of
      None \<Rightarrow> 0
    | Some ASKED \<Rightarrow> 9
    | Some RUNNING_ATTEMPT \<Rightarrow> (case get_session (su_service w) cid of
        None \<Rightarrow> 8 | Some s \<Rightarrow> Suc (stages_left (cn_state s))))"

lemma request_progress:
  assumes inv: "surface_inv w" and pending: "dmem cid (su_pending w)"
  shows "\<exists>w'. surface_step w w' \<and> request_left w' cid < request_left w cid"
proof -
  have reach: "continuity_reachable (su_service w)" and pend: "pending_ok w" using inv by (simp_all add: surface_inv_def)
  note ok = reachable_ok [OF reach]
  from pending obtain ph where ph: "dget (su_pending w) cid = Some ph" by (auto simp: dmem_def)
  show ?thesis
  proof (cases ph)
    case ASKED
    with ph have cid: "dget (su_pending w) cid = Some ASKED" by simp
    show ?thesis
    proof (cases "begin_continuity cid 0 (surface_q []) (su_service w)")
      case (Inl e)
      from repeated [OF cid this] cid show ?thesis
        by (intro exI conjI) (assumption, simp add: request_left_def answer_request_def show_state_def)
    next
      case (Inr p)
      then obtain s v' where b: "begin_continuity cid 0 (surface_q []) (su_service w) = Inr (s, v')" by (cases p) simp
      note new = begin_continuity_Inr(1,2) [OF b]
      have "get_session v' cid = Some s" "stages_left (cn_state s) = 7"
        by (simp add: new get_session_def store_session_def new_session_def) (simp add: new(1) new_session_def)
      with enters [OF cid b] cid show ?thesis by (intro exI conjI) (assumption, simp add: request_left_def)
    qed
  next
    case RUNNING_ATTEMPT
    with ph pend obtain s where s: "dget (su_pending w) cid = Some RUNNING_ATTEMPT" "get_session (su_service w) cid = Some s"
      by (auto simp: pending_ok_def)
    show ?thesis
    proof (cases "c_is_terminal (cn_state s)")
      case True
      from answers [OF s True] s show ?thesis
        by (intro exI conjI) (assumption, simp add: request_left_def answer_request_def show_state_def)
    next
      case False
      note oks = sessions_okD [OF ok s(2)]
      from oks(3) False have "cn_state s \<in> c_rests" by blast
      from c_next_progress [OF this] obtain s' t where n: "c_next undefined s = Inr s'" "c_moved s t s'"
        "stages_left t < stages_left (cn_state s)" by blast
      then have "stages_left (cn_state s') < stages_left (cn_state s)" "cn_continuity_id s' = cid"
        using stages_left_terminal [of "cn_state s'"] oks(1) by (auto simp: c_moved_def)
      with advances [OF s False n(1)] s show ?thesis by (intro exI conjI) (assumption, simp add: request_left_def)
    qed
  qed
qed

text \<open>
  C8. The visible state under interleaved requests and readiness events. EXECUTING is shown only while a
  request is pending, DEGRADED only while the ecosystem is not READY, and LISTENING and UNDERSTANDING never. At most one
  pending request has an unfinished attempt, the outcome an answered one reports is that of its state, and every pending
  request can take a step that brings it nearer to its answer, whatever the others do.
\<close>

theorem surface_interleaving:
  assumes reach: "surface_reachable w"
  shows "visible_ok w
    \<and> (\<forall>a b x y. get_session (su_service w) a = Some x \<and> get_session (su_service w) b = Some y
        \<and> cq_work_id (cn_request x) = SURFACE_WORK_ID \<and> cq_work_id (cn_request y) = SURFACE_WORK_ID
        \<and> \<not> c_is_terminal (cn_state x) \<and> \<not> c_is_terminal (cn_state y) \<longrightarrow> a = b)
    \<and> (\<forall>cid s. dget (su_pending w) cid = Some RUNNING_ATTEMPT \<and> get_session (su_service w) cid = Some s
        \<and> c_is_terminal (cn_state s) \<longrightarrow>
        rp_state (continuity_response (Inr s)) = (if cn_state s = C_COMPLETED then SURFACE_COMPLETED else SURFACE_FAILED))
    \<and> (\<forall>cid. dmem cid (su_pending w) \<longrightarrow>
        (\<exists>w'. surface_step w w' \<and> surface_reachable w' \<and> request_left w' cid < request_left w cid))"
proof (intro conjI allI impI)
  have inv: "continuity_reachable (su_service w)" "visible_ok w" "pending_ok w"
    using surface_reachable_inv [OF reach] by (simp_all add: surface_inv_def)
  note ok = reachable_ok [OF inv(1)]
  show "visible_ok w" by (rule inv(2))
  show "a = b" if "get_session (su_service w) a = Some x \<and> get_session (su_service w) b = Some y
        \<and> cq_work_id (cn_request x) = SURFACE_WORK_ID \<and> cq_work_id (cn_request y) = SURFACE_WORK_ID
        \<and> \<not> c_is_terminal (cn_state x) \<and> \<not> c_is_terminal (cn_state y)" for a b x y
    using that sessions_okD(4) [OF ok, of a x] sessions_okD(4) [OF ok, of b y] by auto
  show "rp_state (continuity_response (Inr s)) = (if cn_state s = C_COMPLETED then SURFACE_COMPLETED else SURFACE_FAILED)"
    if "dget (su_pending w) cid = Some RUNNING_ATTEMPT \<and> get_session (su_service w) cid = Some s
      \<and> c_is_terminal (cn_state s)" for cid s
    using that inv(3) by (auto simp: pending_ok_def settled_def continuity_response_def session_outcome_def succeeds_iff
        success_response_def failure_response_def)
  show "\<exists>w'. surface_step w w' \<and> surface_reachable w' \<and> request_left w' cid < request_left w cid"
    if "dmem cid (su_pending w)" for cid
    using request_progress [OF surface_reachable_inv [OF reach] that] surface_reachable.steps [OF reach] by blast
qed

subsection \<open>Concrete nodes\<close>

text \<open>An announcement with the address of an execution service.\<close>

definition peer_announcement :: announcement where
  "peer_announcement = \<lparr>an_node_id = ''peer'', an_node_name = PStr ''other'', an_address = ''10.0.0.2'', an_port = PInt 54321,
     an_protocol_version = PStr ''0.2.0'', an_metadata = PDict [(''zarya_url'', PStr ''u'')]\<rparr>"

text \<open>A node whose ecosystem is READY, that knows who it is and has a continuity service.\<close>

definition ready_runtime :: "string runtime" where
  "ready_runtime = (new_runtime quiet_settings ''r'' 0 new_id_disk empty_disk)\<lparr>
     rn_tracker := (new_readiness_tracker False False 0)\<lparr>rt_readiness := ECO_READY\<rparr>,
     rn_identity := Some ((new_identity_manager None)\<lparr>im_identity := Some owner_1\<rparr>), rn_ecosystem := Some owner_1,
     rn_continuity := Some new_continuity_service,
     rn_peer_bus := fold (\<lambda>(ty, h) b. subscribe b ty h) peer_subscriptions [],
     rn_trust := (new_trust_service True)\<lparr>ts_initialized := True,
       ts_records := [(''peer'', (unknown_record 0 ''peer'')\<lparr>tr_status := TRUST_TRUSTED\<rparr>)]\<rparr>,
     rn_discovery := Some ((new_discovery 54321 6)\<lparr>dv_pending := [peer_announcement]\<rparr>)\<rparr>"

theorem surface_request_outcome_witness:
  "\<exists>resp sc' rt'. handle_request quiet_host (\<lambda>_. sample_zarya_client) ''c'' 1 (create_request ''move it'') new_coordinator ready_runtime
       = (Inr resp, sc', rt') \<and> rp_state resp = sc_state sc'"
proof -
  have "get_session new_continuity_service ''c'' = None" by (simp add: get_session_def new_continuity_service_def)
  moreover have "rn_continuity ready_runtime = Some new_continuity_service"
    "rn_identity ready_runtime = Some ((new_identity_manager None)\<lparr>im_identity := Some owner_1\<rparr>)"
    "rt_readiness (rn_tracker ready_runtime) = ECO_READY" by (simp_all add: ready_runtime_def)
  moreover have "parse_intent (ir_text (create_request ''move it'')) = CONTINUE_WORK" by code_simp
  moreover have "\<not> working new_continuity_service"
    by (simp add: working_def get_session_def new_continuity_service_def)
  ultimately show ?thesis
    using surface_request_outcome [of ready_runtime new_continuity_service "''c''" _ owner_1 quiet_host "\<lambda>_. sample_zarya_client" 1
        "create_request ''move it''" new_coordinator] continuity_reachable.initial by auto
qed

text \<open>
  The same node once the pending announcement of \<open>peer\<close> is taken in: the node continues its work at the address the
  announcement carries.
\<close>

definition met_runtime :: "string runtime" where
  "met_runtime = run_announcement (\<lambda>v. case v of PInt i \<Rightarrow> Some i | _ \<Rightarrow> None) 3 peer_announcement
     (ready_runtime\<lparr>rn_discovery := Some ((new_discovery 54321 6)\<lparr>dv_pending := [] @ []\<rparr>)\<rparr>)"

definition remote_client :: "string \<Rightarrow> zarya_client" where
  "remote_client url = sample_zarya_client\<lparr>zcl_continue_work := (\<lambda>w src cid.
     Inr \<lparr>zc_operation_id = cid @ ''/'' @ url, zc_outcome = VERIFIED_SUCCESS, zc_reconstruction_completed = True,
       zc_execution_completed = True, zc_result = [], zc_summary = ''continued''\<rparr>)\<rparr>"

lemma met_facts:
  "fst (handle_request quiet_host remote_client ''c'' 4 (create_request ''move it'') new_coordinator met_runtime)
     = Inr success_response
   \<and> rn_continuity met_runtime = Some new_continuity_service
   \<and> rn_identity met_runtime = Some ((new_identity_manager None)\<lparr>im_identity := Some owner_1\<rparr>)"
  by code_simp

lemma met_zarya_off: "\<not> zp_is_connected (rn_zarya met_runtime)"
  by code_simp

lemmas met_says_done = met_facts [THEN conjunct1]
lemmas met_runtime_state = met_facts [THEN conjunct2, THEN conjunct1] met_facts [THEN conjunct2, THEN conjunct2]

lemma met_runtime_reachable: "runtime_reachable met_runtime"
proof -
  let ?d = "(new_discovery 54321 6)\<lparr>dv_pending := [] @ peer_announcement # []\<rparr>"
  have "runtime_reachable ready_runtime"
    by (rule runtime_reachable.steps [OF created [of quiet_settings "''r''" 0 new_id_disk empty_disk]], rule other)
      (simp add: same_view_def ready_runtime_def)
  moreover have "rn_discovery ready_runtime = Some ?d" "dv_pending ?d = [] @ peer_announcement # []"
    by (simp_all add: ready_runtime_def)
  then have "runtime_step ready_runtime met_runtime"
    unfolding met_runtime_def using announces [of ready_runtime ?d "[]" peer_announcement "[]"] by simp
  ultimately show ?thesis by (rule runtime_reachable.steps)
qed

theorem surface_done_is_verified_witness:
  "\<exists>sc' rt' v' (s :: continuity_session) (t :: continuity_target). handle_request quiet_host remote_client ''c'' 4 (create_request ''move it'') new_coordinator met_runtime
       = (Inr success_response, sc', rt') \<and> rn_continuity rt' = Some v' \<and> get_session v' ''c'' = Some s
     \<and> cn_state s = C_COMPLETED \<and> cn_target s = Some t \<and> \<not> zp_is_connected (rn_zarya met_runtime)
     \<and> tg_zarya_url t \<noteq> None \<and> cn_operation_id s = Some (''c/'' @ the (tg_zarya_url t))"
proof -
  obtain sc' rt' where run: "handle_request quiet_host remote_client ''c'' 4 (create_request ''move it'') new_coordinator met_runtime
       = (Inr success_response, sc', rt')"
    using met_says_done by (metis prod.collapse)
  have off: "\<not> zp_is_connected (rn_zarya met_runtime)" by (fact met_zarya_off)
  have "get_session new_continuity_service ''c'' = None" by (simp add: get_session_def new_continuity_service_def)
  from surface_done_is_verified [OF met_runtime_reachable met_runtime_state(1) continuity_reachable.initial _ this
      met_runtime_state(2) _ run] off
  obtain t :: continuity_target and s :: continuity_session and r v' client where out: "rn_continuity rt' = Some v'"
    "get_session v' ''c'' = Some s" "cn_state s = C_COMPLETED" "cn_target s = Some t" "cn_operation_id s = Some (zc_operation_id r)"
    and via: "truthy_opt (tg_zarya_url t)" "zcl_continue_work (remote_client (the (tg_zarya_url t))) surface_payload (ni_node_id owner_1) ''c'' = Inr r"
    by (simp split: if_splits) blast
  from via(2) have "zc_operation_id r = ''c/'' @ the (tg_zarya_url t)" by (auto simp: remote_client_def)
  with run off out via(1) show ?thesis by (auto simp: truthy_opt_def)
qed

theorem surface_interleaving_witness:
  "\<exists>w. surface_reachable w \<and> sc_state (su_coordinator w) = SURFACE_EXECUTING
     \<and> (\<exists>w'. surface_step w w' \<and> request_left w' ''c'' < request_left w ''c'')"
proof -
  let ?w = "\<lparr>su_coordinator = start_coordinator ECO_READY new_coordinator, su_ready = ECO_READY,
     su_service = new_continuity_service, su_pending = []\<rparr>"
  let ?w' = "show_state SURFACE_EXECUTING (?w\<lparr>su_pending := dset ''c'' ASKED (su_pending ?w)\<rparr>)"
  have "surface_step ?w ?w'"
    by (rule asks) (simp_all add: get_session_def new_continuity_service_def dmem_def)
  then have "surface_reachable ?w'" by (rule surface_reachable.steps [OF surface_reachable.starts])
  moreover have "dmem ''c'' (su_pending ?w')" by (simp add: show_state_def dmem_def)
  ultimately have "\<exists>w'. surface_step ?w' w' \<and> request_left w' ''c'' < request_left ?w' ''c''"
    using surface_interleaving [of ?w'] by blast
  moreover have "sc_state (su_coordinator ?w') = SURFACE_EXECUTING" by (simp add: show_state_def)
  ultimately show ?thesis using \<open>surface_reachable ?w'\<close> by blast
qed

text \<open>
  Words are matched inside other words; and a service of the node itself, which trusts itself, comes before every other
  node, so that \<open>Done\<close>, the text about the other laptop, can be about the node that asked.
\<close>

lemma parser_matches_inside_words: "parse_intent ''I removed the wait'' = CONTINUE_WORK"
  by code_simp

definition own_runtime :: "string runtime" where
  "own_runtime = ready_runtime\<lparr>
     rn_zarya := new_zarya_provider\<lparr>zp_is_connected := True\<rparr>,
     rn_trust := (new_trust_service True)\<lparr>ts_initialized := True,
       ts_records := [(ni_node_id owner_1, (unknown_record 0 (ni_node_id owner_1))\<lparr>tr_status := TRUST_TRUSTED\<rparr>)]\<rparr>,
     rn_registry := (new_ecosystem_registry True)\<lparr>er_nodes := [(ni_node_id owner_1,
       \<lparr>dn_node_id = ni_node_id owner_1, dn_node_name = ''me'', dn_state = NODE_AVAILABLE, dn_is_local = True,
        dn_protocol_version = ''0.2.0'', dn_providers = [(PROVIDER_ID_ZARYA,
          \<lparr>dp_provider_id = PROVIDER_ID_ZARYA, dp_name = ''Zarya'', dp_version = ''1.0.0'', dp_description = [],
           dp_capabilities = [dc_simple ''zarya.work.continue'' ''continue'' AVAILABLE], dp_status = AVAILABLE,
           dp_metadata = [], dp_last_seen = 1\<rparr>)],
        dn_metadata = [], dn_first_seen = 1, dn_last_seen = 1\<rparr>)]\<rparr>\<rparr>"

lemma done_on_own_node:
  "case handle_request (quiet_host\<lparr>ho_zarya := remote_client ''own''\<rparr>) remote_client ''c'' 4 (create_request ''move it'')
       new_coordinator own_runtime of
     (r, _, rt) \<Rightarrow> r = Inr success_response
       \<and> (case rn_continuity rt of None \<Rightarrow> False | Some v \<Rightarrow> (case get_session v ''c'' of None \<Rightarrow> False
           | Some s \<Rightarrow> map_option tg_node_id (cn_target s) = Some (cq_source_device_id (cn_request s))))"
  by code_simp

text \<open>
  A trusted node that announces that it has Zarya, but no address: the work is continued at the own gateway, and the user is told that it
  continued on the other node.
\<close>

definition addressless_runtime :: "string runtime" where
  "addressless_runtime = own_runtime\<lparr>rn_trust := rn_trust ready_runtime,
     rn_registry := (new_ecosystem_registry True)\<lparr>er_nodes := [(''peer'', udp_peer_node (sample_service) (sample_peer\<lparr>peer_metadata :=
       [(''has_zarya'', PBool True)]\<rparr>))]\<rparr>\<rparr>"

lemma done_without_address:
  "case handle_request (quiet_host\<lparr>ho_zarya := remote_client ''own''\<rparr>) remote_client ''c'' 4 (create_request ''move it'')
       new_coordinator addressless_runtime of
     (r, _, rt) \<Rightarrow> r = Inr success_response
       \<and> (case rn_continuity rt of None \<Rightarrow> False | Some v \<Rightarrow> (case get_session v ''c'' of None \<Rightarrow> False
           | Some s \<Rightarrow> map_option tg_node_id (cn_target s) = Some ''peer'' \<and> cn_operation_id s = Some ''c/own''))"
  by code_simp

end
