(* ===== verification/Shyam_Tasks.thy ===== *)
theory Shyam_Tasks
  imports Shyam_Targets
begin

section \<open>The tasks of a running node\<close>

text \<open>
  What the event loop of a runtime runs while something else awaits: a datagram is received, a pending announcement is
  taken in, silent peers are reaped, the gateways are polled. \<open>run_task\<close> is such a turn as a function, for the programs
  that wait for other nodes; its steps are those of \<open>runtime_step\<close>.
\<close>

subsection \<open>Turns of the event loop\<close>

datatype loop_task =
    Receives string datagram
  | Takes_In "pyval \<Rightarrow> int option" time nat
  | Reaps time
  | Polls zarya_client flux_client time

definition node_of :: "'k runtime \<Rightarrow> node_identity option" where
  "node_of rt = (case rn_identity rt of None \<Rightarrow> None | Some im \<Rightarrow> im_identity im)"

text \<open>A turn that is not possible does nothing: the socket closed, no such announcement, the loops ended.\<close>

fun run_task :: "loop_task \<Rightarrow> 'k runtime \<Rightarrow> 'k runtime" where
  "run_task (Receives ip dg) rt =
     (case rn_discovery rt of
        None \<Rightarrow> rt
      | Some d \<Rightarrow> if dv_transport d then rt\<lparr>rn_discovery := Some (snd (handle_datagram (node_of rt) ip dg d))\<rparr> else rt)"
| "run_task (Takes_In ints now k) rt =
     (case rn_discovery rt of
        None \<Rightarrow> rt
      | Some d \<Rightarrow>
          if k < length (dv_pending d)
          then run_announcement ints now (dv_pending d ! k)
                 (rt\<lparr>rn_discovery := Some (d\<lparr>dv_pending := take k (dv_pending d) @ drop (Suc k) (dv_pending d)\<rparr>)\<rparr>)
          else rt)"
| "run_task (Reaps now) rt =
     (case rn_discovery rt of None \<Rightarrow> rt | Some d \<Rightarrow> if dv_running d then reap_peers now rt else rt)"
| "run_task (Polls zc fc now) rt = (if rt_running (rn_tracker rt) then poll_gateways zc fc now rt else rt)"

definition run_tasks :: "loop_task list \<Rightarrow> 'k runtime \<Rightarrow> 'k runtime" where
  "run_tasks ts rt = fold run_task ts rt"

lemma run_tasks_simps [simp]: "run_tasks [] rt = rt" "run_tasks (t # ts) rt = run_tasks ts (run_task t rt)"
  by (simp_all add: run_tasks_def)

lemma same_view_refl: "same_view rt rt"
  by (simp add: same_view_def)

lemma run_task_step: "runtime_step rt (run_task t rt)"
proof (cases t)
  case (Receives ip dg)
  then show ?thesis
    using receives [of rt _ "node_of rt" ip dg] other [OF same_view_refl]
    by (auto split: option.split) (metis surj_pair snd_conv)
next
  case (Takes_In ints now k)
  have "dv_pending d = take k (dv_pending d) @ dv_pending d ! k # drop (Suc k) (dv_pending d)" if "k < length (dv_pending d)" for d
    using that by (simp add: id_take_nth_drop)
  then have "runtime_step rt (run_announcement ints now (dv_pending d ! k)
      (rt\<lparr>rn_discovery := Some (d\<lparr>dv_pending := take k (dv_pending d) @ drop (Suc k) (dv_pending d)\<rparr>)\<rparr>))"
    if "rn_discovery rt = Some d" "k < length (dv_pending d)" for d
    using that announces by blast
  with Takes_In other [OF same_view_refl] show ?thesis by (auto split: option.split)
next
  case (Reaps now)
  with reaps [of rt] other [OF same_view_refl] show ?thesis by (auto split: option.split)
next
  case (Polls zc fc now)
  with polls [of rt] other [OF same_view_refl] show ?thesis by auto
qed

lemma run_tasks_reachable: "runtime_reachable rt \<Longrightarrow> runtime_reachable (run_tasks ts rt)"
  by (induction ts arbitrary: rt) (auto intro: runtime_reachable.steps run_task_step)

lemma run_tasks_keep: "node_inv rt \<Longrightarrow> node_inv (run_tasks ts rt)"
  by (induction ts arbitrary: rt) (auto intro: runtime_step_keeps run_task_step)

subsection \<open>What they leave alone\<close>

definition same_services :: "'k runtime \<Rightarrow> 'k runtime \<Rightarrow> bool" where
  "same_services rt rt' \<longleftrightarrow> rn_settings rt' = rn_settings rt \<and> rn_state rt' = rn_state rt \<and> rn_keys rt' = rn_keys rt
     \<and> rn_identity rt' = rn_identity rt \<and> rn_trust rt' = rn_trust rt \<and> rn_trust_disk rt' = rn_trust_disk rt
     \<and> rn_sync rt' = rn_sync rt \<and> rn_ecosystem rt' = rn_ecosystem rt \<and> rn_continuity rt' = rn_continuity rt"

lemma same_services_refl [simp]: "same_services rt rt"
  by (simp add: same_services_def)

lemma same_services_trans: "same_services rt rt1 \<Longrightarrow> same_services rt1 rt2 \<Longrightarrow> same_services rt rt2"
  by (simp add: same_services_def)

lemma put_nodes_services [simp]: "same_services rt (put_nodes now sevs rt)"
  by (cases sevs) (simp add: put_nodes_def Let_def same_services_def log_events_def)

lemma with_ecosystem_services [simp]: "same_services rt (with_ecosystem op now rt)"
  by (simp add: with_ecosystem_def split: option.split)

lemma run_peer_handler_services [simp]: "same_services rt (run_peer_handler now h e rt)"
  by (cases h; cases e) (simp_all add: on_peer_seen_def on_peer_lost_def split: option.split)

lemma fold_services:
  "(\<And>x rt. same_services rt (f x rt)) \<Longrightarrow> same_services rt (fold f xs rt)"
  by (induction xs arbitrary: rt) (auto intro: same_services_trans)

lemma publish_peers_services: "same_services rt (fold (publish_peer now) evs rt)"
  by (intro fold_services) (auto simp: publish_peer_def intro: fold_services)

lemma put_world_services: "same_services rt (put_world w rt)"
  by (auto simp: put_world_def same_services_def split: option.splits)

lemma run_task_services: "same_services rt (run_task t rt)"
proof (cases t)
  case (Receives ip dg)
  then show ?thesis by (auto simp: same_services_def split: option.split)
next
  case (Takes_In ints now k)
  have "same_services rt (rt\<lparr>rn_discovery := d\<rparr>)" for d by (simp add: same_services_def)
  then have "same_services rt (run_announcement ints now a (rt\<lparr>rn_discovery := d\<rparr>))" for a d
    by (auto simp: run_announcement_def intro: same_services_trans [OF _ publish_peers_services]
        split: option.split prod.split sum.split)
  with Takes_In show ?thesis by (auto split: option.split)
next
  case (Reaps now)
  have "same_services rt (rt\<lparr>rn_discovery := d\<rparr>)" for d by (simp add: same_services_def)
  then have "same_services rt (reap_peers now rt)"
    by (auto simp: reap_peers_def intro: same_services_trans [OF _ publish_peers_services] split: option.split prod.split)
  with Reaps show ?thesis by (auto split: option.split)
next
  case (Polls zc fc now)
  have "same_services rt (rt\<lparr>rn_tracker := t\<rparr>)" for t by (simp add: same_services_def)
  then have "same_services rt (put_world w (rt\<lparr>rn_tracker := t\<rparr>))" for t w
    by (rule same_services_trans) (rule put_world_services)
  then have "same_services rt (poll_gateways zc fc now rt)"
    by (auto simp: poll_gateways_def same_services_def log_events_def split: prod.split)
  with Polls show ?thesis by simp
qed

lemma run_tasks_services: "same_services rt (run_tasks ts rt)"
  unfolding run_tasks_def by (rule fold_services) (rule run_task_services)

subsection \<open>Which nodes they can make known\<close>

text \<open>The nodes of the registry, and with them those the discovery service has heard of.\<close>

definition known :: "'k runtime \<Rightarrow> string set" where
  "known rt = {i. er_get_node (rn_registry rt) i \<noteq> None}"

definition heard :: "discovery_service option \<Rightarrow> string set" where
  "heard dv = (case dv of None \<Rightarrow> {} | Some d \<Rightarrow> an_node_id ` set (dv_pending d) \<union> lp_node_id ` set (dvals (dv_peers d)))"

lemma register_in_known:
  assumes "node_inv rt" and "register_in (ecosystem_of i rt) n = (s, evs)"
  shows "known (put_nodes now (s, evs) rt) = insert (dn_node_id n) (known rt)"
proof -
  have "er_ok (es_registry (ecosystem_of i rt))" using assms(1) by (simp add: node_inv_def nodes_ok_def ecosystem_of_def)
  from register_in_get [OF this assms(2)] show ?thesis
    by (auto simp: known_def put_nodes_def Let_def ecosystem_of_def log_events_def split: if_splits)
qed

lemma put_world_views [simp]: "rn_registry (put_world w rt) = rn_registry rt" "rn_discovery (put_world w rt) = rn_discovery rt"
  using put_world_only [of rt w] by (simp_all add: only_fabric_def)

lemma put_nodes_discovery [simp]: "rn_discovery (put_nodes now sevs rt) = rn_discovery rt"
  by (cases sevs) (simp add: put_nodes_def Let_def)

lemma peer_handlers_discovery [simp]: "rn_discovery (run_peer_handler now h e rt) = rn_discovery rt"
  by (cases h; cases e) (simp_all add: on_peer_seen_def on_peer_lost_def with_ecosystem_def split: option.split)

lemma publish_peer_discovery [simp]: "rn_discovery (publish_peer now e rt) = rn_discovery rt"
  unfolding publish_peer_def by (rule fold_invariant [where Q = "\<lambda>_. True" and P = "\<lambda>x. rn_discovery x = rn_discovery rt"]) auto

lemma publish_peers_discovery [simp]: "rn_discovery (fold (publish_peer now) evs rt) = rn_discovery rt"
  by (rule fold_invariant [where Q = "\<lambda>_. True" and P = "\<lambda>x. rn_discovery x = rn_discovery rt"]) auto

lemma on_peer_seen_known:
  assumes I: "node_inv rt"
  shows "known (on_peer_seen now l rt) \<subseteq> insert (lp_node_id l) (known rt)"
proof (cases "typed_peer l")
  case None
  then show ?thesis by (auto simp: on_peer_seen_def)
next
  case (Some p)
  then have p: "peer_node_id p = lp_node_id l" by (auto simp: typed_peer_def split: pyval.splits)
  show ?thesis
  proof (cases "rn_ecosystem rt")
    case None
    with Some show ?thesis by (auto simp: on_peer_seen_def with_ecosystem_def)
  next
    case eco: (Some i)
    obtain s evs where r: "register_in (ecosystem_of i rt) (udp_peer_node (ecosystem_of i rt) p) = (s, evs)" by (meson surj_pair)
    from register_in_known [OF I r] Some eco r p show ?thesis
      by (auto simp: on_peer_seen_def with_ecosystem_def ingest_udp_peer_def Let_def udp_peer_node_fields)
  qed
qed

lemma on_peer_lost_known:
  assumes I: "node_inv rt"
  shows "known (on_peer_lost now n rt) \<subseteq> known rt"
proof (cases "rn_ecosystem rt")
  case None
  then show ?thesis by (simp add: on_peer_lost_def with_ecosystem_def)
next
  case (Some i)
  have same: "known (put_nodes now (ecosystem_of i rt, []) rt) = known rt"
    by (simp add: known_def put_nodes_def Let_def ecosystem_of_def)
  have key: "dn_node_id d = n" if "er_get_node (rn_registry rt) n = Some d" for d
    using I that er_get_id [of "rn_registry rt" n d] by (auto simp: node_inv_def nodes_ok_def)
  obtain s evs where op: "handle_udp_peer_lost (ecosystem_of i rt) n = (s, evs)" by (meson surj_pair)
  have "known (put_nodes now (s, evs) rt) \<subseteq> known rt"
  proof (cases "er_get_node (rn_registry rt) n")
    case None
    with op same show ?thesis by (simp add: handle_udp_peer_lost_def ecosystem_of_def)
  next
    case d: (Some d)
    show ?thesis
    proof (cases "dn_is_local d")
      case True
      with op same d show ?thesis by (simp add: handle_udp_peer_lost_def ecosystem_of_def)
    next
      case False
      with op d have "register_in (ecosystem_of i rt) (with_state NODE_UNAVAILABLE d) = (s, evs)"
        by (simp add: handle_udp_peer_lost_def ecosystem_of_def)
      moreover have "dn_node_id (with_state NODE_UNAVAILABLE d) = n" "n \<in> known rt"
        using d key [OF d] by (simp_all add: with_state_def known_def)
      ultimately show ?thesis using register_in_known [OF I] by auto
    qed
  qed
  with Some op show ?thesis by (simp add: on_peer_lost_def with_ecosystem_def)
qed

fun event_peer :: "peer_event \<Rightarrow> string set" where
  "event_peer (PeerDiscoveredEvent l) = {lp_node_id l}"
| "event_peer (PeerUpdatedEvent l) = {lp_node_id l}"
| "event_peer (PeerLostEvent _ _ _) = {}"

lemma run_peer_handler_known: "node_inv rt \<Longrightarrow> known (run_peer_handler now h e rt) \<subseteq> event_peer e \<union> known rt"
  using on_peer_seen_known on_peer_lost_known by (cases h; cases e) fastforce+

lemma publish_peer_known: "node_inv rt \<Longrightarrow> known (publish_peer now e rt) \<subseteq> event_peer e \<union> known rt"
proof -
  have h: "node_inv (run_peer_handler now h e rt)" if "node_inv rt" for h and rt :: "'a runtime"
    using that by (cases h; cases e) (simp_all add: on_peer_seen_keeps on_peer_lost_keeps)
  have "node_inv rt \<Longrightarrow> known (fold (\<lambda>h. run_peer_handler now h e) hs rt) \<subseteq> event_peer e \<union> known rt" for hs
  proof (induction hs arbitrary: rt)
    case (Cons x hs)
    from Cons.IH [OF h [OF Cons.prems]] run_peer_handler_known [OF Cons.prems] show ?case by (simp, blast)
  qed simp
  then show "node_inv rt \<Longrightarrow> known (publish_peer now e rt) \<subseteq> event_peer e \<union> known rt" by (simp add: publish_peer_def)
qed

lemma publish_peers_known:
  "node_inv rt \<Longrightarrow> known (fold (publish_peer now) evs rt) \<subseteq> \<Union> (event_peer ` set evs) \<union> known rt"
proof (induction evs arbitrary: rt)
  case (Cons e evs)
  have "known (fold (publish_peer now) evs (publish_peer now e rt))
      \<subseteq> \<Union> (event_peer ` set evs) \<union> (event_peer e \<union> known rt)"
    by (rule subset_trans [OF Cons.IH [OF publish_peer_keeps [OF Cons.prems]] Un_mono [OF subset_refl publish_peer_known [OF Cons.prems]]])
  then show ?case by (simp add: Un_ac)
qed simp

lemma update_peer_heard:
  assumes run: "update_peer ints now a d = (res, d')"
  shows "heard (Some d') \<subseteq> insert (an_node_id a) (heard (Some d))
    \<and> (\<forall>evs. res = Inr evs \<longrightarrow> \<Union> (event_peer ` set evs) \<subseteq> insert (an_node_id a) (heard (Some d)))"
proof -
  have stored: "heard (Some (d\<lparr>dv_peers := dset k l (dv_peers d)\<rparr>)) \<subseteq> insert (lp_node_id l) (heard (Some d))" for k l
    using dvals_dset [of k l "dv_peers d"] by (auto simp: heard_def)
  show ?thesis
  proof (cases "dget (dv_peers d) (an_node_id a)")
    case None
    show ?thesis
    proof (cases "mk_live_peer ints now a")
      case (Inl e)
      with None run show ?thesis by (auto simp: update_peer_def)
    next
      case (Inr l)
      then have "lp_node_id l = an_node_id a" by (auto simp: mk_live_peer_def split: option.splits)
      with None Inr run stored [of "an_node_id a" l] show ?thesis by (auto simp: update_peer_def)
    qed
  next
    case (Some old)
    then have "old \<in> set (dvals (dv_peers d))" by (metis map_of_SomeD image_eqI snd_conv set_map)
    then have "lp_node_id old \<in> heard (Some d)" by (simp add: heard_def)
    moreover have "lp_node_id (refreshed_peer now a old) = lp_node_id old" by (simp add: refreshed_peer_def)
    ultimately show ?thesis
      using Some run stored [of "an_node_id a" "refreshed_peer now a old"] by (auto simp: update_peer_def Let_def)
  qed
qed

lemma run_announcement_known:
  assumes I: "node_inv rt"
  shows "known (run_announcement ints now a rt) \<union> heard (rn_discovery (run_announcement ints now a rt))
     \<subseteq> insert (an_node_id a) (known rt \<union> heard (rn_discovery rt))"
proof (cases "rn_discovery rt")
  case None
  then show ?thesis by (auto simp: run_announcement_def)
next
  case (Some d)
  obtain res d' where u: "update_peer ints now a d = (res, d')" by (meson surj_pair)
  note h = update_peer_heard [OF u]
  have same: "known (rt\<lparr>rn_discovery := x\<rparr>) = known rt" for x by (simp add: known_def)
  show ?thesis
  proof (cases res)
    case (Inl e)
    with Some u h same show ?thesis by (auto simp: run_announcement_def)
  next
    case (Inr evs)
    have "known (fold (publish_peer now) evs (rt\<lparr>rn_discovery := Some d'\<rparr>)) \<subseteq> \<Union> (event_peer ` set evs) \<union> known rt"
      using publish_peers_known [of "rt\<lparr>rn_discovery := Some d'\<rparr>" now evs] I same by simp
    with Some u h Inr show ?thesis by (simp add: run_announcement_def) blast
  qed
qed

lemma reap_peers_known:
  assumes I: "node_inv rt"
  shows "known (reap_peers now rt) \<union> heard (rn_discovery (reap_peers now rt)) \<subseteq> known rt \<union> heard (rn_discovery rt)"
proof (cases "rn_discovery rt")
  case None
  then show ?thesis by (auto simp: reap_peers_def)
next
  case (Some d)
  obtain evs d' where u: "reap now d = (evs, d')" by (meson surj_pair)
  have del: "set (fold (\<lambda>(i, p) d. ddel i d) xs ps) \<subseteq> set ps" for xs ps :: "(string, live_peer) dict"
  proof (induction xs arbitrary: ps)
    case (Cons x xs)
    from Cons.IH [of "ddel (fst x) ps"] show ?case by (auto simp: AList.delete_eq split: prod.splits)
  qed simp
  have "lp_node_id ` set (dvals (fold (\<lambda>(i, p) d. ddel i d) xs ps)) \<subseteq> lp_node_id ` set (dvals ps)"
    for xs ps :: "(string, live_peer) dict"
    using image_mono [OF image_mono [OF del]] by simp
  note vals = this
  from u have d': "dv_pending d' = dv_pending d"
    "dv_peers d' = fold (\<lambda>(i, p) d. ddel i d) (filter (\<lambda>(i, p). silent (dv_expiry d) now p) (dv_peers d)) (dv_peers d)"
    and gone: "\<Union> (event_peer ` set evs) = {}" by (auto simp: reap_def Let_def)
  have left: "heard (Some d') \<subseteq> heard (Some d)"
    unfolding heard_def option.case d' by (rule Un_mono [OF subset_refl vals])
  have "known (fold (publish_peer now) evs (rt\<lparr>rn_discovery := Some d'\<rparr>)) \<subseteq> known rt"
    using publish_peers_known [of "rt\<lparr>rn_discovery := Some d'\<rparr>" now evs] I gone by (simp add: known_def)
  with Some u left show ?thesis by (simp add: reap_peers_def) blast
qed

text \<open>The nodes that datagrams name.\<close>

definition announced_by :: "node_identity option \<Rightarrow> loop_task \<Rightarrow> string set" where
  "announced_by me t = (case t of Receives ip dg \<Rightarrow> {u. announces_node me dg u} | _ \<Rightarrow> {})"

lemma run_task_known:
  assumes I: "node_inv rt"
  shows "known (run_task t rt) \<union> heard (rn_discovery (run_task t rt))
     \<subseteq> announced_by (node_of rt) t \<union> known rt \<union> heard (rn_discovery rt)"
proof (cases t)
  case (Receives ip dg)
  have "known (rt\<lparr>rn_discovery := x\<rparr>) = known rt" for x by (simp add: known_def)
  moreover have "heard (Some (snd (handle_datagram (node_of rt) ip dg d))) \<subseteq> announced_by (node_of rt) t \<union> heard (Some d)" for d
    using parse_datagram_cases [of "node_of rt" ip dg]
    by (auto simp: handle_datagram_def heard_def announced_by_def Receives split: sum.splits option.splits)
  ultimately show ?thesis using Receives by (auto split: option.split)
next
  case (Takes_In ints now k)
  let ?rt = "\<lambda>d. rt\<lparr>rn_discovery := Some (d\<lparr>dv_pending := take k (dv_pending d) @ drop (Suc k) (dv_pending d)\<rparr>)\<rparr>"
  have "known (run_announcement ints now (dv_pending d ! k) (?rt d))
      \<union> heard (rn_discovery (run_announcement ints now (dv_pending d ! k) (?rt d))) \<subseteq> known rt \<union> heard (Some d)"
    if k: "k < length (dv_pending d)" for d
  proof -
    have "known (?rt d) = known rt" by (simp add: known_def)
    moreover have "insert (an_node_id (dv_pending d ! k)) (heard (rn_discovery (?rt d))) \<subseteq> heard (Some d)"
      using k nth_mem [OF k] in_set_takeD [of _ k "dv_pending d"] in_set_dropD [of _ "Suc k" "dv_pending d"] by (auto simp: heard_def)
    ultimately show ?thesis using run_announcement_known [of "?rt d" ints now "dv_pending d ! k"] I by simp blast
  qed
  with Takes_In show ?thesis by (auto split: option.split)
next
  case (Reaps now)
  with reap_peers_known [OF I, of now] show ?thesis by (cases "rn_discovery rt") auto
next
  case (Polls zc fc now)
  have "rn_registry (poll_gateways zc fc now rt) = rn_registry rt \<and> rn_discovery (poll_gateways zc fc now rt) = rn_discovery rt"
    by (simp add: poll_gateways_def split: prod.split)
  with Polls show ?thesis by (auto simp: known_def)
qed

text \<open>
  After any turns, only nodes that were known, pending or announced by a datagram are known.
\<close>

lemma run_tasks_known:
  "node_inv rt \<Longrightarrow> known (run_tasks ts rt) \<union> heard (rn_discovery (run_tasks ts rt))
     \<subseteq> \<Union> (announced_by (node_of rt) ` set ts) \<union> known rt \<union> heard (rn_discovery rt)"
proof (induction ts arbitrary: rt)
  case (Cons t ts)
  have "node_of (run_task t rt) = node_of rt" using run_task_services [of rt t] by (simp add: node_of_def same_services_def)
  with Cons.IH [of "run_task t rt"] run_task_known [OF Cons.prems, of t] runtime_step_keeps [OF run_task_step Cons.prems]
  show ?case by simp blast
qed simp

end
