(* ===== verification/Shyam_Interface.thy ===== *)
theory Shyam_Interface
  imports Shyam_Surface Shyam_Tasks
begin

section \<open>The command line and the window\<close>

text \<open>
  \<open>cli.py\<close>: a run of the runtime for one command or with the interactive prompt, from start to stop.
  \<open>ui/window.py\<close>: what the window shows and when it accepts input, as functions of its state; widgets and layout are
  the toolkit's.
\<close>

subsection \<open>cli.py\<close>

text \<open>
  Turns of the event loop while the program waits. The surface hears the readiness events that a turn publishes.
\<close>

definition hear_readiness :: "runtime_event list \<Rightarrow> coordinator \<Rightarrow> coordinator" where
  "hear_readiness evs sc =
     (if sc_subscribed sc
      then fold (\<lambda>e sc. case e of
             Readiness_Event (EcosystemReadinessChangedEvent _ ready _) \<Rightarrow> on_readiness_changed ready sc | _ \<Rightarrow> sc) evs sc
      else sc)"

fun take_turns :: "loop_task list \<Rightarrow> coordinator \<Rightarrow> 'k runtime \<Rightarrow> coordinator \<times> 'k runtime" where
  "take_turns [] sc rt = (sc, rt)"
| "take_turns (t # ts) sc rt =
     (let rt' = run_task t rt in take_turns ts (hear_readiness (drop (length (rn_log rt)) (rn_log rt')) sc) rt')"

text \<open>What the prompt returns; the end of the input and an interrupt end the loop. What the program prints.\<close>

datatype cli_line = Typed string | End_Of_Input

datatype shown = Prompt readiness_text | Says surface_message

text \<open>
  The interactive loop over the lines typed until the run ends. \<open>turns m\<close> are taken while the loop waits for a line, \<open>cids\<close>
  and \<open>clock\<close> give the fresh session id and the time of each request; the flag tells whether the loop has set the stop
  event. What a request raises is only logged.
\<close>

fun run_interactive_surface ::
  "'k host \<Rightarrow> (string \<Rightarrow> zarya_client) \<Rightarrow> (nat \<Rightarrow> string) \<Rightarrow> (nat \<Rightarrow> time) \<Rightarrow> (nat \<Rightarrow> loop_task list) \<Rightarrow> nat \<Rightarrow> cli_line list
     \<Rightarrow> coordinator \<Rightarrow> 'k runtime \<Rightarrow> shown list \<times> bool \<times> coordinator \<times> 'k runtime" where
  "run_interactive_surface ho at cids clock turns m [] sc rt = ([Prompt (get_status_message rt)], False, sc, rt)"
| "run_interactive_surface ho at cids clock turns m (l # ls) sc rt =
     (let prompt = Prompt (get_status_message rt); (sc1, rt1) = take_turns (turns m) sc rt in
      case l of
        End_Of_Input \<Rightarrow> ([prompt], True, sc1, rt1)
      | Typed line \<Rightarrow>
          let text = strip line;
              go_on = (\<lambda>out sc rt. case run_interactive_surface ho at cids clock turns (Suc m) ls sc rt of
                 (outs, stopped, sc2, rt2) \<Rightarrow> (prompt # out @ outs, stopped, sc2, rt2)) in
          if text = [] then go_on [] sc1 rt1
          else if lower text \<in> {''exit'', ''quit''} then ([prompt], True, sc1, rt1)
          else (case handle_request ho at (cids m) (clock m) (create_request text) sc1 rt1 of
                  (Inl e, sc2, rt2) \<Rightarrow> go_on [] sc2 rt2
                | (Inr resp, sc2, rt2) \<Rightarrow> go_on [Says (rp_message resp)] sc2 rt2))"

text \<open>
  A run: the runtime as a context manager around a command, the prompt, or waiting. An exception of \<open>stop\<close>
  replaces that of the body. The first twelve readings of the clock are those of \<open>start\<close>, the last one is \<open>stop\<close>'s.
  \<open>turns 11\<close> are taken while the last steps of \<open>start\<close> await the gateways, \<open>turns 12\<close> and later ones while the program waits.
\<close>

definition run_runtime ::
  "'k host \<Rightarrow> (string \<Rightarrow> zarya_client) \<Rightarrow> (nat \<Rightarrow> string) \<Rightarrow> (nat \<Rightarrow> time) \<Rightarrow> time \<Rightarrow> (nat \<Rightarrow> loop_task list) \<Rightarrow> bool
     \<Rightarrow> string option \<Rightarrow> cli_line list \<Rightarrow> 'k runtime \<Rightarrow> exn option \<times> shown list \<times> 'k runtime" where
  "run_runtime ho at cids clock fin turns interactive command ls rt =
     (case start ho clock rt of
        (Some e, rt1) \<Rightarrow> (Some e, [], rt1)
      | (None, rt0) \<Rightarrow>
          let rt1 = run_tasks (turns 11) rt0;
              sc = start_coordinator (rt_readiness (rn_tracker rt1)) new_coordinator;
              (raised, out, rt2) =
                (if truthy_opt command
                 then (case handle_request ho at (cids 12) (clock 12) (create_request (the command)) sc rt1 of
                         (Inl e, _, rt2) \<Rightarrow> (Some e, [], rt2)
                       | (Inr resp, _, rt2) \<Rightarrow> (None, [Says (rp_message resp)], rt2))
                 else if interactive
                 then (case run_interactive_surface ho at cids clock turns 12 ls sc rt1 of (out, _, _, rt2) \<Rightarrow> (None, out, rt2))
                 else (None, [], run_tasks (turns 12) rt1)) in
          (case stop fin rt2 of
             (Some e, rt3) \<Rightarrow> (Some e, out, rt3)
           | (None, rt3) \<Rightarrow> (raised, out, rt3)))"

subsection \<open>ui/window.py\<close>

datatype window_symbol = Dot | Circle | Check | Cross | Triangle

fun state_config :: "surface_state \<Rightarrow> window_symbol \<times> string \<times> string" where
  "state_config SURFACE_IDLE = (Dot, ''#4ade80'', ''Ready to help'')"
| "state_config SURFACE_LISTENING = (Dot, ''#60a5fa'', ''Listening...'')"
| "state_config SURFACE_UNDERSTANDING = (Circle, ''#a78bfa'', ''Thinking...'')"
| "state_config SURFACE_EXECUTING = (Circle, ''#facc15'', ''Continuing your work...'')"
| "state_config SURFACE_COMPLETED = (Check, ''#4ade80'', ''Completed'')"
| "state_config SURFACE_FAILED = (Cross, ''#f87171'', ''Unable to complete'')"
| "state_config SURFACE_DEGRADED = (Triangle, ''#fb923c'', ''Ecosystem degraded'')"

datatype window_message = Prompt_Message | Readiness_Message readiness_text | Own_Words string
  | Response_Message surface_message | Error_Message string

record window =
  wn_symbol :: "window_symbol \<times> string"
  wn_status :: string
  wn_message :: window_message
  wn_busy :: bool
  wn_enabled :: bool
  wn_entry :: string

definition window_update :: "surface_state \<Rightarrow> window_message option \<Rightarrow> window \<Rightarrow> window" where
  "window_update st msg w =
     (case state_config st of (symbol, colour, tag) \<Rightarrow>
        w\<lparr>wn_symbol := (symbol, colour), wn_status := tag,
          wn_message := (case msg of None \<Rightarrow> wn_message w | Some m \<Rightarrow> m),
          wn_busy := st \<in> {SURFACE_UNDERSTANDING, SURFACE_EXECUTING},
          wn_enabled := st \<notin> {SURFACE_UNDERSTANDING, SURFACE_EXECUTING}\<rparr>)"

definition new_window :: "surface_state \<Rightarrow> readiness_text \<Rightarrow> window" where
  "new_window st ready = window_update st (Some (Readiness_Message ready))
     \<lparr>wn_symbol = (Dot, ''#4ade80''), wn_status = ''Ready to help'', wn_message = Prompt_Message, wn_busy = False,
      wn_enabled = True, wn_entry = []\<rparr>"

definition submit_input :: "window \<Rightarrow> interaction_request option \<times> window" where
  "submit_input w =
     (if wn_busy w then (None, w)
      else let text = strip (wn_entry w) in
           if text = [] then (None, w)
           else (Some (create_request text),
                 window_update SURFACE_UNDERSTANDING (Some (Own_Words text)) (w\<lparr>wn_entry := []\<rparr>)))"

definition on_response :: "interaction_response \<Rightarrow> window \<Rightarrow> window" where
  "on_response resp = window_update (rp_state resp) (Some (Response_Message (rp_message resp)))"

definition on_error :: "exn \<Rightarrow> window \<Rightarrow> window" where
  "on_error e = window_update SURFACE_FAILED (Some (Error_Message (''Error: '' @ exn_msg e)))"

subsection \<open>The prompt\<close>

text \<open>Once the node knows who it is, no request raises.\<close>

definition knows_itself :: "'k runtime \<Rightarrow> bool" where
  "knows_itself rt \<longleftrightarrow> (\<forall>im. rn_identity rt = Some im \<longrightarrow> im_identity im \<noteq> None)"

lemma request_never_raises:
  assumes id: "knows_itself rt" and run: "handle_request ho at cid now q sc rt = (res, sc', rt')"
  shows "\<exists>resp. res = Inr resp \<and> knows_itself rt'"
proof -
  have "\<exists>x. begin_continue_work ho now rt = (Inr x, rt)"
  proof (cases "rn_identity rt")
    case None
    then show ?thesis by (simp add: begin_continue_work_def surface_request_valid split: option.split)
  next
    case (Some im)
    with id obtain i where i: "im_identity im = Some i" by (auto simp: knows_itself_def)
    then show ?thesis
      using continue_work_reaches [OF _ Some i, of _ ho now] by (cases "rn_continuity rt") (auto simp: begin_continue_work_def)
  qed
  then have "\<exists>resp. res = Inr resp \<and> knows_itself rt'" if "handle_continue_work ho at cid now sc rt = (res, sc', rt')"
    using that id by (auto simp: handle_continue_work_def Let_def knows_itself_def split: sum.splits option.splits prod.splits)
  with run id show ?thesis by (auto simp: handle_request_def split: if_splits user_intent.splits)
qed

fun goes_on :: "cli_line \<Rightarrow> bool" where
  "goes_on (Typed line) \<longleftrightarrow> lower (strip line) \<notin> {''exit'', ''quit''}"
| "goes_on End_Of_Input \<longleftrightarrow> False"

fun asks_something :: "cli_line \<Rightarrow> bool" where
  "asks_something (Typed line) \<longleftrightarrow> strip line \<noteq> []"
| "asks_something End_Of_Input \<longleftrightarrow> False"

lemma take_turns_tasks: "snd (take_turns ts sc rt) = run_tasks ts rt"
  by (induction ts arbitrary: sc rt) (simp_all add: Let_def)

lemma turns_know: "knows_itself rt \<Longrightarrow> knows_itself (run_tasks ts rt)"
  using run_tasks_services [of rt ts] by (simp add: knows_itself_def same_services_def)

definition prompts :: "shown list \<Rightarrow> nat" where
  "prompts out = length (filter (\<lambda>x. case x of Prompt _ \<Rightarrow> True | Says _ \<Rightarrow> False) out)"

definition answers_given :: "shown list \<Rightarrow> nat" where
  "answers_given out = length (filter (\<lambda>x. case x of Prompt _ \<Rightarrow> False | Says _ \<Rightarrow> True) out)"

lemma shown_simps [simp]:
  "prompts [] = 0" "answers_given [] = 0"
  "prompts (Prompt r # out) = Suc (prompts out)" "prompts (Says m # out) = prompts out"
  "answers_given (Prompt r # out) = answers_given out" "answers_given (Says m # out) = Suc (answers_given out)"
  by (simp_all add: prompts_def answers_given_def)

text \<open>
  The prompt answers each line that is not blank with exactly one text, up to the first \<open>exit\<close>, \<open>quit\<close> or end of
  the input, whatever the event loop does meanwhile; it prompts once more than there are lines it goes on after, and it has
  set the stop event exactly when there was a line to stop at.
\<close>

theorem prompt_answers_each_line:
  assumes "knows_itself rt" and "run_interactive_surface ho at cids clock turns m ls sc rt = (out, stopped, sc', rt')"
  shows "answers_given out = length (filter asks_something (takeWhile goes_on ls))
    \<and> prompts out = Suc (length (takeWhile goes_on ls)) \<and> stopped = list_ex (Not \<circ> goes_on) ls \<and> knows_itself rt'"
  using assms
proof (induction ls arbitrary: m sc rt out)
  case Nil
  then show ?case by auto
next
  case (Cons l ls)
  obtain sc1 rt1 where turn: "take_turns (turns m) sc rt = (sc1, rt1)" by (meson surj_pair)
  have know: "knows_itself rt1" using turns_know [OF Cons.prems(1)] take_turns_tasks [of "turns m" sc rt] turn by simp
  show ?case
  proof (cases l)
    case End_Of_Input
    with Cons.prems(2) know turn show ?thesis by auto
  next
    case (Typed line)
    show ?thesis
    proof (cases "strip line \<noteq> [] \<and> lower (strip line) \<in> {''exit'', ''quit''}")
      case True
      with Cons.prems(2) know turn Typed show ?thesis by (auto simp: Let_def)
    next
      case False
      then have goes: "goes_on l" by (auto simp: Typed lower_def)
      have "\<exists>ms sc2 rt2 outs. knows_itself rt2 \<and> run_interactive_surface ho at cids clock turns (Suc m) ls sc2 rt2 = (outs, stopped, sc', rt')
          \<and> out = Prompt (get_status_message rt) # ms @ outs \<and> (if asks_something l then \<exists>t. ms = [Says t] else ms = [])"
      proof (cases "strip line = []")
        case True
        obtain outs x y z where "run_interactive_surface ho at cids clock turns (Suc m) ls sc1 rt1 = (outs, x, y, z)"
          by (meson prod_cases4)
        with True Cons.prems(2) turn know show ?thesis
          by (intro exI [of _ "[]"] exI [of _ sc1] exI [of _ rt1] exI [of _ outs]) (auto simp: Typed Let_def)
      next
        case asks: False
        obtain res sc2 rt2 where h: "handle_request ho at (cids m) (clock m) (create_request (strip line)) sc1 rt1 = (res, sc2, rt2)"
          by (meson prod_cases3)
        from request_never_raises [OF know h] obtain resp where r: "res = Inr resp" "knows_itself rt2" by blast
        obtain outs x y z where "run_interactive_surface ho at cids clock turns (Suc m) ls sc2 rt2 = (outs, x, y, z)"
          by (meson prod_cases4)
        with Cons.prems(2) turn asks False h r show ?thesis
          by (intro exI [of _ "[Says (rp_message resp)]"] exI [of _ sc2] exI [of _ rt2] exI [of _ outs]) (auto simp: Typed Let_def)
      qed
      then obtain ms sc2 rt2 outs where rest: "knows_itself rt2"
        "run_interactive_surface ho at cids clock turns (Suc m) ls sc2 rt2 = (outs, stopped, sc', rt')"
        "out = Prompt (get_status_message rt) # ms @ outs" "if asks_something l then \<exists>t. ms = [Says t] else ms = []" by blast
      from Cons.IH [OF rest(1,2)] rest(3,4) goes show ?thesis by (auto split: if_splits)
    qed
  qed
qed

subsection \<open>The window over a node\<close>

text \<open>
  The window with the requests it has handed to the event loop. Input can be typed only while the entry is
  enabled; the answer to a request is what \<open>handle_request\<close> returned or raised for it.
\<close>

record window_world =
  ww_window :: window
  ww_requests :: "interaction_request list"

inductive window_step :: "'k host \<Rightarrow> window_world \<Rightarrow> window_world \<Rightarrow> bool" for ho where
  types: "wn_enabled (ww_window w) \<Longrightarrow> window_step ho w (w\<lparr>ww_window := (ww_window w)\<lparr>wn_entry := text\<rparr>\<rparr>)"
| submits: "submit_input (ww_window w) = (Some q, x) \<Longrightarrow> window_step ho w (w\<lparr>ww_window := x, ww_requests := ww_requests w @ [q]\<rparr>)"
| ignores: "submit_input (ww_window w) = (None, x) \<Longrightarrow> window_step ho w (w\<lparr>ww_window := x\<rparr>)"
| responds: "ww_requests w = qs @ q # rs \<Longrightarrow> handle_request ho at cid now q sc rt = (Inr resp, sc', rt') \<Longrightarrow>
     window_step ho w (w\<lparr>ww_window := on_response resp (ww_window w), ww_requests := qs @ rs\<rparr>)"
| raises: "ww_requests w = qs @ q # rs \<Longrightarrow> handle_request ho at cid now q sc rt = (Inl e, sc', rt') \<Longrightarrow>
     window_step ho w (w\<lparr>ww_window := on_error e (ww_window w), ww_requests := qs @ rs\<rparr>)"

inductive window_reachable :: "'k host \<Rightarrow> window_world \<Rightarrow> bool" for ho where
  opens: "window_reachable ho \<lparr>ww_window = new_window (sc_state (start_coordinator r new_coordinator)) (readiness_message r),
     ww_requests = []\<rparr>"
| steps: "window_reachable ho w \<Longrightarrow> window_step ho w w' \<Longrightarrow> window_reachable ho w'"

lemma window_update_flags [simp]:
  "wn_busy (window_update st msg w) = (st \<in> {SURFACE_UNDERSTANDING, SURFACE_EXECUTING})"
  "wn_enabled (window_update st msg w) = (st \<notin> {SURFACE_UNDERSTANDING, SURFACE_EXECUTING})"
  "wn_entry (window_update st msg w) = wn_entry w"
  by (simp_all add: window_update_def split: prod.split)

text \<open>A response never asks the user to wait.\<close>

lemma response_settled:
  assumes "handle_request ho at cid now q sc rt = (Inr resp, sc', rt')"
  shows "rp_state resp \<notin> {SURFACE_UNDERSTANDING, SURFACE_EXECUTING}"
proof -
  have work: "rp_state resp \<in> {SURFACE_COMPLETED, SURFACE_FAILED}"
    if "handle_continue_work ho at cid now sc rt = (Inr resp, sc', rt')"
    using that response_state
    by (auto simp: handle_continue_work_def begin_continue_work_def failure_response_def Let_def
        split: option.splits prod.splits sum.splits)
  show ?thesis
    using assms work by (auto simp: handle_request_def degraded_response_def unknown_intent_response_def
        split: if_splits user_intent.splits)
qed

definition window_inv :: "window_world \<Rightarrow> bool" where
  "window_inv w \<longleftrightarrow> wn_busy (ww_window w) = (\<not> wn_enabled (ww_window w))
     \<and> length (ww_requests w) = (if wn_busy (ww_window w) then 1 else 0)"

lemma window_step_keeps: "window_step ho w w' \<Longrightarrow> window_inv w \<Longrightarrow> window_inv w'"
proof (induction rule: window_step.induct)
  case (types w entry)
  then show ?case by (simp add: window_inv_def)
next
  case (submits w q x)
  then show ?case by (auto simp: window_inv_def submit_input_def Let_def split: if_splits)
next
  case (ignores w x)
  then show ?case by (auto simp: window_inv_def submit_input_def Let_def split: if_splits)
next
  case (responds w qs q rs at cid now sc rt resp sc' rt')
  then show ?case using response_settled [OF responds(2)] by (auto simp: window_inv_def on_response_def split: if_splits)
next
  case (raises w qs q rs at cid now sc rt e sc' rt')
  then show ?case by (auto simp: window_inv_def on_error_def split: if_splits)
qed

text \<open>
  The window hands over at most one request at a time: in every state it can reach it is busy, and its entry
  disabled, exactly while one request of its own is without an answer, so it is never busy forever for a request that was
  answered.
\<close>

theorem window_one_request:
  assumes "window_reachable ho w"
  shows "(wn_busy (ww_window w) \<longleftrightarrow> \<not> wn_enabled (ww_window w))
    \<and> (if wn_busy (ww_window w) then \<exists>q. ww_requests w = [q] else ww_requests w = [])"
proof -
  have "window_inv w"
    using assms
  proof (induction rule: window_reachable.induct)
    case (opens r)
    then show ?case by (simp add: window_inv_def new_window_def start_coordinator_def)
  qed (rule window_step_keeps)
  then show ?thesis by (auto simp: window_inv_def length_Suc_conv split: if_splits)
qed

subsection \<open>A single command\<close>

lemma stop_keeps_sessions:
  "stop now rt = (res, rt') \<Longrightarrow> rn_continuity rt' = rn_continuity rt \<and> rn_identity rt' = rn_identity rt"
  by (auto simp: stop_def stop_services_def Let_def dest!: set_status_frame split: if_splits option.splits prod.splits)

lemma not_working_new: "\<not> working new_continuity_service"
  by (simp add: working_def get_session_def new_continuity_service_def)

text \<open>A candidate is on a known node.\<close>

lemma candidate_node_known:
  assumes "node_inv rt" and "c \<in> set (discover_candidates (create_snapshot (rn_registry rt) now []) cap)"
  shows "nc_node_id c \<in> known rt"
proof -
  from assms(2) obtain n p dc where n: "n \<in> set (dvals (er_nodes (rn_registry rt)))" and c: "c = mk_candidate n p dc"
    unfolding discover_candidates_mem by (auto simp: create_snapshot_def simp del: set_map)
  have "nc_node_id c = dn_node_id n" by (simp add: c mk_candidate_def)
  note n = n this
  have ok: "er_ok (rn_registry rt)" using assms(1) by (simp add: node_inv_def nodes_ok_def)
  then have dict: "dict_ok (er_nodes (rn_registry rt))" by (simp add: er_ok_def keyed_def)
  from n(1) obtain k where "er_get_node (rn_registry rt) k = Some n"
    unfolding dvals_mem [OF dict] er_get_node_def by blast
  with er_get_id [OF ok this] n show ?thesis by (auto simp: known_def)
qed

text \<open>The first request of a node: nothing has been continued yet.\<close>

lemma first_request:
  assumes identity: "rn_identity rt = Some im" "im_identity im = Some i"
    and service: "rn_continuity rt = Some new_continuity_service" and I: "node_inv rt" and cid: "cid \<noteq> []"
    and said: "handle_request ho at cid now q sc rt = (res, sc', rt')"
  shows "\<exists>resp. res = Inr resp \<and> rn_state rt' = rn_state rt \<and> rn_identity rt' = rn_identity rt
    \<and> (rp_message resp = Msg_Done \<longrightarrow> (\<exists>v s t. rn_continuity rt' = Some v \<and> get_session v cid = Some s
        \<and> cn_state s = C_COMPLETED \<and> cn_target s = Some t \<and> tg_node_id t \<in> known rt))"
proof -
  let ?env = "continuity_env_of ho at now rt"
  have fresh: "get_session new_continuity_service cid = None" by (simp add: get_session_def new_continuity_service_def)
  obtain r v' where work: "handle_continue_work ho at cid now sc rt
      = (Inr (continuity_response r), sc\<lparr>sc_state := rp_state (continuity_response r)\<rparr>, rt\<lparr>rn_continuity := Some v'\<rparr>)"
    and spec: "answered ?env cid (ni_node_id i) new_continuity_service r v'"
    using continue_work_answer [OF service continuity_reachable.initial cid fresh identity] by blast
  obtain s where s: "r = Inr s" "get_session v' cid = Some s"
    "run_pipeline ?env (new_session cid now (surface_q (ni_node_id i))) = Inr s"
    "session_outcome s = Some (outcome_of (cn_state s))"
    using spec not_working_new by (auto simp: answered_def continuity_env_of_def)
  have target: "\<exists>t. cn_target s = Some t \<and> tg_node_id t \<in> known rt" if "cn_state s = C_COMPLETED"
  proof -
    from pipeline_result [of ?env cid now "surface_q (ni_node_id i)"] s(3) that obtain t cand where
      "cn_target s = Some (t\<lparr>tg_trust_verified := True\<rparr>)" "tg_node_id t = nc_node_id cand"
      "cand \<in> set (discover_candidates (cv_snapshot ?env) ''zarya.work.continue'')" by auto
    with candidate_node_known [OF I] show ?thesis by (auto simp: continuity_env_of_def)
  qed
  have "rp_message (continuity_response r) = Msg_Done \<longrightarrow> cn_state s = C_COMPLETED"
    using s(1,4) by (auto simp: continuity_response_def failure_response_def dest: succeeds_iff [THEN iffD1])
  with target s(2) said work show ?thesis
    by (auto simp: handle_request_def degraded_response_def unknown_intent_response_def
        split: if_splits user_intent.splits)
qed

text \<open>
  C9. A run of the program for one command, on a new runtime, where announcements may be taken in while the start awaits
  the gateways. Either starting raises, nothing is printed, and that is what
  the run raises; or exactly one text is printed, nothing is raised and the runtime ends STOPPED with all services off. The
  command does not wait for other nodes: when \<open>Done\<close> is printed, the target of the completed session is the node itself or
  one whose announcement reached it during its start.
\<close>

theorem command_run_outcome:
  fixes rt :: "'k runtime"
  assumes cid: "cids 12 \<noteq> []" and command: "command \<noteq> []"
    and run: "run_runtime ho at cids clock fin turns interactive (Some command) ls (new_runtime st rid now di dt) = (res, out, rt)"
  shows "if fst (start ho clock (new_runtime st rid now di dt :: 'k runtime)) \<noteq> None
    then out = [] \<and> start ho clock (new_runtime st rid now di dt) = (res, rt)
    else res = None \<and> status rt = STOPPED \<and> services_off rt
      \<and> (\<exists>m. out = [Says m] \<and> (m = Msg_Done \<longrightarrow>
          (\<exists>im i v s t. rn_identity rt = Some im \<and> im_identity im = Some i \<and> rn_continuity rt = Some v
             \<and> get_session v (cids 12) = Some s \<and> cn_state s = C_COMPLETED \<and> cn_target s = Some t
             \<and> (tg_node_id t = ni_node_id i \<or> (\<exists>ip dg. Receives ip dg \<in> set (turns 11) \<and> announces_node (Some i) dg (tg_node_id t))))))"
proof -
  obtain e rt0 where s: "start ho clock (new_runtime st rid now di dt) = (e, rt0)" by (meson surj_pair)
  show ?thesis
  proof (cases e)
    case (Some x)
    with run s have "res = Some x" "out = []" "rt0 = rt" by (auto simp: run_runtime_def)
    with s Some show ?thesis by simp
  next
    case None
    let ?rt1 = "run_tasks (turns 11) rt0"
    from start_leaves [OF s [unfolded None]] obtain i im k c where id0: "rn_identity rt0 = Some im" "im_identity im = Some i"
      and live: "is_running rt0" and up: "services_up i k c rt0" by blast
    have same: "rn_identity ?rt1 = Some im" "rn_continuity ?rt1 = Some new_continuity_service" "status ?rt1 = RUNNING"
      using run_tasks_services [of rt0 "turns 11"] id0 live up by (simp_all add: same_services_def services_up_def is_running_def)
    have I: "node_inv rt0" by (rule start_keeps [OF new_runtime_inv s])
    have "known rt0 = {ni_node_id i}" "heard (rn_discovery rt0) = {}" "node_of rt0 = Some i"
      using up id0 by (auto simp: services_up_def known_def er_get_node_def heard_def hears_nobody_def node_of_def split: option.splits if_splits)
    with run_tasks_known [OF I, of "turns 11"]
    have knows: "tg = ni_node_id i \<or> (\<exists>ip dg. Receives ip dg \<in> set (turns 11) \<and> announces_node (Some i) dg tg)"
      if "tg \<in> known ?rt1" for tg
      using that by (auto simp: announced_by_def split: loop_task.splits)
    let ?sc = "start_coordinator (rt_readiness (rn_tracker ?rt1)) new_coordinator"
    obtain x sc' rt2 where h: "handle_request ho at (cids 12) (clock 12) (create_request command) ?sc ?rt1 = (x, sc', rt2)"
      by (meson prod_cases3)
    from first_request [OF same(1) id0(2) same(2) run_tasks_keep [OF I] cid h] obtain resp where x: "x = Inr resp"
      and state: "rn_state rt2 = rn_state ?rt1" "rn_identity rt2 = rn_identity ?rt1"
      and done_on: "rp_message resp = Msg_Done \<longrightarrow> (\<exists>v s t. rn_continuity rt2 = Some v \<and> get_session v (cids 12) = Some s
        \<and> cn_state s = C_COMPLETED \<and> cn_target s = Some t \<and> tg_node_id t \<in> known ?rt1)" by blast
    have "status rt2 = RUNNING" using same(3) state(1) by simp
    with stop_runs [of rt2 fin] obtain rt3 where st: "stop fin rt2 = (None, rt3)" "status rt3 = STOPPED" "services_off rt3"
      by auto
    have ends: "res = None" "out = [Says (rp_message resp)]" "rt = rt3"
      using run s None h x st(1) command by (simp_all add: run_runtime_def truthy_opt_def Let_def)
    have kept: "rn_identity rt = Some im" "rn_continuity rt = rn_continuity rt2"
      using stop_keeps_sessions [OF st(1)] state(2) same(1) ends(3) by simp_all
    have "rp_message resp = Msg_Done \<longrightarrow> (\<exists>im i v s t. rn_identity rt = Some im \<and> im_identity im = Some i
        \<and> rn_continuity rt = Some v \<and> get_session v (cids 12) = Some s \<and> cn_state s = C_COMPLETED \<and> cn_target s = Some t
        \<and> (tg_node_id t = ni_node_id i \<or> (\<exists>ip dg. Receives ip dg \<in> set (turns 11) \<and> announces_node (Some i) dg (tg_node_id t))))"
      unfolding kept using done_on id0(2) knows by blast
    with ends st(2,3) s None show ?thesis by simp
  qed
qed

theorem command_run_outcome_witness:
  "\<exists>m rt. run_runtime quiet_host remote_client (\<lambda>_. ''c'') int 20 (\<lambda>_. []) False (Some ''move it'') [] quiet_runtime = (None, [Says m], rt)
     \<and> status rt = STOPPED \<and> services_off rt"
proof -
  obtain res out rt where run: "run_runtime quiet_host remote_client (\<lambda>_. ''c'') int 20 (\<lambda>_. []) False (Some ''move it'') [] quiet_runtime
      = (res, out, rt)" by (meson prod_cases3)
  from command_run_outcome [OF _ _ run [unfolded quiet_runtime_def]] quiet_start [unfolded quiet_runtime_def] run
  show ?thesis by auto
qed

text \<open>A submission, and a second one that is ignored.\<close>

theorem window_one_request_witness:
  "\<exists>w. window_reachable quiet_host w \<and> wn_busy (ww_window w) \<and> fst (submit_input (ww_window w)) = None
     \<and> (\<exists>q. ww_requests w = [q])"
proof -
  let ?x = "new_window (sc_state (start_coordinator ECO_READY new_coordinator)) (readiness_message ECO_READY)"
  let ?w = "\<lparr>ww_window = ?x, ww_requests = []\<rparr>"
  let ?w1 = "?w\<lparr>ww_window := (ww_window ?w)\<lparr>wn_entry := ''move it''\<rparr>\<rparr>"
  have "window_step quiet_host ?w ?w1"
    by (rule types) (simp add: new_window_def start_coordinator_def)
  then have r1: "window_reachable quiet_host ?w1" by (rule window_reachable.steps [OF window_reachable.opens])
  have "strip ''move it'' = ''move it''" by code_simp
  then obtain q x where sub: "submit_input (ww_window ?w1) = (Some q, x)" and busy: "wn_busy x"
    by (simp add: submit_input_def new_window_def start_coordinator_def Let_def)
  let ?w2 = "?w1\<lparr>ww_window := x, ww_requests := ww_requests ?w1 @ [q]\<rparr>"
  have r2: "window_reachable quiet_host ?w2" by (rule window_reachable.steps [OF r1 submits [OF sub]])
  from window_one_request [OF r2] busy have "\<exists>q. ww_requests ?w2 = [q]" by simp
  with r2 busy show ?thesis by (intro exI [of _ ?w2]) (simp add: submit_input_def)
qed

end
