(* ===== verification/Shyam_App.thy ===== *)
theory Shyam_App
  imports Shyam_Interface
begin

section \<open>The window application\<close>

text \<open>
  \<open>ui/app.py\<close>: the main thread starts a thread that runs a runtime and its coordinator, waits until that is ready or
  ten seconds have passed, shows the window, and asks the thread to stop when the window is closed. \<open>core/logging.py\<close>: the
  level and the handlers of the logger.
\<close>

subsection \<open>core/logging.py\<close>

record log_setup =
  lg_level :: int
  lg_handlers :: nat

text \<open>The levels that the settings admit; \<open>getattr\<close> falls back to that of \<open>INFO\<close>.\<close>

definition level_of :: "string \<Rightarrow> int" where
  "level_of name = dget_or [(''DEBUG'', 10), (''INFO'', 20), (''WARNING'', 30), (''ERROR'', 40), (''CRITICAL'', 50)] name 20"

definition setup_logging :: "settings \<Rightarrow> log_setup \<Rightarrow> log_setup" where
  "setup_logging st lg = lg\<lparr>lg_level := level_of (upper (st_log_level st)),
     lg_handlers := (if lg_handlers lg = 0 then 1 else lg_handlers lg)\<rparr>"

text \<open>However many runtimes set it up, the logger has one handler and the level of the last of them.\<close>

lemma setup_logging_one_handler:
  "lg_handlers lg \<le> 1 \<Longrightarrow> fold setup_logging (sts @ [st]) lg = \<lparr>lg_level = level_of (upper (st_log_level st)), lg_handlers = 1\<rparr>"
proof (induction sts arbitrary: lg)
  case Nil
  then show ?case by (cases lg) (auto simp: setup_logging_def)
next
  case (Cons s sts)
  show ?case using Cons.IH [of "setup_logging s lg"] Cons.prems by (simp add: setup_logging_def)
qed

subsection \<open>ui/app.py\<close>

text \<open>
  The background thread, and where the main thread is: waiting for the ready event, in the main loop of the window, in \<open>stop\<close>,
  raising \<open>TimeoutError\<close> or \<open>RuntimeError\<close>, or back, and then whether the background thread had ended before the join gave up.
\<close>

datatype ui_thread = No_Thread | Begins | Serves | Over

datatype ui_main = Idle | Waits | Shows | Leaves | Timed_Out | Refused | Returned bool

record 'k ui_app =
  ua_runtime :: "'k runtime option"
  ua_coordinator :: "coordinator option"
  ua_thread :: ui_thread
  ua_main :: ui_main
  ua_stop :: bool
  ua_ready :: bool
  ua_window :: "window_world option"

definition new_ui_app :: "'k ui_app" where
  "new_ui_app = \<lparr>ua_runtime = None, ua_coordinator = None, ua_thread = No_Thread, ua_main = Idle, ua_stop = False,
     ua_ready = False, ua_window = None\<rparr>"

text \<open>\<open>stop\<close> up to the join.\<close>

definition ui_stop :: "'k ui_app \<Rightarrow> 'k ui_app" where
  "ui_stop x = x\<lparr>ua_stop := True, ua_main := Leaves\<rparr>"

text \<open>The end of the background thread: the ready event is set in every case.\<close>

definition thread_ends :: "'k runtime option \<Rightarrow> 'k ui_app \<Rightarrow> 'k ui_app" where
  "thread_ends rt x = x\<lparr>ua_runtime := rt, ua_thread := Over, ua_ready := True\<rparr>"

text \<open>
  Steps of the two threads, in any order. \<open>sr\<close> is what reading the settings returns or raises. In the background thread
  the runtime is made (or not), starts (or not), the event loop takes its turns and answers the window's requests, whose response
  is shown while the window is there, and sees the stop event. In the main thread the thread is started, the wait ends with the ready
  event, a time-out or an interrupt, the window is used, closed or interrupted, and the join ends.
\<close>

inductive app_step ::
  "'k host \<Rightarrow> (string \<Rightarrow> zarya_client) \<Rightarrow> (nat \<Rightarrow> time) \<Rightarrow> settings result \<Rightarrow> 'k ui_app \<Rightarrow> 'k ui_app \<Rightarrow> bool"
  for ho at clock sr where
  launches: "ua_main x = Idle \<Longrightarrow> app_step ho at clock sr x (x\<lparr>ua_main := Waits, ua_thread := Begins\<rparr>)"
| unmade: "ua_thread x = Begins \<Longrightarrow> ua_runtime x = None \<Longrightarrow> sr = Inl e \<Longrightarrow> app_step ho at clock sr x (thread_ends None x)"
| creates: "ua_thread x = Begins \<Longrightarrow> ua_runtime x = None \<Longrightarrow> sr = Inr st \<Longrightarrow>
     app_step ho at clock sr x (x\<lparr>ua_runtime := Some (new_runtime st rid now di dt)\<rparr>)"
| fails: "ua_thread x = Begins \<Longrightarrow> ua_runtime x = Some rt \<Longrightarrow> start ho clock rt = (Some e, rt') \<Longrightarrow>
     app_step ho at clock sr x (thread_ends (Some rt') x)"
| serves: "ua_thread x = Begins \<Longrightarrow> ua_runtime x = Some rt \<Longrightarrow> start ho clock rt = (None, rt') \<Longrightarrow>
     app_step ho at clock sr x (x\<lparr>ua_runtime := Some rt',
       ua_coordinator := Some (start_coordinator (rt_readiness (rn_tracker rt')) new_coordinator), ua_thread := Serves, ua_ready := True\<rparr>)"
| turn: "ua_thread x = Serves \<Longrightarrow> ua_runtime x = Some rt \<Longrightarrow> ua_coordinator x = Some sc \<Longrightarrow> take_turns [t] sc rt = (sc', rt') \<Longrightarrow>
     app_step ho at clock sr x (x\<lparr>ua_runtime := Some rt', ua_coordinator := Some sc'\<rparr>)"
| answers: "ua_thread x = Serves \<Longrightarrow> ua_runtime x = Some rt \<Longrightarrow> ua_coordinator x = Some sc \<Longrightarrow> ua_window x = Some w \<Longrightarrow>
     ww_requests w = qs @ q # rs \<Longrightarrow> handle_request ho at cid now q sc rt = (res, sc', rt') \<Longrightarrow>
     app_step ho at clock sr x (x\<lparr>ua_runtime := Some rt', ua_coordinator := Some sc', ua_window := Some (w\<lparr>
       ww_window := (if ua_main x \<noteq> Shows then ww_window w
         else (case res of Inr resp \<Rightarrow> on_response resp (ww_window w) | Inl e \<Rightarrow> on_error e (ww_window w))), ww_requests := qs @ rs\<rparr>)\<rparr>)"
| stops: "ua_thread x = Serves \<Longrightarrow> ua_stop x \<Longrightarrow> ua_runtime x = Some rt \<Longrightarrow> stop fin rt = (res, rt') \<Longrightarrow>
     app_step ho at clock sr x (thread_ends (Some rt') x)"
| times_out: "ua_main x = Waits \<Longrightarrow> \<not> ua_ready x \<Longrightarrow> app_step ho at clock sr x (x\<lparr>ua_main := Timed_Out\<rparr>)"
| refuses: "ua_main x = Waits \<Longrightarrow> ua_ready x \<Longrightarrow> ua_coordinator x = None \<or> ua_runtime x = None \<Longrightarrow>
     app_step ho at clock sr x (x\<lparr>ua_main := Refused\<rparr>)"
| shows_window: "ua_main x = Waits \<Longrightarrow> ua_ready x \<Longrightarrow> ua_coordinator x = Some sc \<Longrightarrow> ua_runtime x = Some rt \<Longrightarrow>
     app_step ho at clock sr x (x\<lparr>ua_main := Shows,
       ua_window := Some \<lparr>ww_window = new_window (sc_state sc) (get_status_message rt), ww_requests = []\<rparr>\<rparr>)"
| types: "ua_main x = Shows \<Longrightarrow> ua_window x = Some w \<Longrightarrow> wn_enabled (ww_window w) \<Longrightarrow>
     app_step ho at clock sr x (x\<lparr>ua_window := Some (w\<lparr>ww_window := (ww_window w)\<lparr>wn_entry := entry\<rparr>\<rparr>)\<rparr>)"
| submits: "ua_main x = Shows \<Longrightarrow> ua_window x = Some w \<Longrightarrow> submit_input (ww_window w) = (q, v) \<Longrightarrow>
     app_step ho at clock sr x
       (x\<lparr>ua_window := Some (w\<lparr>ww_window := v, ww_requests := ww_requests w @ (case q of None \<Rightarrow> [] | Some r \<Rightarrow> [r])\<rparr>)\<rparr>)"
| leaves: "ua_main x \<in> {Waits, Shows} \<Longrightarrow> app_step ho at clock sr x (ui_stop x)"
| joins: "ua_main x = Leaves \<Longrightarrow> app_step ho at clock sr x (x\<lparr>ua_main := Returned (ua_thread x = Over)\<rparr>)"

inductive app_reachable ::
  "'k host \<Rightarrow> (string \<Rightarrow> zarya_client) \<Rightarrow> (nat \<Rightarrow> time) \<Rightarrow> settings result \<Rightarrow> 'k ui_app \<Rightarrow> bool" for ho at clock sr where
  initial: "app_reachable ho at clock sr new_ui_app"
| steps: "app_reachable ho at clock sr x \<Longrightarrow> app_step ho at clock sr x y \<Longrightarrow> app_reachable ho at clock sr y"

subsection \<open>What the threads can come to\<close>

lemma handle_request_state: "handle_request ho at cid now q sc rt = (res, sc', rt') \<Longrightarrow> rn_state rt' = rn_state rt"
  by (auto simp: handle_request_def handle_continue_work_def begin_continue_work_def Let_def
      split: if_splits user_intent.splits sum.splits option.splits prod.splits)

text \<open>Readiness events alone never show that a request is being handled.\<close>

definition resting :: "surface_state \<Rightarrow> bool" where
  "resting st \<longleftrightarrow> st = SURFACE_IDLE \<or> st = SURFACE_DEGRADED"

lemma resting_start: "resting (sc_state (start_coordinator r sc))"
  by (simp add: resting_def start_coordinator_def)

lemma resting_readiness: "resting (sc_state sc) \<Longrightarrow> resting (sc_state (on_readiness_changed r sc))"
  by (auto simp: resting_def on_readiness_changed_def)

lemma resting_hears: "resting (sc_state sc) \<Longrightarrow> resting (sc_state (hear_readiness evs sc))"
proof -
  have "resting (sc_state (fold (\<lambda>e sc. case e of
      Readiness_Event (EcosystemReadinessChangedEvent _ ready _) \<Rightarrow> on_readiness_changed ready sc | _ \<Rightarrow> sc) evs sc))"
    if "resting (sc_state sc)" for sc
    using that by (induction evs arbitrary: sc) (auto simp: resting_readiness split: runtime_event.split readiness_event.split)
  then show "resting (sc_state sc) \<Longrightarrow> ?thesis" by (simp add: hear_readiness_def)
qed

lemma resting_turn: "take_turns [t] sc rt = (sc', rt') \<Longrightarrow> resting (sc_state sc) \<Longrightarrow> resting (sc_state sc')"
  by (auto simp: Let_def resting_hears)

lemma start_running: "start ho clock (new_runtime st rid now di dt) = (None, rt) \<Longrightarrow> status rt = RUNNING"
  using start_leaves [of ho clock st rid now di dt rt] by (auto simp: is_running_def)

lemma turn_running: "take_turns [t] sc rt = (sc', rt') \<Longrightarrow> rn_state rt' = rn_state rt"
  using run_task_services [of rt t] by (auto simp: same_services_def Let_def)

lemma new_window_inv: "resting st \<Longrightarrow> window_inv \<lparr>ww_window = new_window st r, ww_requests = []\<rparr>"
  by (auto simp: window_inv_def new_window_def resting_def)

text \<open>The settings cannot be read, or the start raises: there is no coordinator.\<close>

definition start_failed :: "'k host \<Rightarrow> (nat \<Rightarrow> time) \<Rightarrow> settings result \<Rightarrow> 'k ui_app \<Rightarrow> bool" where
  "start_failed ho clock sr x \<longleftrightarrow> ua_coordinator x = None \<and> ((\<exists>e. sr = Inl e \<and> ua_runtime x = None)
     \<or> (\<exists>st rid now di dt e rt. sr = Inr st \<and> start ho clock (new_runtime st rid now di dt) = (Some e, rt) \<and> ua_runtime x = Some rt))"

definition stopped_app :: "'k ui_app \<Rightarrow> bool" where
  "stopped_app x \<longleftrightarrow> (\<exists>rt. ua_runtime x = Some rt \<and> status rt = STOPPED \<and> services_off rt)"

definition asked_to_stop :: "ui_main \<Rightarrow> bool" where
  "asked_to_stop m \<longleftrightarrow> (case m of Leaves \<Rightarrow> True | Returned _ \<Rightarrow> True | _ \<Rightarrow> False)"

definition thread_inv :: "'k host \<Rightarrow> (nat \<Rightarrow> time) \<Rightarrow> settings result \<Rightarrow> 'k ui_app \<Rightarrow> bool" where
  "thread_inv ho clock sr x \<longleftrightarrow> (case ua_thread x of
      No_Thread \<Rightarrow> ua_runtime x = None \<and> ua_coordinator x = None \<and> \<not> ua_ready x \<and> ua_main x = Idle
    | Begins \<Rightarrow> ua_coordinator x = None \<and> \<not> ua_ready x
        \<and> (\<forall>rt. ua_runtime x = Some rt \<longrightarrow> (\<exists>st rid now di dt. sr = Inr st \<and> rt = new_runtime st rid now di dt))
    | Serves \<Rightarrow> ua_coordinator x \<noteq> None \<and> ua_ready x \<and> (\<exists>rt. ua_runtime x = Some rt \<and> status rt = RUNNING)
    | Over \<Rightarrow> ua_ready x \<and> (start_failed ho clock sr x \<or> ua_stop x \<and> ua_coordinator x \<noteq> None \<and> stopped_app x))"

definition main_inv :: "'k ui_app \<Rightarrow> bool" where
  "main_inv x \<longleftrightarrow> ua_stop x = asked_to_stop (ua_main x) \<and> (ua_main x = Idle \<longrightarrow> ua_thread x = No_Thread)
     \<and> (ua_main x = Refused \<longrightarrow> ua_thread x = Over) \<and> (ua_main x = Returned True \<longrightarrow> ua_thread x = Over)
     \<and> (ua_main x = Idle \<or> ua_main x = Waits \<longrightarrow> ua_window x = None)
     \<and> (\<forall>sc. ua_coordinator x = Some sc \<longrightarrow> ua_window x = None \<longrightarrow> resting (sc_state sc))
     \<and> (ua_main x = Shows \<longrightarrow> ua_ready x \<and> ua_coordinator x \<noteq> None \<and> (\<exists>w. ua_window x = Some w \<and> window_inv w))"

lemma answered_window:
  assumes "window_inv w" "ww_requests w = qs @ q # rs" "handle_request ho at cid now q sc rt = (res, sc', rt')"
  shows "window_inv (w\<lparr>ww_window := (case res of Inr resp \<Rightarrow> on_response resp (ww_window w) | Inl e \<Rightarrow> on_error e (ww_window w)),
    ww_requests := qs @ rs\<rparr>)"
proof (cases res)
  case (Inl e)
  then show ?thesis using window_step_keeps [OF window_step.raises [OF assms(2)] assms(1)] assms(3) by simp
next
  case (Inr r)
  then show ?thesis using window_step_keeps [OF window_step.responds [OF assms(2)] assms(1)] assms(3) by simp
qed

lemma submitted_window:
  assumes "window_inv w" "submit_input (ww_window w) = (q, v)"
  shows "window_inv (w\<lparr>ww_window := v, ww_requests := ww_requests w @ (case q of None \<Rightarrow> [] | Some r \<Rightarrow> [r])\<rparr>)"
  using assms by (auto simp: window_inv_def submit_input_def Let_def split: if_splits)

lemma app_step_keeps:
  assumes "app_step ho at clock sr x y" and "thread_inv ho clock sr x" "main_inv x"
  shows "thread_inv ho clock sr y \<and> main_inv y"
  using assms
proof (induction rule: app_step.induct)
  case (launches x)
  then show ?case by (auto simp: thread_inv_def main_inv_def asked_to_stop_def)
next
  case (unmade x e)
  then show ?case
    by (auto simp: thread_inv_def main_inv_def asked_to_stop_def thread_ends_def start_failed_def split: ui_main.splits)
next
  case (creates x st rid now di dt)
  then show ?case by (auto simp: thread_inv_def main_inv_def)
next
  case (fails x rt e rt')
  then obtain st rid now di dt where "sr = Inr st" "rt = new_runtime st rid now di dt" by (auto simp: thread_inv_def)
  with fails have "start_failed ho clock sr (thread_ends (Some rt') x)"
    unfolding start_failed_def thread_ends_def
    by (intro conjI disjI2 exI [of _ st] exI [of _ rid] exI [of _ now] exI [of _ di] exI [of _ dt] exI [of _ e] exI [of _ rt'])
      (auto simp: thread_inv_def)
  with fails show ?case by (auto simp: thread_inv_def main_inv_def thread_ends_def)
next
  case (serves x rt rt')
  then have "status rt' = RUNNING" by (auto simp: thread_inv_def dest!: start_running)
  with serves show ?case by (auto simp: thread_inv_def main_inv_def resting_start)
next
  case (turn x rt sc t sc' rt')
  then show ?case using turn_running [OF turn(4)] resting_turn [OF turn(4)] by (auto simp: thread_inv_def main_inv_def)
next
  case (answers x rt sc w qs q rs cid now res sc' rt')
  have "thread_inv ho clock sr x" "main_inv x" by fact+
  then show ?case
    using answers(1-5) handle_request_state [OF answers(6)] answered_window [OF _ answers(5,6)]
    by (auto simp: thread_inv_def main_inv_def)
next
  case (stops x rt fin res rt')
  then obtain rt2 where "stop fin rt = (None, rt2)" "status rt2 = STOPPED" "services_off rt2"
    using stop_runs [of rt fin] by (auto simp: thread_inv_def)
  with stops have "stopped_app (thread_ends (Some rt') x)" by (simp add: stopped_app_def thread_ends_def)
  with stops show ?case by (auto simp: thread_inv_def main_inv_def thread_ends_def)
next
  case (times_out x)
  then show ?case
    by (auto simp: thread_inv_def main_inv_def asked_to_stop_def start_failed_def stopped_app_def split: ui_thread.splits)
next
  case (refuses x)
  then show ?case
    by (auto simp: thread_inv_def main_inv_def asked_to_stop_def start_failed_def stopped_app_def split: ui_thread.splits)
next
  case (shows_window x sc rt)
  then have "window_inv \<lparr>ww_window = new_window (sc_state sc) (get_status_message rt), ww_requests = []\<rparr>"
    by (intro new_window_inv) (auto simp: main_inv_def)
  with shows_window show ?case
    by (auto simp: thread_inv_def main_inv_def asked_to_stop_def start_failed_def stopped_app_def split: ui_thread.splits)
next
  case (types x w entry)
  then obtain "window_inv w" by (auto simp: main_inv_def)
  from window_step_keeps [OF window_step.types [OF types(3)] this] types show ?case
    by (auto simp: thread_inv_def main_inv_def start_failed_def stopped_app_def split: ui_thread.splits)
next
  case (submits x w q v)
  then show ?case using submitted_window
    by (auto simp: thread_inv_def main_inv_def start_failed_def stopped_app_def split: ui_thread.splits)
next
  case (leaves x)
  then show ?case
    by (auto simp: thread_inv_def main_inv_def asked_to_stop_def ui_stop_def start_failed_def stopped_app_def split: ui_thread.splits)
next
  case (joins x)
  then show ?case
    by (auto simp: thread_inv_def main_inv_def asked_to_stop_def start_failed_def stopped_app_def split: ui_thread.splits)
qed

lemma app_invariant:
  assumes "app_reachable ho at clock sr x"
  shows "thread_inv ho clock sr x \<and> main_inv x"
  using assms
proof (induction rule: app_reachable.induct)
  case initial
  then show ?case by (simp add: thread_inv_def main_inv_def new_ui_app_def asked_to_stop_def)
qed (auto dest: app_step_keeps)

text \<open>The window can always be closed: the background thread then stops the runtime, and the join succeeds.\<close>

lemma window_closes:
  assumes reach: "app_reachable ho at clock sr x" and shown: "ua_main x = Shows"
  shows "\<exists>y. app_reachable ho at clock sr y \<and> ua_main y = Returned True \<and> stopped_app y"
proof -
  from app_invariant [OF reach] shown obtain rt where serving: "ua_thread x = Serves" "ua_runtime x = Some rt" "status rt = RUNNING"
    by (auto simp: thread_inv_def main_inv_def asked_to_stop_def start_failed_def split: ui_thread.splits)
  then obtain rt2 where st: "stop 0 rt = (None, rt2)" "status rt2 = STOPPED" "services_off rt2"
    using stop_runs [of rt 0] by auto
  let ?x1 = "ui_stop x" and ?x2 = "thread_ends (Some rt2) (ui_stop x)"
  have "app_reachable ho at clock sr ?x1" by (rule app_reachable.steps [OF reach leaves]) (simp add: shown)
  then have "app_reachable ho at clock sr ?x2"
    by (rule app_reachable.steps [OF _ stops [OF _ _ _ st(1)]]) (simp_all add: ui_stop_def serving)
  then have "app_reachable ho at clock sr (?x2\<lparr>ua_main := Returned (ua_thread ?x2 = Over)\<rparr>)"
    by (rule app_reachable.steps [OF _ joins]) (simp add: thread_ends_def ui_stop_def)
  with st show ?thesis
    by (intro exI [of _ "?x2\<lparr>ua_main := Returned (ua_thread ?x2 = Over)\<rparr>"]) (simp add: thread_ends_def stopped_app_def)
qed

text \<open>
  C28. The two threads of the window application, in every interleaving of their steps. While the window is shown the
  background thread serves a running runtime, so the window's requests never need their synchronous fallback, it has at most one
  request under way, and closing it can always lead to an orderly end. \<open>RuntimeError\<close> means that the start failed. After a
  \<open>TimeoutError\<close>, though, nothing asks the runtime to stop: its thread ends only if the start fails. When the join succeeds, the
  runtime is stopped or had not started.
\<close>

theorem app_threads:
  assumes reach: "app_reachable ho at clock sr x"
  shows "(ua_main x = Shows \<longrightarrow> ua_thread x = Serves \<and> (\<exists>rt w. ua_runtime x = Some rt \<and> status rt = RUNNING \<and> ua_window x = Some w
        \<and> (if wn_busy (ww_window w) then \<exists>q. ww_requests w = [q] else ww_requests w = []))
        \<and> (\<exists>y. app_reachable ho at clock sr y \<and> ua_main y = Returned True \<and> stopped_app y))
    \<and> (ua_main x = Refused \<longrightarrow> start_failed ho clock sr x)
    \<and> (ua_main x = Timed_Out \<longrightarrow> \<not> ua_stop x \<and> (ua_thread x = Over \<longrightarrow> start_failed ho clock sr x))
    \<and> (ua_main x = Returned True \<longrightarrow> start_failed ho clock sr x \<or> stopped_app x)"
proof (intro conjI impI)
  note inv = app_invariant [OF reach, THEN conjunct1, unfolded thread_inv_def] app_invariant [OF reach, THEN conjunct2, unfolded main_inv_def]
  { assume shown: "ua_main x = Shows"
    with inv show "ua_thread x = Serves"
      by (auto simp: asked_to_stop_def start_failed_def split: ui_thread.splits)
    with inv obtain rt where rt: "ua_runtime x = Some rt" "status rt = RUNNING" by auto
    from inv shown obtain w where "ua_window x = Some w" "window_inv w" by auto
    with rt show "\<exists>rt w. ua_runtime x = Some rt \<and> status rt = RUNNING \<and> ua_window x = Some w
        \<and> (if wn_busy (ww_window w) then \<exists>q. ww_requests w = [q] else ww_requests w = [])"
      by (auto simp: window_inv_def length_Suc_conv)
    show "\<exists>y. app_reachable ho at clock sr y \<and> ua_main y = Returned True \<and> stopped_app y"
      by (rule window_closes [OF reach shown]) }
  { assume "ua_main x = Refused"
    with inv show "start_failed ho clock sr x" by (auto simp: asked_to_stop_def) }
  { assume "ua_main x = Timed_Out"
    with inv show "\<not> ua_stop x" by (auto simp: asked_to_stop_def) }
  { assume "ua_main x = Timed_Out" "ua_thread x = Over"
    with inv show "start_failed ho clock sr x" by (auto simp: asked_to_stop_def) }
  { assume "ua_main x = Returned True"
    with inv show "start_failed ho clock sr x \<or> stopped_app x" by auto }
qed

text \<open>A start that succeeds after the time-out leaves a runtime that runs and is not asked to stop.\<close>

lemma timed_out_runs_on:
  assumes run: "start ho clock (new_runtime st rid now di dt) = (None, rt)"
  shows "\<exists>x. app_reachable ho at clock (Inr st) x \<and> ua_main x = Timed_Out \<and> ua_thread x = Serves \<and> ua_runtime x = Some rt
    \<and> status rt = RUNNING \<and> \<not> ua_stop x"
proof -
  let ?x1 = "new_ui_app\<lparr>ua_main := Waits, ua_thread := Begins\<rparr>"
  let ?x2 = "?x1\<lparr>ua_main := Timed_Out\<rparr>" and ?rt = "new_runtime st rid now di dt"
  let ?x3 = "?x2\<lparr>ua_runtime := Some ?rt\<rparr>"
  let ?x4 = "?x3\<lparr>ua_runtime := Some rt, ua_coordinator := Some (start_coordinator (rt_readiness (rn_tracker rt)) new_coordinator),
    ua_thread := Serves, ua_ready := True\<rparr>"
  have "app_reachable ho at clock (Inr st) ?x1"
    by (rule app_reachable.steps [OF app_reachable.initial launches]) (simp add: new_ui_app_def)
  then have "app_reachable ho at clock (Inr st) ?x2"
    by (rule app_reachable.steps [OF _ times_out]) (simp_all add: new_ui_app_def)
  then have "app_reachable ho at clock (Inr st) ?x3"
    by (rule app_reachable.steps [OF _ creates]) (simp_all add: new_ui_app_def)
  then have "app_reachable ho at clock (Inr st) ?x4"
    by (rule app_reachable.steps [OF _ serves [OF _ _ run]]) simp_all
  with start_running [OF run] show ?thesis by (intro exI [of _ ?x4]) (simp add: new_ui_app_def)
qed

text \<open>The application over a node without gateways, with its window shown.\<close>

theorem app_threads_witness:
  "\<exists>x rt. app_reachable quiet_host remote_client int (Inr quiet_settings) x \<and> ua_main x = Shows \<and> ua_thread x = Serves
     \<and> ua_runtime x = Some rt \<and> status rt = RUNNING"
proof -
  obtain rt where run: "start quiet_host int (new_runtime quiet_settings ''r'' 0 new_id_disk empty_disk) = (None, rt)"
    using quiet_start unfolding quiet_runtime_def by (metis surj_pair fst_conv)
  let ?x1 = "new_ui_app\<lparr>ua_main := Waits, ua_thread := Begins\<rparr>"
  let ?x2 = "?x1\<lparr>ua_runtime := Some (new_runtime quiet_settings ''r'' 0 new_id_disk empty_disk)\<rparr>"
  let ?sc = "start_coordinator (rt_readiness (rn_tracker rt)) new_coordinator"
  let ?x3 = "?x2\<lparr>ua_runtime := Some rt, ua_coordinator := Some ?sc, ua_thread := Serves, ua_ready := True\<rparr>"
  let ?x4 = "?x3\<lparr>ua_main := Shows,
    ua_window := Some \<lparr>ww_window = new_window (sc_state ?sc) (get_status_message rt), ww_requests = []\<rparr>\<rparr>"
  have "app_reachable quiet_host remote_client int (Inr quiet_settings) ?x1"
    by (rule app_reachable.steps [OF app_reachable.initial launches]) (simp add: new_ui_app_def)
  then have "app_reachable quiet_host remote_client int (Inr quiet_settings) ?x2"
    by (rule app_reachable.steps [OF _ creates]) (simp_all add: new_ui_app_def)
  then have "app_reachable quiet_host remote_client int (Inr quiet_settings) ?x3"
    by (rule app_reachable.steps [OF _ serves [OF _ _ run]]) simp_all
  then have reach: "app_reachable quiet_host remote_client int (Inr quiet_settings) ?x4"
    by (rule app_reachable.steps [OF _ shows_window]) simp_all
  with app_threads [OF reach] show ?thesis by (intro exI [of _ ?x4] exI [of _ rt]) simp
qed

end
