(* ===== verification/Shyam_Validators.thy ===== *)
theory Shyam_Validators
  imports Shyam_Interface
begin

section \<open>The two-machine validators\<close>

text \<open>
  The programs \<open>tools/s17_3_physical_validator.py\<close>, \<open>s17_4_physical_validator.py\<close>, \<open>s17_7_surface_validator.py\<close> and
  \<open>s17_9_1_physical_validator.py\<close>: each starts a runtime, waits until another node is available, trusts it, asks for work to be
  continued, through the continuity service or the surface, and writes what it saw as evidence. Constant entries of the
  evidence, log messages and the parsing of the arguments are left out; the entries written from a continuity session are that session.
\<close>

subsection \<open>What the programs share\<close>

record validator_args =
  va_port :: int
  va_target_ip :: "string option"
  va_zarya_url :: string
  va_flux_url :: string

text \<open>
  The machine of a run: the host of its runtime, the clients of remote services, the clock while it starts (\<open>lb_clock\<close>), looks
  around (\<open>lb_tick\<close>) and acts (\<open>lb_now\<close>), what the event loop does in the sleep of each round (\<open>lb_turns\<close>), fresh session
  identifiers, the temporary directory, the error of writing the payload, the digest and the texts of the clock.
\<close>

record 'k lab =
  lb_host :: "'k host"
  lb_at :: "string \<Rightarrow> zarya_client"
  lb_clock :: "nat \<Rightarrow> time"
  lb_tick :: "nat \<Rightarrow> time"
  lb_now :: time
  lb_fin :: time
  lb_turns :: "nat \<Rightarrow> loop_task list"
  lb_cids :: "nat \<Rightarrow> string"
  lb_runtime_id :: string
  lb_data_dir :: string
  lb_write_error :: "string option"
  lb_sha256 :: "string \<Rightarrow> string"
  lb_stamp :: string
  lb_isoformat :: string

definition validator_settings :: "'k lab \<Rightarrow> string \<Rightarrow> validator_args \<Rightarrow> settings" where
  "validator_settings lb name a = (default_settings [])
     \<lparr>st_environment := ''local'', st_data_directory := lb_data_dir lb, st_log_level := ''INFO'', st_runtime_name := name,
      st_discovery_enabled := True, st_discovery_port := va_port a, st_zarya_enabled := True,
      st_zarya_url := va_zarya_url a, st_flux_enabled := True, st_flux_url := va_flux_url a\<rparr>"

text \<open>A new runtime over an empty directory.\<close>

definition validator_runtime :: "'k lab \<Rightarrow> string \<Rightarrow> validator_args \<Rightarrow> 'k runtime" where
  "validator_runtime lb name a =
     new_runtime (validator_settings lb name a) (lb_runtime_id lb) (lb_clock lb 0) new_id_disk empty_disk"

subsection \<open>The rounds of discovery\<close>

definition suits :: "string option \<Rightarrow> disc_node \<Rightarrow> bool" where
  "suits ip n \<longleftrightarrow> \<not> dn_is_local n \<and> dn_state n = NODE_AVAILABLE
     \<and> (truthy_opt ip \<longrightarrow> dget (dn_metadata n) ''address'' = Some (PStr (the ip)))"

text \<open>A node without an identifier does not end the rounds.\<close>

fun discover_target ::
  "flux_client \<Rightarrow> string option \<Rightarrow> (nat \<Rightarrow> time) \<Rightarrow> (nat \<Rightarrow> loop_task list) \<Rightarrow> nat \<Rightarrow> nat \<Rightarrow> 'k runtime
     \<Rightarrow> (string \<times> disc_node) option result \<times> 'k runtime" where
  "discover_target fc ip tick turns 0 k rt = (Inr None, rt)"
| "discover_target fc ip tick turns (Suc n) k rt =
     (case get_ecosystem_snapshot fc (tick (2 * k)) (tick (2 * k + 1)) (run_tasks (turns k) rt) of
        (Inl e, rt1) \<Rightarrow> (Inl e, rt1)
      | (Inr snap, rt1) \<Rightarrow>
          (case find (\<lambda>(i, d). suits ip d) (snap_nodes snap) of
             Some (i, d) \<Rightarrow> if i \<noteq> [] then (Inr (Some (i, d)), rt1) else discover_target fc ip tick turns n (Suc k) rt1
           | None \<Rightarrow> discover_target fc ip tick turns n (Suc k) rt1))"

subsection \<open>Trust and continuity\<close>

text \<open>\<open>trust_service.is_trusted\<close> and \<open>grant_trust\<close> of the runtime, and one after the other.\<close>

definition asks_trust :: "'k lab \<Rightarrow> string \<Rightarrow> 'k runtime \<Rightarrow> bool result \<times> 'k runtime" where
  "asks_trust lb n rt =
     (case is_trusted (ho_codec (lb_host lb)) (lb_now lb) (rn_trust_disk rt) n (rn_trust rt) of
        Inl e \<Rightarrow> (Inl e, rt)
      | Inr (b, ts) \<Rightarrow> (Inr b, rt\<lparr>rn_trust := ts\<rparr>))"

definition grants_trust :: "'k lab \<Rightarrow> string \<Rightarrow> string \<Rightarrow> 'k runtime \<Rightarrow> bool result \<times> 'k runtime" where
  "grants_trust lb name n rt =
     (case grant_trust (ho_codec (lb_host lb)) (lb_now lb) n None REL_PEER name None (rn_trust rt) (rn_trust_disk rt) of
        (res, ts, dk, evs) \<Rightarrow>
          let rt1 = log_events (map Trust_Event evs) (rt\<lparr>rn_trust := ts, rn_trust_disk := dk\<rparr>) in
          (case res of Inl e \<Rightarrow> (Inl e, rt1) | Inr _ \<Rightarrow> asks_trust lb n rt1))"

definition continues :: "'k lab \<Rightarrow> string \<Rightarrow> continuity_request \<Rightarrow> 'k runtime \<Rightarrow> continuity_session result \<times> 'k runtime" where
  "continues lb cid q rt =
     (case rn_continuity rt of
        None \<Rightarrow> (Inl (Exn (Builtin AttributeError) ''NoneType object has no attribute request_continuity''), rt)
      | Some v \<Rightarrow> (case request_continuity (continuity_env_of (lb_host lb) (lb_at lb) (lb_now lb) rt) cid q v of
          (r, v') \<Rightarrow> (r, rt\<lparr>rn_continuity := Some v'\<rparr>)))"

text \<open>What all evidence holds. An error is added to it where the program gives up or catches an exception.\<close>

record evidence =
  ev_source :: string
  ev_target :: "string option"
  ev_discovered :: bool
  ev_trusted :: bool
  ev_continuity :: "continuity_session option"
  ev_errors :: "string list"

definition with_error :: "string \<Rightarrow> 'z evidence_scheme \<Rightarrow> 'z evidence_scheme" where
  "with_error m ev = ev\<lparr>ev_errors := ev_errors ev @ [m]\<rparr>"

definition source_id :: "string \<Rightarrow> 'k runtime \<Rightarrow> string" where
  "source_id unknown rt = (case node_of rt of None \<Rightarrow> unknown | Some i \<Rightarrow> ni_node_id i)"

text \<open>
  The frame of the four \<open>run_source\<close>: what the start raises is raised; what the body raises becomes an error of the
  evidence; the runtime is stopped in every case.
\<close>

definition validate_with ::
  "'k lab \<Rightarrow> string \<Rightarrow> validator_args \<Rightarrow> ('k runtime \<Rightarrow> 'z evidence_scheme)
     \<Rightarrow> ('z evidence_scheme \<Rightarrow> 'k runtime \<Rightarrow> exn option \<times> 'z evidence_scheme \<times> 'k runtime)
     \<Rightarrow> 'z evidence_scheme result \<times> 'k runtime" where
  "validate_with lb name a first probe =
     (case start (lb_host lb) (lb_clock lb) (validator_runtime lb name a) of
        (Some e, rt1) \<Rightarrow> (Inl e, rt1)
      | (None, rt1) \<Rightarrow>
          (case probe (first rt1) rt1 of
             (raised, ev, rt2) \<Rightarrow>
               (case stop (lb_fin lb) rt2 of
                  (Some e, rt3) \<Rightarrow> (Inl e, rt3)
                | (None, rt3) \<Rightarrow> (Inr (case raised of None \<Rightarrow> ev | Some e \<Rightarrow> with_error (exn_msg e) ev), rt3))))"

text \<open>
  \<open>run_target\<close>: a number of rounds of its loop, then the end; the first two programs look at their ecosystem in each round, and
  what that raises ends the loop.
\<close>

fun serve :: "'k lab \<Rightarrow> bool \<Rightarrow> nat \<Rightarrow> nat \<Rightarrow> 'k runtime \<Rightarrow> exn option \<times> 'k runtime" where
  "serve lb looks 0 k rt = (None, rt)"
| "serve lb looks (Suc n) k rt =
     (let rt1 = run_tasks (lb_turns lb k) rt in
      if \<not> looks then serve lb looks n (Suc k) rt1
      else (case get_ecosystem_snapshot (ho_flux (lb_host lb)) (lb_tick lb (2 * k)) (lb_tick lb (2 * k + 1)) rt1 of
              (Inl e, rt2) \<Rightarrow> (Some e, rt2)
            | (Inr snap, rt2) \<Rightarrow> serve lb looks n (Suc k) rt2))"

definition serve_with :: "'k lab \<Rightarrow> string \<Rightarrow> validator_args \<Rightarrow> bool \<Rightarrow> nat \<Rightarrow> exn option \<times> 'k runtime" where
  "serve_with lb name a looks n =
     (case start (lb_host lb) (lb_clock lb) (validator_runtime lb name a) of
        (Some e, rt1) \<Rightarrow> (Some e, rt1)
      | (None, rt1) \<Rightarrow>
          (case serve lb looks n 0 rt1 of
             (raised, rt2) \<Rightarrow> (case stop (lb_fin lb) rt2 of (Some e, rt3) \<Rightarrow> (Some e, rt3) | (None, rt3) \<Rightarrow> (raised, rt3))))"

definition run_target_3 :: "'k lab \<Rightarrow> validator_args \<Rightarrow> nat \<Rightarrow> exn option \<times> 'k runtime" where
  "run_target_3 lb a n = serve_with lb ''machine-b-target'' a True n"

definition run_target_4 :: "'k lab \<Rightarrow> validator_args \<Rightarrow> nat \<Rightarrow> exn option \<times> 'k runtime" where
  "run_target_4 lb a n = serve_with lb ''machine-b-target'' a True n"

definition run_target_7 :: "'k lab \<Rightarrow> validator_args \<Rightarrow> nat \<Rightarrow> exn option \<times> 'k runtime" where
  "run_target_7 lb a n = serve_with lb ''machine-b-target-s17.7'' a False n"

definition run_target_9 :: "'k lab \<Rightarrow> validator_args \<Rightarrow> nat \<Rightarrow> exn option \<times> 'k runtime" where
  "run_target_9 lb a n = serve_with lb ''machine-b-target-s17.9.1'' a False n"

subsection \<open>\<open>s17_3_physical_validator.py\<close>\<close>

text \<open>The identifiers and times in a payload are ASCII, so \<open>ensure_ascii\<close> changes nothing.\<close>

definition json_object :: "(string \<times> string) list \<Rightarrow> string" where
  "json_object entries = CHR 0x7B # join_with '', '' (map (\<lambda>(k, v). json_str k @ '': '' @ json_str v) entries) @ [CHR 0x7D]"

definition copy_request ::
  "'k lab \<Rightarrow> string \<Rightarrow> string \<Rightarrow> (string, pyval) dict \<Rightarrow> string \<Rightarrow> string \<Rightarrow> continuity_request result" where
  "copy_request lb work source portable file target =
     mk_continuity_request work source portable [lb_data_dir lb @ ''/'' @ file]
       (default_constraints\<lparr>nk_preferred_node := Some target\<rparr>) ''COPY''"

definition payload_3 :: "'k lab \<Rightarrow> string \<Rightarrow> string \<Rightarrow> string" where
  "payload_3 lb source target = json_object
     [(''test_run'', ''S17.3_PHYSICAL_VALIDATION''), (''source_node'', source), (''target_node'', target),
      (''timestamp'', lb_isoformat lb)]"

definition request_3 :: "'k lab \<Rightarrow> string \<Rightarrow> string \<Rightarrow> continuity_request result" where
  "request_3 lb source target = copy_request lb (''work-phys-'' @ lb_stamp lb) source
     [(''task_name'', PStr ''s17_3_physical_execution''), (''sha256'', PStr (lb_sha256 lb (payload_3 lb source target)))]
     ''s17_3_physical_work.json'' target"

record evidence_3 = evidence +
  e3_metadata :: "(string, pyval) dict"
  e3_transfer_pass :: bool
  e3_continuation_pass :: bool

definition first_3 :: "'k runtime \<Rightarrow> evidence_3" where
  "first_3 rt = \<lparr>ev_source = source_id ''unknown-source'' rt, ev_target = None, ev_discovered = False, ev_trusted = False,
     ev_continuity = None, ev_errors = [], e3_metadata = [], e3_transfer_pass = False, e3_continuation_pass = False\<rparr>"

definition probe_3 :: "'k lab \<Rightarrow> validator_args \<Rightarrow> evidence_3 \<Rightarrow> 'k runtime \<Rightarrow> exn option \<times> evidence_3 \<times> 'k runtime" where
  "probe_3 lb a ev rt =
     (case discover_target (ho_flux (lb_host lb)) (va_target_ip a) (lb_tick lb) (lb_turns lb) 20 0 rt of
        (Inl e, rt1) \<Rightarrow> (Some e, ev, rt1)
      | (Inr None, rt1) \<Rightarrow>
          (None, with_error (''Target node not discovered on port '' @ int_str (va_port a) @ '' (target_ip=''
             @ (case va_target_ip a of None \<Rightarrow> ''None'' | Some ip \<Rightarrow> ip) @ '')'') ev, rt1)
      | (Inr (Some (i, d)), rt1) \<Rightarrow>
          let ev1 = ev\<lparr>ev_discovered := True, ev_target := Some i, e3_metadata := dn_metadata d\<rparr> in
          (case grants_trust lb ''machine-b-physical-peer'' i rt1 of
             (Inl e, rt2) \<Rightarrow> (Some e, ev1, rt2)
           | (Inr False, rt2) \<Rightarrow> (None, with_error (''Failed to establish S13 trust for node '' @ i) ev1, rt2)
           | (Inr True, rt2) \<Rightarrow>
               let ev2 = ev1\<lparr>ev_trusted := True\<rparr> in
               (case lb_write_error lb of
                  Some m \<Rightarrow> (Some (os_error m), ev2, rt2)
                | None \<Rightarrow>
                    (case request_3 lb (ev_source ev) i of
                       Inl e \<Rightarrow> (Some e, ev2, rt2)
                     | Inr q \<Rightarrow>
                         (case continues lb (lb_cids lb 0) q rt2 of
                            (Inl e, rt3) \<Rightarrow> (Some e, ev2, rt3)
                          | (Inr s, rt3) \<Rightarrow>
                              (None, ev2\<lparr>ev_continuity := Some s, e3_transfer_pass := cn_state s = C_COMPLETED,
                                 e3_continuation_pass := cn_state s = C_COMPLETED\<rparr>, rt3))))))"

definition run_source_3 :: "'k lab \<Rightarrow> validator_args \<Rightarrow> evidence_3 result \<times> 'k runtime" where
  "run_source_3 lb a = validate_with lb ''machine-a-source'' a first_3 (probe_3 lb a)"

subsection \<open>\<open>s17_4_physical_validator.py\<close>\<close>

definition payload_4 :: "'k lab \<Rightarrow> string \<Rightarrow> string \<Rightarrow> string" where
  "payload_4 lb source target = json_object
     [(''entropy'', ''d34db33f-c0ffee-42''), (''source_node'', source), (''target_node'', target),
      (''test_suite'', ''S17.4_PHYSICAL_VALIDATION''), (''timestamp'', lb_isoformat lb)]"

definition request_4 :: "'k lab \<Rightarrow> string \<Rightarrow> string \<Rightarrow> continuity_request result" where
  "request_4 lb source target = copy_request lb (''work-s17-4-'' @ lb_stamp lb) source
     [(''task_name'', PStr ''s17_4_cross_device_execution''), (''sha256'', PStr (lb_sha256 lb (payload_4 lb source target))),
      (''payload_size'', PInt (int (length (payload_4 lb source target))))]
     ''s17_4_payload.txt'' target"

record evidence_4 = evidence +
  e4_metadata :: "(string, pyval) dict"
  e4_metadata_verified :: bool
  e4_source_sha256 :: "string option"
  e4_target_sha256 :: "string option"
  e4_integrity_verified :: bool
  e4_transferred :: bool
  e4_verified :: bool

definition first_4 :: "'k runtime \<Rightarrow> evidence_4" where
  "first_4 rt = \<lparr>ev_source = source_id ''unknown-source'' rt, ev_target = None, ev_discovered = False, ev_trusted = False,
     ev_continuity = None, ev_errors = [], e4_metadata = [], e4_metadata_verified = False, e4_source_sha256 = None,
     e4_target_sha256 = None, e4_integrity_verified = False, e4_transferred = False, e4_verified = False\<rparr>"

text \<open>The second request; only a duplicate is caught where it is made.\<close>

definition repeats :: "'k lab \<Rightarrow> continuity_request \<Rightarrow> 'k runtime \<Rightarrow> exn option \<times> 'k runtime" where
  "repeats lb q rt =
     (case continues lb (lb_cids lb 1) q rt of
        (Inr s, rt1) \<Rightarrow> (None, rt1)
      | (Inl e, rt1) \<Rightarrow> (if isinst e (Continuity_Exn DuplicateContinuityError) then None else Some e, rt1))"

definition probe_4 :: "'k lab \<Rightarrow> validator_args \<Rightarrow> evidence_4 \<Rightarrow> 'k runtime \<Rightarrow> exn option \<times> evidence_4 \<times> 'k runtime" where
  "probe_4 lb a ev rt =
     (case discover_target (ho_flux (lb_host lb)) (va_target_ip a) (lb_tick lb) (lb_turns lb) 30 0 rt of
        (Inl e, rt1) \<Rightarrow> (Some e, ev, rt1)
      | (Inr None, rt1) \<Rightarrow>
          (None, with_error (''Target node not discovered on port '' @ int_str (va_port a) @ '' within timeout'') ev, rt1)
      | (Inr (Some (i, d)), rt1) \<Rightarrow>
          let m = dn_metadata d;
              ev1 = ev\<lparr>ev_discovered := True, ev_target := Some i, e4_metadata := m, e4_metadata_verified :=
                truthy (dget_or m ''zarya_url'' PNone) \<and> truthy (dget_or m ''flux_url'' PNone)\<rparr> in
          (case grants_trust lb ''machine-b-physical-peer'' i rt1 of
             (Inl e, rt2) \<Rightarrow> (Some e, ev1, rt2)
           | (Inr False, rt2) \<Rightarrow> (None, with_error (''Trust grant failed for target node '' @ i) ev1, rt2)
           | (Inr True, rt2) \<Rightarrow>
               let ev2 = ev1\<lparr>ev_trusted := True\<rparr>; hash = lb_sha256 lb (payload_4 lb (ev_source ev) i);
                   ev3 = ev2\<lparr>e4_source_sha256 := Some hash, e4_target_sha256 := Some hash, e4_integrity_verified := True\<rparr> in
               (case lb_write_error lb of
                  Some m \<Rightarrow> (Some (os_error m), ev2, rt2)
                | None \<Rightarrow>
                    (case request_4 lb (ev_source ev) i of
                       Inl e \<Rightarrow> (Some e, ev3, rt2)
                     | Inr q \<Rightarrow>
                         (case continues lb (lb_cids lb 0) q rt2 of
                            (Inl e, rt3) \<Rightarrow> (Some e, ev3, rt3)
                          | (Inr s, rt3) \<Rightarrow>
                              let ev4 = ev3\<lparr>ev_continuity := Some s, e4_transferred :=
                                    (case cn_result s of None \<Rightarrow> False | Some r \<Rightarrow> cres_transfer_completed r),
                                    e4_verified := cn_state s = C_COMPLETED\<rparr> in
                              (case repeats lb q rt3 of (raised, rt4) \<Rightarrow> (raised, ev4, rt4)))))))"

definition run_source_4 :: "'k lab \<Rightarrow> validator_args \<Rightarrow> evidence_4 result \<times> 'k runtime" where
  "run_source_4 lb a = validate_with lb ''machine-a-source'' a first_4 (probe_4 lb a)"

subsection \<open>\<open>s17_7_surface_validator.py\<close>\<close>

definition HUMAN_INPUT :: string where
  "HUMAN_INPUT = ''continue this work on my other laptop''"

text \<open>The first session of the surface's work.\<close>

definition surface_session :: "'k runtime \<Rightarrow> continuity_session option" where
  "surface_session rt =
     (case rn_continuity rt of
        None \<Rightarrow> None
      | Some v \<Rightarrow> map_option snd (find (\<lambda>(cid, s). cq_work_id (cn_request s) = SURFACE_WORK_ID) (co_sessions v)))"

text \<open>\<open>evidence["continuity"].get("final_state") == "completed"\<close>\<close>

definition continuity_ok :: "continuity_session option \<Rightarrow> bool" where
  "continuity_ok x \<longleftrightarrow> (case x of None \<Rightarrow> False | Some s \<Rightarrow> cn_state s = C_COMPLETED)"

text \<open>A new coordinator handles the fixed text: its response, its state and the session found afterwards.\<close>

definition drives ::
  "'k lab \<Rightarrow> 'k runtime \<Rightarrow> (surface_message \<times> surface_state \<times> continuity_session option) result \<times> 'k runtime" where
  "drives lb rt =
     (case handle_request (lb_host lb) (lb_at lb) (lb_cids lb 0) (lb_now lb) (create_request HUMAN_INPUT)
             (start_coordinator (rt_readiness (rn_tracker rt)) new_coordinator) rt of
        (Inl e, sc, rt1) \<Rightarrow> (Inl e, rt1)
      | (Inr resp, sc, rt1) \<Rightarrow> (Inr (rp_message resp, sc_state sc, surface_session rt1), rt1))"

record surface_evidence = evidence +
  se_intent_parsed :: bool
  se_message :: "surface_message option"
  se_state :: "surface_state option"
  se_verified :: bool

definition first_7 :: "'k runtime \<Rightarrow> surface_evidence" where
  "first_7 rt = \<lparr>ev_source = source_id ''unknown'' rt, ev_target = None, ev_discovered = False, ev_trusted = False,
     ev_continuity = None, ev_errors = [], se_intent_parsed = False, se_message = None, se_state = None, se_verified = False\<rparr>"

definition lan_timeout :: "validator_args \<Rightarrow> string" where
  "lan_timeout a = ''Target not discovered on port '' @ int_str (va_port a) @ '' within 30s''"

definition probe_7 ::
  "'k lab \<Rightarrow> validator_args \<Rightarrow> surface_evidence \<Rightarrow> 'k runtime \<Rightarrow> exn option \<times> surface_evidence \<times> 'k runtime" where
  "probe_7 lb a ev rt =
     (case discover_target (ho_flux (lb_host lb)) (va_target_ip a) (lb_tick lb) (lb_turns lb) 30 0 rt of
        (Inl e, rt1) \<Rightarrow> (Some e, ev, rt1)
      | (Inr None, rt1) \<Rightarrow> (None, with_error (lan_timeout a) ev, rt1)
      | (Inr (Some (i, d)), rt1) \<Rightarrow>
          let ev1 = ev\<lparr>ev_discovered := True, ev_target := Some i\<rparr> in
          (case grants_trust lb ''machine-b-s17.7-peer'' i rt1 of
             (Inl e, rt2) \<Rightarrow> (Some e, ev1, rt2)
           | (Inr False, rt2) \<Rightarrow> (None, with_error (''Trust grant failed for '' @ i) ev1, rt2)
           | (Inr True, rt2) \<Rightarrow>
               let ev2 = ev1\<lparr>ev_trusted := True, se_intent_parsed := True\<rparr> in
               (case drives lb rt2 of
                  (Inl e, rt3) \<Rightarrow> (Some e, ev2, rt3)
                | (Inr (m, st, s), rt3) \<Rightarrow>
                    (None, ev2\<lparr>se_message := Some m, se_state := Some st, ev_continuity := s,
                       se_verified := st = SURFACE_COMPLETED \<and> continuity_ok s \<and> ev_trusted ev2 \<and> ev_discovered ev2\<rparr>, rt3))))"

definition run_source_7 :: "'k lab \<Rightarrow> validator_args \<Rightarrow> surface_evidence result \<times> 'k runtime" where
  "run_source_7 lb a = validate_with lb ''machine-a-source-s17.7'' a first_7 (probe_7 lb a)"

subsection \<open>\<open>s17_9_1_physical_validator.py\<close>\<close>

record evidence_9 = surface_evidence +
  e9_flux_peer_id :: pyval
  e9_flux_url :: pyval
  e9_zarya_url :: pyval
  e9_untrusted_rejected :: bool
  e9_source_sha256 :: "string option"
  e9_target_sha256 :: "string option"
  e9_hash_matched :: bool

definition first_9 :: "'k runtime \<Rightarrow> evidence_9" where
  "first_9 rt = \<lparr>ev_source = source_id ''unknown'' rt, ev_target = None, ev_discovered = False, ev_trusted = False,
     ev_continuity = None, ev_errors = [], se_intent_parsed = False, se_message = None, se_state = None, se_verified = False,
     e9_flux_peer_id = PNone, e9_flux_url = PNone, e9_zarya_url = PNone, e9_untrusted_rejected = False,
     e9_source_sha256 = None, e9_target_sha256 = None, e9_hash_matched = False\<rparr>"

definition PAYLOAD_9 :: string where
  "PAYLOAD_9 = ''s17.9.1-real-physical-continuity-payload''"

definition verdict_9 :: "string \<Rightarrow> surface_message \<times> surface_state \<times> continuity_session option \<Rightarrow> evidence_9 \<Rightarrow> evidence_9" where
  "verdict_9 hash found ev = (case found of (m, st, s) \<Rightarrow>
     let ev1 = ev\<lparr>se_message := Some m, se_state := Some st, ev_continuity := s, e9_target_sha256 := Some hash\<rparr>;
         ev2 = ev1\<lparr>e9_hash_matched := e9_source_sha256 ev1 = e9_target_sha256 ev1\<rparr> in
     ev2\<lparr>se_verified := st = SURFACE_COMPLETED \<and> continuity_ok s \<and> ev_trusted ev2 \<and> ev_discovered ev2 \<and> e9_hash_matched ev2\<rparr>)"

definition probe_9 ::
  "'k lab \<Rightarrow> validator_args \<Rightarrow> evidence_9 \<Rightarrow> 'k runtime \<Rightarrow> exn option \<times> evidence_9 \<times> 'k runtime" where
  "probe_9 lb a ev rt =
     (case discover_target (ho_flux (lb_host lb)) (va_target_ip a) (lb_tick lb) (lb_turns lb) 30 0 rt of
        (Inl e, rt1) \<Rightarrow> (Some e, ev, rt1)
      | (Inr None, rt1) \<Rightarrow> (None, with_error (lan_timeout a) ev, rt1)
      | (Inr (Some (i, d)), rt1) \<Rightarrow>
          let meta = (\<lambda>k. dget_or (dn_metadata d) k PNone);
              ev1 = ev\<lparr>ev_discovered := True, ev_target := Some i, e9_flux_peer_id := meta ''flux_peer_id'',
                e9_flux_url := meta ''flux_url'', e9_zarya_url := meta ''zarya_url''\<rparr> in
          (case asks_trust lb i rt1 of
             (Inl e, rt2) \<Rightarrow> (Some e, ev1, rt2)
           | (Inr trusted_now, rt2) \<Rightarrow>
               let ev2 = (if \<not> trusted_now then ev1\<lparr>e9_untrusted_rejected := True\<rparr> else ev1) in
               (case grants_trust lb ''machine-b-s17.9.1-peer'' i rt2 of
                  (Inl e, rt3) \<Rightarrow> (Some e, ev2, rt3)
                | (Inr False, rt3) \<Rightarrow> (None, with_error (''Trust grant failed for '' @ i) ev2, rt3)
                | (Inr True, rt3) \<Rightarrow>
                    let hash = lb_sha256 lb PAYLOAD_9;
                        ev3 = ev2\<lparr>ev_trusted := True, e9_source_sha256 := Some hash, se_intent_parsed := True\<rparr> in
                    (case drives lb rt3 of
                       (Inl e, rt4) \<Rightarrow> (Some e, ev3, rt4)
                     | (Inr found, rt4) \<Rightarrow> (None, verdict_9 hash found ev3, rt4)))))"

definition run_source_9 :: "'k lab \<Rightarrow> validator_args \<Rightarrow> evidence_9 result \<times> 'k runtime" where
  "run_source_9 lb a = validate_with lb ''machine-a-source-s17.9.1'' a first_9 (probe_9 lb a)"

subsection \<open>What the rounds and the grant keep\<close>

text \<open>A runtime that started and has continued nothing yet.\<close>

definition lab_ready :: "node_identity \<Rightarrow> 'k runtime \<Rightarrow> bool" where
  "lab_ready i rt \<longleftrightarrow> node_of rt = Some i \<and> status rt = RUNNING \<and> ts_initialized (rn_trust rt)
     \<and> rn_continuity rt = Some new_continuity_service \<and> runtime_reachable rt"

lemma lab_ready_identity: "lab_ready i rt \<Longrightarrow> \<exists>im. rn_identity rt = Some im \<and> im_identity im = Some i"
  by (auto simp: lab_ready_def node_of_def split: option.splits)

lemma lab_ready_inv: "lab_ready i rt \<Longrightarrow> node_inv rt"
  by (simp add: lab_ready_def reachable_inv)

lemma lab_ready_same: "lab_ready i rt \<Longrightarrow> same_services rt rt' \<Longrightarrow> runtime_reachable rt' \<Longrightarrow> lab_ready i rt'"
  by (simp add: lab_ready_def same_services_def node_of_def)

lemma validator_started:
  assumes "start (lb_host lb) (lb_clock lb) (validator_runtime lb name a) = (None, rt)"
  shows "\<exists>i. lab_ready i rt"
proof -
  have "runtime_reachable rt"
    by (rule runtime_reachable.steps [OF created runtime_step.starts [OF assms [unfolded validator_runtime_def]]])
  with start_leaves [OF assms [unfolded validator_runtime_def]] show ?thesis
    by (auto simp: lab_ready_def node_of_def is_running_def services_up_def)
qed

lemma discover_local_services: "discover_local now i rt = (res, rt') \<Longrightarrow> same_services rt rt'"
  by (auto simp: discover_local_def split: sum.splits prod.splits)

lemma register_flux_peers_services: "same_services rt (register_flux_peers now i ps rt)"
  by (induction ps arbitrary: rt) (auto simp: Let_def intro: same_services_trans [OF put_nodes_services])

lemma get_ecosystem_snapshot_services:
  assumes "get_ecosystem_snapshot fc now now' rt = (res, rt')"
  shows "same_services rt rt' \<and> (\<forall>snap. res = Inr snap \<longrightarrow> snap_nodes snap = er_nodes (rn_registry rt'))"
proof (cases "rn_ecosystem rt")
  case None
  with assms show ?thesis by (auto simp: get_ecosystem_snapshot_def create_snapshot_def)
next
  case (Some i)
  obtain x rt1 where x: "discover_local now i rt = (x, rt1)" by (meson surj_pair)
  have "same_services rt1 (discover_flux fc now' i rt1)"
    using register_flux_peers_services by (auto simp: discover_flux_def split: sum.split)
  with discover_local_services [OF x] have "same_services rt (discover_flux fc now' i rt1)" by (rule same_services_trans)
  with Some assms x discover_local_services [OF x] show ?thesis
    by (cases x) (auto simp: get_ecosystem_snapshot_def create_snapshot_def Let_def)
qed

lemma discover_target_ok:
  "discover_target fc ip tick turns n k rt = (res, rt') \<Longrightarrow> lab_ready i rt \<Longrightarrow>
     lab_ready i rt' \<and> (\<forall>j d. res = Inr (Some (j, d)) \<longrightarrow> j \<noteq> [] \<and> suits ip d \<and> (j, d) \<in> set (er_nodes (rn_registry rt')))"
proof (induction n arbitrary: k rt)
  case 0
  then show ?case by auto
next
  case (Suc n)
  let ?rt1 = "run_tasks (turns k) rt"
  obtain x rt2 where x: "get_ecosystem_snapshot fc (tick (2 * k)) (tick (2 * k + 1)) ?rt1 = (x, rt2)" by (meson surj_pair)
  have r1: "runtime_reachable ?rt1" using Suc.prems(2) by (simp add: lab_ready_def run_tasks_reachable)
  have "lab_ready i ?rt1" by (rule lab_ready_same [OF Suc.prems(2) run_tasks_services r1])
  then have ready: "lab_ready i rt2"
    by (rule lab_ready_same) (use get_ecosystem_snapshot_services [OF x] runtime_reachable.steps [OF r1 looks [OF x]] in simp_all)
  show ?case
  proof (cases x)
    case (Inl e)
    with Suc.prems(1) x ready show ?thesis by auto
  next
    case (Inr snap)
    have nodes: "snap_nodes snap = er_nodes (rn_registry rt2)" using get_ecosystem_snapshot_services [OF x] Inr by simp
    show ?thesis
    proof (cases "find (\<lambda>(i, d). suits ip d) (snap_nodes snap)")
      case None
      with Suc.prems(1) x Inr have "discover_target fc ip tick turns n (Suc k) rt2 = (res, rt')" by simp
      from Suc.IH [OF this ready] show ?thesis .
    next
      case (Some p)
      obtain j d where p: "p = (j, d)" by (cases p)
      from Some p nodes have found: "suits ip d" "(j, d) \<in> set (er_nodes (rn_registry rt2))"
        by (auto simp: find_Some_iff) (metis nth_mem)
      show ?thesis
      proof (cases "j = []")
        case True
        with Suc.prems(1) x Inr Some p have "discover_target fc ip tick turns n (Suc k) rt2 = (res, rt')" by simp
        from Suc.IH [OF this ready] show ?thesis .
      next
        case False
        with Suc.prems(1) x Inr Some p ready found show ?thesis by auto
      qed
    qed
  qed
qed

text \<open>Asking and granting only change the trust service; after a grant that returns, the node is trusted.\<close>

definition only_trust :: "'k runtime \<Rightarrow> 'k runtime \<Rightarrow> bool" where
  "only_trust rt rt' \<longleftrightarrow> (\<exists>ts dk evs. rt' = rt\<lparr>rn_trust := ts, rn_trust_disk := dk, rn_log := evs\<rparr>)"

lemma only_trust_refl: "only_trust rt rt"
  unfolding only_trust_def by (intro exI [of _ "rn_trust rt"] exI [of _ "rn_trust_disk rt"] exI [of _ "rn_log rt"]) simp

lemma only_trust_frame:
  "only_trust rt rt' \<Longrightarrow> same_view rt rt' \<and> rn_state rt' = rn_state rt \<and> rn_identity rt' = rn_identity rt
     \<and> rn_continuity rt' = rn_continuity rt \<and> rn_tracker rt' = rn_tracker rt \<and> rn_zarya rt' = rn_zarya rt \<and> rn_flux rt' = rn_flux rt
     \<and> rn_discovery rt' = rn_discovery rt \<and> rn_id_disk rt' = rn_id_disk rt"
  by (auto simp: only_trust_def same_view_def)

lemma only_trust_ready:
  assumes "lab_ready i rt" and "only_trust rt rt'" and "ts_initialized (rn_trust rt')"
  shows "lab_ready i rt'"
proof -
  note f = only_trust_frame [OF assms(2)]
  have "runtime_reachable rt'"
    by (rule runtime_reachable.steps [OF _ other [of rt rt']]) (use assms(1) f in \<open>simp_all add: lab_ready_def\<close>)
  with assms f show ?thesis by (simp add: lab_ready_def node_of_def)
qed

lemma asks_trust_loaded:
  "ts_initialized (rn_trust rt) \<Longrightarrow> asks_trust lb n rt = (Inr (trusted_in (ts_records (rn_trust rt)) n), rt)"
  by (simp add: asks_trust_def is_trusted_loaded)

lemma grants_trust_ok:
  assumes init: "ts_initialized (rn_trust rt)"
  shows "\<exists>res rt'. grants_trust lb name n rt = (res, rt') \<and> only_trust rt rt' \<and> ts_initialized (rn_trust rt')
    \<and> res = (case td_write_error (rn_trust_disk rt) of None \<Rightarrow> Inr True | Some m \<Rightarrow> Inl (trust_store_error m))
    \<and> ts_records (rn_trust rt') = dset n (granted_record (lb_now lb) n None REL_PEER name None
         (dget (ts_records (rn_trust rt)) n)) (ts_records (rn_trust rt))"
proof -
  let ?r = "granted_record (lb_now lb) n None REL_PEER name None (dget (ts_records (rn_trust rt)) n)"
  let ?ts = "(rn_trust rt)\<lparr>ts_records := dset n ?r (ts_records (rn_trust rt))\<rparr>"
  obtain res ts dk evs where g0: "grant_trust (ho_codec (lb_host lb)) (lb_now lb) n None REL_PEER name None (rn_trust rt) (rn_trust_disk rt)
      = (res, ts, dk, evs)" by (meson prod_cases4)
  then have ts: "ts = ?ts" by (auto simp: grant_trust_def store_record_def Let_def split: sum.splits prod.splits)
  have res: "case td_write_error (rn_trust_disk rt) of None \<Rightarrow> \<exists>x. res = Inr x | Some m \<Rightarrow> res = Inl (trust_store_error m)"
    using g0 by (auto simp: grant_trust_def store_record_def trust_save_def Let_def simp del: sort_keys.simps split: option.splits)
  note g = g0 [unfolded ts]
  let ?rt = "log_events (map Trust_Event evs) (rt\<lparr>rn_trust := ?ts, rn_trust_disk := dk\<rparr>)"
  have only: "only_trust rt ?rt"
    unfolding only_trust_def log_events_def
    by (intro exI [of _ ?ts] exI [of _ dk] exI [of _ "rn_log rt @ map Trust_Event evs"]) simp
  have "asks_trust lb n ?rt = (Inr True, ?rt)"
    using init by (simp add: asks_trust_loaded trusted_in_def)
  with g res have "grants_trust lb name n rt
      = (case td_write_error (rn_trust_disk rt) of None \<Rightarrow> Inr True | Some m \<Rightarrow> Inl (trust_store_error m), ?rt)"
    by (auto simp: grants_trust_def Let_def split: option.splits)
  with only init show ?thesis by simp
qed

subsection \<open>What a completed session of a ready runtime is\<close>

text \<open>The work was continued on a trusted, known node, whose service replied with a verified success.\<close>

definition verified_on :: "'k lab \<Rightarrow> 'k runtime \<Rightarrow> continuity_session \<Rightarrow> continuity_target \<Rightarrow> bool" where
  "verified_on lb rt s t \<longleftrightarrow> cn_state s = C_COMPLETED \<and> cn_target s = Some t
     \<and> tg_node_id t \<in> known rt \<and> trusted_in (ts_records (rn_trust rt)) (tg_node_id t)
     \<and> (\<exists>client r. (if truthy_opt (tg_zarya_url t) then client = lb_at lb (the (tg_zarya_url t))
            else client = ho_zarya (lb_host lb) \<and> zp_is_connected (rn_zarya rt))
          \<and> zcl_continue_work client (cq_portable_work (cn_request s)) (cq_source_device_id (cn_request s)) (cn_continuity_id s) = Inr r
          \<and> zc_outcome r = VERIFIED_SUCCESS \<and> cn_operation_id s = Some (zc_operation_id r))"

text \<open>The target comes first in the ranking: no other usable candidate does better on the constraints.\<close>

definition first_choice :: "nav_constraints \<Rightarrow> nav_candidate list \<Rightarrow> string \<Rightarrow> bool" where
  "first_choice k cs n \<longleftrightarrow> (\<exists>c \<in> set cs. eligible k c \<and> nc_node_id c = n
     \<and> (\<forall>d \<in> set cs. eligible k d \<longrightarrow> ranking_key k c \<le> ranking_key k d))"

definition work_candidates :: "'k lab \<Rightarrow> 'k runtime \<Rightarrow> nav_candidate list" where
  "work_candidates lb rt = discover_candidates (create_snapshot (rn_registry rt) (lb_now lb) []) ''zarya.work.continue''"

lemma c_target_first:
  assumes "c_target_of env q = Inr t"
  shows "first_choice (cq_target_constraints q) (discover_candidates (cv_snapshot env) ''zarya.work.continue'') (tg_node_id t)
    \<and> tg_device_id t = tg_node_id t"
proof -
  let ?nq = "\<lparr>nq_capability = ''zarya.work.continue'', nq_constraints = cq_target_constraints q\<rparr>"
  have "mk_nav_request ''zarya.work.continue'' (cq_target_constraints q) = Inr ?nq" by (simp add: mk_nav_request_def)
  with assms obtain c where c: "nr_selected (navigate ?nq (cv_snapshot env)) = Some c"
    and t: "tg_node_id t = nc_node_id c" "tg_device_id t = nc_node_id c"
    by (auto simp: c_target_of_def mk_continuity_target_def Let_def split: option.splits sum.splits)
  from evaluate_selected [OF c [unfolded navigate_def]] show ?thesis unfolding first_choice_def using t by auto
qed

lemma completed_session:
  assumes ready: "lab_ready i rt"
    and run: "run_pipeline (continuity_env_of (lb_host lb) (lb_at lb) (lb_now lb) rt) (new_session cid (lb_now lb) q) = Inr s"
    and finished: "cn_state s = C_COMPLETED"
  shows "\<exists>t. verified_on lb rt s t \<and> first_choice (cq_target_constraints q) (work_candidates lb rt) (tg_node_id t)"
proof -
  let ?env = "continuity_env_of (lb_host lb) (lb_at lb) (lb_now lb) rt"
  from pipeline_result [of ?env cid "lb_now lb" q] run finished obtain t rec r where
    target: "cn_target s = Some (t\<lparr>tg_trust_verified := True\<rparr>)" "c_target_of ?env q = Inr t"
    and trust: "cv_trust ?env (tg_device_id t) = Inr rec" "tr_is_trusted rec"
    and reply: "target_reply ?env cid q t = Inr r" "zc_outcome r = VERIFIED_SUCCESS"
    and op: "cn_operation_id s = Some (zc_operation_id r)" by auto
  note keeps = pipeline_keeps [OF run]
  have cands: "discover_candidates (cv_snapshot ?env) ''zarya.work.continue'' = work_candidates lb rt"
    by (simp add: work_candidates_def continuity_env_of_def)
  note choice = c_target_first [OF target(2), unfolded cands]
  then obtain c where c: "c \<in> set (work_candidates lb rt)" "nc_node_id c = tg_node_id t" by (auto simp: first_choice_def)
  have known: "tg_node_id t \<in> known rt"
    using candidate_node_known [OF lab_ready_inv [OF ready] c(1) [unfolded work_candidates_def]] c(2) by simp
  have init: "ts_initialized (rn_trust rt)" using ready by (simp add: lab_ready_def)
  then have "trusted_in (ts_records (rn_trust rt)) (tg_node_id t)"
    using trust choice by (auto simp: continuity_env_of_def get_record_def trust_initialize_def dget_or_def trusted_in_def
        unknown_record_def tr_is_trusted_def split: option.splits)
  moreover obtain client where "if truthy_opt (tg_zarya_url t) then client = lb_at lb (the (tg_zarya_url t))
       else client = ho_zarya (lb_host lb) \<and> zp_is_connected (rn_zarya rt)"
    and "zcl_continue_work client (cq_portable_work q) (cq_source_device_id q) cid = Inr r"
    using reply(1) by atomize_elim (auto simp: target_reply_def zp_continue_work_def continuity_env_of_def
        truthy_opt_def split: if_splits)
  ultimately have "verified_on lb rt s (t\<lparr>tg_trust_verified := True\<rparr>)"
    unfolding verified_on_def
    by (intro conjI exI [of _ client] exI [of _ r]) (use finished target(1) known reply(2) op keeps in simp_all)
  with choice show ?thesis by (intro exI [of _ "t\<lparr>tg_trust_verified := True\<rparr>"]) simp
qed

text \<open>The first request of a service is always taken; the attempt is then its only session.\<close>

definition only_session :: "continuity_session \<Rightarrow> continuity_service" where
  "only_session s = \<lparr>co_sessions = [(cn_continuity_id s, s)], co_work_continuities = [(cq_work_id (cn_request s), cn_continuity_id s)]\<rparr>"

lemma first_continuity:
  "\<exists>s. run_pipeline env (new_session cid (cv_now env) q) = Inr s \<and> cn_request s = q \<and> cn_continuity_id s = cid
     \<and> c_is_terminal (cn_state s) \<and> request_continuity env cid q new_continuity_service = (Inr s, only_session s)"
proof -
  obtain s where s: "run_pipeline env (new_session cid (cv_now env) q) = Inr s" using pipeline_result by blast
  with pipeline_keeps [OF s] show ?thesis
    by (simp add: request_continuity_def begin_continuity_def new_continuity_service_def store_session_def new_session_def
        only_session_def Let_def)
qed

lemma human_input_asks: "parse_intent HUMAN_INPUT = CONTINUE_WORK"
  unfolding HUMAN_INPUT_def by code_simp

text \<open>What driving the surface comes to.\<close>

definition surface_run :: "'k lab \<Rightarrow> 'k runtime \<Rightarrow> node_identity \<Rightarrow> continuity_session \<Rightarrow> bool" where
  "surface_run lb rt i s \<longleftrightarrow> cn_request s = surface_q (ni_node_id i) \<and> cn_continuity_id s = lb_cids lb 0
     \<and> (\<exists>t. verified_on lb rt s t \<and> first_choice default_constraints (work_candidates lb rt) (tg_node_id t))"

lemma drives_ok:
  assumes ready: "lab_ready i rt"
  shows "\<exists>m st s v. drives lb rt = (Inr (m, st, s), rt\<lparr>rn_continuity := Some v\<rparr>) \<and> (st = SURFACE_COMPLETED \<longleftrightarrow> continuity_ok s)
    \<and> (continuity_ok s \<longleftrightarrow> rt_readiness (rn_tracker rt) = ECO_READY
         \<and> pipeline_end (continuity_env_of (lb_host lb) (lb_at lb) (lb_now lb) rt) (lb_cids lb 0) (surface_q (ni_node_id i)) = C_COMPLETED)
    \<and> (continuity_ok s \<longrightarrow> m = Msg_Done \<and> (\<exists>x. s = Some x \<and> surface_run lb rt i x))"
proof (cases "rt_readiness (rn_tracker rt) = ECO_READY")
  case False
  have same: "rt\<lparr>rn_continuity := rn_continuity rt\<rparr> = rt" by (cases rt) simp
  have v: "rn_continuity rt = Some new_continuity_service" using ready by (simp add: lab_ready_def)
  with False show ?thesis
    by (intro exI [of _ Msg_Not_Ready] exI [of _ SURFACE_DEGRADED] exI [of _ None] exI [of _ new_continuity_service])
      (use same in \<open>simp add: drives_def handle_request_def surface_session_def new_continuity_service_def degraded_response_def
        continuity_ok_def\<close>)
next
  case True
  let ?env = "continuity_env_of (lb_host lb) (lb_at lb) (lb_now lb) rt" and ?cid = "lb_cids lb 0"
  let ?q = "surface_q (ni_node_id i)"
  obtain s where s: "run_pipeline ?env (new_session ?cid (lb_now lb) ?q) = Inr s" "cn_request s = ?q" "cn_continuity_id s = ?cid"
    "c_is_terminal (cn_state s)" "request_continuity ?env ?cid ?q new_continuity_service = (Inr s, only_session s)"
    using first_continuity [of ?env ?cid ?q] by (auto simp: continuity_env_of_def)
  have out: "session_outcome s = Some (outcome_of (cn_state s))"
    using request_settled [OF s(5,4)] by (auto simp: session_outcome_def)
  obtain im where id: "rn_identity rt = Some im" "im_identity im = Some i" using lab_ready_identity [OF ready] by blast
  have v: "rn_continuity rt = Some new_continuity_service" using ready by (simp add: lab_ready_def)
  let ?resp = "continuity_response (Inr s)"
  have "drives lb rt = (Inr (rp_message ?resp, rp_state ?resp, Some s), rt\<lparr>rn_continuity := Some (only_session s)\<rparr>)"
    using True human_input_asks s(2,5) v continue_work_reaches [OF v id]
    by (simp add: drives_def handle_request_def handle_continue_work_def create_request_def surface_session_def only_session_def Let_def)
  moreover have "rp_state ?resp = SURFACE_COMPLETED \<longleftrightarrow> cn_state s = C_COMPLETED"
    "cn_state s = C_COMPLETED \<Longrightarrow> rp_message ?resp = Msg_Done"
    using out by (auto simp: continuity_response_def succeeds_iff success_response_def failure_response_def)
  moreover have "cn_state s = pipeline_end ?env ?cid ?q" using pipeline_result [of ?env ?cid "lb_now lb" ?q] s(1) by auto
  moreover have "surface_run lb rt i s" if "cn_state s = C_COMPLETED"
    using completed_session [OF ready s(1) that] s(2,3) by (auto simp: surface_run_def surface_q_def)
  ultimately show ?thesis
    by (intro exI [of _ "rp_message ?resp"] exI [of _ "rp_state ?resp"] exI [of _ "Some s"] exI [of _ "only_session s"])
      (auto simp: continuity_ok_def True)
qed

subsection \<open>The frame of a run\<close>

lemma stop_frame:
  "stop now rt = (res, rt') \<Longrightarrow> rn_continuity rt' = rn_continuity rt \<and> rn_identity rt' = rn_identity rt
     \<and> rn_registry rt' = rn_registry rt \<and> rn_trust rt' = rn_trust rt \<and> rn_zarya rt' = rn_zarya rt"
  by (auto simp: stop_def stop_services_def Let_def dest!: set_status_frame split: if_splits option.splits prod.splits)

text \<open>What a run of a validator leaves when its start succeeded: the evidence of its probe, and the runtime stopped.\<close>

definition ran_probe ::
  "'k lab \<Rightarrow> ('z evidence_scheme \<Rightarrow> 'k runtime \<Rightarrow> exn option \<times> 'z evidence_scheme \<times> 'k runtime) \<Rightarrow> 'z evidence_scheme
     \<Rightarrow> node_identity \<Rightarrow> 'k runtime \<Rightarrow> exn option \<Rightarrow> 'z evidence_scheme \<Rightarrow> 'k runtime \<Rightarrow> 'k runtime \<Rightarrow> bool" where
  "ran_probe lb probe ev i rt1 raised ev' rt2 rt \<longleftrightarrow> lab_ready i rt1 \<and> probe ev rt1 = (raised, ev', rt2)
     \<and> status rt = STOPPED \<and> services_off rt \<and> rn_continuity rt = rn_continuity rt2 \<and> rn_identity rt = rn_identity rt2
     \<and> rn_registry rt = rn_registry rt2 \<and> rn_trust rt = rn_trust rt2 \<and> rn_zarya rt = rn_zarya rt2"

definition keeps_running ::
  "('z evidence_scheme \<Rightarrow> 'k runtime \<Rightarrow> exn option \<times> 'z evidence_scheme \<times> 'k runtime) \<Rightarrow> bool" where
  "keeps_running probe \<longleftrightarrow> (\<forall>i rt ev raised ev' rt'. lab_ready i rt \<longrightarrow> probe ev rt = (raised, ev', rt') \<longrightarrow> status rt' = RUNNING)"

lemma validate_with_ends:
  assumes run: "validate_with lb name a first probe = (res, rt)" and keeps: "keeps_running probe"
  shows "case res of
      Inl e \<Rightarrow> start (lb_host lb) (lb_clock lb) (validator_runtime lb name a) = (Some e, rt)
    | Inr ev \<Rightarrow> \<exists>i rt1 raised ev' rt2. ran_probe lb probe (first rt1) i rt1 raised ev' rt2 rt
        \<and> ev = (case raised of None \<Rightarrow> ev' | Some e \<Rightarrow> with_error (exn_msg e) ev')"
proof -
  obtain x rt1 where s: "start (lb_host lb) (lb_clock lb) (validator_runtime lb name a) = (x, rt1)" by (meson surj_pair)
  show ?thesis
  proof (cases x)
    case (Some e)
    with run s show ?thesis by (auto simp: validate_with_def)
  next
    case None
    obtain i where ready: "lab_ready i rt1" using validator_started s None by blast
    obtain raised ev' rt2 where p: "probe (first rt1) rt1 = (raised, ev', rt2)" by (meson prod_cases3)
    have "status rt2 = RUNNING" using keeps ready p unfolding keeps_running_def by blast
    with stop_runs [of rt2 "lb_fin lb"] obtain rt3 where
      st: "stop (lb_fin lb) rt2 = (None, rt3)" "status rt3 = STOPPED" "services_off rt3" by auto
    with run s None p have out: "rt = rt3" "res = Inr (case raised of None \<Rightarrow> ev' | Some e \<Rightarrow> with_error (exn_msg e) ev')"
      by (simp_all add: validate_with_def)
    have "ran_probe lb probe (first rt1) i rt1 raised ev' rt2 rt3"
      using ready p st stop_frame [OF st(1)] by (simp add: ran_probe_def)
    then show ?thesis unfolding out sum.case by (intro exI conjI) (assumption, rule refl)
  qed
qed

text \<open>The state in which work is asked for: the found node is known and trusted.\<close>

definition prepared :: "validator_args \<Rightarrow> node_identity \<Rightarrow> string \<Rightarrow> disc_node \<Rightarrow> 'k runtime \<Rightarrow> bool" where
  "prepared a i j d rt \<longleftrightarrow> lab_ready i rt \<and> j \<noteq> [] \<and> suits (va_target_ip a) d \<and> (j, d) \<in> set (er_nodes (rn_registry rt))
     \<and> trusted_in (ts_records (rn_trust rt)) j"

lemma grants_prepared:
  assumes found: "discover_target fc (va_target_ip a) tick turns n k rt = (Inr (Some (j, d)), rt1)" and ready: "lab_ready i rt"
  shows "\<exists>res rt2. grants_trust lb name j rt1 = (res, rt2) \<and> prepared a i j d rt2 \<and> only_trust rt1 rt2
    \<and> res = (case td_write_error (rn_trust_disk rt1) of None \<Rightarrow> Inr True | Some m \<Rightarrow> Inl (trust_store_error m))
    \<and> ts_records (rn_trust rt2) = dset j (granted_record (lb_now lb) j None REL_PEER name None
         (dget (ts_records (rn_trust rt1)) j)) (ts_records (rn_trust rt1))"
proof -
  from discover_target_ok [OF found ready] have r1: "lab_ready i rt1" "j \<noteq> []" "suits (va_target_ip a) d"
    "(j, d) \<in> set (er_nodes (rn_registry rt1))" by auto
  then have "ts_initialized (rn_trust rt1)" by (simp add: lab_ready_def)
  from grants_trust_ok [OF this] obtain res rt2 where g: "grants_trust lb name j rt1 = (res, rt2)" "only_trust rt1 rt2"
    "ts_initialized (rn_trust rt2)"
    "res = (case td_write_error (rn_trust_disk rt1) of None \<Rightarrow> Inr True | Some m \<Rightarrow> Inl (trust_store_error m))"
    "ts_records (rn_trust rt2) = dset j (granted_record (lb_now lb) j None REL_PEER name None
         (dget (ts_records (rn_trust rt1)) j)) (ts_records (rn_trust rt1))" by blast
  have "prepared a i j d rt2"
    using only_trust_ready [OF r1(1) g(2,3)] r1 only_trust_frame [OF g(2)] g(5)
    by (simp add: prepared_def same_view_def trusted_in_def)
  with g show ?thesis by blast
qed

lemma verified_on_same:
  "rn_registry rt' = rn_registry rt \<Longrightarrow> rn_trust rt' = rn_trust rt \<Longrightarrow> rn_zarya rt' = rn_zarya rt \<Longrightarrow>
     verified_on lb rt' s t = verified_on lb rt s t"
  by (simp add: verified_on_def known_def)

lemma work_candidates_same: "rn_registry rt' = rn_registry rt \<Longrightarrow> work_candidates lb rt' = work_candidates lb rt"
  by (simp add: work_candidates_def)

text \<open>Without constraints a usable candidate of the node itself comes before the found node; with it preferred, it comes first.\<close>

lemma own_node_first:
  assumes I: "node_inv rt" and found: "(j, d) \<in> set (er_nodes (rn_registry rt))" "\<not> dn_is_local d"
    and choice: "first_choice default_constraints (work_candidates lb rt) n"
    and own: "c \<in> set (work_candidates lb rt)" "eligible default_constraints c" "nc_is_local c"
  shows "n \<noteq> j"
proof
  assume n: "n = j"
  from choice own obtain c' where c': "c' \<in> set (work_candidates lb rt)" "nc_node_id c' = n"
    "ranking_key default_constraints c' \<le> ranking_key default_constraints c" unfolding first_choice_def by blast
  then have is_local: "nc_is_local c'" using own(3) by (simp add: ranking_key_def default_constraints_def split: if_splits)
  have ok: "er_ok (rn_registry rt)" using I by (simp add: node_inv_def nodes_ok_def)
  then have dict: "dict_ok (er_nodes (rn_registry rt))" by (simp add: er_ok_def keyed_def)
  from c'(1) obtain m p dc where m: "m \<in> set (dvals (er_nodes (rn_registry rt)))" "c' = mk_candidate m p dc"
    unfolding work_candidates_def discover_candidates_mem by (auto simp: create_snapshot_def simp del: set_map)
  from m(1) obtain key where key: "dget (er_nodes (rn_registry rt)) key = Some m" unfolding dvals_mem [OF dict] by blast
  have "dn_node_id m = key" using er_get_id [OF ok] key by (simp add: er_get_node_def)
  then have "key = j" using c'(2) m(2) n by (simp add: mk_candidate_def)
  moreover have "dget (er_nodes (rn_registry rt)) j = Some d" using found(1) dict by (simp add: dict_ok_mem)
  ultimately have "m = d" using key by simp
  with is_local m(2) found(2) show False by (simp add: mk_candidate_def)
qed

lemma preferred_node_first:
  assumes choice: "first_choice (default_constraints\<lparr>nk_preferred_node := Some j\<rparr>) cs n"
    and cand: "c \<in> set cs" "eligible (default_constraints\<lparr>nk_preferred_node := Some j\<rparr>) c" "nc_node_id c = j"
  shows "n = j"
proof -
  from choice cand obtain c' where c': "nc_node_id c' = n"
    "ranking_key (default_constraints\<lparr>nk_preferred_node := Some j\<rparr>) c' \<le> ranking_key (default_constraints\<lparr>nk_preferred_node := Some j\<rparr>) c"
    unfolding first_choice_def by blast
  then show ?thesis using cand(3) by (simp add: ranking_key_def split: if_splits)
qed

subsection \<open>The verdict of the surface validators\<close>

lemma with_error_simps [simp]:
  "ev_source (with_error m ev) = ev_source ev" "ev_errors (with_error m ev) = ev_errors ev @ [m]"
  "se_verified (with_error m ev7) = se_verified ev7" "e4_verified (with_error m ev4) = e4_verified ev4"
  "e3_continuation_pass (with_error m ev3) = e3_continuation_pass ev3" "ev_target (with_error m ev) = ev_target ev"
  "ev_discovered (with_error m ev) = ev_discovered ev" "ev_trusted (with_error m ev) = ev_trusted ev"
  "ev_continuity (with_error m ev) = ev_continuity ev"
  by (simp_all add: with_error_def)

text \<open>What a verdict rests on, in the state a probe leaves.\<close>

definition proved_continuation ::
  "'k lab \<Rightarrow> validator_args \<Rightarrow> node_identity \<Rightarrow> 'z evidence_scheme \<Rightarrow> 'k runtime \<Rightarrow> bool" where
  "proved_continuation lb a i ev rt \<longleftrightarrow> (\<exists>j d s rt1 v. prepared a i j d rt1 \<and> rt = rt1\<lparr>rn_continuity := Some v\<rparr>
     \<and> ev_target ev = Some j \<and> ev_continuity ev = Some s \<and> surface_run lb rt1 i s)"

lemma lab_ready_running: "lab_ready i rt \<Longrightarrow> status rt = RUNNING \<and> node_of rt = Some i"
  by (simp add: lab_ready_def)

lemma drives_running:
  assumes "lab_ready i rt" and "drives lb rt = (r, rt')"
  shows "status rt' = RUNNING \<and> node_of rt' = Some i"
  using drives_ok [OF assms(1), of lb] assms by (auto simp: lab_ready_def node_of_def)

lemma probe_9_ok:
  assumes ready: "lab_ready i rt" and run: "probe_9 lb a ev rt = (raised, ev', rt')"
  shows "status rt' = RUNNING \<and> node_of rt' = Some i \<and> ev_source ev' = ev_source ev
    \<and> (se_verified ev' \<and> \<not> se_verified ev \<longrightarrow> raised = None \<and> ev_errors ev' = ev_errors ev \<and> e9_hash_matched ev'
         \<and> proved_continuation lb a i ev' rt')"
proof -
  obtain x rt1 where x: "discover_target (ho_flux (lb_host lb)) (va_target_ip a) (lb_tick lb) (lb_turns lb) 30 0 rt = (x, rt1)"
    by (meson surj_pair)
  have r1: "lab_ready i rt1" using discover_target_ok [OF x ready] by simp
  note n1 = lab_ready_running [OF r1]
  show ?thesis
  proof (cases "\<exists>j d. x = Inr (Some (j, d))")
    case False
    then consider e where "x = Inl e" | "x = Inr None" by (metis obj_sumE option.exhaust surj_pair)
    then show ?thesis using run x n1 by cases (auto simp: probe_9_def)
  next
    case True
    then obtain j d where j: "x = Inr (Some (j, d))" by blast
    have "ts_initialized (rn_trust rt1)" using r1 by (simp add: lab_ready_def)
    note asked = asks_trust_loaded [OF this, of lb j]
    obtain res rt2 where g: "grants_trust lb ''machine-b-s17.9.1-peer'' j rt1 = (res, rt2)" "prepared a i j d rt2"
      "res = (case td_write_error (rn_trust_disk rt1) of None \<Rightarrow> Inr True | Some m \<Rightarrow> Inl (trust_store_error m))"
      using grants_prepared [OF x [unfolded j] ready, of lb "''machine-b-s17.9.1-peer''"] by blast
    have r2: "lab_ready i rt2" using g(2) by (simp add: prepared_def)
    note n2 = lab_ready_running [OF r2]
    show ?thesis
    proof (cases "td_write_error (rn_trust_disk rt1)")
      case (Some m)
      then show ?thesis using run x j asked g(1,3) n2 by (auto simp: probe_9_def Let_def split: if_splits)
    next
      case None
      from drives_ok [OF r2, of lb] obtain m st s v where dr: "drives lb rt2 = (Inr (m, st, s), rt2\<lparr>rn_continuity := Some v\<rparr>)"
        and ok: "continuity_ok s \<longrightarrow> m = Msg_Done \<and> (\<exists>x. s = Some x \<and> surface_run lb rt2 i x)" by blast
      have out: "raised = None" "rt' = rt2\<lparr>rn_continuity := Some v\<rparr>" "ev_target ev' = Some j" "ev_continuity ev' = s"
        "ev_source ev' = ev_source ev" "ev_errors ev' = ev_errors ev" "e9_hash_matched ev'" "se_verified ev' \<longrightarrow> continuity_ok s"
        using run x j asked g(1,3) None dr by (auto simp: probe_9_def verdict_9_def Let_def split: if_splits)
      have "proved_continuation lb a i ev' rt'" if "se_verified ev'"
        unfolding proved_continuation_def using that ok out g(2) by blast
      moreover have "status rt' = RUNNING \<and> node_of rt' = Some i" using n2 out(2) by (simp add: node_of_def)
      ultimately show ?thesis using out by simp
    qed
  qed
qed

text \<open>
  C24. The verdict of the last validator, from the start of its runtime. What the start raises is raised; otherwise
  the runtime ends STOPPED and there is evidence. A verdict \<open>verified\<close> comes without errors: another available node was found
  at the address asked for and is trusted, and the surface's session completed on a trusted node of the ecosystem whose
  service replied with a verified success. But the target is the first choice of the navigation without constraints: where a usable service of the
  node itself was known, it is not the node that was found.
\<close>

theorem surface_validator_verdict:
  assumes run: "run_source_9 lb a = (res, rt)"
  shows "case res of
      Inl e \<Rightarrow> start (lb_host lb) (lb_clock lb) (validator_runtime lb ''machine-a-source-s17.9.1'' a) = (Some e, rt)
    | Inr ev \<Rightarrow> status rt = STOPPED \<and> services_off rt \<and> (se_verified ev \<longrightarrow> ev_errors ev = [] \<and>
        (\<exists>i j d s t. node_of rt = Some i \<and> ev_source ev = ni_node_id i
           \<and> ev_target ev = Some j \<and> (j, d) \<in> set (er_nodes (rn_registry rt)) \<and> suits (va_target_ip a) d
           \<and> trusted_in (ts_records (rn_trust rt)) j
           \<and> ev_continuity ev = Some s \<and> cn_request s = surface_q (ni_node_id i) \<and> verified_on lb rt s t
           \<and> first_choice default_constraints (work_candidates lb rt) (tg_node_id t)
           \<and> ((\<exists>c \<in> set (work_candidates lb rt). eligible default_constraints c \<and> nc_is_local c) \<longrightarrow> tg_node_id t \<noteq> j)))"
proof -
  have keeps: "keeps_running (probe_9 lb a)" unfolding keeps_running_def using probe_9_ok by blast
  note ends = validate_with_ends [OF run [unfolded run_source_9_def] keeps]
  show ?thesis
  proof (cases res)
    case (Inl e)
    with ends show ?thesis by simp
  next
    case (Inr ev)
    with ends obtain i rt1 raised ev' rt2 where p: "ran_probe lb (probe_9 lb a) (first_9 rt1) i rt1 raised ev' rt2 rt"
      and ev: "ev = (case raised of None \<Rightarrow> ev' | Some e \<Rightarrow> with_error (exn_msg e) ev')" by auto
    have ready: "lab_ready i rt1" and run2: "probe_9 lb a (first_9 rt1) rt1 = (raised, ev', rt2)"
      and off: "status rt = STOPPED" "services_off rt" and same: "rn_identity rt = rn_identity rt2" "rn_registry rt = rn_registry rt2"
        "rn_trust rt = rn_trust rt2" "rn_zarya rt = rn_zarya rt2" using p by (auto simp: ran_probe_def)
    note ok = probe_9_ok [OF ready run2]
    have first: "\<not> se_verified (first_9 rt1)" "ev_errors (first_9 rt1) = []" "ev_source (first_9 rt1) = ni_node_id i"
      using lab_ready_running [OF ready] by (simp_all add: first_9_def source_id_def)
    have node: "node_of rt = Some i" using ok same(1) by (simp add: node_of_def)
    show ?thesis
    proof (cases "se_verified ev")
      case False
      with Inr off show ?thesis by simp
    next
      case True
      with ev have "se_verified ev'" by (cases raised) simp_all
      with ok first ev have ev': "ev = ev'" "ev_errors ev = []" and proved: "proved_continuation lb a i ev rt2" by auto
      then obtain j d s rt3 v t where j: "prepared a i j d rt3" "rt2 = rt3\<lparr>rn_continuity := Some v\<rparr>" "ev_target ev = Some j"
        "ev_continuity ev = Some s" and s: "cn_request s = surface_q (ni_node_id i)" "verified_on lb rt3 s t"
        "first_choice default_constraints (work_candidates lb rt3) (tg_node_id t)"
        unfolding proved_continuation_def surface_run_def by blast
      have eq: "rn_registry rt = rn_registry rt3" "rn_trust rt = rn_trust rt3" "rn_zarya rt = rn_zarya rt3"
        using same j(2) by simp_all
      have facts: "(j, d) \<in> set (er_nodes (rn_registry rt3))" "suits (va_target_ip a) d" "trusted_in (ts_records (rn_trust rt3)) j"
        and I: "node_inv rt3" using j(1) lab_ready_inv by (auto simp: prepared_def)
      from own_node_first [OF I facts(1) _ s(3)] facts(2)
      have own: "(\<exists>c \<in> set (work_candidates lb rt3). eligible default_constraints c \<and> nc_is_local c) \<longrightarrow> tg_node_id t \<noteq> j"
        by (auto simp: suits_def)
      have "ev_source ev = ni_node_id i" using ok first(3) ev'(1) by simp
      with Inr off ev' node j(3,4) facts s own show ?thesis
        by (simp add: eq verified_on_same [OF eq] work_candidates_same [OF eq(1)])
          blast
    qed
  qed
qed

subsection \<open>The two surface validators agree\<close>

text \<open>An attempt ends the same way when the trust records differ in what the attempt does not read.\<close>

lemma pipeline_end_statuses:
  assumes same: "cv_snapshot env' = cv_snapshot env" "cv_flux_client env' = cv_flux_client env" "cv_flux env' = cv_flux env"
      "cv_zarya_client env' = cv_zarya_client env" "cv_zarya_at env' = cv_zarya_at env" "cv_zarya env' = cv_zarya env"
    and trust: "\<And>n. map_sum id tr_status (cv_trust env' n) = map_sum id tr_status (cv_trust env n)"
  shows "pipeline_end env' cid q = pipeline_end env cid q"
proof -
  have transfer: "c_transfer_all env' peer files tid = c_transfer_all env peer files tid" for peer files tid
    by (induction files arbitrary: tid) (simp_all add: same split: sum.split)
  have target: "c_target_of env' q = c_target_of env q" unfolding c_target_of_def same ..
  have reply: "target_reply env' cid q t = target_reply env cid q t" for t by (simp add: target_reply_def same)
  have trust_case: "(case cv_trust env' n of Inl e \<Rightarrow> x | Inr rec \<Rightarrow> if tr_status rec \<noteq> TRUST_TRUSTED then x else y)
      = (case cv_trust env n of Inl e \<Rightarrow> x | Inr rec \<Rightarrow> if tr_status rec \<noteq> TRUST_TRUSTED then x else y)"
    for n and x y :: continuity_state
    using trust [of n] by (cases "cv_trust env' n"; cases "cv_trust env n") auto
  show ?thesis unfolding pipeline_end_def transfer target reply trust_case ..
qed

lemma granted_status [simp]: "tr_status (granted_record now n key rel name meta x) = TRUST_TRUSTED"
  using granted_trusted [of now n key rel name meta x] by (simp add: tr_is_trusted_def)

lemma same_grant_end:
  assumes g: "prepared a i j d rt2" "only_trust rt1 rt2" "ts_records (rn_trust rt2)
      = dset j (granted_record (lb_now lb) j None REL_PEER name None (dget (ts_records (rn_trust rt1)) j)) (ts_records (rn_trust rt1))"
    and g': "prepared a i j d rt2'" "only_trust rt1 rt2'" "ts_records (rn_trust rt2')
      = dset j (granted_record (lb_now lb) j None REL_PEER name' None (dget (ts_records (rn_trust rt1)) j)) (ts_records (rn_trust rt1))"
  shows "pipeline_end (continuity_env_of ho at now rt2') cid q = pipeline_end (continuity_env_of ho at now rt2) cid q"
proof (rule pipeline_end_statuses)
  note f = only_trust_frame [OF g(2)] only_trust_frame [OF g'(2)]
  show "cv_snapshot (continuity_env_of ho at now rt2') = cv_snapshot (continuity_env_of ho at now rt2)"
    "cv_flux_client (continuity_env_of ho at now rt2') = cv_flux_client (continuity_env_of ho at now rt2)"
    "cv_flux (continuity_env_of ho at now rt2') = cv_flux (continuity_env_of ho at now rt2)"
    "cv_zarya_client (continuity_env_of ho at now rt2') = cv_zarya_client (continuity_env_of ho at now rt2)"
    "cv_zarya_at (continuity_env_of ho at now rt2') = cv_zarya_at (continuity_env_of ho at now rt2)"
    "cv_zarya (continuity_env_of ho at now rt2') = cv_zarya (continuity_env_of ho at now rt2)"
    using f by (simp_all add: continuity_env_of_def same_view_def)
  have "ts_initialized (rn_trust rt2)" "ts_initialized (rn_trust rt2')" using g(1) g'(1) by (simp_all add: prepared_def lab_ready_def)
  then show "map_sum id tr_status (cv_trust (continuity_env_of ho at now rt2') n)
      = map_sum id tr_status (cv_trust (continuity_env_of ho at now rt2) n)" for n
    by (simp add: continuity_env_of_def get_record_def trust_initialize_def dget_or_def g(3) g'(3))
qed

text \<open>
  C27. The last validator's verdict is the surface validator's. On the same started runtime and whatever the event loop,
  the services and the disk answer, both find the same node or fail with the same errors and reach the same verdict: the question
  whether the node is trusted before the grant and the comparison of the digests change nothing, since the digest of the target is a copy
  of the source's.
\<close>

theorem validators_agree:
  assumes ready: "lab_ready i rt" and ev: "\<not> se_verified ev" "\<not> se_verified ev'" "ev_errors ev' = ev_errors ev"
    and run7: "probe_7 lb a ev rt = (raised, out, rt1)" and run9: "probe_9 lb a ev' rt = (raised', out', rt1')"
  shows "raised' = raised \<and> ev_errors out' = ev_errors out \<and> se_verified out' = se_verified out
    \<and> (se_verified out \<longrightarrow> ev_target out' = ev_target out \<and> e9_hash_matched out')"
proof -
  obtain x rt2 where x: "discover_target (ho_flux (lb_host lb)) (va_target_ip a) (lb_tick lb) (lb_turns lb) 30 0 rt = (x, rt2)"
    by (meson surj_pair)
  have r2: "lab_ready i rt2" using discover_target_ok [OF x ready] by simp
  show ?thesis
  proof (cases "\<exists>j d. x = Inr (Some (j, d))")
    case False
    then consider e where "x = Inl e" | "x = Inr None" by (metis obj_sumE option.exhaust surj_pair)
    then show ?thesis using run7 run9 x ev by cases (auto simp: probe_7_def probe_9_def)
  next
    case True
    then obtain j d where j: "x = Inr (Some (j, d))" by blast
    have "ts_initialized (rn_trust rt2)" using r2 by (simp add: lab_ready_def)
    note asked = asks_trust_loaded [OF this, of lb j]
    obtain r7 rt7 where g7: "grants_trust lb ''machine-b-s17.7-peer'' j rt2 = (r7, rt7)" "prepared a i j d rt7" "only_trust rt2 rt7"
      "r7 = (case td_write_error (rn_trust_disk rt2) of None \<Rightarrow> Inr True | Some m \<Rightarrow> Inl (trust_store_error m))"
      "ts_records (rn_trust rt7) = dset j (granted_record (lb_now lb) j None REL_PEER ''machine-b-s17.7-peer'' None
         (dget (ts_records (rn_trust rt2)) j)) (ts_records (rn_trust rt2))"
      using grants_prepared [OF x [unfolded j] ready, of lb "''machine-b-s17.7-peer''"] by blast
    obtain r9 rt9 where g9: "grants_trust lb ''machine-b-s17.9.1-peer'' j rt2 = (r9, rt9)" "prepared a i j d rt9" "only_trust rt2 rt9"
      "r9 = (case td_write_error (rn_trust_disk rt2) of None \<Rightarrow> Inr True | Some m \<Rightarrow> Inl (trust_store_error m))"
      "ts_records (rn_trust rt9) = dset j (granted_record (lb_now lb) j None REL_PEER ''machine-b-s17.9.1-peer'' None
         (dget (ts_records (rn_trust rt2)) j)) (ts_records (rn_trust rt2))"
      using grants_prepared [OF x [unfolded j] ready, of lb "''machine-b-s17.9.1-peer''"] by blast
    show ?thesis
    proof (cases "td_write_error (rn_trust_disk rt2)")
      case (Some m)
      then show ?thesis using run7 run9 x j asked g7(1,4) g9(1,4) ev
        by (auto simp: probe_7_def probe_9_def Let_def split: if_splits)
    next
      case None
      have ready7: "lab_ready i rt7" and ready9: "lab_ready i rt9" using g7(2) g9(2) by (simp_all add: prepared_def)
      let ?ok = "\<lambda>rt. rt_readiness (rn_tracker rt) = ECO_READY
        \<and> pipeline_end (continuity_env_of (lb_host lb) (lb_at lb) (lb_now lb) rt) (lb_cids lb 0) (surface_q (ni_node_id i)) = C_COMPLETED"
      have same: "?ok rt9 \<longleftrightarrow> ?ok rt7"
        using same_grant_end [OF g7(2,3,5) g9(2,3,5)] only_trust_frame [OF g7(3)] only_trust_frame [OF g9(3)] by simp
      obtain m7 st7 s7 v7 where d7: "drives lb rt7 = (Inr (m7, st7, s7), rt7\<lparr>rn_continuity := Some v7\<rparr>)"
        "st7 = SURFACE_COMPLETED \<longleftrightarrow> continuity_ok s7" "continuity_ok s7 \<longleftrightarrow> ?ok rt7"
        using drives_ok [OF ready7, of lb] by blast
      obtain m9 st9 s9 v9 where d9: "drives lb rt9 = (Inr (m9, st9, s9), rt9\<lparr>rn_continuity := Some v9\<rparr>)"
        "st9 = SURFACE_COMPLETED \<longleftrightarrow> continuity_ok s9" "continuity_ok s9 \<longleftrightarrow> ?ok rt9"
        using drives_ok [OF ready9, of lb] by blast
      have "raised = None" "ev_errors out = ev_errors ev" "se_verified out = continuity_ok s7" "ev_target out = Some j"
        using run7 x j g7(1,4) None d7(1,2) by (auto simp: probe_7_def Let_def)
      moreover have "raised' = None" "ev_errors out' = ev_errors ev'" "se_verified out' = continuity_ok s9" "ev_target out' = Some j"
        "e9_hash_matched out'"
        using run9 x j asked g9(1,4) None d9(1,2) by (auto simp: probe_9_def verdict_9_def Let_def split: if_splits)
      ultimately show ?thesis using same d7(3) d9(3) ev(3) by simp
    qed
  qed
qed

subsection \<open>The verdict of the transfer validators\<close>

definition copies_to :: "string \<Rightarrow> string \<Rightarrow> continuity_request \<Rightarrow> bool" where
  "copies_to source j q \<longleftrightarrow> cq_source_device_id q = source
     \<and> cq_target_constraints q = default_constraints\<lparr>nk_preferred_node := Some j\<rparr> \<and> cq_portable_work q \<noteq> []"

lemma strip_work: "strip (CHR ''w'' # x) \<noteq> []"
  by (simp add: strip_def is_space_def char_code_def)

lemma copy_requests_ok:
  "\<exists>q. request_3 lb source j = Inr q \<and> copies_to source j q" "\<exists>q. request_4 lb source j = Inr q \<and> copies_to source j q"
proof -
  have "upper ''COPY'' = ''COPY''" by code_simp
  then show "\<exists>q. request_3 lb source j = Inr q \<and> copies_to source j q" "\<exists>q. request_4 lb source j = Inr q \<and> copies_to source j q"
    using strip_work by (simp_all add: request_3_def request_4_def copy_request_def mk_continuity_request_def copies_to_def)
qed

lemma continues_ready:
  assumes ready: "lab_ready i rt"
  shows "\<exists>s. continues lb cid q rt = (Inr s, rt\<lparr>rn_continuity := Some (only_session s)\<rparr>) \<and> cn_request s = q \<and> cn_continuity_id s = cid
    \<and> c_is_terminal (cn_state s) \<and> (cn_state s = C_COMPLETED \<longrightarrow>
      (\<exists>t. verified_on lb rt s t \<and> first_choice (cq_target_constraints q) (work_candidates lb rt) (tg_node_id t)))"
proof -
  let ?env = "continuity_env_of (lb_host lb) (lb_at lb) (lb_now lb) rt"
  obtain s where s: "run_pipeline ?env (new_session cid (lb_now lb) q) = Inr s" "cn_request s = q" "cn_continuity_id s = cid"
    "c_is_terminal (cn_state s)" "request_continuity ?env cid q new_continuity_service = (Inr s, only_session s)"
    using first_continuity [of ?env cid q] by (auto simp: continuity_env_of_def)
  moreover have "rn_continuity rt = Some new_continuity_service" using ready by (simp add: lab_ready_def)
  ultimately show ?thesis using completed_session [OF ready s(1)] by (intro exI [of _ s]) (simp add: continues_def)
qed

text \<open>What a verdict of these validators rests on, in the state before the work is asked for.\<close>

definition transferred_to ::
  "'k lab \<Rightarrow> validator_args \<Rightarrow> node_identity \<Rightarrow> 'z evidence_scheme \<Rightarrow> 'k runtime \<Rightarrow> continuity_session \<Rightarrow> bool" where
  "transferred_to lb a i ev rt s \<longleftrightarrow> (\<exists>j d. prepared a i j d rt \<and> ev_target ev = Some j \<and> ev_continuity ev = Some s
     \<and> copies_to (ev_source ev) j (cn_request s) \<and> cn_continuity_id s = lb_cids lb 0 \<and> c_is_terminal (cn_state s)
     \<and> (cn_state s = C_COMPLETED \<longrightarrow> (\<exists>t. verified_on lb rt s t
          \<and> ((\<exists>c \<in> set (work_candidates lb rt). eligible (cq_target_constraints (cn_request s)) c \<and> nc_node_id c = j)
               \<longrightarrow> tg_node_id t = j))))"

lemma continues_prepared:
  assumes p: "prepared a i j d rt" and q: "copies_to source j q"
  shows "\<exists>s. continues lb (lb_cids lb 0) q rt = (Inr s, rt\<lparr>rn_continuity := Some (only_session s)\<rparr>) \<and> cn_request s = q
    \<and> (\<forall>ev :: 'z evidence_scheme. ev_target ev = Some j \<longrightarrow> ev_continuity ev = Some s \<longrightarrow> ev_source ev = source
         \<longrightarrow> transferred_to lb a i ev rt s)"
proof -
  have "lab_ready i rt" using p by (simp add: prepared_def)
  from continues_ready [OF this] obtain s where s: "continues lb (lb_cids lb 0) q rt = (Inr s, rt\<lparr>rn_continuity := Some (only_session s)\<rparr>)"
    "cn_request s = q" "cn_continuity_id s = lb_cids lb 0" "c_is_terminal (cn_state s)"
    and completed: "cn_state s = C_COMPLETED \<longrightarrow>
      (\<exists>t. verified_on lb rt s t \<and> first_choice (cq_target_constraints q) (work_candidates lb rt) (tg_node_id t))" by blast
  have k: "cq_target_constraints q = default_constraints\<lparr>nk_preferred_node := Some j\<rparr>" using q by (simp add: copies_to_def)
  have "transferred_to lb a i ev rt s"
    if "ev_target ev = Some j" "ev_continuity ev = Some s" "ev_source ev = source" for ev :: "'z evidence_scheme"
    unfolding transferred_to_def using that p q s completed preferred_node_first [of j "work_candidates lb rt"]
    by (intro exI [of _ j] exI [of _ d]) (auto simp: k)
  with s show ?thesis by blast
qed

lemma probe_3_ok:
  assumes ready: "lab_ready i rt" and run: "probe_3 lb a ev rt = (raised, ev', rt')"
  shows "status rt' = RUNNING \<and> node_of rt' = Some i \<and> ev_source ev' = ev_source ev
    \<and> (e3_continuation_pass ev' \<and> \<not> e3_continuation_pass ev \<longrightarrow> raised = None \<and> ev_errors ev' = ev_errors ev
         \<and> (\<exists>rt1 s. rt' = rt1\<lparr>rn_continuity := Some (only_session s)\<rparr> \<and> cn_state s = C_COMPLETED \<and> transferred_to lb a i ev' rt1 s))"
proof -
  obtain x rt1 where x: "discover_target (ho_flux (lb_host lb)) (va_target_ip a) (lb_tick lb) (lb_turns lb) 20 0 rt = (x, rt1)"
    by (meson surj_pair)
  have r1: "lab_ready i rt1" using discover_target_ok [OF x ready] by simp
  note n1 = lab_ready_running [OF r1]
  show ?thesis
  proof (cases "\<exists>j d. x = Inr (Some (j, d))")
    case False
    then consider e where "x = Inl e" | "x = Inr None" by (metis obj_sumE option.exhaust surj_pair)
    then show ?thesis using run x n1 by cases (auto simp: probe_3_def)
  next
    case True
    then obtain j d where j: "x = Inr (Some (j, d))" by blast
    obtain res rt2 where g: "grants_trust lb ''machine-b-physical-peer'' j rt1 = (res, rt2)" "prepared a i j d rt2"
      "res = (case td_write_error (rn_trust_disk rt1) of None \<Rightarrow> Inr True | Some m \<Rightarrow> Inl (trust_store_error m))"
      using grants_prepared [OF x [unfolded j] ready, of lb "''machine-b-physical-peer''"] by blast
    have n2: "status rt2 = RUNNING \<and> node_of rt2 = Some i" using g(2) lab_ready_running by (auto simp: prepared_def)
    obtain q where q: "request_3 lb (ev_source ev) j = Inr q" "copies_to (ev_source ev) j q" using copy_requests_ok(1) by blast
    obtain s where s: "continues lb (lb_cids lb 0) q rt2 = (Inr s, rt2\<lparr>rn_continuity := Some (only_session s)\<rparr>)"
      and moved: "\<forall>ev1 :: evidence_3. ev_target ev1 = Some j \<longrightarrow> ev_continuity ev1 = Some s \<longrightarrow> ev_source ev1 = ev_source ev
         \<longrightarrow> transferred_to lb a i ev1 rt2 s" using continues_prepared [OF g(2) q(2), of lb] by blast
    show ?thesis
    proof (cases "td_write_error (rn_trust_disk rt1) = None \<and> lb_write_error lb = None")
      case False
      then show ?thesis using run x j g(1,3) n2 by (auto simp: probe_3_def Let_def split: option.splits)
    next
      case True
      then have out: "raised = None" "rt' = rt2\<lparr>rn_continuity := Some (only_session s)\<rparr>" "ev_target ev' = Some j"
        "ev_continuity ev' = Some s" "ev_source ev' = ev_source ev" "ev_errors ev' = ev_errors ev"
        "e3_continuation_pass ev' = (cn_state s = C_COMPLETED)"
        using run x j g(1,3) q(1) s by (auto simp: probe_3_def Let_def)
      have "transferred_to lb a i ev' rt2 s" using moved out(3-5) by blast
      then show ?thesis using out n2 by (auto simp: node_of_def)
    qed
  qed
qed

text \<open>
  C25. The verdict of the first validator, from the start of its runtime. What the start raises is raised; otherwise the
  runtime ends STOPPED and there is evidence. When it passes, there are no errors: another available node was found at the
  address asked for and is trusted, and the session completed on a trusted node whose service replied with a verified
  success. The found node is preferred, not required: it is the target when it offers a usable service, and otherwise another
  node may be.
\<close>

theorem transfer_validator_verdict:
  assumes run: "run_source_3 lb a = (res, rt)"
  shows "case res of
      Inl e \<Rightarrow> start (lb_host lb) (lb_clock lb) (validator_runtime lb ''machine-a-source'' a) = (Some e, rt)
    | Inr ev \<Rightarrow> status rt = STOPPED \<and> services_off rt \<and> (e3_continuation_pass ev \<longrightarrow> ev_errors ev = [] \<and>
        (\<exists>i j d s t. node_of rt = Some i \<and> ev_target ev = Some j \<and> (j, d) \<in> set (er_nodes (rn_registry rt))
           \<and> suits (va_target_ip a) d \<and> trusted_in (ts_records (rn_trust rt)) j
           \<and> ev_continuity ev = Some s \<and> copies_to (ni_node_id i) j (cn_request s) \<and> verified_on lb rt s t
           \<and> ((\<exists>c \<in> set (work_candidates lb rt). eligible (cq_target_constraints (cn_request s)) c \<and> nc_node_id c = j)
                \<longrightarrow> tg_node_id t = j)))"
proof -
  have keeps: "keeps_running (probe_3 lb a)" unfolding keeps_running_def using probe_3_ok by blast
  note ends = validate_with_ends [OF run [unfolded run_source_3_def] keeps]
  show ?thesis
  proof (cases res)
    case (Inl e)
    with ends show ?thesis by simp
  next
    case (Inr ev)
    with ends obtain i rt1 raised ev' rt2 where p: "ran_probe lb (probe_3 lb a) (first_3 rt1) i rt1 raised ev' rt2 rt"
      and ev: "ev = (case raised of None \<Rightarrow> ev' | Some e \<Rightarrow> with_error (exn_msg e) ev')" by auto
    have ready: "lab_ready i rt1" and run2: "probe_3 lb a (first_3 rt1) rt1 = (raised, ev', rt2)"
      and off: "status rt = STOPPED" "services_off rt" and same: "rn_identity rt = rn_identity rt2" "rn_registry rt = rn_registry rt2"
        "rn_trust rt = rn_trust rt2" "rn_zarya rt = rn_zarya rt2" using p by (auto simp: ran_probe_def)
    note ok = probe_3_ok [OF ready run2]
    have first: "\<not> e3_continuation_pass (first_3 rt1)" "ev_errors (first_3 rt1) = []" "ev_source (first_3 rt1) = ni_node_id i"
      using lab_ready_running [OF ready] by (simp_all add: first_3_def source_id_def)
    have node: "node_of rt = Some i" using ok same(1) by (simp add: node_of_def)
    show ?thesis
    proof (cases "e3_continuation_pass ev")
      case False
      with Inr off show ?thesis by simp
    next
      case True
      with ev have "e3_continuation_pass ev'" by (cases raised) simp_all
      with ok first ev obtain rt3 s where ev': "ev = ev'" "ev_errors ev = []" and r3: "rt2 = rt3\<lparr>rn_continuity := Some (only_session s)\<rparr>"
        "cn_state s = C_COMPLETED" and moved: "transferred_to lb a i ev rt3 s" by auto
      then obtain j d t where j: "prepared a i j d rt3" "ev_target ev = Some j" "ev_continuity ev = Some s"
        "copies_to (ev_source ev) j (cn_request s)" "verified_on lb rt3 s t"
        "(\<exists>c \<in> set (work_candidates lb rt3). eligible (cq_target_constraints (cn_request s)) c \<and> nc_node_id c = j) \<longrightarrow> tg_node_id t = j"
        unfolding transferred_to_def by blast
      have eq: "rn_registry rt = rn_registry rt3" "rn_trust rt = rn_trust rt3" "rn_zarya rt = rn_zarya rt3"
        using same r3(1) by simp_all
      have "ev_source ev = ni_node_id i" using ok first(3) ev'(1) by simp
      with Inr off ev' node j show ?thesis
        by (simp add: eq verified_on_same [OF eq] work_candidates_same [OF eq(1)] prepared_def) blast
    qed
  qed
qed

text \<open>A second request for the work of an ended attempt is taken.\<close>

lemma second_continuity:
  assumes "c_is_terminal (cn_state s)" and "cn_continuity_id s \<noteq> cid" and "cn_request s = q"
  shows "\<exists>s2. request_continuity env cid q (only_session s) = (Inr s2, \<lparr>co_sessions = [(cn_continuity_id s, s), (cid, s2)],
       co_work_continuities = [(cq_work_id q, cid)]\<rparr>) \<and> cn_request s2 = q \<and> cn_continuity_id s2 = cid
     \<and> c_is_terminal (cn_state s2) \<and> cn_state s2 = pipeline_end env cid q"
proof -
  obtain s2 where s2: "run_pipeline env (new_session cid (cv_now env) q) = Inr s2" "cn_state s2 = pipeline_end env cid q"
    using pipeline_result by blast
  from pipeline_keeps [OF s2(1)] have "cn_request s2 = q" "cn_continuity_id s2 = cid" "c_is_terminal (cn_state s2)" by simp_all
  with s2 assms show ?thesis
    by (auto simp: request_continuity_def begin_continuity_def only_session_def store_session_def new_session_def Let_def)
qed

lemma repeats_run:
  assumes "rn_continuity rt = Some v"
    and "request_continuity (continuity_env_of (lb_host lb) (lb_at lb) (lb_now lb) rt) (lb_cids lb 1) q v = (x, v')"
  shows "repeats lb q rt = ((case x of Inl e \<Rightarrow> if isinst e (Continuity_Exn DuplicateContinuityError) then None else Some e
     | Inr s \<Rightarrow> None), rt\<lparr>rn_continuity := Some v'\<rparr>)"
  using assms by (simp add: repeats_def continues_def split: sum.split)

lemma probe_4_repeats:
  assumes ready: "lab_ready i rt" and run: "probe_4 lb a ev rt = (raised, ev', rt')"
  shows "status rt' = RUNNING \<and> (ev_continuity ev = None \<and> ev_continuity ev' = Some s \<and> lb_cids lb 0 \<noteq> lb_cids lb 1 \<longrightarrow>
      raised = None \<and> ev_errors ev' = ev_errors ev \<and> e4_verified ev' = (cn_state s = C_COMPLETED)
      \<and> e4_target_sha256 ev' = e4_source_sha256 ev' \<and> e4_integrity_verified ev'
      \<and> (\<exists>rt1 s2 v. rt' = rt1\<lparr>rn_continuity := Some v\<rparr> \<and> co_sessions v = [(lb_cids lb 0, s), (lb_cids lb 1, s2)]
           \<and> cn_request s2 = cn_request s \<and> c_is_terminal (cn_state s2) \<and> transferred_to lb a i ev' rt1 s))"
proof -
  obtain x rt1 where x: "discover_target (ho_flux (lb_host lb)) (va_target_ip a) (lb_tick lb) (lb_turns lb) 30 0 rt = (x, rt1)"
    by (meson surj_pair)
  have r1: "lab_ready i rt1" using discover_target_ok [OF x ready] by simp
  note n1 = lab_ready_running [OF r1]
  show ?thesis
  proof (cases "\<exists>j d. x = Inr (Some (j, d))")
    case False
    then consider e where "x = Inl e" | "x = Inr None" by (metis obj_sumE option.exhaust surj_pair)
    then show ?thesis using run x n1 by cases (auto simp: probe_4_def)
  next
    case True
    then obtain j d where j: "x = Inr (Some (j, d))" by blast
    obtain res rt2 where g: "grants_trust lb ''machine-b-physical-peer'' j rt1 = (res, rt2)" "prepared a i j d rt2"
      "res = (case td_write_error (rn_trust_disk rt1) of None \<Rightarrow> Inr True | Some m \<Rightarrow> Inl (trust_store_error m))"
      using grants_prepared [OF x [unfolded j] ready, of lb "''machine-b-physical-peer''"] by blast
    have n2: "status rt2 = RUNNING" using g(2) lab_ready_running by (auto simp: prepared_def)
    obtain q where q: "request_4 lb (ev_source ev) j = Inr q" "copies_to (ev_source ev) j q" using copy_requests_ok(2) by blast
    obtain s1 where s1: "continues lb (lb_cids lb 0) q rt2 = (Inr s1, rt2\<lparr>rn_continuity := Some (only_session s1)\<rparr>)" "cn_request s1 = q"
      and moved: "\<forall>ev1 :: evidence_4. ev_target ev1 = Some j \<longrightarrow> ev_continuity ev1 = Some s1 \<longrightarrow> ev_source ev1 = ev_source ev
         \<longrightarrow> transferred_to lb a i ev1 rt2 s1" using continues_prepared [OF g(2) q(2), of lb] by blast
    let ?rt = "rt2\<lparr>rn_continuity := Some (only_session s1)\<rparr>"
    let ?env = "continuity_env_of (lb_host lb) (lb_at lb) (lb_now lb) ?rt"
    obtain x2 v2 where req: "request_continuity ?env (lb_cids lb 1) q (only_session s1) = (x2, v2)" by (meson surj_pair)
    let ?r2 = "case x2 of Inl e \<Rightarrow> if isinst e (Continuity_Exn DuplicateContinuityError) then None else Some e | Inr s \<Rightarrow> None"
    have again: "repeats lb q ?rt = (?r2, rt2\<lparr>rn_continuity := Some v2\<rparr>)"
      using repeats_run [OF _ req] by simp
    show ?thesis
    proof (cases "td_write_error (rn_trust_disk rt1) = None \<and> lb_write_error lb = None")
      case False
      then show ?thesis using run x j g(1,3) n2 by (auto simp: probe_4_def Let_def split: option.splits)
    next
      case True
      then have out: "raised = ?r2" "rt' = rt2\<lparr>rn_continuity := Some v2\<rparr>" "ev_target ev' = Some j"
        "ev_continuity ev' = Some s1" "ev_source ev' = ev_source ev" "ev_errors ev' = ev_errors ev"
        "e4_verified ev' = (cn_state s1 = C_COMPLETED)" "e4_target_sha256 ev' = e4_source_sha256 ev'" "e4_integrity_verified ev'"
        using run x j g(1,3) q(1) s1(1) again by (auto simp: probe_4_def Let_def)
      have t: "transferred_to lb a i ev' rt2 s1" using moved out(3-5) by blast
      then have ends: "c_is_terminal (cn_state s1)" "cn_continuity_id s1 = lb_cids lb 0" by (auto simp: transferred_to_def)
      have second: "raised = None \<and> (\<exists>s2. co_sessions v2 = [(lb_cids lb 0, s1), (lb_cids lb 1, s2)] \<and> cn_request s2 = q \<and> c_is_terminal (cn_state s2))"
        if "lb_cids lb 0 \<noteq> lb_cids lb 1"
      proof -
        have fresh: "cn_continuity_id s1 \<noteq> lb_cids lb 1" using that ends(2) by simp
        from second_continuity [OF ends(1) fresh s1(2), of ?env] obtain s2 where
          "(x2, v2) = (Inr s2, \<lparr>co_sessions = [(cn_continuity_id s1, s1), (lb_cids lb 1, s2)],
             co_work_continuities = [(cq_work_id q, lb_cids lb 1)]\<rparr>)" and s2: "cn_request s2 = q" "c_is_terminal (cn_state s2)"
          unfolding req by blast
        then have "x2 = Inr s2" "co_sessions v2 = [(lb_cids lb 0, s1), (lb_cids lb 1, s2)]" using ends(2) by simp_all
        with out(1) s2 show ?thesis by simp
      qed
      have running: "status rt' = RUNNING" using out(2) n2 by simp
      have "raised = None \<and> ev_errors ev' = ev_errors ev \<and> e4_verified ev' = (cn_state s = C_COMPLETED)
          \<and> e4_target_sha256 ev' = e4_source_sha256 ev' \<and> e4_integrity_verified ev'
          \<and> (\<exists>rt1 s2 v. rt' = rt1\<lparr>rn_continuity := Some v\<rparr> \<and> co_sessions v = [(lb_cids lb 0, s), (lb_cids lb 1, s2)]
            \<and> cn_request s2 = cn_request s \<and> c_is_terminal (cn_state s2) \<and> transferred_to lb a i ev' rt1 s)"
        if "ev_continuity ev' = Some s" "lb_cids lb 0 \<noteq> lb_cids lb 1"
      proof -
        have s: "s1 = s" using that(1) out(4) by simp
        from second [OF that(2)] obtain s2 where s2: "raised = None" "co_sessions v2 = [(lb_cids lb 0, s1), (lb_cids lb 1, s2)]"
          "cn_request s2 = q" "c_is_terminal (cn_state s2)" by blast
        have "rt' = rt2\<lparr>rn_continuity := Some v2\<rparr> \<and> co_sessions v2 = [(lb_cids lb 0, s), (lb_cids lb 1, s2)]
            \<and> cn_request s2 = cn_request s \<and> c_is_terminal (cn_state s2) \<and> transferred_to lb a i ev' rt2 s"
          using out(2) s2 t s1(2) by (simp add: s)
        with s2(1) out(6-9) show ?thesis unfolding s by blast
      qed
      with running show ?thesis by blast
    qed
  qed
qed

text \<open>
  C26. The check for duplicates of the second validator repeats the work. Once its first attempt has ended, for better or worse, the
  request that should be refused as a duplicate is always taken: nothing is raised, and the service holds a second ended attempt for the
  same work. The verdict is the state of the first attempt alone, and the digest of the target, from which integrity is reported as verified, is a
  copy of the source's.
\<close>

theorem duplicate_check_repeats:
  assumes ready: "lab_ready i rt" and run: "probe_4 lb a (first_4 rt) rt = (raised, ev, rt')"
    and asked: "ev_continuity ev = Some s" and fresh: "lb_cids lb 0 \<noteq> lb_cids lb 1"
  shows "raised = None \<and> ev_errors ev = [] \<and> e4_verified ev = (cn_state s = C_COMPLETED)
    \<and> e4_target_sha256 ev = e4_source_sha256 ev \<and> e4_integrity_verified ev
    \<and> (\<exists>rt1 s2 v. rt' = rt1\<lparr>rn_continuity := Some v\<rparr> \<and> co_sessions v = [(lb_cids lb 0, s), (lb_cids lb 1, s2)]
         \<and> cn_request s2 = cn_request s \<and> c_is_terminal (cn_state s2) \<and> transferred_to lb a i ev rt1 s)"
  using probe_4_repeats [OF ready run, of s] asked fresh by (simp add: first_4_def)

subsection \<open>Every run stops its runtime\<close>

lemma probe_7_running:
  assumes ready: "lab_ready i rt" and run: "probe_7 lb a ev rt = (raised, ev', rt')"
  shows "status rt' = RUNNING"
proof -
  obtain x rt1 where x: "discover_target (ho_flux (lb_host lb)) (va_target_ip a) (lb_tick lb) (lb_turns lb) 30 0 rt = (x, rt1)"
    by (meson surj_pair)
  have r1: "lab_ready i rt1" using discover_target_ok [OF x ready] by simp
  show ?thesis
  proof (cases "\<exists>j d. x = Inr (Some (j, d))")
    case False
    then consider e where "x = Inl e" | "x = Inr None" by (metis obj_sumE option.exhaust surj_pair)
    then show ?thesis using run x lab_ready_running [OF r1] by cases (auto simp: probe_7_def)
  next
    case True
    then obtain j d where j: "x = Inr (Some (j, d))" by blast
    obtain res rt2 where g: "grants_trust lb ''machine-b-s17.7-peer'' j rt1 = (res, rt2)" "prepared a i j d rt2"
      using grants_prepared [OF x [unfolded j] ready, of lb "''machine-b-s17.7-peer''"] by blast
    then have r2: "lab_ready i rt2" by (simp add: prepared_def)
    obtain y rt3 where y: "drives lb rt2 = (y, rt3)" by (meson surj_pair)
    from run x j g(1) y lab_ready_running [OF r2] drives_running [OF r2 y] show ?thesis
      by (auto simp: probe_7_def Let_def split: sum.splits bool.splits)
  qed
qed

lemma serve_running: "lab_ready i rt \<Longrightarrow> serve lb looks n k rt = (res, rt') \<Longrightarrow> status rt' = RUNNING \<and> (looks \<or> res = None)"
proof (induction n arbitrary: k rt)
  case 0
  then show ?case using lab_ready_running by auto
next
  case (Suc n)
  let ?rt1 = "run_tasks (lb_turns lb k) rt"
  have r1: "runtime_reachable ?rt1" using Suc.prems(1) by (simp add: lab_ready_def run_tasks_reachable)
  have l1: "lab_ready i ?rt1" by (rule lab_ready_same [OF Suc.prems(1) run_tasks_services r1])
  obtain x rt2 where x: "get_ecosystem_snapshot (ho_flux (lb_host lb)) (lb_tick lb (2 * k)) (lb_tick lb (2 * k + 1)) ?rt1 = (x, rt2)"
    by (meson surj_pair)
  have l2: "lab_ready i rt2"
    by (rule lab_ready_same [OF l1]) (use get_ecosystem_snapshot_services [OF x] runtime_reachable.steps [OF r1 looks [OF x]] in simp_all)
  show ?case
  proof (cases looks)
    case False
    with Suc.prems(2) Suc.IH [OF l1, of "Suc k"] show ?thesis by (simp add: Let_def)
  next
    case True
    with Suc.prems(2) x Suc.IH [OF l2, of "Suc k"] lab_ready_running [OF l2] show ?thesis by (cases x) (auto simp: Let_def)
  qed
qed

lemma serve_with_stops:
  assumes "serve_with lb name a looks n = (res, rt)"
  shows "if fst (start (lb_host lb) (lb_clock lb) (validator_runtime lb name a)) \<noteq> None
    then start (lb_host lb) (lb_clock lb) (validator_runtime lb name a) = (res, rt)
    else status rt = STOPPED \<and> services_off rt \<and> (looks \<or> res = None)"
proof -
  obtain x rt1 where s: "start (lb_host lb) (lb_clock lb) (validator_runtime lb name a) = (x, rt1)" by (meson surj_pair)
  show ?thesis
  proof (cases x)
    case (Some e)
    with assms s have "res = Some e" "rt1 = rt" by (simp_all add: serve_with_def)
    with s Some show ?thesis by simp
  next
    case None
    obtain i where ready: "lab_ready i rt1" using validator_started s None by blast
    obtain y rt2 where y: "serve lb looks n 0 rt1 = (y, rt2)" by (meson surj_pair)
    from serve_running [OF ready y] stop_runs [of rt2 "lb_fin lb"] obtain rt3 where
      "stop (lb_fin lb) rt2 = (None, rt3)" "status rt3 = STOPPED" "services_off rt3" "looks \<or> y = None" by auto
    with assms s None y show ?thesis by (auto simp: serve_with_def)
  qed
qed

lemma validators_stop:
  "run_source_4 lb a = (res4, rt4) \<Longrightarrow> case res4 of
      Inl e \<Rightarrow> start (lb_host lb) (lb_clock lb) (validator_runtime lb ''machine-a-source'' a) = (Some e, rt4)
    | Inr ev \<Rightarrow> status rt4 = STOPPED \<and> services_off rt4"
  "run_source_7 lb a = (res7, rt7) \<Longrightarrow> case res7 of
      Inl e \<Rightarrow> start (lb_host lb) (lb_clock lb) (validator_runtime lb ''machine-a-source-s17.7'' a) = (Some e, rt7)
    | Inr ev \<Rightarrow> status rt7 = STOPPED \<and> services_off rt7"
proof -
  have k4: "keeps_running (probe_4 lb a)" unfolding keeps_running_def using probe_4_repeats by blast
  show "run_source_4 lb a = (res4, rt4) \<Longrightarrow> case res4 of
      Inl e \<Rightarrow> start (lb_host lb) (lb_clock lb) (validator_runtime lb ''machine-a-source'' a) = (Some e, rt4)
    | Inr ev \<Rightarrow> status rt4 = STOPPED \<and> services_off rt4"
    unfolding run_source_4_def by (drule validate_with_ends [OF _ k4]) (auto simp: ran_probe_def split: sum.splits)
  have k7: "keeps_running (probe_7 lb a)" unfolding keeps_running_def using probe_7_running by blast
  show "run_source_7 lb a = (res7, rt7) \<Longrightarrow> case res7 of
      Inl e \<Rightarrow> start (lb_host lb) (lb_clock lb) (validator_runtime lb ''machine-a-source-s17.7'' a) = (Some e, rt7)
    | Inr ev \<Rightarrow> status rt7 = STOPPED \<and> services_off rt7"
    unfolding run_source_7_def by (drule validate_with_ends [OF _ k7]) (auto simp: ran_probe_def split: sum.splits)
qed

subsection \<open>A proof on one machine\<close>

text \<open>
  Both gateways of the node are up and its own Zarya offers \<open>zarya.work.continue\<close>; another node announces itself without any
  service in the first round. The verdict is \<open>verified\<close>, and the work was continued on the node itself.
\<close>

definition proof_zarya :: "string \<Rightarrow> zarya_client" where
  "proof_zarya url = (remote_client url)\<lparr>zcl_get_capabilities := Inr \<lparr>zcr_protocol = ''eip-1.0'',
     zcr_capabilities = [\<lparr>ze_id = ''work.continue'', ze_version = ''1.0'', ze_description = [],
       ze_operations = [], ze_input_schema = None, ze_output_schema = None\<rparr>],
     zcr_allowed_tools = []\<rparr>\<rparr>"

definition proof_flux :: flux_client where
  "proof_flux = silent_flux_client\<lparr>fc_get_identity := Inr \<lparr>fi_peer_id = ''f1'', fi_version = ''1.0'', fi_protocol_version = ''1''\<rparr>,
     fc_get_status := Inr \<lparr>fst_state = FLUX_LISTENING, fst_peer_id = ''f1'', fst_discovered_peer_count = 0,
       fst_active_path_count = 0, fst_active_transfer_count = 0\<rparr>, fc_get_peers := Inr []\<rparr>"

definition peer_datagram :: datagram where
  "peer_datagram = Json_Payload (PDict [(''node_id'', PStr (uuid_str 7)), (''node_name'', PStr ''b''), (''port'', PInt 54322)])"

definition proof_lab :: "string lab" where
  "proof_lab = \<lparr>lb_host = quiet_host\<lparr>ho_zarya := proof_zarya ''own'', ho_flux := proof_flux\<rparr>, lb_at = remote_client,
     lb_clock = int, lb_tick = (\<lambda>k. 20 + int k), lb_now = 100, lb_fin = 101,
     lb_turns = (\<lambda>k. if k = 0 then [Receives ''10.0.0.2'' peer_datagram,
       Takes_In (\<lambda>v. case v of PInt i \<Rightarrow> Some i | _ \<Rightarrow> None) 20 0] else []),
     lb_cids = (\<lambda>k. if k = 0 then ''c0'' else ''c1''), lb_runtime_id = ''r'', lb_data_dir = ''/tmp'', lb_write_error = None,
     lb_sha256 = (\<lambda>s. ''hash''), lb_stamp = ''now'', lb_isoformat = ''now''\<rparr>"

definition proof_args :: validator_args where
  "proof_args = \<lparr>va_port = 54322, va_target_ip = Some ''10.0.0.2'', va_zarya_url = ''http://z'', va_flux_url = ''http://f''\<rparr>"

lemma proof_run:
  "case run_source_9 proof_lab proof_args of (res, rt) \<Rightarrow> (case res of Inl e \<Rightarrow> False
     | Inr ev \<Rightarrow> se_verified ev \<and> ev_target ev = Some (uuid_str 7) \<and> ev_source ev \<noteq> uuid_str 7
         \<and> map_option (map_option tg_node_id \<circ> cn_target) (ev_continuity ev) = Some (Some (ev_source ev)))"
  by code_simp

theorem surface_validator_verdict_witness:
  "\<exists>ev rt (i :: node_identity) j (t :: continuity_target). run_source_9 proof_lab proof_args = (Inr ev, rt) \<and> status rt = STOPPED \<and> se_verified ev
     \<and> ev_source ev = ni_node_id i \<and> ev_target ev = Some j \<and> trusted_in (ts_records (rn_trust rt)) j \<and> tg_node_id t = ni_node_id i \<and> ni_node_id i \<noteq> j"
proof -
  obtain res rt where run: "run_source_9 proof_lab proof_args = (res, rt)" by (meson surj_pair)
  with proof_run obtain ev where ev: "res = Inr ev" "se_verified ev" "ev_target ev = Some (uuid_str 7)" "ev_source ev \<noteq> uuid_str 7"
    "map_option (map_option tg_node_id \<circ> cn_target) (ev_continuity ev) = Some (Some (ev_source ev))" by (auto split: sum.splits)
  from surface_validator_verdict [OF run] ev(2) obtain i :: node_identity and j and s :: continuity_session and t :: continuity_target where out: "status rt = STOPPED" "ev_source ev = ni_node_id i"
    "ev_target ev = Some j" "trusted_in (ts_records (rn_trust rt)) j" and s: "ev_continuity ev = Some s" "verified_on proof_lab rt s t"
    unfolding ev(1) sum.case by blast
  then have "cn_target s = Some t" by (simp add: verified_on_def)
  with ev s(1) out have "tg_node_id t = ni_node_id i" "ni_node_id i \<noteq> j" by simp_all
  with run ev(1,2) out show ?thesis by blast
qed

text \<open>A started node that knows of a peer with an execution service.\<close>

definition lab_runtime :: "string runtime" where
  "lab_runtime = ready_runtime\<lparr>rn_state := (rn_state ready_runtime)\<lparr>rs_status := RUNNING\<rparr>\<rparr>"

lemma lab_runtime_ready: "lab_ready owner_1 lab_runtime"
proof -
  have "runtime_reachable lab_runtime"
    by (rule runtime_reachable.steps [OF created [of quiet_settings "''r''" 0 new_id_disk empty_disk]], rule other)
      (simp add: same_view_def lab_runtime_def ready_runtime_def)
  then show ?thesis by (simp add: lab_ready_def lab_runtime_def ready_runtime_def node_of_def)
qed

definition peer_lab :: "string lab" where
  "peer_lab = proof_lab\<lparr>lb_host := quiet_host, lb_turns := (\<lambda>k. [Takes_In (\<lambda>v. case v of PInt i \<Rightarrow> Some i | _ \<Rightarrow> None) 20 0])\<rparr>"

definition peer_args :: validator_args where
  "peer_args = proof_args\<lparr>va_target_ip := None\<rparr>"

lemma peer_probes:
  "case probe_7 peer_lab peer_args (first_7 lab_runtime) lab_runtime of (raised, ev, rt) \<Rightarrow>
     se_verified ev \<and> ev_target ev = Some ''peer''"
  "case probe_4 peer_lab peer_args (first_4 lab_runtime) lab_runtime of (raised, ev, rt) \<Rightarrow>
     ev_continuity ev \<noteq> None"
  by code_simp+

theorem validators_agree_witness:
  "\<exists>raised out rt. probe_9 peer_lab peer_args (first_9 lab_runtime) lab_runtime = (raised, out, rt) \<and> se_verified out
     \<and> ev_target out = Some ''peer'' \<and> e9_hash_matched out"
proof -
  obtain r7 e7 rt7 where p7: "probe_7 peer_lab peer_args (first_7 lab_runtime) lab_runtime = (r7, e7, rt7)" by (meson prod_cases3)
  obtain r9 e9 rt9 where p9: "probe_9 peer_lab peer_args (first_9 lab_runtime) lab_runtime = (r9, e9, rt9)" by (meson prod_cases3)
  have "\<not> se_verified (first_7 lab_runtime)" "\<not> se_verified (first_9 lab_runtime)"
    "ev_errors (first_9 lab_runtime) = ev_errors (first_7 lab_runtime)" by (simp_all add: first_7_def first_9_def)
  from validators_agree [OF lab_runtime_ready this p7 p9] peer_probes(1) p7 p9 show ?thesis by auto
qed

theorem duplicate_check_repeats_witness:
  "\<exists>raised ev rt v s s2. probe_4 peer_lab peer_args (first_4 lab_runtime) lab_runtime = (raised, ev, rt)
     \<and> raised = None \<and> co_sessions v = [(''c0'', s), (''c1'', s2)] \<and> rn_continuity rt = Some v \<and> cn_request s2 = cn_request s"
proof -
  obtain r e rt where p: "probe_4 peer_lab peer_args (first_4 lab_runtime) lab_runtime = (r, e, rt)" by (meson prod_cases3)
  with peer_probes(2) obtain s where s: "ev_continuity e = Some s" by auto
  have "lb_cids peer_lab 0 = ''c0''" "lb_cids peer_lab 1 = ''c1''" by (simp_all add: peer_lab_def proof_lab_def)
  with duplicate_check_repeats [OF lab_runtime_ready p s] p s show ?thesis by auto
qed

text \<open>
  The node that announces itself offers a service as well: although the node's own Zarya is usable, the found node is
  preferred; the Flux gateway carries its file over, and the first validator passes with it as the target.
\<close>

definition carrying_flux :: flux_client where
  "carrying_flux = proof_flux\<lparr>fc_initiate_transfer := (\<lambda>_ _ _ _. Inr \<lparr>ftr_transfer_id = ''t1'', ftr_status = TRANSFER_COMPLETED\<rparr>)\<rparr>"

definition transfer_lab :: "string lab" where
  "transfer_lab = proof_lab\<lparr>lb_host := quiet_host\<lparr>ho_zarya := proof_zarya ''own'', ho_flux := carrying_flux\<rparr>,
     lb_turns := (\<lambda>k. if k = 0 then [Receives ''10.0.0.2'' (Json_Payload (PDict
       [(''node_id'', PStr (uuid_str 7)), (''node_name'', PStr ''b''), (''port'', PInt 54322),
        (''metadata'', PDict [(''zarya_url'', PStr ''http://b'')])])),
     Takes_In (\<lambda>v. case v of PInt i \<Rightarrow> Some i | _ \<Rightarrow> None) 20 0] else [])\<rparr>"

lemma transfer_run:
  "case run_source_3 transfer_lab proof_args of (res, rt) \<Rightarrow> (case res of Inl e \<Rightarrow> False
     | Inr ev \<Rightarrow> e3_continuation_pass ev \<and> ev_target ev = Some (uuid_str 7) \<and> ev_source ev \<noteq> uuid_str 7
         \<and> list_ex (\<lambda>c. eligible (default_constraints\<lparr>nk_preferred_node := Some (uuid_str 7)\<rparr>) c \<and> nc_node_id c = uuid_str 7)
             (work_candidates transfer_lab rt)
         \<and> list_ex (\<lambda>c. eligible (default_constraints\<lparr>nk_preferred_node := Some (uuid_str 7)\<rparr>) c \<and> nc_is_local c)
             (work_candidates transfer_lab rt))"
  by code_simp

theorem transfer_validator_verdict_witness:
  "\<exists>ev rt j (s :: continuity_session) (t :: continuity_target). run_source_3 transfer_lab proof_args = (Inr ev, rt)
     \<and> e3_continuation_pass ev \<and> ev_errors ev = [] \<and> status rt = STOPPED \<and> ev_target ev = Some j \<and> j = uuid_str 7
     \<and> trusted_in (ts_records (rn_trust rt)) j \<and> ev_continuity ev = Some s \<and> cn_state s = C_COMPLETED
     \<and> cn_target s = Some t \<and> tg_node_id t = j \<and> j \<noteq> ev_source ev"
proof -
  obtain res rt where run: "run_source_3 transfer_lab proof_args = (res, rt)" by (meson surj_pair)
  with transfer_run obtain ev where ev: "res = Inr ev" "e3_continuation_pass ev" "ev_target ev = Some (uuid_str 7)"
      "ev_source ev \<noteq> uuid_str 7"
    and usable: "list_ex (\<lambda>c. eligible (default_constraints\<lparr>nk_preferred_node := Some (uuid_str 7)\<rparr>) c \<and> nc_node_id c = uuid_str 7)
      (work_candidates transfer_lab rt)" by (auto split: sum.splits)
  from transfer_validator_verdict [OF run] ev(2) obtain i :: node_identity and j and s :: continuity_session and t :: continuity_target
    where out: "status rt = STOPPED" "ev_errors ev = []" "ev_target ev = Some j" "trusted_in (ts_records (rn_trust rt)) j"
      "ev_continuity ev = Some s" "copies_to (ni_node_id i) j (cn_request s)" "verified_on transfer_lab rt s t"
      and choice: "(\<exists>c \<in> set (work_candidates transfer_lab rt). eligible (cq_target_constraints (cn_request s)) c \<and> nc_node_id c = j)
        \<longrightarrow> tg_node_id t = j"
    unfolding ev(1) sum.case by blast
  have j: "j = uuid_str 7" using out(3) ev(3) by simp
  have "cq_target_constraints (cn_request s) = default_constraints\<lparr>nk_preferred_node := Some j\<rparr>"
    using out(6) by (simp add: copies_to_def)
  with usable choice j have "tg_node_id t = j" unfolding list_ex_iff by auto
  moreover have "cn_state s = C_COMPLETED" "cn_target s = Some t" using out(7) by (simp_all add: verified_on_def)
  ultimately show ?thesis using run ev out(1-5) j by auto
qed

end
