(* ===== verification/Spec2Isabelle.thy ===== *)
theory Spec2Isabelle
  imports Shyam_Event_Bus Shyam_Executors Shyam_Composite Shyam_Trust Shyam_Identity Shyam_Sync Shyam_Continuity
    Shyam_Context Shyam_Discovery Shyam_Bootstrap Shyam_Readiness Shyam_App Shyam_Validators
begin

text \<open>
  Verification of the Shyam node runtime, the Python package \<open>src/src/shyam\<close>, and of its validators under \<open>src/tools\<close>.

  A node finds other nodes, their providers and the capabilities they offer, chooses a target for a
  requested capability, runs workflows and composite capabilities on targets, and continues a piece of work on
  another trusted node. Paths below are relative to the package, those of the validators to \<open>src\<close>.

  \<^bold>\<open>The parts and their theories.\<close> A state class is a \<open>record\<close>, an enum a \<open>datatype\<close>, an operation a function that
  returns the new state with the events it publishes, in their order. An operation that may raise returns \<open>exn + 'a\<close>; exception
  classes and their hierarchy are in the prelude. Python dictionaries are association lists in insertion order, integers
  are \<open>int\<close>, times are \<open>int\<close> microseconds, dynamic JSON values are the type \<open>pyval\<close>.

  \<^item> \<open>Shyam_Prelude\<close>, \<open>Shyam_Values\<close>, \<open>Shyam_Json\<close>, \<open>Shyam_Store\<close>: exceptions, dictionaries, strings, the text of
    Python values, the canonical JSON bytes, and the locale of a keyed store with its laws.
  \<^item> \<open>Shyam_Lifecycle\<close>: \<open>core/lifecycle.py\<close>, \<open>core/state.py\<close>; the locale \<open>lifecycle_map\<close> of ranked transition maps, which
    the maps of workflows, continuity and bootstrap interpret too.
  \<^item> \<open>Shyam_Event_Bus\<close>: \<open>events/\<close>. \<open>Shyam_Capabilities\<close>: \<open>capabilities/\<close>. \<open>Shyam_Providers\<close>: \<open>providers/\<close> with the local
    fabric and file provider. \<open>Shyam_Gateway\<close>, \<open>Shyam_Flux\<close>, \<open>Shyam_Zarya\<close>: the two gateways, \<open>providers/flux/\<close> and
    \<open>providers/zarya/\<close>.
  \<^item> \<open>Shyam_Ecosystem\<close>: \<open>discovery/\<close>, the node registry and the discovery of local, Flux and UDP nodes.
    \<open>Shyam_Discovery\<close>: \<open>discovery/service.py\<close>, the UDP announcements.
  \<^item> \<open>Shyam_Navigation\<close>: \<open>navigation/\<close>, the choice of a target; the locale \<open>navigator\<close> is what its clients rely on.
  \<^item> \<open>Shyam_Workflow\<close>, \<open>Shyam_Executors\<close>, \<open>Shyam_Composite\<close>: \<open>workflow/\<close> and \<open>composite/\<close>. The engine passes the world \<open>'w\<close>
    of its navigator, executors and event handlers through.
  \<^item> \<open>Shyam_Identity\<close>, \<open>Shyam_Trust\<close>, \<open>Shyam_Sync\<close>, \<open>Shyam_Canonical\<close>, \<open>Shyam_Bootstrap\<close>: \<open>identity/\<close>, \<open>trust/\<close>, \<open>sync/\<close> and
    \<open>bootstrap/\<close>; the files are records of what they hold and of the errors of writing them.
  \<^item> \<open>Shyam_Continuity\<close>: \<open>continuity/\<close>, the pipeline of an attempt and the interleaving of attempts.
  \<^item> \<open>Shyam_Context\<close>, \<open>Shyam_Readiness\<close>: \<open>context/\<close> and \<open>core/readiness.py\<close>.
  \<^item> \<open>Shyam_Runtime\<close>, \<open>Shyam_Node\<close>, \<open>Shyam_Targets\<close>: \<open>core/runtime.py\<close> and \<open>core/config.py\<close>: the runtime composes all of the above;
    what a start leaves; the states a runtime can reach and where its work can run.
  \<^item> \<open>Shyam_Tasks\<close>: the turns of the event loop of a node (datagrams, announcements, reaping, polls) as a function, for the programs
    that wait; they are steps of \<open>runtime_step\<close>.
  \<^item> \<open>Shyam_Surface\<close>, \<open>Shyam_Interface\<close>, \<open>Shyam_App\<close>: \<open>surface/\<close>; \<open>cli.py\<close> and \<open>ui/window.py\<close>; \<open>ui/app.py\<close> and \<open>core/logging.py\<close>.
  \<^item> \<open>Shyam_Validators\<close>: \<open>tools/s17_3_physical_validator.py\<close>, \<open>s17_4_physical_validator.py\<close>, \<open>s17_7_surface_validator.py\<close> and
    \<open>s17_9_1_physical_validator.py\<close>, the programs that run a node as source or target of a two-machine trial.

  \<^bold>\<open>What the lemmas show.\<close> For each part: the outcome of its operations on every branch, errors included; invariants
  of its state over all sequences or interleavings of operations; and refinement or equivalence with a
  specification where there is one: the state transition maps with the ranked order, navigation with the minimum of the
  eligible candidates, readiness with the aggregate of the components, trust with the last decision, version
  vectors with the pointwise order, the context with a replay of its events. Across parts: a node that started has what its
  services need (\<open>Shyam_Node\<close>); whatever a runtime goes through, only steps on the local file provider can complete
  (\<open>Shyam_Targets\<close>); the surface reports success only when the session's target is a trusted node and the service at the address announced for it,
  or the own gateway where none is, replied with a verified success, however its requests interleave (\<open>Shyam_Surface\<close>); a run for one command, which waits for no other node, continues work on the node itself or on
  one announced during its start (\<open>Shyam_Interface\<close>); a window that is shown has a running runtime behind it (\<open>Shyam_App\<close>); and what
  the verdicts of the validators rest on, and what they do not show (\<open>Shyam_Validators\<close>).

  \<^bold>\<open>Bounds and fuel.\<close> All loops are structural recursions. The stage machine of continuity runs at most seven stages, which
  is the fuel of \<open>c_run\<close>: each stage lowers \<open>stages_left\<close>, which is at most seven, and \<open>run_pipeline\<close> is shown to be that run.
  The clock of \<open>start\<close> is read once by each of its steps, with the numbers 0 to 11; the programs read it from 12 on. The
  validators look around for 20 or 30 rounds, the numbers of their sources.

  \<^bold>\<open>What is an argument.\<close> HTTP servers and the validators of their wire models, Ed25519, the parsing of UUIDs and
  time stamps, the file system of the file executor, sockets and the clock are functions that the operations take. The laws
  that theorems need of them (a signature verifies under its own key, a written time stamp is read back, a stored
  text is returned) are hypotheses, each with a witness on a concrete function.

  \<^bold>\<open>Concurrency.\<close> Code that awaits is modelled as one step where nothing else can change what it has read, and otherwise as a
  step relation: UDP tasks, attempts of continuity, requests of the surface, the operations of a runtime, of which its start
  is one: announcements that arrive while it awaits the gateways are taken in after it, as turns of the event loop before
  the program goes on. While a program waits, for a line, for a round or for the end, any list of turns is taken. The two threads of the
  window application take their steps in any order. A change of readiness and the surface's handler of its event are one step: between
  the two the code still shows the old state. Handlers of one publication run in the order in which the bus starts them.

  \<^bold>\<open>Not modelled.\<close> The text and the format of log messages; the argument parsers and signal handlers, \<open>__main__.py\<close>; widgets
  and layout of the window; the cancellation of a suspended request when the program ends; of the validators, the constant entries of
  the evidence and the writing of the report. Strings are lists of 8-bit characters: texts with other characters are
  constructors, and case conversion is that of ASCII. The backups under \<open>docs/\<close>, which are older copies of
  the Flux provider, and the tests are not part of the program.
\<close>

end
